(* ===== verification/Prelude.thy ===== *)
theory Prelude
  imports
    Main
    "HOL-Library.Word"
    "HOL-Library.Char_ord"
    "HOL-Library.List_Lexorder"
    "HOL-Library.Product_Lexorder"
    "HOL-Library.Multiset"
begin

text \<open>
  The Rust vocabulary every component shares.

  \<^item> \<open>String\<close> and \<open>&str\<close> are their UTF-8 byte sequence: a \<open>char\<close> of HOL is one byte, so
    \<open>len()\<close> is \<^term>\<open>length\<close>, \<open>bytes()\<close> is the list itself, \<open>chars().count()\<close> counts the
    bytes that start a scalar value, and the order of \<open>str\<close> (bytewise, lexicographic) is the order
    of HOL-Library.List_Lexorder on \<open>char list\<close>.
  \<^item> \<open>u64\<close> and \<open>u16\<close> are machine words; \<open>usize\<close> counters over in-memory collections are \<open>nat\<close>.
  \<^item> \<open>Result<T, E>\<close> is \<open>E + T\<close> (\<open>Inl\<close> is \<open>Err\<close>), \<open>Option<T>\<close> is \<open>T option\<close>.
  \<^item> \<open>BTreeMap<K, V>\<close> is a list of pairs with strictly ascending keys (its iteration order); the
    laws its clients rely on are the locale \<open>ordered_map\<close>, interpreted below. \<open>BTreeSet<T>\<close>, of
    which the sources only use membership, insertion and size, is \<open>T set\<close>.
\<close>

named_theorems btree \<open>facts on ordered maps that carry the component proofs\<close>
named_theorems rust_text \<open>facts on bounded, trimmed and numeric text\<close>

type_synonym u64 = "64 word"
type_synonym u16 = "16 word"
type_synonym u32 = "32 word"
type_synonym ('k, 'v) btree_map = "('k \<times> 'v) list"


section \<open>Definitions\<close>

subsection \<open>Text\<close>

definition is_continuation :: "char \<Rightarrow> bool" where
  "is_continuation c \<longleftrightarrow> 128 \<le> (of_char c :: nat) \<and> (of_char c :: nat) < 192"

definition chars_count :: "string \<Rightarrow> nat" where
  "chars_count s = length (filter (\<lambda>c. \<not> is_continuation c) s)"

text \<open>The first \<open>n\<close> scalar values of a string (\<open>chars().take(n).collect()\<close>).\<close>

fun chars_take :: "nat \<Rightarrow> string \<Rightarrow> string" where
  "chars_take n [] = []"
| "chars_take n (c # cs) =
     (if is_continuation c then c # chars_take n cs
      else case n of 0 \<Rightarrow> [] | Suc m \<Rightarrow> c # chars_take m cs)"

text \<open>The UTF-8 encodings of the scalar values with the property White\_Space.\<close>

definition white_space :: "string list" where
  "white_space =
     [[CHR 0x09], [CHR 0x0A], [CHR 0x0B], [CHR 0x0C], [CHR 0x0D], [CHR 0x20],
      [CHR 0xC2, CHR 0x85], [CHR 0xC2, CHR 0xA0], [CHR 0xE1, CHR 0x9A, CHR 0x80],
      [CHR 0xE2, CHR 0x80, CHR 0x80], [CHR 0xE2, CHR 0x80, CHR 0x81],
      [CHR 0xE2, CHR 0x80, CHR 0x82], [CHR 0xE2, CHR 0x80, CHR 0x83],
      [CHR 0xE2, CHR 0x80, CHR 0x84], [CHR 0xE2, CHR 0x80, CHR 0x85],
      [CHR 0xE2, CHR 0x80, CHR 0x86], [CHR 0xE2, CHR 0x80, CHR 0x87],
      [CHR 0xE2, CHR 0x80, CHR 0x88], [CHR 0xE2, CHR 0x80, CHR 0x89],
      [CHR 0xE2, CHR 0x80, CHR 0x8A], [CHR 0xE2, CHR 0x80, CHR 0xA8],
      [CHR 0xE2, CHR 0x80, CHR 0xA9], [CHR 0xE2, CHR 0x80, CHR 0xAF],
      [CHR 0xE2, CHR 0x81, CHR 0x9F], [CHR 0xE3, CHR 0x80, CHR 0x80]]"

fun starts_with :: "string \<Rightarrow> string \<Rightarrow> bool" where
  "starts_with s [] = True"
| "starts_with [] (p # ps) = False"
| "starts_with (c # cs) (p # ps) = (c = p \<and> starts_with cs ps)"

text \<open>One leading occurrence of a pattern of the list is removed, if there is one.\<close>

fun strip_one :: "string list \<Rightarrow> string \<Rightarrow> string option" where
  "strip_one [] s = None"
| "strip_one (e # es) s =
     (if e \<noteq> [] \<and> starts_with s e then Some (drop (length e) s) else strip_one es s)"

lemma starts_with_length: "starts_with s p \<Longrightarrow> length p \<le> length s"
  by (induction s p rule: starts_with.induct) auto

lemma strip_one_shorter: "strip_one es s = Some r \<Longrightarrow> length r < length s"
proof (induction es)
  case (Cons e es)
  then show ?case
    using starts_with_length [of s e] by (cases e) (auto split: if_splits)
qed simp

function strip_all :: "string list \<Rightarrow> string \<Rightarrow> string" where
  "strip_all es s = (case strip_one es s of None \<Rightarrow> s | Some r \<Rightarrow> strip_all es r)"
  by pat_completeness auto
termination
  by (relation "measure (\<lambda>(es, s). length s)") (auto dest: strip_one_shorter)

definition trim_start :: "string \<Rightarrow> string" where
  "trim_start s = strip_all white_space s"

definition trim_end :: "string \<Rightarrow> string" where
  "trim_end s = rev (strip_all (map rev white_space) (rev s))"

definition trim :: "string \<Rightarrow> string" where
  "trim s = trim_end (trim_start s)"

definition is_graphic :: "char \<Rightarrow> bool" where
  "is_graphic c \<longleftrightarrow> 33 \<le> (of_char c :: nat) \<and> (of_char c :: nat) \<le> 126"

definition is_ascii_digit :: "char \<Rightarrow> bool" where
  "is_ascii_digit c \<longleftrightarrow> 48 \<le> (of_char c :: nat) \<and> (of_char c :: nat) \<le> 57"

definition is_ascii_alphanumeric :: "char \<Rightarrow> bool" where
  "is_ascii_alphanumeric c \<longleftrightarrow>
     is_ascii_digit c
     \<or> (65 \<le> (of_char c :: nat) \<and> (of_char c :: nat) \<le> 90)
     \<or> (97 \<le> (of_char c :: nat) \<and> (of_char c :: nat) \<le> 122)"

definition is_lower_hex_byte :: "char \<Rightarrow> bool" where
  "is_lower_hex_byte c \<longleftrightarrow>
     is_ascii_digit c \<or> (97 \<le> (of_char c :: nat) \<and> (of_char c :: nat) \<le> 102)"

text \<open>\<open>Display\<close> and \<open>FromStr\<close> of \<open>u64\<close>: parsing accepts one leading plus sign and overflows to an error.\<close>

definition digit_char :: "nat \<Rightarrow> char" where
  "digit_char d = char_of (48 + d)"

fun nat_to_string :: "nat \<Rightarrow> string" where
  "nat_to_string n =
     (if n < 10 then [digit_char n] else nat_to_string (n div 10) @ [digit_char (n mod 10)])"

definition u64_to_string :: "u64 \<Rightarrow> string" where
  "u64_to_string w = nat_to_string (unat w)"

fun parse_digits :: "nat \<Rightarrow> string \<Rightarrow> nat option" where
  "parse_digits acc [] = Some acc"
| "parse_digits acc (c # cs) =
     (if is_ascii_digit c
      then (let acc' = acc * 10 + (of_char c - 48) in
            if acc' < 2 ^ 64 then parse_digits acc' cs else None)
      else None)"

definition parse_u64 :: "string \<Rightarrow> u64 option" where
  "parse_u64 s =
     (case s of
        [] \<Rightarrow> None
      | c # cs \<Rightarrow>
          if c = CHR ''+''
          then (if cs = [] then None else map_option of_nat (parse_digits 0 cs))
          else map_option of_nat (parse_digits 0 (c # cs)))"

fun join_with :: "string \<Rightarrow> string list \<Rightarrow> string" where
  "join_with sep [] = []"
| "join_with sep [x] = x"
| "join_with sep (x # y # ys) = x @ sep @ join_with sep (y # ys)"

fun contains_str :: "string \<Rightarrow> string \<Rightarrow> bool" where
  "contains_str [] p = (p = [])"
| "contains_str (c # cs) p = (starts_with (c # cs) p \<or> contains_str cs p)"

subsection \<open>Integers\<close>

definition saturating_add :: "u64 \<Rightarrow> u64 \<Rightarrow> u64" where
  "saturating_add a b = (if unat a + unat b < 2 ^ 64 then a + b else - 1)"

definition saturating_sub :: "u64 \<Rightarrow> u64 \<Rightarrow> u64" where
  "saturating_sub a b = (if a < b then 0 else a - b)"

definition checked_add :: "u64 \<Rightarrow> u64 \<Rightarrow> u64 option" where
  "checked_add a b = (if unat a + unat b < 2 ^ 64 then Some (a + b) else None)"

subsection \<open>Results\<close>

fun bind_result :: "'e + 'a \<Rightarrow> ('a \<Rightarrow> 'e + 'b) \<Rightarrow> 'e + 'b" where
  "bind_result (Inl e) f = Inl e"
| "bind_result (Inr x) f = f x"

fun map_err :: "('e \<Rightarrow> 'f) \<Rightarrow> 'e + 'a \<Rightarrow> 'f + 'a" where
  "map_err f (Inl e) = Inl (f e)"
| "map_err f (Inr x) = Inr x"

text \<open>\<open>Option::ok_or\<close>, \<open>Option::is_some_and\<close>, and \<open>iter().map(f).collect::<Option<Vec<_>>>()\<close>.\<close>

definition ok_or :: "'e \<Rightarrow> 'a option \<Rightarrow> 'e + 'a" where
  "ok_or e x = (case x of None \<Rightarrow> Inl e | Some v \<Rightarrow> Inr v)"

definition is_some_and :: "'a option \<Rightarrow> ('a \<Rightarrow> bool) \<Rightarrow> bool" where
  "is_some_and x p = (case x of None \<Rightarrow> False | Some v \<Rightarrow> p v)"

fun collect_option :: "('a \<Rightarrow> 'b option) \<Rightarrow> 'a list \<Rightarrow> 'b list option" where
  "collect_option f [] = Some []"
| "collect_option f (x # xs) =
     (case f x of
        None \<Rightarrow> None
      | Some y \<Rightarrow> map_option ((#) y) (collect_option f xs))"

subsection \<open>Ordered maps\<close>

definition btree_invar :: "('k::linorder, 'v) btree_map \<Rightarrow> bool" where
  "btree_invar m \<longleftrightarrow> sorted_wrt (<) (map fst m)"

definition btree_get :: "('k::linorder, 'v) btree_map \<Rightarrow> 'k \<Rightarrow> 'v option" where
  "btree_get m k = map_of m k"

fun btree_insert :: "'k::linorder \<Rightarrow> 'v \<Rightarrow> ('k, 'v) btree_map \<Rightarrow> ('k, 'v) btree_map" where
  "btree_insert k v [] = [(k, v)]"
| "btree_insert k v ((k', v') # m) =
     (if k < k' then (k, v) # (k', v') # m
      else if k = k' then (k, v) # m
      else (k', v') # btree_insert k v m)"

fun btree_remove :: "'k::linorder \<Rightarrow> ('k, 'v) btree_map \<Rightarrow> ('k, 'v) btree_map" where
  "btree_remove k [] = []"
| "btree_remove k ((k', v') # m) = (if k = k' then m else (k', v') # btree_remove k m)"

definition btree_keys :: "('k, 'v) btree_map \<Rightarrow> 'k list" where
  "btree_keys m = map fst m"

definition btree_contains :: "('k::linorder, 'v) btree_map \<Rightarrow> 'k \<Rightarrow> bool" where
  "btree_contains m k \<longleftrightarrow> btree_get m k \<noteq> None"

text \<open>\<open>entry(k).or_default().push(v)\<close> on a map of vectors.\<close>

definition btree_push :: "'k::linorder \<Rightarrow> 'v \<Rightarrow> ('k, 'v list) btree_map \<Rightarrow> ('k, 'v list) btree_map" where
  "btree_push k v m =
     btree_insert k ((case btree_get m k of None \<Rightarrow> [] | Some vs \<Rightarrow> vs) @ [v]) m"

subsection \<open>Iterators and sorting\<close>

text \<open>\<open>Iterator::max_by\<close> on a key: of several greatest elements the last one is returned.\<close>

fun max_by_from :: "('a \<Rightarrow> 'k::linorder) \<Rightarrow> 'a \<Rightarrow> 'a list \<Rightarrow> 'a" where
  "max_by_from key best [] = best"
| "max_by_from key best (x # xs) =
     max_by_from key (if key best \<le> key x then x else best) xs"

fun max_by :: "('a \<Rightarrow> 'k::linorder) \<Rightarrow> 'a list \<Rightarrow> 'a option" where
  "max_by key [] = None"
| "max_by key (x # xs) = Some (max_by_from key x xs)"

text \<open>\<open>slice::sort_by\<close>: a stable sort, here by insertion.\<close>

fun insert_by :: "('a \<Rightarrow> 'a \<Rightarrow> bool) \<Rightarrow> 'a \<Rightarrow> 'a list \<Rightarrow> 'a list" where
  "insert_by le x [] = [x]"
| "insert_by le x (y # ys) = (if le x y then x # y # ys else y # insert_by le x ys)"

fun sort_by :: "('a \<Rightarrow> 'a \<Rightarrow> bool) \<Rightarrow> 'a list \<Rightarrow> 'a list" where
  "sort_by le [] = []"
| "sort_by le (x # xs) = insert_by le x (sort_by le xs)"


declare strip_all.simps [simp del]
declare nat_to_string.simps [simp del]


section \<open>Text facts\<close>

lemma starts_with_iff: "starts_with s p \<longleftrightarrow> (\<exists>r. s = p @ r)"
  by (induction s p rule: starts_with.induct) auto

lemma starts_with_append [simp]: "starts_with (p @ r) p"
  by (simp add: starts_with_iff)

lemma starts_with_trans: "starts_with s t \<Longrightarrow> starts_with t p \<Longrightarrow> starts_with s p"
  by (auto simp: starts_with_iff)

lemma strip_one_None_iff:
  "strip_one es s = None \<longleftrightarrow> (\<forall>e \<in> set es. e \<noteq> [] \<longrightarrow> \<not> starts_with s e)"
  by (induction es) auto

lemma strip_one_Some: "strip_one es s = Some r \<Longrightarrow> \<exists>e \<in> set es. e \<noteq> [] \<and> s = e @ r"
  by (induction es) (auto simp: starts_with_iff split: if_splits)

lemma strip_all_suffix: "\<exists>p. s = p @ strip_all es s"
proof (induction es s rule: strip_all.induct)
  case (1 es s)
  show ?case
  proof (cases "strip_one es s")
    case None
    then show ?thesis by (subst strip_all.simps) simp
  next
    case (Some r)
    then obtain e where "s = e @ r" using strip_one_Some by blast
    moreover obtain p where "r = p @ strip_all es r" using "1.IH" [OF Some] by blast
    ultimately show ?thesis
      using Some by (subst strip_all.simps) (metis append_assoc option.simps(5))
  qed
qed

lemma strip_all_stable: "strip_one es (strip_all es s) = None"
proof (induction es s rule: strip_all.induct)
  case (1 es s)
  then show ?case
    by (cases "strip_one es s") (simp_all add: strip_all.simps [of es s])
qed

lemma strip_all_fixed: "strip_one es s = None \<Longrightarrow> strip_all es s = s"
  by (simp add: strip_all.simps [of es s])

lemma append_barrier:
  "u @ c # v = e @ r \<Longrightarrow> c \<notin> set e \<Longrightarrow> \<exists>u'. r = u' @ c # v"
  by (induction u arbitrary: e) (auto simp: Cons_eq_append_conv)

lemma strip_all_barrier:
  assumes "\<forall>e \<in> set es. c \<notin> set e"
  shows "\<exists>u'. strip_all es (u @ c # v) = u' @ c # v"
proof (induction "length u" arbitrary: u rule: less_induct)
  case less
  show ?case
  proof (cases "strip_one es (u @ c # v)")
    case None
    then show ?thesis by (simp add: strip_all_fixed)
  next
    case (Some r)
    then obtain e where e: "e \<in> set es" "e \<noteq> []" "u @ c # v = e @ r"
      using strip_one_Some by blast
    then obtain u' where u': "r = u' @ c # v" using append_barrier assms by metis
    with strip_one_shorter [OF Some] have "length u' < length u" by simp
    then have "\<exists>w. strip_all es r = w @ c # v" unfolding u' by (rule less)
    with Some show ?thesis by (simp add: strip_all.simps [of es "u @ c # v"])
  qed
qed

lemma trim_end_prefix: "\<exists>r. s = trim_end s @ r"
proof -
  obtain p where "rev s = p @ strip_all (map rev white_space) (rev s)"
    using strip_all_suffix by blast
  then have "s = trim_end s @ rev p"
    unfolding trim_end_def by (metis rev_append rev_rev_ident)
  then show ?thesis by blast
qed

lemma trim_end_idem [simp]: "trim_end (trim_end s) = trim_end s"
  by (simp add: trim_end_def strip_all_fixed [OF strip_all_stable])

lemma trim_start_trim: "trim_start (trim s) = trim s"
proof -
  have "strip_one white_space (trim s) = None"
  proof (rule ccontr)
    assume "strip_one white_space (trim s) \<noteq> None"
    then obtain e where e: "e \<in> set white_space" "e \<noteq> []" "starts_with (trim s) e"
      by (auto simp: strip_one_None_iff simp del: not_None_eq)
    obtain r where "trim_start s = trim s @ r"
      using trim_end_prefix [of "trim_start s"] by (auto simp: trim_def)
    then have "starts_with (trim_start s) e"
      using e(3) by (metis starts_with_append starts_with_trans)
    with e(1,2) have "strip_one white_space (trim_start s) \<noteq> None"
      by (auto simp: strip_one_None_iff simp del: not_None_eq)
    then show False by (simp add: trim_start_def strip_all_stable)
  qed
  then show ?thesis by (simp add: trim_start_def strip_all_fixed)
qed

lemma trim_idem [simp]: "trim (trim s) = trim s"
  using trim_start_trim [of s] by (metis trim_def trim_end_idem)

lemma trim_Nil [simp]: "trim [] = []"
  by (simp add: trim_def trim_start_def trim_end_def white_space_def strip_all.simps)

lemma trim_infix: "\<exists>p r. s = p @ trim s @ r"
proof -
  obtain p where p: "s = p @ trim_start s"
    using strip_all_suffix unfolding trim_start_def by blast
  obtain r where "trim_start s = trim s @ r"
    using trim_end_prefix unfolding trim_def by blast
  with p show ?thesis by metis
qed

lemma white_space_no_graphic: "e \<in> set white_space \<Longrightarrow> c \<in> set e \<Longrightarrow> \<not> is_graphic c"
  by (auto simp: white_space_def is_graphic_def)

lemma strip_all_graphic:
  assumes "is_graphic c" and "\<forall>e \<in> set es. \<forall>d \<in> set e. \<not> is_graphic d"
  shows "strip_all es (c # s) = c # s"
proof (rule strip_all_fixed)
  show "strip_one es (c # s) = None"
    using assms by (auto simp: strip_one_None_iff starts_with_iff Cons_eq_append_conv)
qed

lemma trim_graphic:
  assumes "s \<noteq> []" and "is_graphic (hd s)" and "is_graphic (last s)"
  shows "trim s = s"
proof -
  have "trim_start s = s"
    using assms strip_all_graphic [of "hd s" white_space "tl s"] white_space_no_graphic
    by (auto simp: trim_start_def)
  moreover have "strip_all (map rev white_space) (rev s) = rev s"
  proof -
    have r: "rev s = last s # rev (butlast s)" using assms(1) by (cases s rule: rev_cases) simp_all
    have g: "\<forall>e \<in> set (map rev white_space). \<forall>d \<in> set e. \<not> is_graphic d"
      using white_space_no_graphic by auto
    show ?thesis unfolding r by (rule strip_all_graphic [OF assms(3) g])
  qed
  ultimately show ?thesis by (simp add: trim_def trim_end_def)
qed

lemma length_trim: "length (trim s) \<le> length s"
  using trim_infix [of s] by (metis add_leD1 le_add2 length_append)

lemma chars_count_append [simp]: "chars_count (s @ t) = chars_count s + chars_count t"
  by (simp add: chars_count_def)

lemma chars_count_le_length [rust_text]: "chars_count s \<le> length s"
  by (simp add: chars_count_def)

lemma digit_char_digit: "d < 10 \<Longrightarrow> is_ascii_digit (digit_char d)"
  by (simp add: is_ascii_digit_def digit_char_def)

lemma of_char_digit_char: "d < 10 \<Longrightarrow> of_char (digit_char d) = (48 + d :: nat)"
  by (simp add: digit_char_def)

lemma parse_digits_append:
  "parse_digits a (s @ t) = (case parse_digits a s of None \<Rightarrow> None | Some b \<Rightarrow> parse_digits b t)"
  by (induction s arbitrary: a) (auto simp: Let_def)

lemma parse_digits_nat_to_string:
  "n < 2 ^ 64 \<Longrightarrow> parse_digits 0 (nat_to_string n) = Some n"
proof (induction n rule: nat_to_string.induct)
  case (1 n)
  show ?case
  proof (cases "n < 10")
    case True
    then show ?thesis
      using "1.prems"
      by (subst nat_to_string.simps) (simp add: digit_char_digit of_char_digit_char)
  next
    case False
    have small: "n div 10 < 2 ^ 64" using "1.prems" by simp
    have "n div 10 * 10 + n mod 10 = n" by simp
    then show ?thesis
      using "1.IH" [OF False small] "1.prems" False
      by (subst nat_to_string.simps)
        (simp add: parse_digits_append digit_char_digit of_char_digit_char)
  qed
qed

lemma nat_to_string_not_Nil [simp]: "nat_to_string n \<noteq> []"
  by (subst nat_to_string.simps) simp

lemma nat_to_string_digits: "c \<in> set (nat_to_string n) \<Longrightarrow> is_ascii_digit c"
proof (induction n rule: nat_to_string.induct)
  case (1 n)
  then show ?case
    by (cases "n < 10") (auto simp: nat_to_string.simps [of n] digit_char_digit)
qed

lemma parse_u64_to_string [simp]: "parse_u64 (u64_to_string w) = Some w"
proof (cases "u64_to_string w")
  case Nil
  then show ?thesis by (simp add: u64_to_string_def)
next
  case (Cons c cs)
  have "is_ascii_digit c"
    using Cons nat_to_string_digits [of c "unat w"] by (simp add: u64_to_string_def)
  then have "c \<noteq> CHR ''+''" by (auto simp: is_ascii_digit_def)
  moreover have "parse_digits 0 (c # cs) = Some (unat w)"
  proof -
    have "unat w < 2 ^ 64" using unsigned_less [of w] by simp
    then show ?thesis
      using parse_digits_nat_to_string [of "unat w"] Cons by (simp add: u64_to_string_def)
  qed
  ultimately show ?thesis using Cons by (simp add: parse_u64_def)
qed

lemma checked_add_Some:
  "checked_add a b = Some c \<Longrightarrow> unat c = unat a + unat b"
  by (auto simp: checked_add_def unat_word_ariths split: if_splits)

lemma saturating_add_unat: "unat (saturating_add a b) = min (unat a + unat b) (2 ^ 64 - 1)"
proof (cases "unat a + unat b < 2 ^ 64")
  case True
  then show ?thesis by (simp add: saturating_add_def unat_word_ariths)
next
  case False
  have "unat (- 1 :: u64) = 2 ^ 64 - 1" by (simp add: unsigned_minus_1_eq_mask mask_eq_exp_minus_1)
  with False show ?thesis by (simp add: saturating_add_def)
qed

section \<open>Results and optional collections\<close>

lemma map_err_eq_Inr [simp]: "map_err f r = Inr x \<longleftrightarrow> r = Inr x" "Inr x = map_err f r \<longleftrightarrow> r = Inr x"
  by (cases r; auto)+

lemma bind_result_Inr_iff: "bind_result r f = Inr y \<longleftrightarrow> (\<exists>x. r = Inr x \<and> f x = Inr y)"
  by (cases r) auto

lemma ok_or_Inr_iff [simp]: "ok_or e x = Inr v \<longleftrightarrow> x = Some v"
  by (simp add: ok_or_def split: option.splits)

lemma is_some_and_simps [simp]: "\<not> is_some_and None p" "is_some_and (Some v) p = p v"
  by (simp_all add: is_some_and_def)

lemma is_some_and_iff: "is_some_and x p \<longleftrightarrow> (\<exists>v. x = Some v \<and> p v)"
  by (cases x) auto

lemma collect_option_Some_iff:
  "collect_option f xs = Some ys \<longleftrightarrow> map f xs = map Some ys"
  by (induction xs arbitrary: ys) (auto split: option.splits)

lemma collect_option_map: "collect_option f (map g xs) = collect_option (f \<circ> g) xs"
  by (induction xs) (auto split: option.split)

lemma collect_option_all:
  "(\<And>x. x \<in> set xs \<Longrightarrow> f x = Some (g x)) \<Longrightarrow> collect_option f xs = Some (map g xs)"
  by (induction xs) auto


section \<open>Ordered maps: the interface and its implementation\<close>

text \<open>
  What the sources rely on of \<open>BTreeMap\<close>: lookups see the latest insertion, removal forgets a key,
  and iteration visits the entries by strictly ascending key. The client lemmas are proved once
  here: an ordered map is determined by its lookups, so the order in which it was filled with
  agreeing values cannot be observed.
\<close>

locale ordered_map =
  fixes invar :: "'m \<Rightarrow> bool"
    and empty :: "'m"
    and get :: "'m \<Rightarrow> 'k::linorder \<Rightarrow> 'v option"
    and insert :: "'k \<Rightarrow> 'v \<Rightarrow> 'm \<Rightarrow> 'm"
    and remove :: "'k \<Rightarrow> 'm \<Rightarrow> 'm"
    and entries :: "'m \<Rightarrow> ('k \<times> 'v) list"
  assumes invar_empty: "invar empty"
    and invar_insert: "invar m \<Longrightarrow> invar (insert k v m)"
    and invar_remove: "invar m \<Longrightarrow> invar (remove k m)"
    and get_empty: "get empty k = None"
    and get_insert: "invar m \<Longrightarrow> get (insert k v m) = (get m)(k \<mapsto> v)"
    and get_remove: "invar m \<Longrightarrow> get (remove k m) = (get m)(k := None)"
    and entries_sorted: "invar m \<Longrightarrow> sorted_wrt (<) (map fst (entries m))"
    and entries_get: "invar m \<Longrightarrow> map_of (entries m) = get m"
begin

lemma entries_distinct: "invar m \<Longrightarrow> distinct (map fst (entries m))"
  using entries_sorted strict_sorted_iff by blast

lemma entries_iff: "invar m \<Longrightarrow> (k, v) \<in> set (entries m) \<longleftrightarrow> get m k = Some v"
  using map_of_eq_Some_iff [OF entries_distinct] entries_get by metis

lemma entries_keys: "invar m \<Longrightarrow> set (map fst (entries m)) = dom (get m)"
  using entries_get [of m] by (simp add: dom_map_of_conv_image_fst flip: entries_get)

lemma entries_ext:
  assumes "invar m" and "invar m'" and "get m = get m'"
  shows "entries m = entries m'"
proof -
  have keys: "map fst (entries m) = map fst (entries m')"
    using assms entries_sorted entries_keys by (metis strict_sorted_equal)
  moreover have "map snd (entries m) = map snd (entries m')"
  proof (rule nth_equalityI)
    show len: "length (map snd (entries m)) = length (map snd (entries m'))"
      using keys by (metis length_map)
    fix i assume i: "i < length (map snd (entries m))"
    have a: "get m (fst (entries m ! i)) = Some (snd (entries m ! i))"
      using i by (simp add: entries_iff [OF assms(1), symmetric])
    have b: "get m' (fst (entries m' ! i)) = Some (snd (entries m' ! i))"
      using i len by (simp add: entries_iff [OF assms(2), symmetric])
    have "fst (entries m ! i) = fst (entries m' ! i)"
      using keys i len by (metis length_map nth_map)
    with a b assms(3) have "snd (entries m ! i) = snd (entries m' ! i)" by simp
    then show "map snd (entries m) ! i = map snd (entries m') ! i" using i len by simp
  qed
  ultimately show ?thesis by (metis zip_map_fst_snd)
qed

lemma insert_commute:
  assumes "invar m" and "k = k' \<Longrightarrow> v = v'"
  shows "entries (insert k v (insert k' v' m)) = entries (insert k' v' (insert k v m))"
  using assms by (intro entries_ext invar_insert) (auto simp: get_insert invar_insert)

end

lemma btree_keys_insert: "set (map fst (btree_insert k v m)) = insert k (set (map fst m))"
  by (induction m rule: btree_insert.induct) auto

lemma btree_keys_remove: "set (map fst (btree_remove k m)) \<subseteq> set (map fst m)"
  by (induction m rule: btree_remove.induct) auto

lemma btree_insert_values: "set (map snd (btree_insert k v m)) \<subseteq> insert v (set (map snd m))"
  by (induction k v m rule: btree_insert.induct) auto

lemma btree_remove_values: "set (map snd (btree_remove k m)) \<subseteq> set (map snd m)"
  by (induction k m rule: btree_remove.induct) auto

lemma btree_insert_length: "length (btree_insert k v m) \<le> Suc (length m)"
  by (induction k v m rule: btree_insert.induct) auto

lemma btree_remove_length: "length (btree_remove k m) \<le> length m"
  by (induction k m rule: btree_remove.induct) auto

lemma map_upd_away: "m s = None \<Longrightarrow> s \<noteq> d \<Longrightarrow> (m(s := v, d := e, s := None)) = m(d := e)"
  by (auto simp: fun_eq_iff)

lemma btree_invar_insert: "btree_invar m \<Longrightarrow> btree_invar (btree_insert k v m)"
proof (induction k v m rule: btree_insert.induct)
  case (2 k v k' v' m)
  then show ?case
    using btree_keys_insert [of k v m] by (auto simp: btree_invar_def simp del: set_map)
qed (simp add: btree_invar_def)

lemma btree_invar_remove: "btree_invar m \<Longrightarrow> btree_invar (btree_remove k m)"
proof (induction k m rule: btree_remove.induct)
  case (2 k k' v' m)
  then show ?case
    using btree_keys_remove [of k m] by (auto simp: btree_invar_def simp del: set_map)
qed (simp add: btree_invar_def)

lemma btree_get_insert: "btree_get (btree_insert k v m) = (btree_get m)(k \<mapsto> v)"
  by (induction k v m rule: btree_insert.induct) (auto simp: btree_get_def fun_eq_iff)

lemma btree_get_remove: "btree_invar m \<Longrightarrow> btree_get (btree_remove k m) = (btree_get m)(k := None)"
proof (induction k m rule: btree_remove.induct)
  case (2 k k' v' m)
  have "k' \<notin> fst ` set m" using "2.prems" by (auto simp: btree_invar_def)
  then have "map_of m k' = None" by (simp add: map_of_eq_None_iff)
  with 2 show ?case by (auto simp: btree_invar_def btree_get_def fun_eq_iff)
qed (simp add: btree_get_def fun_eq_iff)

interpretation bt: ordered_map btree_invar "[]" btree_get btree_insert btree_remove "\<lambda>m. m"
  by unfold_locales
    (simp_all add: btree_invar_insert btree_invar_remove btree_get_insert btree_get_remove,
      simp_all add: btree_invar_def btree_get_def fun_eq_iff)

lemmas btree_laws [btree] =
  bt.invar_empty bt.invar_insert bt.invar_remove bt.get_empty bt.get_insert bt.get_remove

lemma btree_get_Nil [simp]: "btree_get [] = (\<lambda>_. None)"
  by (simp add: btree_get_def fun_eq_iff)

lemma btree_ext: "btree_invar m \<Longrightarrow> btree_invar m' \<Longrightarrow> btree_get m = btree_get m' \<Longrightarrow> m = m'"
  by (rule bt.entries_ext)

lemma btree_get_map_values:
  "btree_get (map (\<lambda>(k, v). (k, f v)) m) k = map_option f (btree_get m k)"
  by (induction m) (auto simp: btree_get_def)

lemma btree_invar_map_values: "btree_invar (map (\<lambda>(k, v). (k, f v)) m) = btree_invar m"
proof -
  have "map fst (map (\<lambda>(k, v). (k, f v)) m) = map fst m" by (induction m) auto
  then show ?thesis by (simp only: btree_invar_def)
qed

lemma btree_empty_iff: "btree_invar m \<Longrightarrow> m = [] \<longleftrightarrow> btree_get m = (\<lambda>_. None)"
  by (metis bt.get_empty btree_ext bt.invar_empty ext)

lemma btree_invar_push [btree]: "btree_invar m \<Longrightarrow> btree_invar (btree_push k v m)"
  by (simp add: btree_push_def btree_laws)

lemma btree_get_push [btree]:
  "btree_invar m \<Longrightarrow>
   btree_get (btree_push k v m) =
     (btree_get m)(k \<mapsto> (case btree_get m k of None \<Rightarrow> [] | Some vs \<Rightarrow> vs) @ [v])"
  by (simp add: btree_push_def btree_laws)


section \<open>Selection and sorting\<close>

lemma max_by_from_mem: "max_by_from key b xs \<in> insert b (set xs)"
proof (induction xs arbitrary: b)
  case (Cons x xs)
  then show ?case using Cons [of "if key b \<le> key x then x else b"] by (auto split: if_splits)
qed simp

lemma max_by_from_above: "key b \<le> key (max_by_from key b xs)"
proof (induction xs arbitrary: b)
  case (Cons x xs)
  have "key b \<le> key (if key b \<le> key x then x else b)" by simp
  also have "\<dots> \<le> key (max_by_from key (if key b \<le> key x then x else b) xs)" by (rule Cons.IH)
  finally show ?case by simp
qed simp

lemma max_by_from_greatest: "y \<in> set xs \<Longrightarrow> key y \<le> key (max_by_from key b xs)"
proof (induction xs arbitrary: b)
  case (Cons x xs)
  let ?b = "if key b \<le> key x then x else b"
  have "key x \<le> key ?b" by auto
  also have "\<dots> \<le> key (max_by_from key ?b xs)" by (rule max_by_from_above)
  finally have "key x \<le> key (max_by_from key ?b xs)" .
  with Cons show ?case by auto
qed simp

lemma max_by_None_iff [simp]: "max_by key xs = None \<longleftrightarrow> xs = []"
  by (cases xs) auto

lemma max_by_Some:
  assumes "max_by key xs = Some x"
  shows "x \<in> set xs \<and> (\<forall>y \<in> set xs. key y \<le> key x)"
proof (cases xs)
  case (Cons a as)
  with assms have x: "x = max_by_from key a as" by simp
  show ?thesis
    using max_by_from_mem [of key a as] max_by_from_above [of key a as]
      max_by_from_greatest [of _ as key a]
    by (auto simp: x Cons)
qed (use assms in simp)

text \<open>Where equal keys mean equal elements, the choice depends on the elements only.\<close>

lemma max_by_set_cong:
  assumes "set xs = set ys"
    and inj: "\<And>x y. x \<in> set xs \<Longrightarrow> y \<in> set xs \<Longrightarrow> key x = key y \<Longrightarrow> x = y"
  shows "max_by key xs = max_by key ys"
proof (cases "max_by key xs")
  case None
  then show ?thesis using assms(1) by (metis max_by_None_iff set_empty)
next
  case (Some x)
  then have x: "x \<in> set xs" "\<forall>z \<in> set xs. key z \<le> key x" using max_by_Some by metis+
  then have "ys \<noteq> []" using assms(1) by auto
  then obtain y where y: "max_by key ys = Some y" using max_by_None_iff by fastforce
  then have "y \<in> set xs" "\<forall>z \<in> set xs. key z \<le> key y"
    using max_by_Some assms(1) by metis+
  with x have "x = y" by (intro inj) (auto intro: order_antisym)
  with Some y show ?thesis by simp
qed

lemma mset_insert_by [simp]: "mset (insert_by le x xs) = add_mset x (mset xs)"
  by (induction xs) auto

lemma mset_sort_by [simp]: "mset (sort_by le xs) = mset xs"
  by (induction xs) auto

lemma set_sort_by [simp]: "set (sort_by le xs) = set xs"
  by (metis mset_sort_by set_mset_mset)

lemma length_sort_by [simp]: "length (sort_by le xs) = length xs"
  by (metis mset_sort_by size_mset)

lemma distinct_sort_by [simp]: "distinct (sort_by le xs) = distinct xs"
  by (metis mset_sort_by mset_eq_imp_distinct_iff)

lemma set_insert_by [simp]: "set (insert_by le x xs) = insert x (set xs)"
  by (metis mset_insert_by set_mset_mset set_mset_add_mset_insert)

lemma sorted_insert_by:
  assumes "transp le" and "\<And>a b. le a b \<or> le b a"
  shows "sorted_wrt le xs \<Longrightarrow> sorted_wrt le (insert_by le x xs)"
proof (induction xs)
  case (Cons y ys)
  then show ?case using assms by (auto dest: transpD)
qed simp

lemma sorted_sort_by:
  assumes "transp le" and "\<And>a b. le a b \<or> le b a"
  shows "sorted_wrt le (sort_by le xs)"
  by (induction xs) (simp_all add: sorted_insert_by [OF assms])

end
