(* ===== verification/Nmp.thy ===== *)
theory Nmp
  imports Prelude
begin

text \<open>
  The data of the NMP facade (crates \<open>nmp\<close> and \<open>nmp_nip29\<close>, which are not part of the repository)
  that the sources read or build. Only data is declared here: every NMP operation is a parameter of
  the definitions that call it. Event ids and public keys are 32 byte values the sources only
  compare and print with \<open>to_hex()\<close>; they are represented by that lower-case hexadecimal text, which
  orders them as their bytes do.
\<close>

type_synonym event_id = string
type_synonym public_key = string
type_synonym relay_url = string
type_synonym tag = "string list"

record event =
  ev_id :: event_id
  ev_pubkey :: public_key
  ev_created_at :: u64
  ev_kind :: u16
  ev_tags :: "tag list"
  ev_content :: string

text \<open>The unsigned payload, routing, identity override and correlation of a \<open>WriteIntent\<close>.\<close>

record write_intent =
  wi_host :: relay_url
  wi_author :: public_key
  wi_created_at :: u64
  wi_kind :: u16
  wi_tags :: "tag list"
  wi_content :: string
  wi_identity_override :: "public_key option"
  wi_correlation :: "string option"

datatype write_status =
    Signed event_id
  | Acked relay_url
  | Rejected relay_url string
  | GaveUp relay_url
  | OutcomeUnknown relay_url
  | Cancelled
  | ReplaceableConflict
  | Failed string
  | OtherStatus string

datatype source_status = Requesting | AuthDenied | SourceError | OtherSource

record source_evidence =
  se_relay :: relay_url
  se_status :: source_status
  se_reconciled_through :: "u64 option"

record acquisition_evidence =
  aq_sources :: "source_evidence list"
  aq_shortfall :: "string list"

datatype row_delta = Added event | Removed event_id | SourcesGrew

record frame =
  fr_deltas :: "row_delta list"
  fr_window :: "event list option"
  fr_evidence :: acquisition_evidence

text \<open>The token \<open>add_account\<close> returns: a key and the exact registration.\<close>

record account_registration =
  ac_public_key :: public_key
  ac_handle :: nat

text \<open>
  \<open>nmp_nip29::compose_group_send\<close> and \<open>nmp::PublicKey::parse\<close>. The contract the sources (and their
  tests) rely on: a composed intent is pinned to the host, carries author, time, kind and content
  unchanged, adds the one group tag \<open>["h", group]\<close>, keeps every other tag, and leaves identity
  override and correlation to the caller.
\<close>

type_synonym group_send =
  "relay_url \<Rightarrow> string \<Rightarrow> public_key \<Rightarrow> u64 \<Rightarrow> u16 \<Rightarrow> string \<Rightarrow> tag list \<Rightarrow> write_intent option"
type_synonym key_parse = "string \<Rightarrow> public_key option"

definition tag_rows :: "tag list \<Rightarrow> string \<Rightarrow> tag list" where
  "tag_rows tags name = filter (\<lambda>values. case values of [] \<Rightarrow> False | v # _ \<Rightarrow> v = name) tags"

definition group_send_contract :: "group_send \<Rightarrow> bool" where
  "group_send_contract send \<longleftrightarrow>
     (\<forall>host group_id author created_at kind content tags intent.
        send host group_id author created_at kind content tags = Some intent \<longrightarrow>
        wi_host intent = host \<and> wi_author intent = author
        \<and> wi_created_at intent = created_at \<and> wi_kind intent = kind \<and> wi_content intent = content
        \<and> tag_rows (wi_tags intent) ''h'' = [[''h'', group_id]]
        \<and> (\<forall>name. name \<noteq> ''h'' \<longrightarrow> tag_rows (wi_tags intent) name = tag_rows tags name)
        \<and> wi_identity_override intent = None \<and> wi_correlation intent = None)"

text \<open>
  The event a relay serves for an accepted intent: signing adds the id (a hash of the payload) and
  changes nothing else.
\<close>

definition signed_event :: "event_id \<Rightarrow> write_intent \<Rightarrow> event" where
  "signed_event eid intent =
     \<lparr>ev_id = eid, ev_pubkey = wi_author intent, ev_created_at = wi_created_at intent,
      ev_kind = wi_kind intent, ev_tags = wi_tags intent, ev_content = wi_content intent\<rparr>"

text \<open>A concrete composer and key parser that meet the contract, for witnesses.\<close>

definition plain_group_send :: group_send where
  "plain_group_send host group_id author created_at kind content tags =
     (if tag_rows tags ''h'' = [] then
        Some \<lparr>wi_host = host, wi_author = author, wi_created_at = created_at, wi_kind = kind,
              wi_tags = [''h'', group_id] # tags, wi_content = content,
              wi_identity_override = None, wi_correlation = None\<rparr>
      else None)"

definition hex_key_parse :: key_parse where
  "hex_key_parse s = (if length s = 64 \<and> list_all is_lower_hex_byte s then Some s else None)"

lemma tag_rows_Nil [simp]: "tag_rows [] name = []"
  by (simp add: tag_rows_def)

lemma tag_rows_Cons [simp]:
  "tag_rows ((v # vs) # tags) name = (if v = name then (v # vs) # tag_rows tags name else tag_rows tags name)"
  by (simp add: tag_rows_def)

lemma tag_rows_append [simp]: "tag_rows (s @ t) name = tag_rows s name @ tag_rows t name"
  by (simp add: tag_rows_def)

lemma tag_rows_concat: "tag_rows (concat tss) name = concat (map (\<lambda>ts. tag_rows ts name) tss)"
  by (induction tss) auto

lemma plain_group_send_contract: "group_send_contract plain_group_send"
  by (auto simp: group_send_contract_def plain_group_send_def split: if_splits)

end
