(* ===== verification/Contract.thy ===== *)
theory Contract
  imports Nmp
begin

text \<open>
  The data-only crate \<open>contract\<close> (\<open>contract/src/lib.rs\<close>): the values of a spoken item. A struct is a
  record whose fields carry a short prefix, an enum a datatype. \<open>SpokenItem\<close> nests itself in
  \<open>children\<close>, so its flat fields form the record \<open>spoken_fields\<close> and the nesting is the datatype
  \<open>spoken_item\<close>.
\<close>

record durable_artifact =
  art_url :: string
  art_sha256 :: string
  art_media_type :: string
  art_byte_count :: u64
  art_label :: "string option"

datatype question_kind = SingleChoice | MultipleChoice | Freeform

record question_option =
  opt_id :: string
  opt_title :: string
  opt_description :: "string option"

record question =
  q_id :: string
  q_kind :: question_kind
  q_short_title :: string
  q_title :: string
  q_description :: "string option"
  q_options :: "question_option list"

record question_answer =
  qa_question_id :: string
  qa_values :: "string list"

record answer_bundle =
  ab_event_id :: string
  ab_author :: string
  ab_created_at :: u64
  ab_answers :: "question_answer list"

datatype acknowledgement_state = Active | Heard | Dismissed | Archived

record acknowledgement =
  ack_event_id :: string
  ack_author :: string
  ack_created_at :: u64
  ack_state :: acknowledgement_state
  ack_reason :: "string option"

record reaction_summary =
  rs_emoji :: string
  rs_count :: nat
  rs_authors :: "string list"

record attach_link_rec =
  al_parent_id :: string

record spoken_fields =
  si_id :: string
  si_author :: string
  si_created_at :: u64
  si_agent_name :: string
  si_subject :: string
  si_summary :: string
  si_body :: string
  si_audio_url :: "string option"
  si_audio :: durable_artifact
  si_attachments :: "durable_artifact list"
  si_questions :: "question list"
  si_answer :: "answer_bundle option"
  si_acknowledgement :: "acknowledgement option"
  si_reactions :: "reaction_summary list"
  si_attach :: "attach_link_rec option"

datatype spoken_item = SpokenItem (item_fields: spoken_fields) (item_children: "spoken_item list")

abbreviation item_id :: "spoken_item \<Rightarrow> string" where
  "item_id item \<equiv> si_id (item_fields item)"

end
