(* ===== verification/Tags.thy ===== *)
theory Tags
  imports Contract
begin

text \<open>
  The tag readers of \<open>protocol/src/parse/tags.rs\<close>: selection of tag rows, bounded text, identifiers,
  artifacts and the question block of a spoken item.
\<close>

definition MAX_ARTIFACT_BYTES :: u64 where
  "MAX_ARTIFACT_BYTES = 250 * 1024 * 1024"

definition rows :: "event \<Rightarrow> string \<Rightarrow> tag list" where
  "rows row name = tag_rows (ev_tags row) name"

definition identifier_of :: "string \<Rightarrow> string option" where
  "identifier_of value =
     (if value \<noteq> [] \<and> length value \<le> 64
         \<and> list_all (\<lambda>byte. is_ascii_alphanumeric byte \<or> byte = CHR ''-'' \<or> byte = CHR ''_'') value
      then Some value else None)"

definition bounded :: "string \<Rightarrow> nat \<Rightarrow> string option" where
  "bounded value limit =
     (let value = trim value in
      if value \<noteq> [] \<and> chars_count value \<le> limit then Some value else None)"

definition is_lower_hex :: "string \<Rightarrow> nat \<Rightarrow> bool" where
  "is_lower_hex value len \<longleftrightarrow> length value = len \<and> list_all is_lower_hex_byte value"

definition unique :: "event \<Rightarrow> string \<Rightarrow> nat \<Rightarrow> string option" where
  "unique row name limit =
     (let matches = rows row name in
      if length matches \<noteq> 1 \<or> length (matches ! 0) \<noteq> 2 then None
      else bounded (matches ! 0 ! 1) limit)"

definition optional :: "event \<Rightarrow> string \<Rightarrow> nat \<Rightarrow> string option option" where
  "optional row name limit =
     (case rows row name of
        [] \<Rightarrow> Some None
      | [value] \<Rightarrow> if length value = 2 then map_option Some (bounded (value ! 1) limit) else None
      | _ \<Rightarrow> None)"

definition marker :: "event \<Rightarrow> (string \<times> string) option" where
  "marker row =
     (case rows row ''tts29'' of
        [] \<Rightarrow> None
      | value # rest \<Rightarrow>
          if rest = [] \<and> length value = 3 then Some (value ! 1, value ! 2) else None)"

definition group_matches :: "event \<Rightarrow> string \<Rightarrow> bool" where
  "group_matches row group_id \<longleftrightarrow> rows row ''h'' = [[''h'', group_id]]"

definition attach_link :: "event \<Rightarrow> attach_link_rec option option" where
  "attach_link row =
     (case rows row ''e'' of
        [] \<Rightarrow> Some None
      | [value] \<Rightarrow>
          if length value = 4 \<and> value ! 2 = [] \<and> value ! 3 = ''attach'' \<and> is_lower_hex (value ! 1) 64
          then Some (Some \<lparr>al_parent_id = value ! 1\<rparr>)
          else None
      | _ \<Rightarrow> None)"

definition root_event :: "event \<Rightarrow> string option" where
  "root_event row =
     (let matches = rows row ''e'' in
      if length matches \<noteq> 1 \<or> length (matches ! 0) \<noteq> 4 \<or> matches ! 0 ! 3 \<noteq> ''root'' then None
      else
        (let ident = matches ! 0 ! 1 in
         if is_lower_hex ident 64 \<and> matches ! 0 ! 2 = [] then Some ident else None))"

text \<open>
  \<open>with_label.then(|| bounded(..)).flatten()\<close>: a label that is blank or too long becomes \<open>None\<close>
  without rejecting the artifact.
\<close>

definition artifact :: "tag \<Rightarrow> string \<Rightarrow> bool \<Rightarrow> durable_artifact option" where
  "artifact row tag_name with_label =
     (let expected = (if with_label then 6 else 5) in
      if length row \<noteq> expected \<or> row ! 0 \<noteq> tag_name then None
      else
        (case bounded (row ! 1) 2048 of None \<Rightarrow> None | Some url \<Rightarrow>
        (case bounded (row ! 2) 64 of None \<Rightarrow> None | Some sha256 \<Rightarrow>
        (case bounded (row ! 3) 128 of None \<Rightarrow> None | Some media_type \<Rightarrow>
        (case parse_u64 (row ! 4) of None \<Rightarrow> None | Some byte_count \<Rightarrow>
           if \<not> starts_with url ''https://'' \<or> \<not> is_lower_hex sha256 64
              \<or> CHR ''/'' \<notin> set media_type \<or> byte_count = 0 \<or> byte_count > MAX_ARTIFACT_BYTES
           then None
           else Some \<lparr>art_url = url, art_sha256 = sha256, art_media_type = media_type,
                      art_byte_count = byte_count,
                      art_label = (if with_label then bounded (row ! 5) 120 else None)\<rparr>)))))"

fun keyed_text_loop ::
  "nat \<Rightarrow> tag list \<Rightarrow> (string, string) btree_map \<Rightarrow> (string, string) btree_map option" where
  "keyed_text_loop limit [] result = Some result"
| "keyed_text_loop limit (value # values) result =
     (if length value \<noteq> 3 then None
      else case identifier_of (value ! 1) of None \<Rightarrow> None | Some ident \<Rightarrow>
        (case bounded (value ! 2) limit of None \<Rightarrow> None | Some text \<Rightarrow>
           if btree_contains result ident then None
           else keyed_text_loop limit values (btree_insert ident text result)))"

definition keyed_text :: "event \<Rightarrow> string \<Rightarrow> nat \<Rightarrow> (string, string) btree_map option" where
  "keyed_text row name limit = keyed_text_loop limit (rows row name) []"

text \<open>\<open>match value.get(4)\<close>: an absent or empty description is no description.\<close>

definition option_description :: "tag \<Rightarrow> string option option" where
  "option_description value =
     (if length value = 5 \<and> value ! 4 \<noteq> [] then map_option Some (bounded (value ! 4) 300)
      else Some None)"

fun keyed_options_loop ::
  "tag list \<Rightarrow> (string \<times> string) set \<Rightarrow> (string, question_option list) btree_map
   \<Rightarrow> (string, question_option list) btree_map option" where
  "keyed_options_loop [] seen result = Some result"
| "keyed_options_loop (value # values) seen result =
     (if \<not> (length value = 4 \<or> length value = 5) then None
      else case identifier_of (value ! 1) of None \<Rightarrow> None | Some question_id \<Rightarrow>
        (case identifier_of (value ! 2) of None \<Rightarrow> None | Some ident \<Rightarrow>
          if (question_id, ident) \<in> seen then None
          else if length (case btree_get result question_id of None \<Rightarrow> [] | Some vs \<Rightarrow> vs) = 8 then None
          else case option_description value of None \<Rightarrow> None | Some description \<Rightarrow>
            (case bounded (value ! 3) 120 of None \<Rightarrow> None | Some title \<Rightarrow>
               keyed_options_loop values (insert (question_id, ident) seen)
                 (btree_push question_id
                    \<lparr>opt_id = ident, opt_title = title, opt_description = description\<rparr> result))))"

definition keyed_options :: "event \<Rightarrow> (string, question_option list) btree_map option" where
  "keyed_options row = keyed_options_loop (rows row ''option'') {} []"

definition parse_kind :: "string \<Rightarrow> question_kind option" where
  "parse_kind name =
     (if name = ''single'' then Some SingleChoice
      else if name = ''multiple'' then Some MultipleChoice
      else if name = ''freeform'' then Some Freeform
      else None)"

definition choices_required :: "question_kind \<Rightarrow> bool" where
  "choices_required kind \<longleftrightarrow> kind = SingleChoice \<or> kind = MultipleChoice"

text \<open>
  The loop over the question rows of \<open>questions\<close>; it returns the questions built, the ids seen and
  the option lists nobody claimed.
\<close>

fun questions_loop ::
  "(string, string) btree_map \<Rightarrow> (string, string) btree_map \<Rightarrow> tag list
   \<Rightarrow> (string, question_option list) btree_map \<Rightarrow> string set \<Rightarrow> question list
   \<Rightarrow> (question list \<times> string set \<times> (string, question_option list) btree_map) option" where
  "questions_loop labels descriptions [] options seen result = Some (result, seen, options)"
| "questions_loop labels descriptions (value # values) options seen result =
     (if length value \<noteq> 4 \<or> value ! 1 \<in> seen then None
      else case identifier_of (value ! 1) of None \<Rightarrow> None | Some ident \<Rightarrow>
        (case parse_kind (value ! 2) of None \<Rightarrow> None | Some kind \<Rightarrow>
        (case bounded (value ! 3) 240 of None \<Rightarrow> None | Some title \<Rightarrow>
          (let question_options = (case btree_get options ident of None \<Rightarrow> [] | Some vs \<Rightarrow> vs) in
           if choices_required kind = (question_options = []) then None
           else questions_loop labels descriptions values (btree_remove ident options)
                  (insert (value ! 1) seen)
                  (result @
                   [\<lparr>q_id = ident, q_kind = kind,
                     q_short_title = (case btree_get labels ident of None \<Rightarrow> title | Some l \<Rightarrow> l),
                     q_title = title,
                     q_description = btree_get descriptions ident,
                     q_options = question_options\<rparr>])))))"

definition questions :: "event \<Rightarrow> question list option" where
  "questions row =
     (let question_rows = rows row ''question'' in
      if length question_rows > 3 then None
      else case keyed_text row ''label'' 40 of None \<Rightarrow> None | Some labels \<Rightarrow>
        (case keyed_text row ''description'' 500 of None \<Rightarrow> None | Some descriptions \<Rightarrow>
        (case keyed_options row of None \<Rightarrow> None | Some options \<Rightarrow>
        (case questions_loop labels descriptions question_rows options {} [] of
           None \<Rightarrow> None
         | Some (result, known, unclaimed) \<Rightarrow>
             if (\<exists>ident \<in> set (btree_keys labels). ident \<notin> known)
                \<or> (\<exists>ident \<in> set (btree_keys descriptions). ident \<notin> known)
                \<or> unclaimed \<noteq> []
             then None
             else Some result))))"


section \<open>Bounded text, identifiers and hexadecimal text\<close>

lemma bounded_Some_iff:
  "bounded v n = Some t \<longleftrightarrow> t = trim v \<and> t \<noteq> [] \<and> chars_count t \<le> n"
  by (auto simp: bounded_def Let_def)

lemma bounded_Some [rust_text]: "bounded v n = Some t \<Longrightarrow> t = trim v"
  by (simp add: bounded_Some_iff)

lemma bounded_trim [simp]: "bounded (trim v) n = bounded v n"
  by (simp add: bounded_def)

lemma bounded_empty [simp]: "bounded [] n = None"
  by (simp add: bounded_def)

lemma bounded_mono: "bounded v n = Some t \<Longrightarrow> n \<le> m \<Longrightarrow> bounded v m = Some t"
  by (auto simp: bounded_Some_iff)

lemma bounded_not_None: "bounded v n \<noteq> None \<Longrightarrow> bounded v n = Some (trim v)"
  by (auto simp: bounded_def Let_def split: if_splits)

lemma bounded_idem: "bounded v n = Some t \<Longrightarrow> bounded t n = Some t"
  by (auto simp: bounded_Some_iff)

lemma identifier_of_Some_iff: "identifier_of v = Some t \<longleftrightarrow> t = v \<and> identifier_of v \<noteq> None"
  by (auto simp: identifier_of_def)

lemma identifier_of_SomeD: "identifier_of v = Some t \<Longrightarrow> t = v"
  by (auto simp: identifier_of_def split: if_splits)

lemma identifier_of_not_None: "identifier_of v \<noteq> None \<Longrightarrow> identifier_of v = Some v"
  by (auto simp: identifier_of_def split: if_splits)

lemma rows_name: "value \<in> set (rows row name) \<Longrightarrow> \<exists>vs. value = name # vs"
  by (auto simp: rows_def tag_rows_def split: list.splits)

lemma bounded_graphic:
  "s \<noteq> [] \<Longrightarrow> is_graphic (hd s) \<Longrightarrow> is_graphic (last s) \<Longrightarrow> length s \<le> n \<Longrightarrow> bounded s n = Some s"
  using chars_count_le_length [of s] by (simp add: bounded_Some_iff trim_graphic)

lemmas evaluate_text =
  bounded_graphic is_graphic_def identifier_of_def is_ascii_alphanumeric_def is_ascii_digit_def
  is_lower_hex_def is_lower_hex_byte_def list_all_iff hex_key_parse_def

end
