(* ===== verification/Parse.thy ===== *)
theory Parse
  imports Tags
begin

text \<open>
  The event parser of \<open>protocol/src/parse/mod.rs\<close>: a kind 9 event of the group with exactly one
  product marker becomes a spoken item, an answer bundle, an acknowledgement or a reaction, or is
  refused.
\<close>

definition VERSION :: string where
  "VERSION = ''1''"

record reaction =
  re_event_id :: string
  re_author :: string
  re_created_at :: u64
  re_emoji :: string
  re_active :: bool

record 'a related =
  rel_root_id :: string
  rel_value :: 'a

datatype parsed_event =
    Item spoken_item
  | Answer "answer_bundle related"
  | Acknowledgement "acknowledgement related"
  | Reaction "reaction related"

definition parse_item :: "event \<Rightarrow> spoken_item option" where
  "parse_item row =
     (let audio_rows = rows row ''audio'' in
      if length audio_rows \<noteq> 1 then None
      else case artifact (audio_rows ! 0) ''audio'' False of None \<Rightarrow> None | Some audio \<Rightarrow>
        if \<not> starts_with (art_media_type audio) ''audio/'' then None
        else
          (let attachment_rows = rows row ''attachment'' in
           if length attachment_rows > 12 then None
           else case collect_option (\<lambda>value. artifact value ''attachment'' True) attachment_rows of
             None \<Rightarrow> None
           | Some attachments \<Rightarrow>
             if \<exists>value \<in> set attachments. art_label value = None then None
             else case attach_link row of None \<Rightarrow> None | Some attach \<Rightarrow>
               (case optional row ''agent'' 80 of None \<Rightarrow> None | Some agent_name \<Rightarrow>
               (case unique row ''title'' 80 of None \<Rightarrow> None | Some subject \<Rightarrow>
               (case optional row ''summary'' 280 of None \<Rightarrow> None | Some summary \<Rightarrow>
               (case bounded (ev_content row) 40000 of None \<Rightarrow> None | Some body \<Rightarrow>
               (case questions row of None \<Rightarrow> None | Some qs \<Rightarrow>
                  Some (SpokenItem
                    \<lparr>si_id = ev_id row, si_author = ev_pubkey row,
                     si_created_at = ev_created_at row,
                     si_agent_name = (case agent_name of None \<Rightarrow> [] | Some v \<Rightarrow> v),
                     si_subject = subject,
                     si_summary = (case summary of None \<Rightarrow> [] | Some v \<Rightarrow> v),
                     si_body = body, si_audio_url = Some (art_url audio), si_audio = audio,
                     si_attachments = attachments, si_questions = qs, si_answer = None,
                     si_acknowledgement = None, si_reactions = [], si_attach = attach\<rparr>
                    []))))))))"

fun parse_answer_loop :: "tag list \<Rightarrow> string set \<Rightarrow> question_answer list \<Rightarrow> question_answer list option" where
  "parse_answer_loop [] seen answers = Some answers"
| "parse_answer_loop (value # values) seen answers =
     (if length value < 3 \<or> length value > 10 then None
      else case identifier_of (value ! 1) of None \<Rightarrow> None | Some question_id \<Rightarrow>
        (if question_id \<in> seen then None
         else case collect_option (\<lambda>item. bounded item 4000) (drop 2 value) of None \<Rightarrow> None
           | Some vs \<Rightarrow>
               parse_answer_loop values (insert question_id seen)
                 (answers @ [\<lparr>qa_question_id = question_id, qa_values = vs\<rparr>])))"

definition parse_answer :: "event \<Rightarrow> answer_bundle related option" where
  "parse_answer row =
     (let answer_rows = rows row ''answer'' in
      if answer_rows = [] \<or> length answer_rows > 3 then None
      else case parse_answer_loop answer_rows {} [] of None \<Rightarrow> None | Some answers \<Rightarrow>
        (case root_event row of None \<Rightarrow> None | Some root_id \<Rightarrow>
           Some \<lparr>rel_root_id = root_id,
                 rel_value = \<lparr>ab_event_id = ev_id row, ab_author = ev_pubkey row,
                              ab_created_at = ev_created_at row, ab_answers = answers\<rparr>\<rparr>))"

definition parse_state :: "string \<Rightarrow> acknowledgement_state option" where
  "parse_state name =
     (if name = ''active'' then Some Active
      else if name = ''heard'' then Some Heard
      else if name = ''dismissed'' then Some Dismissed
      else if name = ''archived'' then Some Archived
      else None)"

definition parse_acknowledgement :: "event \<Rightarrow> acknowledgement related option" where
  "parse_acknowledgement row =
     (case unique row ''state'' 16 of None \<Rightarrow> None | Some name \<Rightarrow>
     (case parse_state name of None \<Rightarrow> None | Some state \<Rightarrow>
     (case root_event row of None \<Rightarrow> None | Some root_id \<Rightarrow>
     (case optional row ''reason'' 500 of None \<Rightarrow> None | Some reason \<Rightarrow>
        Some \<lparr>rel_root_id = root_id,
              rel_value = \<lparr>ack_event_id = ev_id row, ack_author = ev_pubkey row,
                           ack_created_at = ev_created_at row, ack_state = state,
                           ack_reason = reason\<rparr>\<rparr>))))"

definition parse_reaction :: "event \<Rightarrow> reaction related option" where
  "parse_reaction row =
     (let reaction_rows = rows row ''reaction'' in
      if length reaction_rows \<noteq> 1 \<or> length (reaction_rows ! 0) \<noteq> 3 then None
      else
        (case (if reaction_rows ! 0 ! 2 = ''add'' then Some True
               else if reaction_rows ! 0 ! 2 = ''remove'' then Some False
               else None) of None \<Rightarrow> None | Some active \<Rightarrow>
        (case root_event row of None \<Rightarrow> None | Some root_id \<Rightarrow>
        (case bounded (reaction_rows ! 0 ! 1) 16 of None \<Rightarrow> None | Some emoji \<Rightarrow>
           Some \<lparr>rel_root_id = root_id,
                 rel_value = \<lparr>re_event_id = ev_id row, re_author = ev_pubkey row,
                              re_created_at = ev_created_at row, re_emoji = emoji,
                              re_active = active\<rparr>\<rparr>))))"

definition parse :: "event \<Rightarrow> string \<Rightarrow> parsed_event option" where
  "parse row group_id =
     (if ev_kind row \<noteq> 9 \<or> \<not> group_matches row group_id then None
      else case marker row of None \<Rightarrow> None | Some (kind, version) \<Rightarrow>
        if kind = ''item'' \<and> version = VERSION then map_option Item (parse_item row)
        else if kind = ''answer'' \<and> version = VERSION then map_option Answer (parse_answer row)
        else if kind = ''ack'' \<and> version = VERSION
             then map_option Acknowledgement (parse_acknowledgement row)
        else if kind = ''reaction'' \<and> version = VERSION then map_option Reaction (parse_reaction row)
        else None)"

end
