(* ===== verification/Compose.thy ===== *)
theory Compose
  imports Parse
begin

text \<open>
  The producer side of the event contract (\<open>protocol/src/compose.rs\<close>): validation of a frozen spoken
  item, its tags, and the NMP write intent. The NMP composer and key parser are the parameters
  \<open>send\<close> and \<open>parse_key\<close>. The main result relates composition and parsing: what a group client reads
  back from a composed item.
\<close>

record frozen_spoken_item =
  fz_author :: string
  fz_created_at :: u64
  fz_group_id :: string
  fz_agent_name :: string
  fz_subject :: string
  fz_summary :: string
  fz_body :: string
  fz_audio :: durable_artifact
  fz_attachments :: "durable_artifact list"
  fz_questions :: "question list"
  fz_attach :: "attach_link_rec option"

datatype compose_error = InvalidAuthor | InvalidField string | InvalidTag

definition compose_error_text :: "compose_error \<Rightarrow> string" where
  "compose_error_text e =
     (case e of
        InvalidAuthor \<Rightarrow> ''the frozen author is not a public key''
      | InvalidField field \<Rightarrow> ''invalid frozen field: '' @ field
      | InvalidTag \<Rightarrow> ''NMP refused a generated protocol tag'')"

definition artifact_row :: "durable_artifact \<Rightarrow> string \<Rightarrow> tag" where
  "artifact_row value name =
     [name, art_url value, art_sha256 value, art_media_type value,
      u64_to_string (art_byte_count value)]
     @ (case art_label value of None \<Rightarrow> [] | Some label \<Rightarrow> [label])"

definition valid_artifact :: "durable_artifact \<Rightarrow> bool \<Rightarrow> bool" where
  "valid_artifact value with_label \<longleftrightarrow>
     artifact (artifact_row value (if with_label then ''attachment'' else ''audio''))
       (if with_label then ''attachment'' else ''audio'') with_label \<noteq> None"

fun validate_options_loop :: "question_option list \<Rightarrow> string set \<Rightarrow> compose_error + unit" where
  "validate_options_loop [] option_ids = Inr ()"
| "validate_options_loop (opt # opts) option_ids =
     (if identifier_of (opt_id opt) = None \<or> opt_id opt \<in> option_ids
         \<or> bounded (opt_title opt) 120 = None
         \<or> is_some_and (opt_description opt) (\<lambda>value. bounded value 300 = None)
      then Inl (InvalidField ''question_option'')
      else validate_options_loop opts (insert (opt_id opt) option_ids))"

fun validate_questions_loop :: "question list \<Rightarrow> string set \<Rightarrow> compose_error + unit" where
  "validate_questions_loop [] question_ids = Inr ()"
| "validate_questions_loop (question # rest) question_ids =
     (if identifier_of (q_id question) = None \<or> q_id question \<in> question_ids
         \<or> bounded (q_title question) 240 = None \<or> bounded (q_short_title question) 40 = None
         \<or> is_some_and (q_description question) (\<lambda>value. bounded value 500 = None)
      then Inl (InvalidField ''question'')
      else if choices_required (q_kind question) = (q_options question = [])
              \<or> length (q_options question) > 8
      then Inl (InvalidField ''question_options'')
      else bind_result (validate_options_loop (q_options question) {})
             (\<lambda>_. validate_questions_loop rest (insert (q_id question) question_ids)))"

definition validate_questions :: "question list \<Rightarrow> compose_error + unit" where
  "validate_questions qs =
     (if length qs > 3 then Inl (InvalidField ''questions'') else validate_questions_loop qs {})"

definition validate_spoken_item :: "key_parse \<Rightarrow> frozen_spoken_item \<Rightarrow> compose_error + unit" where
  "validate_spoken_item parse_key item =
     (if parse_key (fz_author item) = None then Inl InvalidAuthor
      else if bounded (fz_group_id item) 128 = None then Inl (InvalidField ''group_id'')
      else if bounded (fz_subject item) 80 = None \<or> bounded (fz_body item) 40000 = None
      then Inl (InvalidField ''subject_or_body'')
      else if fz_agent_name item \<noteq> [] \<and> bounded (fz_agent_name item) 80 = None
      then Inl (InvalidField ''agent_name'')
      else if fz_summary item \<noteq> [] \<and> bounded (fz_summary item) 280 = None
      then Inl (InvalidField ''summary'')
      else if is_some_and (fz_attach item) (\<lambda>attach. \<not> is_lower_hex (al_parent_id attach) 64)
      then Inl (InvalidField ''attach'')
      else if \<not> valid_artifact (fz_audio item) False
              \<or> \<not> starts_with (art_media_type (fz_audio item)) ''audio/''
      then Inl (InvalidField ''audio'')
      else if length (fz_attachments item) > 12
              \<or> (\<exists>value \<in> set (fz_attachments item). \<not> valid_artifact value True)
      then Inl (InvalidField ''attachments'')
      else validate_questions (fz_questions item))"

definition insert_at :: "nat \<Rightarrow> 'a \<Rightarrow> 'a list \<Rightarrow> 'a list" where
  "insert_at i x xs = take i xs @ x # drop i xs"

definition kind_name :: "question_kind \<Rightarrow> string" where
  "kind_name kind =
     (case kind of SingleChoice \<Rightarrow> ''single'' | MultipleChoice \<Rightarrow> ''multiple'' | Freeform \<Rightarrow> ''freeform'')"

definition option_row :: "string \<Rightarrow> question_option \<Rightarrow> tag" where
  "option_row question_id opt =
     [''option'', question_id, opt_id opt, opt_title opt]
     @ (case opt_description opt of None \<Rightarrow> [] | Some description \<Rightarrow> [description])"

definition question_tags :: "question \<Rightarrow> tag list" where
  "question_tags question =
     [[''question'', q_id question, kind_name (q_kind question), q_title question],
      [''label'', q_id question, q_short_title question]]
     @ (case q_description question of None \<Rightarrow> []
        | Some description \<Rightarrow> [[''description'', q_id question, description]])
     @ map (option_row (q_id question)) (q_options question)"

definition tags :: "frozen_spoken_item \<Rightarrow> tag list" where
  "tags item =
     (let result =
        [[''tts29'', ''item'', VERSION], [''title'', fz_subject item],
         artifact_row (fz_audio item) ''audio''];
       result = (if fz_summary item \<noteq> [] then insert_at 2 [''summary'', fz_summary item] result
                 else result);
       result = (if fz_agent_name item \<noteq> [] then insert_at 2 [''agent'', fz_agent_name item] result
                 else result)
      in result
         @ map (\<lambda>value. artifact_row value ''attachment'') (fz_attachments item)
         @ (case fz_attach item of None \<Rightarrow> []
            | Some attach \<Rightarrow> [[''e'', al_parent_id attach, [], ''attach'']])
         @ concat (map question_tags (fz_questions item)))"

definition compose_spoken_item ::
  "key_parse \<Rightarrow> group_send \<Rightarrow> relay_url \<Rightarrow> frozen_spoken_item \<Rightarrow> compose_error + write_intent" where
  "compose_spoken_item parse_key send host item =
     bind_result (validate_spoken_item parse_key item) (\<lambda>_.
     bind_result (ok_or InvalidAuthor (parse_key (fz_author item))) (\<lambda>author.
     bind_result (ok_or InvalidTag
       (send host (fz_group_id item) author (fz_created_at item) 9 (fz_body item) (tags item)))
       (\<lambda>intent. Inr (intent\<lparr>wi_identity_override := Some author\<rparr>))))"

text \<open>What a reader of the group sees of a composed item: every free text is trimmed.\<close>

definition trim_artifact :: "durable_artifact \<Rightarrow> durable_artifact" where
  "trim_artifact a =
     \<lparr>art_url = trim (art_url a), art_sha256 = trim (art_sha256 a),
      art_media_type = trim (art_media_type a), art_byte_count = art_byte_count a,
      art_label = map_option trim (art_label a)\<rparr>"

definition trim_option :: "question_option \<Rightarrow> question_option" where
  "trim_option opt =
     \<lparr>opt_id = opt_id opt, opt_title = trim (opt_title opt),
      opt_description = map_option trim (opt_description opt)\<rparr>"

definition trim_question :: "question \<Rightarrow> question" where
  "trim_question q =
     \<lparr>q_id = q_id q, q_kind = q_kind q, q_short_title = trim (q_short_title q),
      q_title = trim (q_title q), q_description = map_option trim (q_description q),
      q_options = map trim_option (q_options q)\<rparr>"

definition published_view :: "event_id \<Rightarrow> public_key \<Rightarrow> frozen_spoken_item \<Rightarrow> spoken_item" where
  "published_view eid author item =
     SpokenItem
       \<lparr>si_id = eid, si_author = author, si_created_at = fz_created_at item,
        si_agent_name = trim (fz_agent_name item), si_subject = trim (fz_subject item),
        si_summary = trim (fz_summary item), si_body = trim (fz_body item),
        si_audio_url = Some (trim (art_url (fz_audio item))),
        si_audio = trim_artifact (fz_audio item),
        si_attachments = map trim_artifact (fz_attachments item),
        si_questions = map trim_question (fz_questions item),
        si_answer = None, si_acknowledgement = None, si_reactions = [],
        si_attach = fz_attach item\<rparr> []"

text \<open>A well-formed item, for witnesses.\<close>

definition sample_item :: frozen_spoken_item where
  "sample_item =
     \<lparr>fz_author = replicate 64 (CHR ''1''), fz_created_at = 100, fz_group_id = ''tts'',
      fz_agent_name = ''Codex'', fz_subject = ''Build'', fz_summary = '''', fz_body = ''Done'',
      fz_audio = \<lparr>art_url = ''https://cdn/a.mp3'', art_sha256 = replicate 64 (CHR ''a''),
                  art_media_type = ''audio/mpeg'', art_byte_count = 10, art_label = None\<rparr>,
      fz_attachments = [\<lparr>art_url = ''https://cdn/b.png'', art_sha256 = replicate 64 (CHR ''b''),
                  art_media_type = ''image/png'', art_byte_count = 7, art_label = Some ''Plot''\<rparr>],
      fz_questions = [\<lparr>q_id = ''ship'', q_kind = SingleChoice, q_short_title = ''Ship'',
                  q_title = ''Ship it?'', q_description = None,
                  q_options = [\<lparr>opt_id = ''yes'', opt_title = ''Yes'', opt_description = None\<rparr>]\<rparr>],
      fz_attach = None\<rparr>"

definition blank_label_item :: frozen_spoken_item where
  "blank_label_item =
     sample_item\<lparr>fz_attachments :=
       [\<lparr>art_url = ''https://cdn/b.png'', art_sha256 = replicate 64 (CHR ''b''),
         art_media_type = ''image/png'', art_byte_count = 7, art_label = Some []\<rparr>]\<rparr>"

definition labels_readable :: "frozen_spoken_item \<Rightarrow> bool" where
  "labels_readable item \<longleftrightarrow>
     list_all (\<lambda>value. case art_label value of None \<Rightarrow> False | Some label \<Rightarrow> bounded label 120 \<noteq> None)
       (fz_attachments item)"

definition option_ok :: "question_option \<Rightarrow> bool" where
  "option_ok opt \<longleftrightarrow>
     identifier_of (opt_id opt) \<noteq> None \<and> bounded (opt_title opt) 120 \<noteq> None
     \<and> \<not> is_some_and (opt_description opt) (\<lambda>value. bounded value 300 = None)"

definition question_ok :: "question \<Rightarrow> bool" where
  "question_ok q \<longleftrightarrow>
     identifier_of (q_id q) \<noteq> None \<and> bounded (q_title q) 240 \<noteq> None
     \<and> bounded (q_short_title q) 40 \<noteq> None
     \<and> \<not> is_some_and (q_description q) (\<lambda>value. bounded value 500 = None)
     \<and> choices_required (q_kind q) = (q_options q \<noteq> []) \<and> length (q_options q) \<le> 8
     \<and> distinct (map opt_id (q_options q)) \<and> list_all option_ok (q_options q)"

lemma validate_options_loop_iff:
  "validate_options_loop opts seen = Inr () \<longleftrightarrow>
   list_all option_ok opts \<and> distinct (map opt_id opts) \<and> set (map opt_id opts) \<inter> seen = {}"
  by (induction opts seen rule: validate_options_loop.induct) (auto simp: option_ok_def)

lemma validate_questions_loop_iff:
  "validate_questions_loop qs seen = Inr () \<longleftrightarrow>
   list_all question_ok qs \<and> distinct (map q_id qs) \<and> set (map q_id qs) \<inter> seen = {}"
proof (induction qs seen rule: validate_questions_loop.induct)
  case (2 question rest question_ids)
  then show ?case
    using validate_options_loop_iff [of "q_options question" "{}"]
    by (cases "validate_options_loop (q_options question) {}") (auto simp: question_ok_def)
qed simp

lemma validate_questions_iff:
  "validate_questions qs = Inr () \<longleftrightarrow>
   length qs \<le> 3 \<and> list_all question_ok qs \<and> distinct (map q_id qs)"
  by (auto simp: validate_questions_def validate_questions_loop_iff)

lemma validate_spoken_item_iff:
  "validate_spoken_item parse_key item = Inr () \<longleftrightarrow>
     parse_key (fz_author item) \<noteq> None \<and> bounded (fz_group_id item) 128 \<noteq> None
     \<and> bounded (fz_subject item) 80 \<noteq> None \<and> bounded (fz_body item) 40000 \<noteq> None
     \<and> (fz_agent_name item \<noteq> [] \<longrightarrow> bounded (fz_agent_name item) 80 \<noteq> None)
     \<and> (fz_summary item \<noteq> [] \<longrightarrow> bounded (fz_summary item) 280 \<noteq> None)
     \<and> \<not> is_some_and (fz_attach item) (\<lambda>attach. \<not> is_lower_hex (al_parent_id attach) 64)
     \<and> valid_artifact (fz_audio item) False
     \<and> starts_with (art_media_type (fz_audio item)) ''audio/''
     \<and> length (fz_attachments item) \<le> 12
     \<and> (\<forall>value \<in> set (fz_attachments item). valid_artifact value True)
     \<and> length (fz_questions item) \<le> 3 \<and> list_all question_ok (fz_questions item)
     \<and> distinct (map q_id (fz_questions item))"
  unfolding validate_spoken_item_def by (simp add: validate_questions_iff) blast

section \<open>The tag rows of a composed item\<close>

lemma tag_rows_question_tags [simp]:
  "tag_rows (question_tags q) ''question'' = [[''question'', q_id q, kind_name (q_kind q), q_title q]]"
  "tag_rows (question_tags q) ''label'' = [[''label'', q_id q, q_short_title q]]"
  "tag_rows (question_tags q) ''description'' =
     (case q_description q of None \<Rightarrow> [] | Some d \<Rightarrow> [[''description'', q_id q, d]])"
  "tag_rows (question_tags q) ''option'' = map (option_row (q_id q)) (q_options q)"
proof -
  have opts: "tag_rows (map (option_row i) os) name = (if name = ''option'' then map (option_row i) os else [])"
    for i os name by (induction os) (auto simp: option_row_def)
  show "tag_rows (question_tags q) ''question'' = [[''question'', q_id q, kind_name (q_kind q), q_title q]]"
    "tag_rows (question_tags q) ''label'' = [[''label'', q_id q, q_short_title q]]"
    "tag_rows (question_tags q) ''description'' =
       (case q_description q of None \<Rightarrow> [] | Some d \<Rightarrow> [[''description'', q_id q, d]])"
    "tag_rows (question_tags q) ''option'' = map (option_row (q_id q)) (q_options q)"
    by (simp_all add: question_tags_def opts split: option.splits)
qed

lemma tag_rows_question_tags_other:
  assumes "name \<notin> {''question'', ''label'', ''description'', ''option''}"
  shows "tag_rows (concat (map question_tags qs)) name = []"
proof -
  have opts: "tag_rows (map (option_row i) os) name = []" for i os
    using assms by (induction os) (auto simp: option_row_def)
  have "tag_rows (question_tags q) name = []" for q
    using assms by (auto simp: question_tags_def opts split: option.splits)
  then show ?thesis by (simp add: tag_rows_concat)
qed

lemma tag_rows_attachments:
  "tag_rows (map (\<lambda>value. artifact_row value ''attachment'') xs) name =
     (if name = ''attachment'' then map (\<lambda>value. artifact_row value ''attachment'') xs else [])"
  by (induction xs) (auto simp: artifact_row_def)

lemma tag_rows_audio:
  "tag_rows (artifact_row a ''audio'' # ts) name =
     (if name = ''audio'' then [artifact_row a ''audio''] else []) @ tag_rows ts name"
  by (simp add: artifact_row_def)

lemma insert_at_2: "insert_at 2 x (a # b # xs) = a # b # x # xs"
  by (simp add: insert_at_def)

lemmas tags_unfold =
  tags_def Let_def insert_at_2 tag_rows_audio tag_rows_attachments tag_rows_concat

lemma tags_rows_head:
  "tag_rows (tags item) ''tts29'' = [[''tts29'', ''item'', VERSION]]"
  "tag_rows (tags item) ''title'' = [[''title'', fz_subject item]]"
  "tag_rows (tags item) ''summary'' =
     (if fz_summary item = [] then [] else [[''summary'', fz_summary item]])"
  "tag_rows (tags item) ''agent'' =
     (if fz_agent_name item = [] then [] else [[''agent'', fz_agent_name item]])"
  "tag_rows (tags item) ''audio'' = [artifact_row (fz_audio item) ''audio'']"
  "tag_rows (tags item) ''attachment'' =
     map (\<lambda>value. artifact_row value ''attachment'') (fz_attachments item)"
  "tag_rows (tags item) ''e'' =
     (case fz_attach item of None \<Rightarrow> []
      | Some attach \<Rightarrow> [[''e'', al_parent_id attach, [], ''attach'']])"
  by (simp_all add: tags_def Let_def insert_at_2 tag_rows_audio tag_rows_attachments
      tag_rows_question_tags_other split: option.splits)

lemma concat_map_singleton: "concat (map (\<lambda>x. [f x]) xs) = map f xs"
  by (induction xs) auto

lemma tags_rows_questions:
  "tag_rows (tags item) ''question'' =
     map (\<lambda>q. [''question'', q_id q, kind_name (q_kind q), q_title q]) (fz_questions item)"
  "tag_rows (tags item) ''label'' =
     map (\<lambda>q. [''label'', q_id q, q_short_title q]) (fz_questions item)"
  "tag_rows (tags item) ''description'' =
     concat (map (\<lambda>q. case q_description q of None \<Rightarrow> [] | Some d \<Rightarrow> [[''description'', q_id q, d]])
       (fz_questions item))"
  "tag_rows (tags item) ''option'' =
     concat (map (\<lambda>q. map (option_row (q_id q)) (q_options q)) (fz_questions item))"
  by (simp_all add: tags_def Let_def insert_at_2 tag_rows_audio tag_rows_attachments tag_rows_concat
      concat_map_singleton comp_def split: option.splits)

lemma artifact_row_audio:
  assumes "valid_artifact a False"
  shows "art_label a = None"
    and "artifact (artifact_row a ''audio'') ''audio'' False = Some (trim_artifact a)"
proof -
  show "art_label a = None"
    using assms by (auto simp: valid_artifact_def artifact_def artifact_row_def split: option.splits)
  then show "artifact (artifact_row a ''audio'') ''audio'' False = Some (trim_artifact a)"
    using assms
    by (auto simp: valid_artifact_def artifact_def artifact_row_def trim_artifact_def Let_def
        dest: bounded_Some split: option.splits if_splits)
qed

definition read_attachment :: "durable_artifact \<Rightarrow> durable_artifact" where
  "read_attachment a = (trim_artifact a)\<lparr>art_label := Option.bind (art_label a) (\<lambda>l. bounded l 120)\<rparr>"

lemma artifact_row_attachment:
  assumes "valid_artifact a True"
  shows "artifact (artifact_row a ''attachment'') ''attachment'' True = Some (read_attachment a)"
proof -
  from assms obtain label where label: "art_label a = Some label"
    by (auto simp: valid_artifact_def artifact_def artifact_row_def split: option.splits)
  show ?thesis
    using assms
    by (auto simp: label read_attachment_def valid_artifact_def artifact_def artifact_row_def
        trim_artifact_def Let_def dest: bounded_Some split: option.splits if_splits)
qed

lemma collect_attachments:
  "\<forall>a \<in> set as. valid_artifact a True \<Longrightarrow>
   collect_option (\<lambda>value. artifact value ''attachment'' True)
     (map (\<lambda>value. artifact_row value ''attachment'') as) = Some (map read_attachment as)"
  by (simp add: collect_option_map collect_option_all artifact_row_attachment)

lemma read_attachment_label:
  "art_label (read_attachment a) = None \<longleftrightarrow>
   \<not> is_some_and (art_label a) (\<lambda>label. bounded label 120 \<noteq> None)"
  by (cases "art_label a") (simp_all add: read_attachment_def)

lemma read_attachment_readable:
  "is_some_and (art_label a) (\<lambda>label. bounded label 120 \<noteq> None) \<Longrightarrow> read_attachment a = trim_artifact a"
  by (cases "art_label a") (auto simp: read_attachment_def trim_artifact_def bounded_Some_iff)

lemma keyed_text_loop_ok:
  assumes "distinct (map fst kts)" and "set (map fst kts) \<inter> dom (btree_get m) = {}"
    and "\<forall>(k, t) \<in> set kts. identifier_of k \<noteq> None \<and> bounded t n \<noteq> None"
    and "btree_invar m"
  shows "\<exists>m'. keyed_text_loop n (map (\<lambda>(k, t). [name, k, t]) kts) m = Some m' \<and> btree_invar m'
     \<and> btree_get m' = btree_get m ++ map_of (map (\<lambda>(k, t). (k, trim t)) kts)"
  using assms
proof (induction kts arbitrary: m)
  case (Cons kt kts)
  obtain k t where kt: "kt = (k, t)" by fastforce
  have ident: "identifier_of k = Some k" and tx: "bounded t n = Some (trim t)"
    using Cons.prems(3) identifier_of_not_None bounded_not_None by (auto simp: kt)
  have new: "\<not> btree_contains m k"
    using Cons.prems(2) by (auto simp: kt btree_contains_def dom_def)
  let ?m = "btree_insert k (trim t) m"
  have step: "keyed_text_loop n (map (\<lambda>(k, t). [name, k, t]) (kt # kts)) m =
      keyed_text_loop n (map (\<lambda>(k, t). [name, k, t]) kts) ?m"
    using ident tx new by (simp add: kt)
  have "\<exists>m'. keyed_text_loop n (map (\<lambda>(k, t). [name, k, t]) kts) ?m = Some m' \<and> btree_invar m'
     \<and> btree_get m' = btree_get ?m ++ map_of (map (\<lambda>(k, t). (k, trim t)) kts)"
  proof (rule Cons.IH)
    have "dom (btree_get ?m) = insert k (dom (btree_get m))"
      using Cons.prems(4) by (simp add: btree)
    then show "set (map fst kts) \<inter> dom (btree_get ?m) = {}"
      using Cons.prems(1,2) by (auto simp: kt)
  qed (use Cons.prems in \<open>auto simp: kt btree\<close>)
  then obtain m' where m': "keyed_text_loop n (map (\<lambda>(k, t). [name, k, t]) kts) ?m = Some m'"
    "btree_invar m'" "btree_get m' = btree_get ?m ++ map_of (map (\<lambda>(k, t). (k, trim t)) kts)"
    by blast
  have "k \<notin> dom (map_of (map (\<lambda>(k, t). (k, trim t)) kts))"
    using Cons.prems(1) by (simp add: kt map_of_map domIff map_of_eq_None_iff)
  then have "btree_get m' = btree_get m ++ map_of (map (\<lambda>(k, t). (k, trim t)) (kt # kts))"
    using m'(3) Cons.prems(4) by (auto simp: kt btree fun_eq_iff map_add_def split: option.splits)
  with m'(1,2) show ?case unfolding step by blast
qed simp

lemma option_description_row:
  "option_ok opt \<Longrightarrow> option_description (option_row i opt) = Some (map_option trim (opt_description opt))"
  by (cases "opt_description opt")
    (auto simp: option_ok_def option_description_def option_row_def bounded_not_None)

lemma keyed_options_loop_one:
  assumes "list_all option_ok opts" and "identifier_of i \<noteq> None" and "distinct (map opt_id opts)"
    and "\<forall>opt \<in> set opts. (i, opt_id opt) \<notin> seen"
    and "btree_invar m"
    and "length (case btree_get m i of None \<Rightarrow> [] | Some vs \<Rightarrow> vs) + length opts \<le> 8"
  shows "\<exists>m'. keyed_options_loop (map (option_row i) opts @ rest) seen m =
              keyed_options_loop rest (seen \<union> Pair i ` opt_id ` set opts) m'
     \<and> btree_invar m'
     \<and> btree_get m' = (if opts = [] then btree_get m else (btree_get m)(i \<mapsto>
          (case btree_get m i of None \<Rightarrow> [] | Some vs \<Rightarrow> vs) @ map trim_option opts))"
  using assms
proof (induction opts arbitrary: seen m)
  case (Cons opt opts)
  have ok: "option_ok opt" using Cons.prems(1) by simp
  have ids: "identifier_of i = Some i" "identifier_of (opt_id opt) = Some (opt_id opt)"
    using Cons.prems(1,2) identifier_of_not_None by (auto simp: option_ok_def)
  have title: "bounded (opt_title opt) 120 = Some (trim (opt_title opt))"
    using ok bounded_not_None by (auto simp: option_ok_def)
  have len: "length (option_row i opt) = 4 \<or> length (option_row i opt) = 5"
    by (simp add: option_row_def split: option.splits)
  have nth: "option_row i opt ! Suc 0 = i" "option_row i opt ! 2 = opt_id opt"
    "option_row i opt ! 3 = opt_title opt"
    by (simp_all add: option_row_def)
  have trimmed: "\<lparr>opt_id = opt_id opt, opt_title = trim (opt_title opt),
      opt_description = map_option trim (opt_description opt)\<rparr> = trim_option opt"
    by (simp add: trim_option_def)
  let ?m = "btree_push i (trim_option opt) m"
  have step: "keyed_options_loop (map (option_row i) (opt # opts) @ rest) seen m =
      keyed_options_loop (map (option_row i) opts @ rest) (insert (i, opt_id opt) seen) ?m"
    using Cons.prems(4,6) len
    by (simp add: nth ids title option_description_row [OF ok] trimmed)
  have get: "btree_get ?m = (btree_get m)(i \<mapsto> (case btree_get m i of None \<Rightarrow> [] | Some vs \<Rightarrow> vs) @ [trim_option opt])"
    using Cons.prems(5) by (simp add: btree)
  have "\<exists>m'. keyed_options_loop (map (option_row i) opts @ rest) (insert (i, opt_id opt) seen) ?m =
              keyed_options_loop rest (insert (i, opt_id opt) seen \<union> Pair i ` opt_id ` set opts) m'
     \<and> btree_invar m'
     \<and> btree_get m' = (if opts = [] then btree_get ?m else (btree_get ?m)(i \<mapsto>
          (case btree_get ?m i of None \<Rightarrow> [] | Some vs \<Rightarrow> vs) @ map trim_option opts))"
  proof (rule Cons.IH)
    show "\<forall>opt' \<in> set opts. (i, opt_id opt') \<notin> insert (i, opt_id opt) seen"
      using Cons.prems(3,4) by (auto simp: image_iff)
    show "length (case btree_get ?m i of None \<Rightarrow> [] | Some vs \<Rightarrow> vs) + length opts \<le> 8"
      using Cons.prems(6) by (simp add: get)
  qed (use Cons.prems in \<open>auto simp: btree\<close>)
  then obtain m' where m':
    "keyed_options_loop (map (option_row i) opts @ rest) (insert (i, opt_id opt) seen) ?m =
       keyed_options_loop rest (seen \<union> Pair i ` opt_id ` set (opt # opts)) m'"
    "btree_invar m'"
    "btree_get m' = (if opts = [] then btree_get ?m else (btree_get ?m)(i \<mapsto>
        (case btree_get ?m i of None \<Rightarrow> [] | Some vs \<Rightarrow> vs) @ map trim_option opts))"
    by auto
  have "btree_get m' = (btree_get m)(i \<mapsto>
      (case btree_get m i of None \<Rightarrow> [] | Some vs \<Rightarrow> vs) @ map trim_option (opt # opts))"
    unfolding m'(3) get by simp
  with m'(1,2) show ?case unfolding step by auto
qed auto

definition option_index :: "question list \<Rightarrow> (string \<times> question_option list) list" where
  "option_index qs =
     map (\<lambda>q. (q_id q, map trim_option (q_options q))) (filter (\<lambda>q. q_options q \<noteq> []) qs)"

lemma option_index_simps [simp]:
  "option_index [] = []"
  "option_index (q # qs) =
     (if q_options q = [] then option_index qs
      else (q_id q, map trim_option (q_options q)) # option_index qs)"
  by (simp_all add: option_index_def)

lemma option_index_None: "i \<notin> q_id ` set qs \<Longrightarrow> map_of (option_index qs) i = None"
  by (induction qs) auto

lemma keyed_options_loop_all:
  assumes "list_all question_ok qs" and "distinct (map q_id qs)"
    and "\<forall>q \<in> set qs. \<forall>k. (q_id q, k) \<notin> seen"
    and "q_id ` set qs \<inter> dom (btree_get m) = {}" and "btree_invar m"
  shows "\<exists>m'. keyed_options_loop (concat (map (\<lambda>q. map (option_row (q_id q)) (q_options q)) qs)) seen m
              = Some m'
     \<and> btree_invar m' \<and> btree_get m' = btree_get m ++ map_of (option_index qs)"
  using assms
proof (induction qs arbitrary: seen m)
  case (Cons q qs)
  let ?rest = "concat (map (\<lambda>q. map (option_row (q_id q)) (q_options q)) qs)"
  have ok: "question_ok q" using Cons.prems(1) by simp
  have fresh: "btree_get m (q_id q) = None" using Cons.prems(4) by auto
  obtain m1 where m1:
    "keyed_options_loop (map (option_row (q_id q)) (q_options q) @ ?rest) seen m =
       keyed_options_loop ?rest (seen \<union> Pair (q_id q) ` opt_id ` set (q_options q)) m1"
    "btree_invar m1"
    "btree_get m1 = (if q_options q = [] then btree_get m
       else (btree_get m)(q_id q \<mapsto> map trim_option (q_options q)))"
  proof -
    have "\<exists>m'. keyed_options_loop (map (option_row (q_id q)) (q_options q) @ ?rest) seen m =
       keyed_options_loop ?rest (seen \<union> Pair (q_id q) ` opt_id ` set (q_options q)) m'
     \<and> btree_invar m'
     \<and> btree_get m' = (if q_options q = [] then btree_get m else (btree_get m)(q_id q \<mapsto>
          (case btree_get m (q_id q) of None \<Rightarrow> [] | Some vs \<Rightarrow> vs) @ map trim_option (q_options q)))"
      by (rule keyed_options_loop_one)
        (use ok Cons.prems(3,5) in \<open>auto simp: question_ok_def fresh\<close>)
    then obtain m' where m': "keyed_options_loop (map (option_row (q_id q)) (q_options q) @ ?rest) seen m =
         keyed_options_loop ?rest (seen \<union> Pair (q_id q) ` opt_id ` set (q_options q)) m'"
      "btree_invar m'"
      "btree_get m' = (if q_options q = [] then btree_get m else (btree_get m)(q_id q \<mapsto>
         (case btree_get m (q_id q) of None \<Rightarrow> [] | Some vs \<Rightarrow> vs) @ map trim_option (q_options q)))"
      by blast
    show ?thesis by (rule that [OF m'(1,2)]) (unfold m'(3) fresh, simp)
  qed
  have "\<exists>m'. keyed_options_loop ?rest (seen \<union> Pair (q_id q) ` opt_id ` set (q_options q)) m1 = Some m'
     \<and> btree_invar m' \<and> btree_get m' = btree_get m1 ++ map_of (option_index qs)"
    by (rule Cons.IH) (use Cons.prems m1(2,3) in \<open>auto simp: image_iff split: if_splits\<close>)
  then obtain m' where m':
    "keyed_options_loop ?rest (seen \<union> Pair (q_id q) ` opt_id ` set (q_options q)) m1 = Some m'"
    "btree_invar m'" "btree_get m' = btree_get m1 ++ map_of (option_index qs)"
    by blast
  have "map_of (option_index qs) (q_id q) = None"
    using Cons.prems(2) by (simp add: option_index_None)
  then have "btree_get m' = btree_get m ++ map_of (option_index (q # qs))"
    by (auto simp: m'(3) m1(3) fun_eq_iff map_add_def split: option.splits)
  with m' m1(1) show ?case by auto
qed simp

lemma parse_kind_name [simp]: "parse_kind (kind_name k) = Some k"
  by (cases k) (simp_all add: parse_kind_def kind_name_def)

lemma questions_loop_all:
  assumes "list_all question_ok qs" and "distinct (map q_id qs)" and "q_id ` set qs \<inter> seen = {}"
    and "btree_invar options" and "btree_get options = map_of (option_index qs)"
    and "\<forall>q \<in> set qs. btree_get labels (q_id q) = Some (trim (q_short_title q))"
    and "\<forall>q \<in> set qs. btree_get descriptions (q_id q) = map_option trim (q_description q)"
  shows "questions_loop labels descriptions
           (map (\<lambda>q. [''question'', q_id q, kind_name (q_kind q), q_title q]) qs) options seen result
         = Some (result @ map trim_question qs, seen \<union> q_id ` set qs, [])"
  using assms
proof (induction qs arbitrary: options seen result)
  case Nil
  then have "options = []" using btree_empty_iff by auto
  then show ?case by simp
next
  case (Cons q qs)
  have ok: "question_ok q" using Cons.prems(1) by simp
  have ids: "identifier_of (q_id q) = Some (q_id q)"
    using ok identifier_of_not_None by (auto simp: question_ok_def)
  have title: "bounded (q_title q) 240 = Some (trim (q_title q))"
    using ok bounded_not_None by (auto simp: question_ok_def)
  have later: "map_of (option_index qs) (q_id q) = None"
    using Cons.prems(2) by (simp add: option_index_None)
  have opts: "(case btree_get options (q_id q) of None \<Rightarrow> [] | Some vs \<Rightarrow> vs) =
      map trim_option (q_options q)"
    using later by (simp add: Cons.prems(5))
  have kind: "choices_required (q_kind q) = (q_options q \<noteq> [])"
    using ok by (simp add: question_ok_def)
  have rest: "btree_get (btree_remove (q_id q) options) = map_of (option_index qs)"
    using later Cons.prems(4,5) by (auto simp: btree fun_eq_iff)
  have "questions_loop labels descriptions
      (map (\<lambda>q. [''question'', q_id q, kind_name (q_kind q), q_title q]) (q # qs)) options seen result =
    questions_loop labels descriptions
      (map (\<lambda>q. [''question'', q_id q, kind_name (q_kind q), q_title q]) qs)
      (btree_remove (q_id q) options) (insert (q_id q) seen) (result @ [trim_question q])"
    using Cons.prems(3,6,7) kind by (simp add: ids title opts trim_question_def)
  also have "\<dots> = Some ((result @ [trim_question q]) @ map trim_question qs,
      insert (q_id q) seen \<union> q_id ` set qs, [])"
    by (rule Cons.IH) (use Cons.prems rest in \<open>auto simp: btree\<close>)
  finally show ?case by simp
qed

fun description_pairs :: "question list \<Rightarrow> (string \<times> string) list" where
  "description_pairs [] = []"
| "description_pairs (q # qs) =
     (case q_description q of None \<Rightarrow> [] | Some d \<Rightarrow> [(q_id q, d)]) @ description_pairs qs"

lemma description_rows:
  "concat (map (\<lambda>q. case q_description q of None \<Rightarrow> [] | Some d \<Rightarrow> [[''description'', q_id q, d]]) qs) =
   map (\<lambda>(k, t). [''description'', k, t]) (description_pairs qs)"
  by (induction qs) (auto split: option.splits)

lemma description_pairs_mem:
  "(k, t) \<in> set (description_pairs qs) \<longleftrightarrow> (\<exists>q \<in> set qs. q_id q = k \<and> q_description q = Some t)"
  by (induction qs) (auto split: option.splits)

lemma description_pairs_keys: "set (map fst (description_pairs qs)) \<subseteq> q_id ` set qs"
  by (force simp: description_pairs_mem)

lemma description_pairs_distinct:
  "distinct (map q_id qs) \<Longrightarrow> distinct (map fst (description_pairs qs))"
proof (induction qs)
  case (Cons q qs)
  then show ?case using description_pairs_keys [of qs] by (auto split: option.splits)
qed simp

lemma description_pairs_get:
  assumes "distinct (map q_id qs)" and "q \<in> set qs"
  shows "map_of (description_pairs qs) (q_id q) = q_description q"
proof (cases "q_description q")
  case None
  with assms have "(q_id q, t) \<notin> set (description_pairs qs)" for t
    by (auto simp: description_pairs_mem distinct_map inj_on_def)
  then have "map_of (description_pairs qs) (q_id q) = None"
    by (force simp: map_of_eq_None_iff)
  with None show ?thesis by simp
next
  case (Some d)
  with assms show ?thesis
    by (auto simp: description_pairs_mem description_pairs_distinct intro!: map_of_is_SomeI)
qed

lemma questions_of_tags:
  assumes "length qs \<le> 3" and "list_all question_ok qs" and "distinct (map q_id qs)"
    and rows: "rows ev ''question'' = map (\<lambda>q. [''question'', q_id q, kind_name (q_kind q), q_title q]) qs"
      "rows ev ''label'' = map (\<lambda>q. [''label'', q_id q, q_short_title q]) qs"
      "rows ev ''description'' =
         concat (map (\<lambda>q. case q_description q of None \<Rightarrow> [] | Some d \<Rightarrow> [[''description'', q_id q, d]]) qs)"
      "rows ev ''option'' = concat (map (\<lambda>q. map (option_row (q_id q)) (q_options q)) qs)"
  shows "questions ev = Some (map trim_question qs)"
proof -
  let ?lab = "map (\<lambda>q. (q_id q, q_short_title q)) qs"
  let ?des = "description_pairs qs"
  have "\<exists>m'. keyed_text_loop 40 (map (\<lambda>(k, t). [''label'', k, t]) ?lab) [] = Some m' \<and> btree_invar m'
     \<and> btree_get m' = btree_get [] ++ map_of (map (\<lambda>(k, t). (k, trim t)) ?lab)"
    by (rule keyed_text_loop_ok)
      (use assms(2,3) in \<open>auto simp: list_all_iff question_ok_def btree comp_def dom_def\<close>)
  then obtain labels where labels: "keyed_text ev ''label'' 40 = Some labels" "btree_invar labels"
    "btree_get labels = map_of (map (\<lambda>q. (q_id q, trim (q_short_title q))) qs)"
    by (auto simp: keyed_text_def rows(2) comp_def)
  have "\<exists>m'. keyed_text_loop 500 (map (\<lambda>(k, t). [''description'', k, t]) ?des) [] = Some m'
     \<and> btree_invar m' \<and> btree_get m' = btree_get [] ++ map_of (map (\<lambda>(k, t). (k, trim t)) ?des)"
    by (rule keyed_text_loop_ok)
      (use assms(2,3) in \<open>auto simp: list_all_iff question_ok_def btree description_pairs_mem
        description_pairs_distinct is_some_and_iff\<close>)
  then obtain descriptions where descriptions:
    "keyed_text ev ''description'' 500 = Some descriptions" "btree_invar descriptions"
    "btree_get descriptions = map_option trim \<circ> map_of ?des"
    by (auto simp: keyed_text_def rows(3) description_rows map_of_map)
  obtain options where options: "keyed_options ev = Some options" "btree_invar options"
    "btree_get options = map_of (option_index qs)"
    using keyed_options_loop_all [of qs "{}" "[]"] assms(2,3)
    by (auto simp: keyed_options_def rows(4) btree)
  have lab: "\<forall>q \<in> set qs. btree_get labels (q_id q) = Some (trim (q_short_title q))"
    using assms(3) by (auto simp: labels(3) distinct_map inj_on_def intro!: map_of_is_SomeI)
  have "questions_loop labels descriptions (rows ev ''question'') options {} [] =
      Some (map trim_question qs, q_id ` set qs, [])"
    using questions_loop_all [of qs "{}" options labels descriptions "[]"] assms(2,3) options lab
      description_pairs_get [OF assms(3)]
    by (simp add: rows(1) descriptions(3))
  moreover have "set (btree_keys labels) \<subseteq> q_id ` set qs" "set (btree_keys descriptions) \<subseteq> q_id ` set qs"
    using bt.entries_keys [OF labels(2)] bt.entries_keys [OF descriptions(2)] description_pairs_keys
    by (auto simp: btree_keys_def labels(3) descriptions(3) dom_map_option_comp
        dom_map_of_conv_image_fst)
  ultimately show ?thesis
    using assms(1) by (auto simp: questions_def rows(1) labels(1) descriptions(1) options(1) Let_def)
qed

lemma starts_with_audio_trim:
  assumes "starts_with s ''audio/''"
  shows "starts_with (trim s) ''audio/''"
proof -
  obtain r where r: "s = ''audio/'' @ r" using assms by (auto simp: starts_with_iff)
  have "trim_start s = s"
    unfolding trim_start_def
    by (rule strip_all_fixed) (simp add: r strip_one_None_iff white_space_def)
  moreover obtain u where "strip_all (map rev white_space) (rev r @ CHR ''/'' # ''oidua'') =
      u @ CHR ''/'' # ''oidua''"
    using strip_all_barrier [of "map rev white_space" "CHR ''/''" "rev r" "''oidua''"]
    by (auto simp: white_space_def)
  ultimately have "trim s = ''audio/'' @ rev u" by (simp add: trim_def trim_end_def r)
  then show ?thesis by simp
qed

lemma labels_readable_iff:
  "labels_readable item \<longleftrightarrow>
   (\<forall>value \<in> set (fz_attachments item).
      is_some_and (art_label value) (\<lambda>label. bounded label 120 \<noteq> None))"
  by (auto simp: labels_readable_def list_all_iff is_some_and_def split: option.splits)

lemma compose_spoken_item_Inr:
  assumes "compose_spoken_item parse_key send host item = Inr intent"
  obtains author composed where "parse_key (fz_author item) = Some author"
    and "validate_spoken_item parse_key item = Inr ()"
    and "send host (fz_group_id item) author (fz_created_at item) 9 (fz_body item) (tags item)
        = Some composed"
    and "intent = composed\<lparr>wi_identity_override := Some author\<rparr>"
  using assms by (auto simp: compose_spoken_item_def bind_result_Inr_iff)

lemma parse_item_composed:
  assumes valid: "validate_spoken_item parse_key item = Inr ()"
    and rows: "\<And>name. name \<noteq> ''h'' \<Longrightarrow> rows ev name = tag_rows (tags item) name"
    and content: "ev_content ev = fz_body item" "ev_created_at ev = fz_created_at item"
  shows "parse_item ev =
    (if labels_readable item then Some (published_view (ev_id ev) (ev_pubkey ev) item) else None)"
proof -
  note v = valid [unfolded validate_spoken_item_iff]
  have qs: "questions ev = Some (map trim_question (fz_questions item))"
    by (rule questions_of_tags) (use v in \<open>simp_all add: rows tags_rows_questions\<close>)
  have attach: "attach_link ev = Some (fz_attach item)"
    using v by (cases "fz_attach item") (simp_all add: attach_link_def rows tags_rows_head)
  have title: "unique ev ''title'' 80 = Some (trim (fz_subject item))"
    using v by (simp add: unique_def rows tags_rows_head bounded_not_None)
  have agent: "optional ev ''agent'' 80 =
      Some (if fz_agent_name item = [] then None else Some (trim (fz_agent_name item)))"
    using v by (auto simp: optional_def rows tags_rows_head bounded_Some_iff)
  have summary: "optional ev ''summary'' 280 =
      Some (if fz_summary item = [] then None else Some (trim (fz_summary item)))"
    using v by (auto simp: optional_def rows tags_rows_head bounded_Some_iff)
  have body: "bounded (fz_body item) 40000 = Some (trim (fz_body item))"
    using v by (simp add: bounded_not_None)
  have audio: "artifact (rows ev ''audio'' ! 0) ''audio'' False = Some (trim_artifact (fz_audio item))"
    using v artifact_row_audio(2) by (simp add: rows tags_rows_head)
  have media: "starts_with (art_media_type (trim_artifact (fz_audio item))) ''audio/''"
    using v starts_with_audio_trim by (simp add: trim_artifact_def)
  have url: "art_url (trim_artifact (fz_audio item)) = trim (art_url (fz_audio item))"
    by (simp add: trim_artifact_def)
  have attachments: "collect_option (\<lambda>value. artifact value ''attachment'' True) (rows ev ''attachment'')
      = Some (map read_attachment (fz_attachments item))"
    using v collect_attachments by (simp add: rows tags_rows_head)
  have lens: "length (rows ev ''audio'') = 1" "\<not> length (rows ev ''attachment'') > 12"
    using v by (simp_all add: rows tags_rows_head)
  show ?thesis
  proof (cases "labels_readable item")
    case True
    then have "map read_attachment (fz_attachments item) = map trim_artifact (fz_attachments item)"
      by (simp add: labels_readable_iff read_attachment_readable)
    moreover have "\<not> (\<exists>value \<in> set (map read_attachment (fz_attachments item)). art_label value = None)"
      using True by (auto simp: labels_readable_iff read_attachment_label)
    ultimately show ?thesis
      using True
      by (simp add: parse_item_def Let_def lens audio media attachments attach agent title summary
          body qs published_view_def content url)
  next
    case False
    then have "\<exists>value \<in> set (map read_attachment (fz_attachments item)). art_label value = None"
      by (auto simp: labels_readable_iff read_attachment_label)
    with False show ?thesis
      by (simp add: parse_item_def Let_def lens audio media attachments)
  qed
qed

lemma sample_item_valid: "validate_spoken_item hex_key_parse sample_item = Inr ()"
  by (simp add: validate_spoken_item_iff sample_item_def valid_artifact_def artifact_def
      artifact_row_def evaluate_text question_ok_def option_ok_def choices_required_def
      MAX_ARTIFACT_BYTES_def)

lemma sample_item_readable: "labels_readable sample_item"
  by (simp add: labels_readable_def sample_item_def evaluate_text)

lemma tags_no_group_row: "tag_rows (tags item) ''h'' = []"
  by (simp add: tags_def Let_def insert_at_2 tag_rows_audio tag_rows_attachments
      tag_rows_question_tags_other split: option.splits)

lemma sample_item_composes:
  "\<exists>intent. compose_spoken_item hex_key_parse plain_group_send ''wss://relay'' sample_item = Inr intent"
proof -
  have "\<exists>k. hex_key_parse (fz_author sample_item) = Some k"
    using sample_item_valid by (auto simp: validate_spoken_item_iff)
  then show ?thesis
    using sample_item_valid
    by (auto simp: compose_spoken_item_def plain_group_send_def ok_or_def tags_no_group_row)
qed

lemma compose_spoken_item_event:
  assumes "group_send_contract send"
    and "compose_spoken_item parse_key send host item = Inr intent"
  shows "validate_spoken_item parse_key item = Inr ()"
    and "name \<noteq> ''h'' \<Longrightarrow> rows (signed_event eid intent) name = tag_rows (tags item) name"
    and "group_matches (signed_event eid intent) (fz_group_id item)"
    and "ev_kind (signed_event eid intent) = 9"
    and "ev_content (signed_event eid intent) = fz_body item"
    and "ev_created_at (signed_event eid intent) = fz_created_at item"
    and "ev_pubkey (signed_event eid intent) = wi_author intent"
    and "ev_id (signed_event eid intent) = eid"
    and "wi_identity_override intent = parse_key (fz_author item)"
proof -
  obtain author composed where
    c: "validate_spoken_item parse_key item = Inr ()" "parse_key (fz_author item) = Some author"
    "send host (fz_group_id item) author (fz_created_at item) 9 (fz_body item) (tags item)
        = Some composed"
    "intent = composed\<lparr>wi_identity_override := Some author\<rparr>"
    using assms(2) by (rule compose_spoken_item_Inr)
  then show "validate_spoken_item parse_key item = Inr ()"
    "name \<noteq> ''h'' \<Longrightarrow> rows (signed_event eid intent) name = tag_rows (tags item) name"
    "group_matches (signed_event eid intent) (fz_group_id item)"
    "ev_kind (signed_event eid intent) = 9"
    "ev_content (signed_event eid intent) = fz_body item"
    "ev_created_at (signed_event eid intent) = fz_created_at item"
    "ev_pubkey (signed_event eid intent) = wi_author intent"
    "ev_id (signed_event eid intent) = eid"
    "wi_identity_override intent = parse_key (fz_author item)"
    using assms(1)
    by (simp_all add: group_send_contract_def group_matches_def rows_def signed_event_def)
qed

lemma compose_spoken_item_parse_item:
  assumes "group_send_contract send"
    and "compose_spoken_item parse_key send host item = Inr intent"
  shows "parse_item (signed_event eid intent) =
    (if labels_readable item then Some (published_view eid (wi_author intent) item) else None)"
  using parse_item_composed [OF compose_spoken_item_event(1) [OF assms],
      OF compose_spoken_item_event(2) [OF assms, of _ eid]
         compose_spoken_item_event(5,6) [OF assms, of eid]]
  by (simp add: compose_spoken_item_event(7,8) [OF assms])

text \<open>
  C8: reading back a composed item. If the item validates and NMP composes it, then the signed event
  parses, in the item's own group, to the published view of the item (every free text trimmed, all
  artifacts, questions and options in order) exactly when every attachment label is readable;
  otherwise it is unreadable for every client. So composition and parsing agree on everything but
  attachment labels.
\<close>

theorem compose_parse_round_trip:
  assumes "group_send_contract send"
    and "compose_spoken_item parse_key send host item = Inr intent"
  shows "parse (signed_event eid intent) (fz_group_id item) =
           (if labels_readable item then Some (Item (published_view eid (wi_author intent) item))
            else None)"
proof -
  have "marker (signed_event eid intent) = Some (''item'', VERSION)"
    by (simp add: marker_def compose_spoken_item_event(2) [OF assms] tags_rows_head)
  then show ?thesis
    by (simp add: parse_def compose_spoken_item_event(3,4) [OF assms]
        compose_spoken_item_parse_item [OF assms])
qed

theorem compose_parse_round_trip_witness:
  "\<exists>intent. compose_spoken_item hex_key_parse plain_group_send ''wss://relay'' sample_item = Inr intent
     \<and> parse (signed_event ''e1'' intent) ''tts'' =
         Some (Item (published_view ''e1'' (wi_author intent) sample_item))"
proof -
  obtain intent where
    i: "compose_spoken_item hex_key_parse plain_group_send ''wss://relay'' sample_item = Inr intent"
    using sample_item_composes by blast
  have "fz_group_id sample_item = ''tts''" by (simp add: sample_item_def)
  then show ?thesis
    using i compose_parse_round_trip [OF plain_group_send_contract i, of "''e1''"]
      sample_item_readable by auto
qed

text \<open>
  Attachment labels escape validation. \<open>valid_artifact\<close> asks only whether \<open>artifact\<close> returns a
  value, and \<open>artifact\<close> turns an unusable label into a missing one, so an item whose attachment label
  is blank is composed and published although no client can parse the published event.
\<close>

theorem blank_label_composes_unreadable:
  "\<exists>intent. compose_spoken_item hex_key_parse plain_group_send ''wss://relay'' blank_label_item = Inr intent
     \<and> parse (signed_event eid intent) ''tts'' = None"
proof -
  have valid: "validate_spoken_item hex_key_parse blank_label_item = Inr ()"
    by (simp add: validate_spoken_item_iff blank_label_item_def sample_item_def valid_artifact_def
        artifact_def artifact_row_def evaluate_text question_ok_def option_ok_def
        choices_required_def MAX_ARTIFACT_BYTES_def)
  then have "\<exists>k. hex_key_parse (fz_author blank_label_item) = Some k"
    by (auto simp: validate_spoken_item_iff)
  then obtain intent where intent:
    "compose_spoken_item hex_key_parse plain_group_send ''wss://relay'' blank_label_item = Inr intent"
    using valid
    by (auto simp: compose_spoken_item_def plain_group_send_def ok_or_def tags_no_group_row)
  then have "parse_item (signed_event eid intent) = None" and "fz_group_id blank_label_item = ''tts''"
    using compose_spoken_item_parse_item [OF plain_group_send_contract intent, of eid]
    by (simp_all add: blank_label_item_def labels_readable_def sample_item_def)
  moreover have "marker (signed_event eid intent) = Some (''item'', VERSION)"
    by (simp add: marker_def compose_spoken_item_event(2) [OF plain_group_send_contract intent]
        tags_rows_head)
  ultimately show ?thesis using intent by (auto simp: parse_def)
qed

end
