(* ===== verification/Answer.thy ===== *)
theory Answer
  imports Compose
begin

text \<open>
  Answer bundles: validity against the questions of an item and selection of the winning reply
  (\<open>protocol/src/answer.rs\<close>), and composition of an answer event (\<open>protocol/src/related.rs\<close>).
\<close>

definition option_ids :: "question \<Rightarrow> string set" where
  "option_ids question = set (map opt_id (q_options question))"

text \<open>
  The questions are collected into a map by id, so of two questions with one id the later is used.
\<close>

definition question_index :: "question list \<Rightarrow> (string, question) btree_map" where
  "question_index qs = fold (\<lambda>question m. btree_insert (q_id question) question m) qs []"

fun valid_answers_loop :: "(string, question) btree_map \<Rightarrow> question_answer list \<Rightarrow> string set \<Rightarrow> bool" where
  "valid_answers_loop qs [] answered = True"
| "valid_answers_loop qs (value # values) answered =
     (if qa_question_id value \<in> answered then False
      else case btree_get qs (qa_question_id value) of
        None \<Rightarrow> False
      | Some question \<Rightarrow>
          (let selected = set (qa_values value) in
           if card selected \<noteq> length (qa_values value) then False
           else
             (case q_kind question of
                Freeform \<Rightarrow> length (qa_values value) = 1
              | SingleChoice \<Rightarrow> length (qa_values value) = 1 \<and> selected \<subseteq> option_ids question
              | MultipleChoice \<Rightarrow> selected \<subseteq> option_ids question)
             \<and> valid_answers_loop qs values (insert (qa_question_id value) answered)))"

definition valid_answer :: "question list \<Rightarrow> answer_bundle \<Rightarrow> bool" where
  "valid_answer qs answer =
     (if ab_answers answer = [] \<or> length (ab_answers answer) > 3 then False
      else valid_answers_loop (question_index qs) (ab_answers answer) {})"

definition answer_order :: "answer_bundle \<Rightarrow> u64 \<times> string" where
  "answer_order value = (ab_created_at value, ab_event_id value)"

definition select_answer :: "question list \<Rightarrow> answer_bundle list \<Rightarrow> answer_bundle option" where
  "select_answer qs candidates = max_by answer_order (filter (valid_answer qs) candidates)"

record frozen_answer =
  fa_author :: string
  fa_created_at :: u64
  fa_group_id :: string
  fa_root_event_id :: string
  fa_content :: string
  fa_answers :: "question_answer list"

datatype related_compose_error =
    AnswerAuthor | AnswerGroup | AnswerRoot | AnswerContent | AnswerValues | AnswerTag

definition related_compose_error_text :: "related_compose_error \<Rightarrow> string" where
  "related_compose_error_text e =
     (case e of
        AnswerAuthor \<Rightarrow> ''the answer author is not a public key''
      | AnswerGroup \<Rightarrow> ''the answer group is invalid''
      | AnswerRoot \<Rightarrow> ''the answer root is not an event id''
      | AnswerContent \<Rightarrow> ''the answer content is invalid''
      | AnswerValues \<Rightarrow> ''the answer values are invalid''
      | AnswerTag \<Rightarrow> ''NMP refused a generated answer tag'')"

fun validate_answers_loop :: "question_answer list \<Rightarrow> string set \<Rightarrow> related_compose_error + unit" where
  "validate_answers_loop [] seen = Inr ()"
| "validate_answers_loop (answer # rest) seen =
     (if identifier_of (qa_question_id answer) = None \<or> qa_question_id answer \<in> seen
         \<or> qa_values answer = [] \<or> length (qa_values answer) > 8
         \<or> (\<exists>value \<in> set (qa_values answer). bounded value 4000 = None)
      then Inl AnswerValues
      else validate_answers_loop rest (insert (qa_question_id answer) seen))"

definition validate_answers :: "question_answer list \<Rightarrow> related_compose_error + unit" where
  "validate_answers answers =
     (if answers = [] \<or> length answers > 3 then Inl AnswerValues else validate_answers_loop answers {})"

definition answer_tags :: "frozen_answer \<Rightarrow> tag list" where
  "answer_tags answer =
     [[''tts29'', ''answer'', VERSION], [''e'', fa_root_event_id answer, [], ''root'']]
     @ map (\<lambda>value. [''answer'', qa_question_id value] @ qa_values value) (fa_answers answer)"

text \<open>\<open>parse_event_id\<close> stands for \<open>nmp::EventId::from_hex\<close>.\<close>

definition compose_answer ::
  "key_parse \<Rightarrow> (string \<Rightarrow> event_id option) \<Rightarrow> group_send \<Rightarrow> relay_url \<Rightarrow> frozen_answer
   \<Rightarrow> related_compose_error + write_intent" where
  "compose_answer parse_key parse_event_id send host answer =
     bind_result (ok_or AnswerAuthor (parse_key (fa_author answer))) (\<lambda>author.
     bind_result (ok_or AnswerGroup (bounded (fa_group_id answer) 128)) (\<lambda>_.
     bind_result (ok_or AnswerRoot (parse_event_id (fa_root_event_id answer))) (\<lambda>_.
     bind_result (ok_or AnswerContent (bounded (fa_content answer) 4000)) (\<lambda>_.
     bind_result (validate_answers (fa_answers answer)) (\<lambda>_.
     bind_result (ok_or AnswerTag
       (send host (fa_group_id answer) author (fa_created_at answer) 9 (fa_content answer)
          (answer_tags answer)))
       (\<lambda>intent. Inr (intent\<lparr>wi_identity_override := Some author\<rparr>)))))))"

definition trim_answer :: "question_answer \<Rightarrow> question_answer" where
  "trim_answer qa = \<lparr>qa_question_id = qa_question_id qa, qa_values = map trim (qa_values qa)\<rparr>"

definition answer_view :: "event_id \<Rightarrow> public_key \<Rightarrow> frozen_answer \<Rightarrow> answer_bundle related" where
  "answer_view eid author answer =
     \<lparr>rel_root_id = fa_root_event_id answer,
      rel_value = \<lparr>ab_event_id = eid, ab_author = author, ab_created_at = fa_created_at answer,
                   ab_answers = map trim_answer (fa_answers answer)\<rparr>\<rparr>"

definition answer_value_ok :: "question \<Rightarrow> question_answer \<Rightarrow> bool" where
  "answer_value_ok question value \<longleftrightarrow>
     distinct (qa_values value)
     \<and> (q_kind question \<noteq> MultipleChoice \<longrightarrow> length (qa_values value) = 1)
     \<and> (q_kind question \<noteq> Freeform \<longrightarrow> set (qa_values value) \<subseteq> option_ids question)"


section \<open>Validity and selection\<close>

lemma question_index_fold:
  "btree_invar m \<Longrightarrow>
   btree_invar (fold (\<lambda>question m. btree_insert (q_id question) question m) qs m)
   \<and> btree_get (fold (\<lambda>question m. btree_insert (q_id question) question m) qs m) =
     btree_get m ++ map_of (rev (map (\<lambda>q. (q_id q, q)) qs))"
  by (induction qs arbitrary: m) (simp_all add: btree)

lemma question_index_get:
  "btree_get (question_index qs) = map_of (rev (map (\<lambda>q. (q_id q, q)) qs))"
  using question_index_fold [of "[]" qs] by (simp add: question_index_def btree)

lemma question_index_mem:
  "distinct (map q_id qs) \<Longrightarrow>
   btree_get (question_index qs) k = Some q \<longleftrightarrow> q \<in> set qs \<and> q_id q = k"
  unfolding question_index_get
  by (subst map_of_eq_Some_iff) (auto simp: rev_map [symmetric] comp_def)

lemma valid_answers_loop_iff:
  "valid_answers_loop qs vs answered \<longleftrightarrow>
     distinct (map qa_question_id vs) \<and> set (map qa_question_id vs) \<inter> answered = {}
     \<and> list_all (\<lambda>v. is_some_and (btree_get qs (qa_question_id v)) (\<lambda>q. answer_value_ok q v)) vs"
proof (induction qs vs answered rule: valid_answers_loop.induct)
  case (2 qs v vs answered)
  have card: "card (set (qa_values v)) = length (qa_values v) \<longleftrightarrow> distinct (qa_values v)"
    using card_distinct distinct_card by blast
  show ?case
  proof (cases "btree_get qs (qa_question_id v)")
    case (Some q)
    with 2 show ?thesis
      by (cases "q_kind q") (auto simp: card Let_def answer_value_ok_def)
  qed auto
qed simp

lemma valid_answer_iff:
  "valid_answer qs answer \<longleftrightarrow>
     ab_answers answer \<noteq> [] \<and> length (ab_answers answer) \<le> 3
     \<and> distinct (map qa_question_id (ab_answers answer))
     \<and> list_all (\<lambda>v. is_some_and (btree_get (question_index qs) (qa_question_id v))
         (\<lambda>q. answer_value_ok q v)) (ab_answers answer)"
  by (auto simp: valid_answer_def valid_answers_loop_iff)


lemma valid_answer_cong:
  assumes "ab_answers a = ab_answers b"
  shows "valid_answer qs a = valid_answer qs b"
  using assms by (simp add: valid_answer_def)

lemma select_answer_Some:
  assumes "select_answer qs candidates = Some a"
  shows "a \<in> set candidates" and "valid_answer qs a"
    and "b \<in> set candidates \<Longrightarrow> valid_answer qs b \<Longrightarrow> answer_order b \<le> answer_order a"
  using max_by_Some [OF assms [unfolded select_answer_def]] by auto

lemma select_answer_None_iff:
  "select_answer qs candidates = None \<longleftrightarrow> (\<forall>a \<in> set candidates. \<not> valid_answer qs a)"
  by (simp add: select_answer_def filter_empty_conv)

section \<open>Reading back a composed answer\<close>

lemma validate_answers_loop_iff:
  "validate_answers_loop answers seen = Inr () \<longleftrightarrow>
     distinct (map qa_question_id answers) \<and> set (map qa_question_id answers) \<inter> seen = {}
     \<and> list_all (\<lambda>a. identifier_of (qa_question_id a) \<noteq> None \<and> qa_values a \<noteq> []
         \<and> length (qa_values a) \<le> 8 \<and> (\<forall>v \<in> set (qa_values a). bounded v 4000 \<noteq> None)) answers"
  by (induction answers seen rule: validate_answers_loop.induct) auto

lemma parse_answer_loop_rows:
  assumes "validate_answers_loop answers seen = Inr ()"
  shows "parse_answer_loop (map (\<lambda>value. [''answer'', qa_question_id value] @ qa_values value) answers)
           seen result = Some (result @ map trim_answer answers)"
  using assms
proof (induction answers arbitrary: seen result)
  case (Cons a as)
  then have a: "identifier_of (qa_question_id a) = Some (qa_question_id a)" "qa_question_id a \<notin> seen"
    "qa_values a \<noteq> []" "length (qa_values a) \<le> 8"
    "validate_answers_loop as (insert (qa_question_id a) seen) = Inr ()"
    by (auto split: if_splits dest: identifier_of_SomeD)
  have vals: "collect_option (\<lambda>item. bounded item 4000) (qa_values a) = Some (map trim (qa_values a))"
    using Cons.prems bounded_not_None by (intro collect_option_all) (auto split: if_splits)
  have "1 \<le> length (qa_values a)" using a(3) by (cases "qa_values a") auto
  with a vals Cons.IH [OF a(5)] show ?case by (simp add: trim_answer_def)
qed simp

lemma answer_tags_rows:
  "tag_rows (answer_tags a) ''tts29'' = [[''tts29'', ''answer'', VERSION]]"
  "tag_rows (answer_tags a) ''e'' = [[''e'', fa_root_event_id a, [], ''root'']]"
  "tag_rows (answer_tags a) ''answer'' =
     map (\<lambda>value. [''answer'', qa_question_id value] @ qa_values value) (fa_answers a)"
proof -
  have other: "tag_rows (map (\<lambda>value. [''answer'', qa_question_id value] @ qa_values value) as) name =
      (if name = ''answer''
       then map (\<lambda>value. [''answer'', qa_question_id value] @ qa_values value) as else [])" for as name
    by (induction as) auto
  show "tag_rows (answer_tags a) ''tts29'' = [[''tts29'', ''answer'', VERSION]]"
    "tag_rows (answer_tags a) ''e'' = [[''e'', fa_root_event_id a, [], ''root'']]"
    "tag_rows (answer_tags a) ''answer'' =
       map (\<lambda>value. [''answer'', qa_question_id value] @ qa_values value) (fa_answers a)"
    unfolding answer_tags_def tag_rows_append other by simp_all
qed

lemma compose_answer_event:
  assumes "group_send_contract send"
    and "compose_answer parse_key parse_event_id send host answer = Inr intent"
  shows "validate_answers (fa_answers answer) = Inr ()"
    and "name \<noteq> ''h'' \<Longrightarrow> rows (signed_event eid intent) name = tag_rows (answer_tags answer) name"
    and "group_matches (signed_event eid intent) (fa_group_id answer)"
    and "ev_kind (signed_event eid intent) = 9"
    and "ev_created_at (signed_event eid intent) = fa_created_at answer"
    and "ev_pubkey (signed_event eid intent) = wi_author intent"
    and "ev_id (signed_event eid intent) = eid"
    and "wi_identity_override intent = parse_key (fa_author answer)"
  using assms
  by (auto simp: compose_answer_def bind_result_Inr_iff group_send_contract_def group_matches_def
      rows_def signed_event_def)

lemma parse_answer_composed:
  assumes "group_send_contract send"
    and "compose_answer parse_key parse_event_id send host answer = Inr intent"
  shows "parse_answer (signed_event eid intent) =
      (if is_lower_hex (fa_root_event_id answer) 64
       then Some (answer_view eid (wi_author intent) answer) else None)"
proof -
  note ev = compose_answer_event [OF assms]
  have root: "root_event (signed_event eid intent) =
      (if is_lower_hex (fa_root_event_id answer) 64 then Some (fa_root_event_id answer) else None)"
    by (simp add: root_event_def ev(2) answer_tags_rows Let_def)
  have "fa_answers answer \<noteq> []" "length (fa_answers answer) \<le> 3"
    "validate_answers_loop (fa_answers answer) {} = Inr ()"
    using ev(1) by (auto simp: validate_answers_def split: if_splits)
  then show ?thesis
    using parse_answer_loop_rows [of "fa_answers answer" "{}" "[]"]
    by (simp add: parse_answer_def ev(2,5,6,7) answer_tags_rows root answer_view_def Let_def)
qed

text \<open>
  Reading back a composed answer. The signed event of a composed answer parses to the answer's
  reply (values trimmed) under its root, exactly when the root is written as a lower-case event id;
  the composer itself accepts every root \<open>EventId::from_hex\<close> accepts.
\<close>

theorem answer_round_trip:
  assumes "group_send_contract send"
    and "compose_answer parse_key parse_event_id send host answer = Inr intent"
  shows "parse (signed_event eid intent) (fa_group_id answer) =
           (if is_lower_hex (fa_root_event_id answer) 64
            then Some (Answer (answer_view eid (wi_author intent) answer)) else None)"
proof -
  have "marker (signed_event eid intent) = Some (''answer'', VERSION)"
    by (simp add: marker_def compose_answer_event(2) [OF assms] answer_tags_rows)
  then show ?thesis
    by (simp add: parse_def compose_answer_event(3,4) [OF assms] parse_answer_composed [OF assms])
qed

text \<open>A concrete answer, for witnesses.\<close>

definition sample_answer :: frozen_answer where
  "sample_answer =
     \<lparr>fa_author = replicate 64 (CHR ''2''), fa_created_at = 200, fa_group_id = ''tts'',
      fa_root_event_id = replicate 64 (CHR ''a''), fa_content = ''Ship: Yes'',
      fa_answers = [\<lparr>qa_question_id = ''ship'', qa_values = [''yes'']\<rparr>]\<rparr>"

lemma sample_answer_composes:
  "\<exists>intent. compose_answer hex_key_parse hex_key_parse plain_group_send ''wss://relay'' sample_answer
     = Inr intent"
proof -
  have "tag_rows (answer_tags sample_answer) ''h'' = []"
    by (simp add: answer_tags_def sample_answer_def)
  then show ?thesis
    by (simp add: compose_answer_def sample_answer_def validate_answers_def evaluate_text
        plain_group_send_def ok_or_def)
qed

theorem answer_round_trip_witness:
  "\<exists>intent. compose_answer hex_key_parse hex_key_parse plain_group_send ''wss://relay'' sample_answer
       = Inr intent
     \<and> parse (signed_event ''e2'' intent) ''tts'' =
         Some (Answer (answer_view ''e2'' (wi_author intent) sample_answer))"
proof -
  obtain intent where i:
    "compose_answer hex_key_parse hex_key_parse plain_group_send ''wss://relay'' sample_answer
       = Inr intent"
    using sample_answer_composes by blast
  have "fa_group_id sample_answer = ''tts''" "is_lower_hex (fa_root_event_id sample_answer) 64"
    by (simp_all add: sample_answer_def evaluate_text)
  then show ?thesis
    using i answer_round_trip [OF plain_group_send_contract i, of "''e2''"] by auto
qed

section \<open>A valid answer stays valid through publication\<close>

lemma trim_identifier:
  assumes "identifier_of s \<noteq> None"
  shows "trim s = s"
proof (rule trim_graphic)
  have g: "is_graphic c" if "c \<in> set s" for c
    using assms that
    by (auto simp: identifier_of_def list_all_iff is_graphic_def is_ascii_alphanumeric_def
        is_ascii_digit_def split: if_splits)
  show "s \<noteq> []" using assms by (auto simp: identifier_of_def)
  then show "is_graphic (hd s)" "is_graphic (last s)" by (simp_all add: g)
qed

lemma composed_answer_valid:
  assumes "group_send_contract send"
    and "compose_answer parse_key parse_event_id send host answer = Inr intent"
    and "is_lower_hex (fa_root_event_id answer) 64"
    and "valid_answer qs \<lparr>ab_event_id = [], ab_author = fa_author answer,
           ab_created_at = fa_created_at answer, ab_answers = fa_answers answer\<rparr>"
    and "\<forall>q \<in> set qs. \<forall>opt \<in> set (q_options q). identifier_of (opt_id opt) \<noteq> None"
  shows "\<exists>reply. parse (signed_event eid intent) (fa_group_id answer) = Some (Answer reply)
           \<and> rel_root_id reply = fa_root_event_id answer \<and> valid_answer qs (rel_value reply)"
proof -
  let ?reply = "answer_view eid (wi_author intent) answer"
  have ok: "answer_value_ok q (trim_answer v)"
    if q: "btree_get (question_index qs) k = Some q" and v: "answer_value_ok q v" for q k v
  proof -
    have "q \<in> set qs" using q by (auto simp: question_index_get dest: map_of_SomeD)
    then have "trim i = i" if "i \<in> option_ids q" for i
      using that assms(5) by (auto simp: option_ids_def intro: trim_identifier)
    then have "map trim (qa_values v) = qa_values v" if "q_kind q \<noteq> Freeform"
      using that v by (intro map_idI) (auto simp: answer_value_ok_def)
    moreover have "distinct (map trim (qa_values v))" if "q_kind q = Freeform"
      using that v by (cases "qa_values v") (auto simp: answer_value_ok_def)
    ultimately show ?thesis
      using v by (cases "q_kind q = Freeform") (auto simp: answer_value_ok_def trim_answer_def)
  qed
  have id: "qa_question_id (trim_answer v) = qa_question_id v" for v by (simp add: trim_answer_def)
  have "valid_answer qs (rel_value ?reply)"
    using assms(4) ok
    by (auto simp: valid_answer_iff answer_view_def list_all_iff id is_some_and_iff comp_def)
  moreover have "marker (signed_event eid intent) = Some (''answer'', VERSION)"
    by (simp add: marker_def compose_answer_event(2) [OF assms(1,2)] answer_tags_rows)
  ultimately show ?thesis
    using parse_answer_composed [OF assms(1,2), of eid] assms(3)
    by (simp add: parse_def compose_answer_event(3,4) [OF assms(1,2)] answer_view_def)
qed

text \<open>
  What the app accepts, the group accepts. If an answer is valid for an item's questions (whose
  option ids are identifiers, as parsing guarantees) and is composed, then the reply every client
  reads back from the signed event is valid for the same questions.
\<close>

theorem composed_answer_stays_valid:
  assumes "group_send_contract send"
    and "compose_answer parse_key parse_event_id send host answer = Inr intent"
    and "is_lower_hex (fa_root_event_id answer) 64"
    and "valid_answer qs \<lparr>ab_event_id = [], ab_author = fa_author answer,
           ab_created_at = fa_created_at answer, ab_answers = fa_answers answer\<rparr>"
    and "\<forall>q \<in> set qs. \<forall>opt \<in> set (q_options q). identifier_of (opt_id opt) \<noteq> None"
  shows "\<exists>reply. parse (signed_event eid intent) (fa_group_id answer) = Some (Answer reply)
           \<and> rel_root_id reply = fa_root_event_id answer \<and> valid_answer qs (rel_value reply)"
  using composed_answer_valid [OF assms] .

theorem composed_answer_stays_valid_witness:
  "\<exists>intent reply.
     compose_answer hex_key_parse hex_key_parse plain_group_send ''wss://relay'' sample_answer = Inr intent
     \<and> parse (signed_event ''e2'' intent) ''tts'' = Some (Answer reply)
     \<and> valid_answer (fz_questions sample_item) (rel_value reply)"
proof -
  obtain intent where i:
    "compose_answer hex_key_parse hex_key_parse plain_group_send ''wss://relay'' sample_answer
       = Inr intent"
    using sample_answer_composes by blast
  have "is_lower_hex (fa_root_event_id sample_answer) 64"
    by (simp add: sample_answer_def evaluate_text)
  moreover have "valid_answer (fz_questions sample_item)
      \<lparr>ab_event_id = [], ab_author = fa_author sample_answer,
       ab_created_at = fa_created_at sample_answer, ab_answers = fa_answers sample_answer\<rparr>"
    by (simp add: valid_answer_def sample_answer_def sample_item_def question_index_def
        btree_get_def option_ids_def)
  moreover have "\<forall>q \<in> set (fz_questions sample_item). \<forall>opt \<in> set (q_options q).
      identifier_of (opt_id opt) \<noteq> None"
    by (simp add: sample_item_def evaluate_text)
  ultimately show ?thesis
    using i composed_answer_stays_valid [OF plain_group_send_contract i, of _ "''e2''"]
    by (fastforce simp: sample_answer_def)
qed

end
