(* ===== verification/Projection.thy ===== *)
theory Projection
  imports Answer
begin

text \<open>
  The queue projection of the app kernel (\<open>core/src/projection.rs\<close>, data of \<open>core/src/model.rs\<close>): the
  rows NMP holds for the group become one bounded, deterministic queue snapshot.
\<close>

definition MAX_PROJECTED_ITEMS :: nat where "MAX_PROJECTED_ITEMS = 40"
definition MAX_ATTACH_DEPTH :: nat where "MAX_ATTACH_DEPTH = 3"
definition MAX_CHILDREN :: nat where "MAX_CHILDREN = 12"

record kernel_configuration =
  kc_relay :: string
  kc_group_id :: string
  kc_store_path :: "string option"
  kc_viewer_pubkey :: "string option"

datatype kernel_phase = Starting | Listening | KernelFailed | Stopped

datatype identity_phase = SignedOut | Saving | SignedIn | LoggingOut

record identity_snapshot =
  ids_phase :: identity_phase
  ids_pubkey :: "string option"
  ids_error :: "string option"

definition signed_out :: identity_snapshot where
  "signed_out = \<lparr>ids_phase = SignedOut, ids_pubkey = None, ids_error = None\<rparr>"

datatype credential_operation = CredentialStore | CredentialDelete

record credential_request =
  cr_id :: u64
  cr_operation :: credential_operation

datatype answer_submission_phase = Sending | SubmissionPublished | SubmissionFailed

record answer_submission_snapshot =
  as_item_id :: string
  as_phase :: answer_submission_phase
  as_receipt_id :: "u64 option"
  as_event_id :: "string option"
  as_error :: "string option"

record queue_evidence =
  qe_source_count :: nat
  qe_shortfall_count :: nat
  qe_rejected_event_count :: nat

record queue_snapshot =
  qs_phase :: kernel_phase
  qs_relay :: string
  qs_group_id :: string
  qs_items :: "spoken_item list"
  qs_evidence :: queue_evidence
  qs_error :: "string option"
  qs_identity :: identity_snapshot
  qs_credential_request :: "credential_request option"
  qs_answer_submissions :: "answer_submission_snapshot list"

definition lifecycle :: "kernel_configuration \<Rightarrow> kernel_phase \<Rightarrow> queue_snapshot" where
  "lifecycle configuration phase =
     \<lparr>qs_phase = phase, qs_relay = kc_relay configuration, qs_group_id = kc_group_id configuration,
      qs_items = [],
      qs_evidence = \<lparr>qe_source_count = 0, qe_shortfall_count = 0, qe_rejected_event_count = 0\<rparr>,
      qs_error = None, qs_identity = signed_out, qs_credential_request = None,
      qs_answer_submissions = []\<rparr>"

definition failed_snapshot :: "kernel_configuration \<Rightarrow> string \<Rightarrow> queue_snapshot" where
  "failed_snapshot configuration error =
     (lifecycle configuration KernelFailed)\<lparr>qs_error := Some error\<rparr>"

section \<open>Collecting the parsed rows\<close>

type_synonym ack_key = "string \<times> string"
type_synonym reaction_key = "string \<times> string \<times> string"

record collected =
  co_items :: "(string, spoken_item) btree_map"
  co_answers :: "(string, answer_bundle list) btree_map"
  co_acknowledgements :: "(ack_key, acknowledgement) btree_map"
  co_reactions :: "(reaction_key, reaction) btree_map"
  co_rejected :: nat

definition acknowledgement_order :: "acknowledgement \<Rightarrow> u64 \<times> string" where
  "acknowledgement_order value = (ack_created_at value, ack_event_id value)"

definition reaction_order :: "reaction \<Rightarrow> u64 \<times> string" where
  "reaction_order value = (re_created_at value, re_event_id value)"

definition replace_latest ::
  "('k::linorder, 'v) btree_map \<Rightarrow> 'k \<Rightarrow> 'v \<Rightarrow> ('v \<Rightarrow> u64 \<times> string) \<Rightarrow> ('k, 'v) btree_map" where
  "replace_latest m key candidate order =
     (if (case btree_get m key of None \<Rightarrow> True | Some current \<Rightarrow> order candidate > order current)
      then btree_insert key candidate m else m)"

text \<open>The body of \<open>for row in rows\<close>.\<close>

definition collect_row :: "string \<Rightarrow> event \<Rightarrow> collected \<Rightarrow> collected" where
  "collect_row group_id row c =
     (case parse row group_id of
        Some (Item item) \<Rightarrow> c\<lparr>co_items := btree_insert (item_id item) item (co_items c)\<rparr>
      | Some (Answer ev) \<Rightarrow>
          c\<lparr>co_answers := btree_push (rel_root_id ev) (rel_value ev) (co_answers c)\<rparr>
      | Some (Acknowledgement ev) \<Rightarrow>
          c\<lparr>co_acknowledgements :=
              replace_latest (co_acknowledgements c) (rel_root_id ev, ack_author (rel_value ev))
                (rel_value ev) acknowledgement_order\<rparr>
      | Some (Reaction ev) \<Rightarrow>
          c\<lparr>co_reactions :=
              replace_latest (co_reactions c)
                (rel_root_id ev, re_author (rel_value ev), re_emoji (rel_value ev))
                (rel_value ev) reaction_order\<rparr>
      | None \<Rightarrow> c\<lparr>co_rejected := Suc (co_rejected c)\<rparr>)"

definition no_rows :: collected where
  "no_rows = \<lparr>co_items = [], co_answers = [], co_acknowledgements = [], co_reactions = [],
              co_rejected = 0\<rparr>"

definition collect_rows :: "string \<Rightarrow> event list \<Rightarrow> collected" where
  "collect_rows group_id rs = fold (collect_row group_id) rs no_rows"

text \<open>Related events whose root is not an item of the window.\<close>

definition unknown_root_count :: "collected \<Rightarrow> nat" where
  "unknown_root_count c =
     (let known = set (btree_keys (co_items c)) in
      sum_list (map (\<lambda>(root, vs). length vs) (filter (\<lambda>(root, vs). root \<notin> known) (co_answers c)))
      + length (filter (\<lambda>(root, author). root \<notin> known) (btree_keys (co_acknowledgements c)))
      + length (filter (\<lambda>(root, author, emoji). root \<notin> known) (btree_keys (co_reactions c))))"

section \<open>Resolving related state\<close>

definition group_reaction ::
  "string \<Rightarrow> reaction_key \<times> reaction \<Rightarrow> (string, string list) btree_map
   \<Rightarrow> (string, string list) btree_map" where
  "group_reaction root_id entry grouped =
     (case entry of ((root, author, emoji), reaction) \<Rightarrow>
        if root = root_id \<and> re_active reaction then btree_push emoji author grouped else grouped)"

definition reaction_summaries ::
  "string \<Rightarrow> (reaction_key, reaction) btree_map \<Rightarrow> reaction_summary list" where
  "reaction_summaries root_id reactions =
     map (\<lambda>(emoji, authors).
            let authors = sort_by (\<le>) authors in
            \<lparr>rs_emoji = emoji, rs_count = length authors, rs_authors = authors\<rparr>)
       (fold (group_reaction root_id) reactions [])"

type_synonym resolve_state =
  "(string, answer_bundle list) btree_map \<times> (ack_key, acknowledgement) btree_map \<times> nat
   \<times> (string, spoken_item) btree_map"

text \<open>
  The body of \<open>for (id, mut item) in items\<close>: the item takes its candidate answers and the viewer's
  acknowledgement out of the maps and is stored in \<open>resolved\<close>.
\<close>

definition resolve_item ::
  "string option \<Rightarrow> (reaction_key, reaction) btree_map \<Rightarrow> string \<times> spoken_item
   \<Rightarrow> resolve_state \<Rightarrow> resolve_state" where
  "resolve_item viewer reactions entry state =
     (case (entry, state) of ((ident, SpokenItem item children), (answers, acknowledgements, rejected, resolved)) \<Rightarrow>
        let candidates = (case btree_get answers (si_id item) of None \<Rightarrow> [] | Some vs \<Rightarrow> vs);
            answers = btree_remove (si_id item) answers;
            valid = filter (valid_answer (si_questions item)) candidates;
            invalid = filter (\<lambda>answer. \<not> valid_answer (si_questions item) answer) candidates;
            rejected = rejected + length invalid;
            (acknowledgement, acknowledgements) =
              (case viewer of
                 None \<Rightarrow> (None, acknowledgements)
               | Some author \<Rightarrow>
                   (btree_get acknowledgements (si_id item, author),
                    btree_remove (si_id item, author) acknowledgements));
            item = item\<lparr>si_answer := max_by answer_order valid,
                        si_acknowledgement := acknowledgement,
                        si_reactions := reaction_summaries (si_id item) reactions\<rparr>
        in (answers, acknowledgements, rejected, btree_insert ident (SpokenItem item children) resolved))"

section \<open>Nesting narrated children and ordering the screen\<close>

type_synonym child_index = "(string, string list) btree_map"

text \<open>The body of \<open>for (id, item) in &resolved\<close>.\<close>

definition index_item ::
  "(string, spoken_item) btree_map \<Rightarrow> string \<times> spoken_item \<Rightarrow> child_index \<times> string list \<times> nat
   \<Rightarrow> child_index \<times> string list \<times> nat" where
  "index_item resolved entry state =
     (case (entry, state) of ((ident, item), (children_by_parent, top_level, rejected)) \<Rightarrow>
        (case si_attach (item_fields item) of
           Some link \<Rightarrow>
             if btree_contains resolved (al_parent_id link)
             then (btree_push (al_parent_id link) ident children_by_parent, top_level, rejected)
             else (children_by_parent, top_level, Suc rejected)
         | None \<Rightarrow> (children_by_parent, top_level @ [ident], rejected)))"

text \<open>\<open>resolved[id]\<close> panics on a missing key; every id compared below is a key of \<open>resolved\<close>.\<close>

definition created_of :: "(string, spoken_item) btree_map \<Rightarrow> string \<Rightarrow> u64" where
  "created_of resolved ident =
     (case btree_get resolved ident of None \<Rightarrow> 0 | Some item \<Rightarrow> si_created_at (item_fields item))"

definition child_le :: "(string, spoken_item) btree_map \<Rightarrow> string \<Rightarrow> string \<Rightarrow> bool" where
  "child_le resolved left right \<longleftrightarrow>
     created_of resolved left < created_of resolved right
     \<or> (created_of resolved left = created_of resolved right \<and> left \<le> right)"

definition screen_le :: "(string, spoken_item) btree_map \<Rightarrow> string \<Rightarrow> string \<Rightarrow> bool" where
  "screen_le resolved left right \<longleftrightarrow>
     created_of resolved right < created_of resolved left
     \<or> (created_of resolved right = created_of resolved left \<and> left \<le> right)"

definition is_hidden :: "spoken_item \<Rightarrow> bool" where
  "is_hidden item \<longleftrightarrow>
     is_some_and (si_acknowledgement (item_fields item))
       (\<lambda>value. ack_state value = Dismissed \<or> ack_state value = Archived)"

text \<open>
  \<open>assemble_subtree\<close> with its loop over the child ids. The loop threads the visited set and the
  rejected counter; \<open>sub\<close> is the recursive call one level deeper.
\<close>

fun assemble_children ::
  "(string \<Rightarrow> string set \<Rightarrow> nat \<Rightarrow> spoken_item option \<times> string set \<times> nat)
   \<Rightarrow> string list \<Rightarrow> spoken_item list \<Rightarrow> string set \<Rightarrow> nat \<Rightarrow> spoken_item list \<times> string set \<times> nat" where
  "assemble_children sub [] children visited rejected = (children, visited, rejected)"
| "assemble_children sub (child_id # rest) children visited rejected =
     (if length children \<ge> MAX_CHILDREN
      then assemble_children sub rest children visited (Suc rejected)
      else case sub child_id visited rejected of
        (Some child, visited, rejected) \<Rightarrow>
          assemble_children sub rest (children @ [child]) visited rejected
      | (None, visited, rejected) \<Rightarrow> assemble_children sub rest children visited (Suc rejected))"

function assemble_subtree ::
  "(string, spoken_item) btree_map \<Rightarrow> child_index \<Rightarrow> nat \<Rightarrow> string \<Rightarrow> string set \<Rightarrow> nat
   \<Rightarrow> spoken_item option \<times> string set \<times> nat" where
  "assemble_subtree resolved children_by_parent depth ident visited rejected =
     (if ident \<in> visited then (None, visited, rejected)
      else
        (let visited = insert ident visited in
         case btree_get resolved ident of
           None \<Rightarrow> (None, visited, rejected)
         | Some item \<Rightarrow>
             (let child_ids = (case btree_get children_by_parent ident of None \<Rightarrow> [] | Some ids \<Rightarrow> ids) in
              if depth \<ge> MAX_ATTACH_DEPTH
              then (Some (SpokenItem (item_fields item) []), visited, rejected + length child_ids)
              else case assemble_children (assemble_subtree resolved children_by_parent (Suc depth))
                     child_ids [] visited rejected of
                (children, visited, rejected) \<Rightarrow>
                  (Some (SpokenItem (item_fields item) children), visited, rejected))))"
  by pat_completeness auto
termination
  by (relation "measure (\<lambda>(resolved, cbp, depth, ident, visited, rejected). MAX_ATTACH_DEPTH - depth)") auto

declare assemble_subtree.simps [simp del]

fun assemble_screen ::
  "(string, spoken_item) btree_map \<Rightarrow> child_index \<Rightarrow> string list \<Rightarrow> string set \<Rightarrow> nat
   \<Rightarrow> spoken_item list \<times> nat" where
  "assemble_screen resolved children_by_parent [] visited rejected = ([], rejected)"
| "assemble_screen resolved children_by_parent (ident # rest) visited rejected =
     (case assemble_subtree resolved children_by_parent 0 ident visited rejected of
        (projected, visited, rejected) \<Rightarrow>
          (case assemble_screen resolved children_by_parent rest visited rejected of
             (items, rejected) \<Rightarrow>
               (case projected of None \<Rightarrow> items | Some item \<Rightarrow> item # items, rejected)))"

definition screen_ids :: "(string, spoken_item) btree_map \<Rightarrow> string list \<Rightarrow> string list" where
  "screen_ids resolved top_level =
     take MAX_PROJECTED_ITEMS
       (sort_by (screen_le resolved)
          (filter (\<lambda>ident. \<not> is_some_and (btree_get resolved ident) is_hidden) top_level))"

text \<open>Everything \<open>project\<close> does after the rows are collected: items and rejected count.\<close>

definition resolve_all :: "string option \<Rightarrow> collected \<Rightarrow> (string, spoken_item) btree_map \<times> nat" where
  "resolve_all viewer c =
     (case fold (resolve_item viewer (co_reactions c)) (co_items c)
             (co_answers c, co_acknowledgements c, co_rejected c + unknown_root_count c, []) of
        (answers, acknowledgements, rejected, resolved) \<Rightarrow> (resolved, rejected))"

definition project_items :: "(string, spoken_item) btree_map \<Rightarrow> nat \<Rightarrow> spoken_item list \<times> nat" where
  "project_items resolved rejected =
     (case fold (index_item resolved) resolved ([], [], rejected) of
        (children_by_parent, top_level, rejected) \<Rightarrow>
          assemble_screen resolved
            (map (\<lambda>(parent, ids). (parent, sort_by (child_le resolved) ids)) children_by_parent)
            (screen_ids resolved top_level) {} rejected)"

definition project ::
  "kernel_configuration \<Rightarrow> event list \<Rightarrow> acquisition_evidence \<Rightarrow> queue_snapshot" where
  "project configuration rs evidence =
     (case resolve_all (kc_viewer_pubkey configuration) (collect_rows (kc_group_id configuration) rs) of
        (resolved, rejected) \<Rightarrow>
     (case project_items resolved rejected of
        (projected, rejected) \<Rightarrow>
          \<lparr>qs_phase = Listening, qs_relay = kc_relay configuration,
           qs_group_id = kc_group_id configuration, qs_items = projected,
           qs_evidence = \<lparr>qe_source_count = length (aq_sources evidence),
                          qe_shortfall_count = length (aq_shortfall evidence),
                          qe_rejected_event_count = rejected\<rparr>,
           qs_error = None, qs_identity = signed_out, qs_credential_request = None,
           qs_answer_submissions = []\<rparr>))"

end
