(* ===== verification/Projection_Laws.thy ===== *)
theory Projection_Laws
  imports Projection "HOL-Library.Multiset"
begin

text \<open>
  Correctness of the queue projection: what the collected maps hold as a function of the rows, the
  resolving pass in closed form, the nesting pass as a bounded unfolding of the attach relation
  (interface \<open>attach_forest\<close>, interpreted on the projection's own maps), and from these the shape,
  order, completeness and related state of the snapshot and its independence of delivery order.
\<close>

section \<open>What the collected maps hold\<close>

definition items_of :: "string \<Rightarrow> event list \<Rightarrow> spoken_item list" where
  "items_of group_id rs =
     List.map_filter (\<lambda>r. case parse r group_id of Some (Item item) \<Rightarrow> Some item | _ \<Rightarrow> None) rs"

definition answers_of :: "string \<Rightarrow> event list \<Rightarrow> string \<Rightarrow> answer_bundle list" where
  "answers_of group_id rs root =
     List.map_filter (\<lambda>r. case parse r group_id of
         Some (Answer ev) \<Rightarrow> if rel_root_id ev = root then Some (rel_value ev) else None
       | _ \<Rightarrow> None) rs"

definition acknowledgements_of :: "string \<Rightarrow> event list \<Rightarrow> ack_key \<Rightarrow> acknowledgement list" where
  "acknowledgements_of group_id rs key =
     List.map_filter (\<lambda>r. case parse r group_id of
         Some (Acknowledgement ev) \<Rightarrow>
           if (rel_root_id ev, ack_author (rel_value ev)) = key then Some (rel_value ev) else None
       | _ \<Rightarrow> None) rs"

definition reactions_of :: "string \<Rightarrow> event list \<Rightarrow> reaction_key \<Rightarrow> reaction list" where
  "reactions_of group_id rs key =
     List.map_filter (\<lambda>r. case parse r group_id of
         Some (Reaction ev) \<Rightarrow>
           if (rel_root_id ev, re_author (rel_value ev), re_emoji (rel_value ev)) = key
           then Some (rel_value ev) else None
       | _ \<Rightarrow> None) rs"

definition unparsed_of :: "string \<Rightarrow> event list \<Rightarrow> event list" where
  "unparsed_of group_id rs = filter (\<lambda>r. parse r group_id = None) rs"

fun latest_from :: "('v \<Rightarrow> 'o::linorder) \<Rightarrow> 'v option \<Rightarrow> 'v list \<Rightarrow> 'v option" where
  "latest_from order best [] = best"
| "latest_from order None (v # vs) = latest_from order (Some v) vs"
| "latest_from order (Some b) (v # vs) = latest_from order (Some (if order v > order b then v else b)) vs"

definition listed :: "'a list option \<Rightarrow> 'a list" where
  "listed x = (case x of None \<Rightarrow> [] | Some vs \<Rightarrow> vs)"

lemma listed_simps [simp]: "listed None = []" "listed (Some vs) = vs"
  by (simp_all add: listed_def)

definition collected_invar :: "collected \<Rightarrow> bool" where
  "collected_invar c \<longleftrightarrow>
     btree_invar (co_items c) \<and> btree_invar (co_answers c)
     \<and> btree_invar (co_acknowledgements c) \<and> btree_invar (co_reactions c)
     \<and> (\<forall>k. btree_get (co_answers c) k \<noteq> Some [])"

lemma replace_latest_invar [btree]:
  "btree_invar m \<Longrightarrow> btree_invar (replace_latest m k v order)"
  by (simp add: replace_latest_def btree)

lemma replace_latest_get:
  "btree_invar m \<Longrightarrow>
   btree_get (replace_latest m k v order) =
     (btree_get m)(k := latest_from order (btree_get m k) [v])"
  by (auto simp: replace_latest_def btree fun_eq_iff split: option.splits)

lemma collect_row_invar: "collected_invar c \<Longrightarrow> collected_invar (collect_row g r c)"
  by (auto simp: collected_invar_def collect_row_def btree
      split: option.splits parsed_event.splits if_splits)

lemma collect_fold_invar: "collected_invar c \<Longrightarrow> collected_invar (fold (collect_row g) rs c)"
  by (induction rs arbitrary: c) (simp_all add: collect_row_invar)

lemma no_rows_invar: "collected_invar no_rows"
  by (simp add: collected_invar_def no_rows_def btree)

lemma collect_rows_invar: "collected_invar (collect_rows g rs)"
  by (simp add: collect_rows_def collect_fold_invar no_rows_invar)

lemma collect_fold_items:
  "collected_invar c \<Longrightarrow>
   btree_get (co_items (fold (collect_row g) rs c)) =
     btree_get (co_items c) ++ map_of (rev (map (\<lambda>i. (item_id i, i)) (items_of g rs)))"
proof (induction rs arbitrary: c)
  case (Cons r rs)
  then show ?case
    by (auto simp: collect_row_invar items_of_def map_filter_simps collect_row_def btree collected_invar_def
        simp flip: map_add_upds split: option.splits parsed_event.splits)
qed (simp add: items_of_def map_filter_simps)

lemma collect_fold_answers:
  "collected_invar c \<Longrightarrow>
   listed (btree_get (co_answers (fold (collect_row g) rs c)) root) =
     listed (btree_get (co_answers c) root) @ answers_of g rs root"
proof (induction rs arbitrary: c)
  case (Cons r rs)
  have "listed (btree_get (co_answers (collect_row g r c)) root)
      = listed (btree_get (co_answers c) root) @ answers_of g [r] root"
    using Cons.prems
    by (auto simp: collect_row_def answers_of_def map_filter_simps collected_invar_def btree listed_def
        split: option.splits parsed_event.splits)
  with Cons show ?case
    by (simp add: collect_row_invar answers_of_def map_filter_simps split: option.splits)
qed (simp add: answers_of_def map_filter_simps)

lemma latest_from_append:
  "latest_from order b (xs @ ys) = latest_from order (latest_from order b xs) ys"
  by (induction order b xs rule: latest_from.induct) simp_all

lemma collect_fold_acknowledgements:
  "collected_invar c \<Longrightarrow>
   btree_get (co_acknowledgements (fold (collect_row g) rs c)) key =
     latest_from acknowledgement_order (btree_get (co_acknowledgements c) key)
       (acknowledgements_of g rs key)"
proof (induction rs arbitrary: c)
  case (Cons r rs)
  have "btree_get (co_acknowledgements (collect_row g r c)) key
      = latest_from acknowledgement_order (btree_get (co_acknowledgements c) key)
          (acknowledgements_of g [r] key)"
    using Cons.prems
    by (auto simp: collect_row_def acknowledgements_of_def map_filter_simps collected_invar_def
        replace_latest_get split: option.splits parsed_event.splits)
  moreover have "acknowledgements_of g (r # rs) key
      = acknowledgements_of g [r] key @ acknowledgements_of g rs key"
    by (simp add: acknowledgements_of_def map_filter_simps split: option.splits)
  ultimately show ?case
    using Cons by (simp add: collect_row_invar latest_from_append)
qed (simp add: acknowledgements_of_def map_filter_simps)

lemma collect_fold_reactions:
  "collected_invar c \<Longrightarrow>
   btree_get (co_reactions (fold (collect_row g) rs c)) key =
     latest_from reaction_order (btree_get (co_reactions c) key) (reactions_of g rs key)"
proof (induction rs arbitrary: c)
  case (Cons r rs)
  have "btree_get (co_reactions (collect_row g r c)) key
      = latest_from reaction_order (btree_get (co_reactions c) key) (reactions_of g [r] key)"
    using Cons.prems
    by (auto simp: collect_row_def reactions_of_def map_filter_simps collected_invar_def
        replace_latest_get split: option.splits parsed_event.splits)
  moreover have "reactions_of g (r # rs) key = reactions_of g [r] key @ reactions_of g rs key"
    by (simp add: reactions_of_def map_filter_simps split: option.splits)
  ultimately show ?case
    using Cons by (simp add: collect_row_invar latest_from_append)
qed (simp add: reactions_of_def map_filter_simps)

lemma collect_fold_rejected:
  "co_rejected (fold (collect_row g) rs c) = co_rejected c + length (unparsed_of g rs)"
  by (induction rs arbitrary: c)
    (auto simp: collect_row_def unparsed_of_def split: option.splits parsed_event.splits)

lemma collect_rows_get:
  "btree_get (co_items (collect_rows g rs)) = map_of (rev (map (\<lambda>i. (item_id i, i)) (items_of g rs)))"
  "listed (btree_get (co_answers (collect_rows g rs)) root) = answers_of g rs root"
  "btree_get (co_acknowledgements (collect_rows g rs)) k
     = latest_from acknowledgement_order None (acknowledgements_of g rs k)"
  "btree_get (co_reactions (collect_rows g rs)) rk
     = latest_from reaction_order None (reactions_of g rs rk)"
  "co_rejected (collect_rows g rs) = length (unparsed_of g rs)"
  by (simp_all add: collect_rows_def collect_fold_items collect_fold_answers
      collect_fold_acknowledgements collect_fold_reactions collect_fold_rejected no_rows_invar)
    (simp_all add: no_rows_def)

section \<open>Resolving, in closed form\<close>

definition resolved_view ::
  "string option \<Rightarrow> (reaction_key, reaction) btree_map \<Rightarrow> (string \<Rightarrow> answer_bundle list)
   \<Rightarrow> (ack_key \<Rightarrow> acknowledgement option) \<Rightarrow> spoken_item \<Rightarrow> spoken_item" where
  "resolved_view viewer reactions answers acknowledgements item =
     SpokenItem ((item_fields item)
         \<lparr>si_answer := select_answer (si_questions (item_fields item)) (answers (item_id item)),
          si_acknowledgement :=
            (case viewer of None \<Rightarrow> None | Some author \<Rightarrow> acknowledgements (item_id item, author)),
          si_reactions := reaction_summaries (item_id item) reactions\<rparr>)
       (item_children item)"

definition invalid_answers :: "(string \<Rightarrow> answer_bundle list) \<Rightarrow> spoken_item \<Rightarrow> nat" where
  "invalid_answers answers item =
     length (filter (\<lambda>a. \<not> valid_answer (si_questions (item_fields item)) a) (answers (item_id item)))"

definition keyed_items :: "(string, spoken_item) btree_map \<Rightarrow> bool" where
  "keyed_items m \<longleftrightarrow> btree_invar m \<and> (\<forall>(k, item) \<in> set m. item_id item = k)"

lemma resolved_view_fields [simp]:
  "item_id (resolved_view v re an ak item) = item_id item"
  "si_created_at (item_fields (resolved_view v re an ak item)) = si_created_at (item_fields item)"
  "si_attach (item_fields (resolved_view v re an ak item)) = si_attach (item_fields item)"
  "item_children (resolved_view v re an ak item) = item_children item"
  by (simp_all add: resolved_view_def)

lemma resolve_item_view:
  assumes "btree_invar answers" and "btree_invar acks"
  shows "resolve_item viewer reactions (k, item) (answers, acks, rejected, resolved) =
    (btree_remove (item_id item) answers,
     (case viewer of None \<Rightarrow> acks | Some a \<Rightarrow> btree_remove (item_id item, a) acks),
     rejected + invalid_answers (\<lambda>r. listed (btree_get answers r)) item,
     btree_insert k (resolved_view viewer reactions (\<lambda>r. listed (btree_get answers r)) (btree_get acks) item)
       resolved)"
  by (cases item) (auto simp: resolve_item_def resolved_view_def invalid_answers_def select_answer_def
      listed_def Let_def split: option.splits)

lemma resolved_view_cong:
  assumes "an (item_id item) = an' (item_id item)"
    and "\<And>a. viewer = Some a \<Longrightarrow> ak (item_id item, a) = ak' (item_id item, a)"
  shows "resolved_view viewer re an ak item = resolved_view viewer re an' ak' item"
  using assms by (auto simp: resolved_view_def split: option.splits)

lemma fold_resolve_item:
  assumes "btree_invar answers" and "btree_invar acks"
    and "distinct (map fst xs)" and "\<forall>(k, item) \<in> set xs. item_id item = k"
    and "\<forall>k \<in> fst ` set xs. listed (btree_get answers k) = an k"
    and "\<forall>k \<in> fst ` set xs. \<forall>a. btree_get acks (k, a) = ak (k, a)"
  shows "\<exists>answers' acks'.
    fold (resolve_item viewer reactions) xs (answers, acks, rejected, resolved) =
      (answers', acks', rejected + sum_list (map (invalid_answers an \<circ> snd) xs),
       fold (\<lambda>(k, item). btree_insert k (resolved_view viewer reactions an ak item)) xs resolved)"
  using assms
proof (induction xs arbitrary: answers acks rejected resolved)
  case (Cons x xs)
  obtain k item where x: "x = (k, item)" by (cases x)
  have k: "item_id item = k" "k \<notin> fst ` set xs" using Cons.prems(3,4) by (auto simp: x)
  define acks' where "acks' = (case viewer of None \<Rightarrow> acks | Some a \<Rightarrow> btree_remove (k, a) acks)"
  have acks': "btree_invar acks'" "\<forall>j \<in> fst ` set xs. \<forall>a. btree_get acks' (j, a) = ak (j, a)"
    using Cons.prems(2,6) k(2) by (auto simp: acks'_def btree split: option.splits)
  have answers': "\<forall>j \<in> fst ` set xs. listed (btree_get (btree_remove k answers) j) = an j"
    using Cons.prems(1,5) k(2) by (auto simp: btree)
  have same: "invalid_answers (\<lambda>r. listed (btree_get answers r)) item = invalid_answers an item"
    "resolved_view viewer reactions (\<lambda>r. listed (btree_get answers r)) (btree_get acks) item
       = resolved_view viewer reactions an ak item"
    using Cons.prems(5,6) by (auto simp: invalid_answers_def x k(1) intro!: resolved_view_cong)
  have head: "resolve_item viewer reactions x (answers, acks, rejected, resolved) =
      (btree_remove k answers, acks', rejected + invalid_answers an item,
       btree_insert k (resolved_view viewer reactions an ak item) resolved)"
    by (simp add: x resolve_item_view [OF Cons.prems(1,2)] same acks'_def k(1) split: option.split)
  show ?case
    using Cons.IH [OF bt.invar_remove [OF Cons.prems(1)] acks'(1) _ _ answers' acks'(2),
        of "rejected + invalid_answers an item"
        "btree_insert k (resolved_view viewer reactions an ak item) resolved"] Cons.prems(3,4)
    by (simp add: head) (simp add: x add.assoc)
qed simp

lemma fold_insert_sorted:
  assumes "btree_invar xs"
  shows "fold (\<lambda>(k, v). btree_insert k (f v)) xs [] = map (\<lambda>(k, v). (k, f v)) xs"
proof -
  have get: "btree_get (fold (\<lambda>(k, v). btree_insert k (f v)) xs m)
      = btree_get m ++ btree_get (map (\<lambda>(k, v). (k, f v)) xs)
    \<and> (btree_invar m \<longrightarrow> btree_invar (fold (\<lambda>(k, v). btree_insert k (f v)) xs m))"
    if "distinct (map fst xs)" for m :: "('a, 'c) btree_map" and xs
    using that
  proof (induction xs arbitrary: m)
    case (Cons x xs)
    obtain k v where x: "x = (k, v)" by (cases x)
    have "btree_get (map (\<lambda>(k, v). (k, f v)) xs) k = None"
      using Cons.prems unfolding btree_get_map_values
      by (simp add: x btree_get_def map_of_eq_None_iff)
    then show ?case
      using Cons.prems Cons.IH [of "btree_insert k (f v) m"]
      by (auto simp: x btree_get_insert btree_invar_insert btree_get_def map_add_def fun_eq_iff
          split: option.splits)
  qed (simp add: btree_get_def)
  show ?thesis
    using get [of xs "[]"] assms bt.entries_distinct [OF assms]
    by (intro btree_ext) (auto simp: btree_invar_map_values bt.invar_empty fun_eq_iff)
qed

lemma resolve_all_closed:
  assumes "collected_invar c" and "keyed_items (co_items c)"
  shows "resolve_all viewer c =
    (map (\<lambda>(k, item). (k, resolved_view viewer (co_reactions c)
         (\<lambda>r. listed (btree_get (co_answers c) r)) (btree_get (co_acknowledgements c)) item)) (co_items c),
     co_rejected c + unknown_root_count c
       + sum_list (map (invalid_answers (\<lambda>r. listed (btree_get (co_answers c) r)) \<circ> snd) (co_items c)))"
proof -
  have inv: "btree_invar (co_items c)" "btree_invar (co_answers c)" "btree_invar (co_acknowledgements c)"
    using assms by (simp_all add: collected_invar_def)
  show ?thesis
    using fold_resolve_item [OF inv(2,3) bt.entries_distinct [OF inv(1)],
        of "\<lambda>r. listed (btree_get (co_answers c) r)" "btree_get (co_acknowledgements c)" viewer
        "co_reactions c" "co_rejected c + unknown_root_count c" "[]"] assms(2)
    by (auto simp: resolve_all_def keyed_items_def fold_insert_sorted [OF inv(1)])
qed

lemma parse_ItemD:
  assumes "parse r g = Some (Item item)"
  shows "parse_item r = Some item" and "item_id item = ev_id r"
    and "si_created_at (item_fields item) = ev_created_at r" and "item_children item = []"
    and "si_author (item_fields item) = ev_pubkey r"
proof -
  show p: "parse_item r = Some item"
    using assms by (auto simp: parse_def split: if_splits option.splits)
  show "item_id item = ev_id r" "si_created_at (item_fields item) = ev_created_at r"
    "item_children item = []" "si_author (item_fields item) = ev_pubkey r"
    using p by (auto simp: parse_item_def Let_def split: if_splits option.splits)
qed

lemma items_of_mem: "item \<in> set (items_of g rs) \<longleftrightarrow> (\<exists>r \<in> set rs. parse r g = Some (Item item))"
  by (induction rs) (auto simp: items_of_def map_filter_simps split: option.splits parsed_event.splits)

lemma collect_rows_keyed: "keyed_items (co_items (collect_rows g rs))"
proof -
  have inv: "btree_invar (co_items (collect_rows g rs))"
    using collect_rows_invar by (simp add: collected_invar_def)
  have "item_id item = k" if "btree_get (co_items (collect_rows g rs)) k = Some item" for k item
    using that by (auto simp: collect_rows_get dest!: map_of_SomeD)
  then show ?thesis
    using inv bt.entries_iff [OF inv] by (auto simp: keyed_items_def)
qed

section \<open>The nesting pass as a bounded unfolding of the attach relation\<close>

primrec attached_tree ::
  "(string, spoken_item) btree_map \<Rightarrow> (string \<Rightarrow> string list) \<Rightarrow> nat \<Rightarrow> string \<Rightarrow> spoken_item" where
  "attached_tree resolved ch 0 ident =
     SpokenItem (item_fields (the (btree_get resolved ident))) []"
| "attached_tree resolved ch (Suc n) ident =
     SpokenItem (item_fields (the (btree_get resolved ident)))
       (map (attached_tree resolved ch n) (take MAX_CHILDREN (ch ident)))"

primrec dropped :: "(string \<Rightarrow> string list) \<Rightarrow> nat \<Rightarrow> string \<Rightarrow> nat" where
  "dropped ch 0 ident = length (ch ident)"
| "dropped ch (Suc n) ident =
     sum_list (map (dropped ch n) (take MAX_CHILDREN (ch ident)))
     + (length (ch ident) - MAX_CHILDREN)"

primrec tree_ids :: "(string \<Rightarrow> string list) \<Rightarrow> nat \<Rightarrow> string \<Rightarrow> string set" where
  "tree_ids ch 0 ident = {ident}"
| "tree_ids ch (Suc n) ident =
     insert ident (\<Union> (tree_ids ch n ` set (take MAX_CHILDREN (ch ident))))"

text \<open>The ids of an item and everything nested under it, in display order.\<close>

fun item_ids :: "spoken_item \<Rightarrow> string list" where
  "item_ids (SpokenItem item nested) = si_id item # concat (map item_ids nested)"

text \<open>
  What the nesting pass relies on: every indexed child is a known item, has one parent only and is
  listed once, and items without an attach link are nobody's child.
\<close>

locale attach_forest =
  fixes resolved :: "(string, spoken_item) btree_map"
    and index :: child_index
    and ch :: "string \<Rightarrow> string list"
    and roots :: "string list"
  assumes indexed: "listed (btree_get index p) = ch p"
    and child_known: "c \<in> set (ch p) \<Longrightarrow> btree_get resolved c \<noteq> None"
    and one_parent: "c \<in> set (ch p) \<Longrightarrow> c \<in> set (ch q) \<Longrightarrow> p = q"
    and listed_once: "distinct (ch p)"
    and root_known: "r \<in> set roots \<Longrightarrow> btree_get resolved r \<noteq> None"
    and root_no_child: "r \<in> set roots \<Longrightarrow> r \<notin> set (ch p)"
    and roots_once: "distinct roots"
    and keyed: "btree_get resolved k = Some item \<Longrightarrow> item_id item = k"
begin

definition closed :: "string set \<Rightarrow> bool" where
  "closed V \<longleftrightarrow> (\<forall>p c. c \<in> set (ch p) \<longrightarrow> c \<in> V \<longrightarrow> p \<in> V)"

lemma tree_ids_parent:
  "x \<in> tree_ids ch n ident \<Longrightarrow>
   x = ident \<or> (\<exists>p \<in> tree_ids ch n ident. x \<in> set (ch p))"
proof (induction n arbitrary: ident)
  case (Suc n)
  then consider "x = ident"
    | c where "c \<in> set (take MAX_CHILDREN (ch ident))" "x \<in> tree_ids ch n c"
    by auto
  then show ?case
  proof cases
    case 2
    then show ?thesis using Suc.IH [of c] by (auto dest: in_set_takeD)
  qed simp
qed simp

lemma self_in_tree: "ident \<in> tree_ids ch n ident"
  by (cases n) simp_all

lemma closed_union:
  assumes "closed V" and "\<And>p. ident \<in> set (ch p) \<Longrightarrow> p \<in> V"
  shows "closed (V \<union> tree_ids ch n ident)"
  unfolding closed_def
proof (intro allI impI)
  fix p c assume c: "c \<in> set (ch p)" "c \<in> V \<union> tree_ids ch n ident"
  show "p \<in> V \<union> tree_ids ch n ident"
  proof (cases "c \<in> V")
    case True
    then show ?thesis using c(1) assms(1) by (auto simp: closed_def)
  next
    case False
    then consider "c = ident" | q where "q \<in> tree_ids ch n ident" "c \<in> set (ch q)"
      using c(2) tree_ids_parent by blast
    then show ?thesis
    proof cases
      case 1
      then show ?thesis using c(1) assms(2) by blast
    next
      case 2
      then show ?thesis using one_parent [OF c(1) 2(2)] by blast
    qed
  qed
qed

lemma item_ids_tree:
  "btree_get resolved ident \<noteq> None \<Longrightarrow>
   set (item_ids (attached_tree resolved ch n ident)) = tree_ids ch n ident"
proof (induction n arbitrary: ident)
  case (Suc n)
  have "set (item_ids (attached_tree resolved ch n c)) = tree_ids ch n c"
    if "c \<in> set (take MAX_CHILDREN (ch ident))" for c
    using that by (intro Suc.IH child_known) (rule in_set_takeD)
  moreover have "si_id (item_fields (the (btree_get resolved ident))) = ident"
    using Suc.prems keyed by auto
  ultimately show ?case by simp
qed (use keyed in auto)

text \<open>The loop over the children of one parent, given what each recursive call does.\<close>

lemma assemble_children_spec:
  assumes sub: "\<And>c V r. c \<in> set cs \<Longrightarrow> closed V \<Longrightarrow> c \<notin> V \<Longrightarrow> ident \<in> V \<Longrightarrow>
      sub c V r = (Some (t c), V \<union> tree_ids ch n c, r + d c) \<and> tree_ids ch n c \<inter> V = {}
      \<and> distinct (item_ids (t c))"
    and ids: "\<And>c. c \<in> set cs \<Longrightarrow> set (item_ids (t c)) = tree_ids ch n c"
    and "set cs \<subseteq> set (ch ident)" and "distinct cs" and "set cs \<inter> V = {}"
    and "ident \<in> V" and "closed V"
  shows "assemble_children sub cs acc V r =
      (acc @ map t (take (MAX_CHILDREN - length acc) cs),
       V \<union> \<Union> (tree_ids ch n ` set (take (MAX_CHILDREN - length acc) cs)),
       r + sum_list (map d (take (MAX_CHILDREN - length acc) cs))
         + (length cs - (MAX_CHILDREN - length acc)))
    \<and> \<Union> (tree_ids ch n ` set (take (MAX_CHILDREN - length acc) cs)) \<inter> V = {}
    \<and> distinct (concat (map (item_ids \<circ> t) (take (MAX_CHILDREN - length acc) cs)))"
  using assms
proof (induction cs arbitrary: acc V r)
  case (Cons c cs)
  show ?case
  proof (cases "length acc \<ge> MAX_CHILDREN")
    case True
    then show ?thesis using Cons.IH [OF Cons.prems(1,2), of V acc "Suc r"] Cons.prems(3-) by simp
  next
    case False
    then obtain m where m: "MAX_CHILDREN - length acc = Suc m" by (metis Suc_diff_Suc not_le)
    have step: "sub c V r = (Some (t c), V \<union> tree_ids ch n c, r + d c)"
      "tree_ids ch n c \<inter> V = {}" "distinct (item_ids (t c))"
      using Cons.prems by auto
    have c: "c \<in> set (ch ident)" using Cons.prems(3) by simp
    have cl: "closed (V \<union> tree_ids ch n c)"
      using Cons.prems(6,7) one_parent [OF c] by (intro closed_union) auto
    have "x \<notin> tree_ids ch n c" if "x \<in> set cs" for x
    proof
      assume x: "x \<in> tree_ids ch n c"
      have "x \<noteq> c" "x \<in> set (ch ident)" using that Cons.prems(3,4) by auto
      then have "ident \<in> tree_ids ch n c" using tree_ids_parent [OF x] one_parent by blast
      then show False using step(2) Cons.prems(6) by blast
    qed
    then have rest: "set cs \<inter> (V \<union> tree_ids ch n c) = {}" using Cons.prems(5) by auto
    have head: "set (item_ids (t c)) = tree_ids ch n c" using Cons.prems(2) by simp
    have tail: "(\<Union>x \<in> set (take m cs). set (item_ids (t x)))
        = \<Union> (tree_ids ch n ` set (take m cs))"
      using Cons.prems(2) by (intro SUP_cong) (auto dest: in_set_takeD)
    have m': "MAX_CHILDREN - length (acc @ [t c]) = m" using m by simp
    show ?thesis
      using Cons.IH [OF Cons.prems(1,2) _ _ rest _ cl, of "acc @ [t c]" "r + d c"] Cons.prems(3,4,6)
        False step tail head
      unfolding m' m by (simp add: add.assoc Un_assoc inf_sup_distrib2 inf_sup_distrib1) blast
  qed
qed simp

lemma assemble_subtree_spec:
  assumes "closed V" and "ident \<notin> V" and "btree_get resolved ident \<noteq> None"
    and "\<And>p. ident \<in> set (ch p) \<Longrightarrow> p \<in> V"
    and "depth + n = MAX_ATTACH_DEPTH"
  shows "assemble_subtree resolved index depth ident V r =
      (Some (attached_tree resolved ch n ident), V \<union> tree_ids ch n ident,
       r + dropped ch n ident)
    \<and> tree_ids ch n ident \<inter> V = {}
    \<and> distinct (item_ids (attached_tree resolved ch n ident))"
  using assms
proof (induction n arbitrary: depth ident V r)
  case 0
  then show ?case
    by (subst assemble_subtree.simps) (auto simp: listed_def simp flip: indexed split: option.split)
next
  case (Suc n)
  obtain item where item: "btree_get resolved ident = Some item" using Suc.prems(3) by auto
  let ?cs = "ch ident"
  have cs: "(case btree_get index ident of None \<Rightarrow> [] | Some ids \<Rightarrow> ids) = ?cs"
    by (simp add: listed_def flip: indexed)
  have no_self: "ident \<notin> set ?cs" using Suc.prems(2,4) by auto
  have cl: "closed (insert ident V)"
    using Suc.prems(1,4) by (auto simp: closed_def)
  have fresh: "set ?cs \<inter> insert ident V = {}"
    using Suc.prems(1,2) no_self by (auto simp: closed_def)
  have sub: "assemble_subtree resolved index (Suc depth) c W s =
      (Some (attached_tree resolved ch n c), W \<union> tree_ids ch n c, s + dropped ch n c)
      \<and> tree_ids ch n c \<inter> W = {}
      \<and> distinct (item_ids (attached_tree resolved ch n c))"
    if "c \<in> set ?cs" "closed W" "c \<notin> W" "ident \<in> W" for c W s
  proof (rule Suc.IH)
    show "p \<in> W" if "c \<in> set (ch p)" for p
      using one_parent [OF that \<open>c \<in> set ?cs\<close>] \<open>ident \<in> W\<close> by simp
  qed (use that child_known Suc.prems(5) in auto)
  have loop: "assemble_children (assemble_subtree resolved index (Suc depth)) ?cs [] (insert ident V) r =
      (map (attached_tree resolved ch n) (take MAX_CHILDREN ?cs),
       insert ident V \<union> \<Union> (tree_ids ch n ` set (take MAX_CHILDREN ?cs)),
       r + dropped ch (Suc n) ident)
    \<and> \<Union> (tree_ids ch n ` set (take MAX_CHILDREN ?cs)) \<inter> insert ident V = {}
    \<and> distinct (concat (map (item_ids \<circ> attached_tree resolved ch n) (take MAX_CHILDREN ?cs)))"
    using assemble_children_spec [OF sub item_ids_tree [OF child_known] _ listed_once fresh _ cl,
        where acc = "[]" and r = r]
    by (simp add: add.assoc)
  have ids: "(\<Union>c \<in> set (take MAX_CHILDREN ?cs). set (item_ids (attached_tree resolved ch n c)))
      = \<Union> (tree_ids ch n ` set (take MAX_CHILDREN ?cs))"
    by (intro SUP_cong refl item_ids_tree child_known) (auto dest: in_set_takeD)
  have self: "si_id (item_fields item) = ident" using keyed [OF item] .
  have "distinct (item_ids (attached_tree resolved ch (Suc n) ident))"
    using loop ids by (simp add: item self comp_def)
  moreover have "assemble_subtree resolved index depth ident V r =
      (Some (attached_tree resolved ch (Suc n) ident), V \<union> tree_ids ch (Suc n) ident,
       r + dropped ch (Suc n) ident)"
    using Suc.prems(2,5) loop by (subst assemble_subtree.simps) (simp add: item cs)
  moreover have "tree_ids ch (Suc n) ident \<inter> V = {}"
    using loop Suc.prems(2) by (simp only: tree_ids.simps) blast
  ultimately show ?case by blast
qed

lemma assemble_screen_spec:
  assumes "set ids \<subseteq> set roots" and "distinct ids" and "closed V" and "set ids \<inter> V = {}"
  shows "assemble_screen resolved index ids V r =
      (map (attached_tree resolved ch MAX_ATTACH_DEPTH) ids,
       r + sum_list (map (dropped ch MAX_ATTACH_DEPTH) ids))
    \<and> distinct (concat (map (item_ids \<circ> attached_tree resolved ch MAX_ATTACH_DEPTH) ids))
    \<and> set (concat (map (item_ids \<circ> attached_tree resolved ch MAX_ATTACH_DEPTH) ids)) \<inter> V = {}"
  using assms
proof (induction ids arbitrary: V r)
  case (Cons i ids)
  have i: "btree_get resolved i \<noteq> None" "\<And>p. i \<notin> set (ch p)"
    using Cons.prems(1) root_known root_no_child by auto
  have "assemble_subtree resolved index 0 i V r =
      (Some (attached_tree resolved ch MAX_ATTACH_DEPTH i), V \<union> tree_ids ch MAX_ATTACH_DEPTH i,
       r + dropped ch MAX_ATTACH_DEPTH i)
    \<and> tree_ids ch MAX_ATTACH_DEPTH i \<inter> V = {}
    \<and> distinct (item_ids (attached_tree resolved ch MAX_ATTACH_DEPTH i))"
    using assemble_subtree_spec [of V i 0 MAX_ATTACH_DEPTH r] Cons.prems(3,4) i by auto
  note step = this
  have cl: "closed (V \<union> tree_ids ch MAX_ATTACH_DEPTH i)"
    using Cons.prems(3) i(2) by (intro closed_union) auto
  have "x \<notin> tree_ids ch MAX_ATTACH_DEPTH i" if "x \<in> set ids" for x
    using tree_ids_parent [of x MAX_ATTACH_DEPTH i] that Cons.prems(1,2) root_no_child by auto
  then have fresh: "set ids \<inter> (V \<union> tree_ids ch MAX_ATTACH_DEPTH i) = {}"
    using Cons.prems(4) by auto
  show ?case
    using Cons.IH [OF _ _ cl fresh, of "r + dropped ch MAX_ATTACH_DEPTH i"] Cons.prems(1,2) step
      item_ids_tree [OF i(1), of MAX_ATTACH_DEPTH]
    by (simp add: add.assoc) blast
qed simp

end

section \<open>The attach relation of the resolved items\<close>

definition attached_to :: "(string, spoken_item) btree_map \<Rightarrow> string \<times> spoken_item \<Rightarrow> string \<Rightarrow> bool" where
  "attached_to resolved entry parent \<longleftrightarrow>
     is_some_and (si_attach (item_fields (snd entry))) (\<lambda>link. al_parent_id link = parent)
     \<and> btree_contains resolved parent"

definition narrated_children :: "(string, spoken_item) btree_map \<Rightarrow> string \<Rightarrow> string list" where
  "narrated_children resolved parent =
     sort_by (child_le resolved) (map fst (filter (\<lambda>entry. attached_to resolved entry parent) resolved))"

definition unattached :: "(string, spoken_item) btree_map \<Rightarrow> string list" where
  "unattached m = map fst (filter (\<lambda>(k, item). si_attach (item_fields item) = None) m)"

definition orphans :: "(string, spoken_item) btree_map \<Rightarrow> nat" where
  "orphans resolved =
     length (filter (\<lambda>(k, item). is_some_and (si_attach (item_fields item))
       (\<lambda>link. \<not> btree_contains resolved (al_parent_id link))) resolved)"

definition sorted_index :: "(string, spoken_item) btree_map \<Rightarrow> child_index" where
  "sorted_index resolved =
     map (\<lambda>(parent, ids). (parent, sort_by (child_le resolved) ids))
       (fst (fold (index_item resolved) resolved ([], [], 0)))"

lemma index_item_step:
  "index_item resolved (k, item) (index, tops, rejected) =
     (case si_attach (item_fields item) of
        None \<Rightarrow> (index, tops @ [k], rejected)
      | Some link \<Rightarrow>
          if btree_contains resolved (al_parent_id link)
          then (btree_push (al_parent_id link) k index, tops, rejected)
          else (index, tops, Suc rejected))"
  by (auto simp: index_item_def split: option.splits)

lemma fold_index_item:
  assumes "btree_invar index"
  shows "\<exists>index'. btree_invar index'
    \<and> (\<forall>p. listed (btree_get index' p) =
          listed (btree_get index p) @ map fst (filter (\<lambda>entry. attached_to resolved entry p) xs))
    \<and> (\<forall>tops rejected. fold (index_item resolved) xs (index, tops, rejected) =
      (index', tops @ map fst (filter (\<lambda>(k, item). si_attach (item_fields item) = None) xs),
       rejected + length (filter (\<lambda>(k, item). is_some_and (si_attach (item_fields item))
         (\<lambda>link. \<not> btree_contains resolved (al_parent_id link))) xs)))"
  using assms
proof (induction xs arbitrary: index)
  case (Cons x xs)
  obtain k item where x: "x = (k, item)" by (cases x)
  show ?case
  proof (cases "is_some_and (si_attach (item_fields item)) (\<lambda>link. btree_contains resolved (al_parent_id link))")
    case True
    then obtain link where link: "si_attach (item_fields item) = Some link"
      "btree_contains resolved (al_parent_id link)" by (auto simp: is_some_and_iff)
    let ?index = "btree_push (al_parent_id link) k index"
    have inv: "btree_invar ?index" using Cons.prems by (simp add: btree)
    have own: "attached_to resolved (k, item) p \<longleftrightarrow> p = al_parent_id link" for p
      using link by (auto simp: attached_to_def)
    have head: "listed (btree_get ?index p) =
        listed (btree_get index p) @ (if p = al_parent_id link then [k] else [])" for p
      using Cons.prems by (simp add: btree listed_def)
    obtain index' where "btree_invar index'"
      "\<forall>p. listed (btree_get index' p) =
         listed (btree_get ?index p) @ map fst (filter (\<lambda>entry. attached_to resolved entry p) xs)"
      "\<forall>tops rejected. fold (index_item resolved) xs (?index, tops, rejected) =
        (index', tops @ map fst (filter (\<lambda>(k, item). si_attach (item_fields item) = None) xs),
         rejected + length (filter (\<lambda>(k, item). is_some_and (si_attach (item_fields item))
           (\<lambda>link. \<not> btree_contains resolved (al_parent_id link))) xs))"
      using Cons.IH [OF inv] by blast
    then show ?thesis
      using link by (intro exI [of _ index']) (simp add: x index_item_step head own)
  next
    case False
    then have own: "\<not> attached_to resolved (k, item) p" for p
      by (auto simp: attached_to_def is_some_and_iff)
    obtain index' where "btree_invar index'"
      "\<forall>p. listed (btree_get index' p) =
         listed (btree_get index p) @ map fst (filter (\<lambda>entry. attached_to resolved entry p) xs)"
      "\<forall>tops rejected. fold (index_item resolved) xs (index, tops, rejected) =
        (index', tops @ map fst (filter (\<lambda>(k, item). si_attach (item_fields item) = None) xs),
         rejected + length (filter (\<lambda>(k, item). is_some_and (si_attach (item_fields item))
           (\<lambda>link. \<not> btree_contains resolved (al_parent_id link))) xs))"
      using Cons.IH [OF Cons.prems] by blast
    then show ?thesis
      using False
      by (intro exI [of _ index'], cases "si_attach (item_fields item)")
        (simp_all add: x index_item_step own)
  qed
qed simp

lemma listed_map_values: "f [] = [] \<Longrightarrow> listed (map_option f x) = f (listed x)"
  by (cases x) simp_all

lemma sorted_index_children:
  "listed (btree_get (sorted_index resolved) p) = narrated_children resolved p"
  using fold_index_item [of "[]" resolved resolved]
  by (auto simp: sorted_index_def btree_get_map_values listed_map_values narrated_children_def
      bt.invar_empty)

lemma project_items_index:
  "project_items resolved rejected =
     assemble_screen resolved (sorted_index resolved) (screen_ids resolved (unattached resolved)) {}
       (rejected + orphans resolved)"
proof -
  obtain index' where i: "fold (index_item resolved) resolved ([], [], rejected) =
      (index', unattached resolved, rejected + orphans resolved)"
    "fst (fold (index_item resolved) resolved ([], [], 0)) = index'"
    using fold_index_item [of "[]" resolved resolved]
    by (auto simp: unattached_def orphans_def bt.invar_empty)
  then show ?thesis by (simp add: project_items_def sorted_index_def)
qed

text \<open>The item map that the projection resolves, as a function of the rows.\<close>

definition resolved_items :: "kernel_configuration \<Rightarrow> event list \<Rightarrow> (string, spoken_item) btree_map" where
  "resolved_items cfg rs =
     fst (resolve_all (kc_viewer_pubkey cfg) (collect_rows (kc_group_id cfg) rs))"

lemma btree_keyed_map:
  assumes "keyed_items m" and "\<And>item. item_id (f item) = item_id item"
  shows "keyed_items (map (\<lambda>(k, item). (k, f item)) m)"
  using assms by (auto simp: keyed_items_def btree_invar_map_values)

lemma resolved_items_closed:
  "resolved_items cfg rs =
     map (\<lambda>(k, item). (k, resolved_view (kc_viewer_pubkey cfg)
         (co_reactions (collect_rows (kc_group_id cfg) rs))
         (answers_of (kc_group_id cfg) rs)
         (\<lambda>key. latest_from acknowledgement_order None (acknowledgements_of (kc_group_id cfg) rs key)) item))
       (co_items (collect_rows (kc_group_id cfg) rs))"
proof -
  have "btree_get (co_acknowledgements (collect_rows g rs)) =
      (\<lambda>key. latest_from acknowledgement_order None (acknowledgements_of g rs key))" for g
    by (simp add: fun_eq_iff collect_rows_get)
  then show ?thesis
    by (simp add: resolved_items_def resolve_all_closed collect_rows_invar collect_rows_keyed
        collect_rows_get)
qed

lemma resolved_items_keyed: "keyed_items (resolved_items cfg rs)"
  unfolding resolved_items_closed by (rule btree_keyed_map [OF collect_rows_keyed]) simp

lemma keyed_items_get: "keyed_items m \<Longrightarrow> btree_get m k = Some item \<Longrightarrow> item_id item = k"
  by (auto simp: keyed_items_def btree_get_def dest!: map_of_SomeD)

lemma keyed_items_mem: "keyed_items m \<Longrightarrow> (k, item) \<in> set m \<longleftrightarrow> btree_get m k = Some item"
  by (simp add: keyed_items_def bt.entries_iff)

lemma narrated_children_mem:
  "keyed_items m \<Longrightarrow>
   c \<in> set (narrated_children m p) \<longleftrightarrow>
     (\<exists>item. btree_get m c = Some item \<and> attached_to m (c, item) p)"
  by (auto simp: narrated_children_def keyed_items_mem [symmetric] image_iff attached_to_def)

lemma unattached_mem:
  "keyed_items m \<Longrightarrow>
   r \<in> set (unattached m) \<longleftrightarrow> (\<exists>item. btree_get m r = Some item \<and> si_attach (item_fields item) = None)"
  by (auto simp: unattached_def keyed_items_mem [symmetric] image_iff)

lemma keyed_distinct_filter: "keyed_items m \<Longrightarrow> distinct (map fst (filter P m))"
  using bt.entries_distinct [of m] by (simp add: keyed_items_def distinct_map_filter)

lemma keyed_attach_forest:
  assumes "keyed_items m"
  shows "attach_forest m (sorted_index m) (narrated_children m) (unattached m)"
proof
  show "listed (btree_get (sorted_index m) p) = narrated_children m p" for p
    by (rule sorted_index_children)
  show "btree_get m c \<noteq> None" if "c \<in> set (narrated_children m p)" for c p
    using that by (auto simp: narrated_children_mem [OF assms])
  show "p = q" if "c \<in> set (narrated_children m p)" "c \<in> set (narrated_children m q)" for c p q
    using that by (auto simp: narrated_children_mem [OF assms] attached_to_def is_some_and_iff)
  show "distinct (narrated_children m p)" for p
    by (simp add: narrated_children_def keyed_distinct_filter [OF assms])
  show "btree_get m r \<noteq> None" if "r \<in> set (unattached m)" for r
    using that by (auto simp: unattached_mem [OF assms])
  show "r \<notin> set (narrated_children m p)" if "r \<in> set (unattached m)" for r p
    using that by (auto simp: unattached_mem [OF assms] narrated_children_mem [OF assms] attached_to_def)
  show "distinct (unattached m)"
    by (simp add: unattached_def keyed_distinct_filter [OF assms])
  show "item_id item = k" if "btree_get m k = Some item" for k item
    using keyed_items_get [OF assms that] .
qed

interpretation queue_forest: attach_forest
  "resolved_items cfg rs" "sorted_index (resolved_items cfg rs)"
  "narrated_children (resolved_items cfg rs)" "unattached (resolved_items cfg rs)"
  for cfg rs
  by (rule keyed_attach_forest [OF resolved_items_keyed])

definition queue_ids :: "kernel_configuration \<Rightarrow> event list \<Rightarrow> string list" where
  "queue_ids cfg rs = screen_ids (resolved_items cfg rs) (unattached (resolved_items cfg rs))"

lemma queue_ids_roots: "set (queue_ids cfg rs) \<subseteq> set (unattached (resolved_items cfg rs))"
  by (auto simp: queue_ids_def screen_ids_def dest!: in_set_takeD)

lemma queue_ids_distinct: "distinct (queue_ids cfg rs)"
  by (simp add: queue_ids_def screen_ids_def queue_forest.roots_once)

definition rejected_rows :: "kernel_configuration \<Rightarrow> event list \<Rightarrow> nat" where
  "rejected_rows cfg rs = snd (resolve_all (kc_viewer_pubkey cfg) (collect_rows (kc_group_id cfg) rs))"

lemma queue_forest_closed: "queue_forest.closed cfg rs {}"
  by (simp add: queue_forest.closed_def)

lemma project_screen:
  "project_items (resolved_items cfg rs) (rejected_rows cfg rs) =
     (map (attached_tree (resolved_items cfg rs) (narrated_children (resolved_items cfg rs)) MAX_ATTACH_DEPTH)
        (queue_ids cfg rs),
      rejected_rows cfg rs + orphans (resolved_items cfg rs)
        + sum_list (map (dropped (narrated_children (resolved_items cfg rs)) MAX_ATTACH_DEPTH)
            (queue_ids cfg rs)))"
  using queue_forest.assemble_screen_spec [OF queue_ids_roots queue_ids_distinct queue_forest_closed]
  by (simp add: project_items_index flip: queue_ids_def)

lemma project_fields:
  "qs_items (project cfg rs ev) = fst (project_items (resolved_items cfg rs) (rejected_rows cfg rs))"
  "qe_rejected_event_count (qs_evidence (project cfg rs ev))
     = snd (project_items (resolved_items cfg rs) (rejected_rows cfg rs))"
  by (simp_all add: project_def resolved_items_def rejected_rows_def split: prod.split)

section \<open>Shape and order of the projected queue\<close>

fun within :: "nat \<Rightarrow> spoken_item \<Rightarrow> bool" where
  "within n (SpokenItem item nested) \<longleftrightarrow>
     length nested \<le> MAX_CHILDREN \<and> (nested \<noteq> [] \<longrightarrow> n > 0) \<and> list_all (within (n - 1)) nested"

fun item_nodes :: "spoken_item \<Rightarrow> spoken_fields list" where
  "item_nodes (SpokenItem item nested) = item # concat (map item_nodes nested)"

definition before_on_screen :: "spoken_item \<Rightarrow> spoken_item \<Rightarrow> bool" where
  "before_on_screen a b \<longleftrightarrow>
     si_created_at (item_fields b) < si_created_at (item_fields a)
     \<or> (si_created_at (item_fields a) = si_created_at (item_fields b) \<and> item_id a < item_id b)"

lemma attached_tree_within: "within n (attached_tree resolved ch n ident)"
  by (induction n arbitrary: ident) (auto simp: list_all_iff)

lemma attached_tree_fields [simp]:
  "item_fields (attached_tree resolved ch n ident) = item_fields (the (btree_get resolved ident))"
  by (cases n) simp_all

lemma attached_tree_nodes:
  assumes "\<And>p c. c \<in> set (ch p) \<Longrightarrow> btree_get resolved c \<noteq> None"
    and "btree_get resolved ident \<noteq> None"
    and "f \<in> set (item_nodes (attached_tree resolved ch n ident))"
  shows "\<exists>k item. btree_get resolved k = Some item \<and> f = item_fields item"
  using assms(2,3)
proof (induction n arbitrary: ident)
  case (Suc n)
  then consider "f = item_fields (the (btree_get resolved ident))"
    | c where "c \<in> set (ch ident)" "f \<in> set (item_nodes (attached_tree resolved ch n c))"
    by (auto dest: in_set_takeD)
  then show ?case
  proof cases
    case 2
    then show ?thesis using Suc.IH [of c] assms(1) by blast
  qed (use Suc.prems(1) in \<open>metis option.collapse\<close>)
qed (auto, metis)

lemma screen_le_trans: "transp (screen_le resolved)"
  by (auto simp: transp_def screen_le_def)

lemma screen_le_total: "screen_le resolved a b \<or> screen_le resolved b a"
  by (auto simp: screen_le_def)

lemma queue_ids_sorted: "sorted_wrt (screen_le (resolved_items cfg rs)) (queue_ids cfg rs)"
  unfolding queue_ids_def screen_ids_def
  by (intro sorted_wrt_take sorted_sort_by screen_le_trans screen_le_total)

lemma queue_ids_visible:
  "i \<in> set (queue_ids cfg rs) \<Longrightarrow>
   \<exists>item. btree_get (resolved_items cfg rs) i = Some item \<and> item_id item = i
     \<and> si_attach (item_fields item) = None \<and> \<not> is_hidden item"
  using unattached_mem [OF resolved_items_keyed] keyed_items_get [OF resolved_items_keyed]
  by (fastforce simp: queue_ids_def screen_ids_def dest!: in_set_takeD)

lemma queue_ids_length: "length (queue_ids cfg rs) \<le> MAX_PROJECTED_ITEMS"
  by (simp add: queue_ids_def screen_ids_def)

lemma is_hidden_fields: "item_fields a = item_fields b \<Longrightarrow> is_hidden a = is_hidden b"
  by (simp add: is_hidden_def)

lemmas project_queue_items = project_fields project_screen fst_conv snd_conv


text \<open>
  The snapshot is bounded. Whatever the group holds, at most 40 items reach the screen, each has
  at most 12 children at every level, and no item is nested more than three levels deep.
\<close>

theorem project_bounded:
  "length (qs_items (project cfg rs ev)) \<le> 40
   \<and> list_all (within 3) (qs_items (project cfg rs ev))"
proof -
  have "length (qs_items (project cfg rs ev)) \<le> 40"
    using queue_ids_length [of cfg rs] by (simp add: project_queue_items MAX_PROJECTED_ITEMS_def)
  moreover have "list_all (within MAX_ATTACH_DEPTH) (qs_items (project cfg rs ev))"
    by (simp add: project_queue_items list_all_iff attached_tree_within)
  ultimately show ?thesis by (simp add: MAX_ATTACH_DEPTH_def)
qed

text \<open>
  No event is shown twice. Across the whole screen, nested children included, every item id
  occurs at most once, whatever cycles or shared parents the attach links of the group form.
\<close>

theorem project_ids_distinct:
  "distinct (concat (map item_ids (qs_items (project cfg rs ev))))"
  using queue_forest.assemble_screen_spec [OF queue_ids_roots queue_ids_distinct queue_forest_closed,
      of cfg rs]
  by (simp add: project_queue_items)

text \<open>
  The screen order. Top-level items are strictly ordered newest first, ties by ascending event id;
  none of them is an attached child, and none is dismissed or archived for the viewer.
\<close>

theorem project_screen_order:
  "sorted_wrt before_on_screen (qs_items (project cfg rs ev))
   \<and> list_all (\<lambda>item. si_attach (item_fields item) = None \<and> \<not> is_hidden item)
       (qs_items (project cfg rs ev))"
proof
  let ?R = "resolved_items cfg rs"
  let ?t = "attached_tree ?R (narrated_children ?R) MAX_ATTACH_DEPTH"
  have "before_on_screen (?t a) (?t b)"
    if "a \<in> set (queue_ids cfg rs)" "b \<in> set (queue_ids cfg rs)" "screen_le ?R a b \<and> a \<noteq> b" for a b
    using queue_ids_visible [OF that(1)] queue_ids_visible [OF that(2)] that(3)
    by (auto simp: before_on_screen_def screen_le_def created_of_def)
  moreover have "sorted_wrt (\<lambda>a b. screen_le ?R a b \<and> a \<noteq> b) (queue_ids cfg rs)"
    using queue_ids_sorted queue_ids_distinct by (simp add: sorted_wrt_iff_nth_less distinct_conv_nth)
  ultimately show "sorted_wrt before_on_screen (qs_items (project cfg rs ev))"
    by (auto simp: project_queue_items sorted_wrt_map intro: sorted_wrt_mono_rel [rotated])
  show "list_all (\<lambda>item. si_attach (item_fields item) = None \<and> \<not> is_hidden item)
      (qs_items (project cfg rs ev))"
    using queue_ids_visible [of _ cfg rs] by (fastforce simp: project_queue_items list_all_iff is_hidden_def)
qed

section \<open>What the shown items carry\<close>

text \<open>The acknowledgement of the viewer and the standing of one reaction, read off the rows.\<close>

definition viewer_acknowledgement ::
  "kernel_configuration \<Rightarrow> event list \<Rightarrow> string \<Rightarrow> acknowledgement option" where
  "viewer_acknowledgement cfg rs root =
     (case kc_viewer_pubkey cfg of None \<Rightarrow> None
      | Some viewer \<Rightarrow>
          latest_from acknowledgement_order None
            (acknowledgements_of (kc_group_id cfg) rs (root, viewer)))"

definition reaction_active ::
  "kernel_configuration \<Rightarrow> event list \<Rightarrow> string \<Rightarrow> string \<Rightarrow> string \<Rightarrow> bool" where
  "reaction_active cfg rs root author emoji \<longleftrightarrow>
     is_some_and (latest_from reaction_order None (reactions_of (kc_group_id cfg) rs (root, author, emoji)))
       re_active"

lemma latest_from_Some_mem:
  "latest_from order b xs = Some v \<Longrightarrow> b = Some v \<or> v \<in> set xs"
  by (induction order b xs rule: latest_from.induct) (auto split: if_splits)

lemma latest_from_None_iff [simp]: "latest_from order b xs = None \<longleftrightarrow> b = None \<and> xs = []"
  by (induction order b xs rule: latest_from.induct) simp_all

lemma latest_from_greatest:
  "latest_from order b xs = Some v \<Longrightarrow> (\<forall>x \<in> set xs. order x \<le> order v) \<and> (\<forall>x. b = Some x \<longrightarrow> order x \<le> order v)"
proof (induction order b xs rule: latest_from.induct)
  case (3 order b v' vs)
  then show ?case by (auto split: if_splits intro: order_trans)
qed simp_all

lemma latest_from_set_cong:
  assumes "set xs = set ys"
    and inj: "\<And>x y. x \<in> set xs \<Longrightarrow> y \<in> set xs \<Longrightarrow> order x = order y \<Longrightarrow> x = y"
  shows "latest_from order None xs = latest_from order None ys"
proof (cases "latest_from order None xs")
  case None
  then show ?thesis using assms(1) by (metis latest_from_None_iff set_empty)
next
  case (Some x)
  then have x: "x \<in> set xs" "\<forall>z \<in> set xs. order z \<le> order x"
    using latest_from_Some_mem [OF Some] latest_from_greatest [OF Some] by auto
  then have "ys \<noteq> []" using assms(1) by auto
  then obtain y where y: "latest_from order None ys = Some y"
    using latest_from_None_iff [of order None ys] by blast
  then have "y \<in> set xs" "\<forall>z \<in> set xs. order z \<le> order y"
    using latest_from_Some_mem [OF y] latest_from_greatest [OF y] assms(1) by auto
  with x have "x = y" by (intro inj) (auto intro: order_antisym)
  with Some y show ?thesis by simp
qed

lemma resolved_items_get:
  "btree_get (resolved_items cfg rs) k =
     map_option (resolved_view (kc_viewer_pubkey cfg) (co_reactions (collect_rows (kc_group_id cfg) rs))
         (answers_of (kc_group_id cfg) rs)
         (\<lambda>key. latest_from acknowledgement_order None (acknowledgements_of (kc_group_id cfg) rs key)))
       (btree_get (co_items (collect_rows (kc_group_id cfg) rs)) k)"
  by (simp add: resolved_items_closed btree_get_map_values)

lemma project_nodes:
  assumes "f \<in> set (concat (map item_nodes (qs_items (project cfg rs ev))))"
  shows "\<exists>k item. btree_get (resolved_items cfg rs) k = Some item \<and> f = item_fields item"
proof -
  obtain i where i: "i \<in> set (queue_ids cfg rs)"
    "f \<in> set (item_nodes (attached_tree (resolved_items cfg rs)
        (narrated_children (resolved_items cfg rs)) MAX_ATTACH_DEPTH i))"
    using assms by (auto simp: project_queue_items)
  show ?thesis
  proof (rule attached_tree_nodes [OF queue_forest.child_known _ i(2)])
    show "btree_get (resolved_items cfg rs) i \<noteq> None" using queue_ids_visible [OF i(1)] by auto
  qed
qed

lemma shown_related_state:
  assumes "f \<in> set (concat (map item_nodes (qs_items (project cfg rs ev))))"
  shows "si_answer f = select_answer (si_questions f) (answers_of (kc_group_id cfg) rs (si_id f))
    \<and> si_acknowledgement f = viewer_acknowledgement cfg rs (si_id f)"
proof -
  obtain k item where "btree_get (resolved_items cfg rs) k = Some item" "f = item_fields item"
    using project_nodes [OF assms] by blast
  then show ?thesis
    by (auto simp: resolved_items_get resolved_view_def viewer_acknowledgement_def split: option.split)
qed

text \<open>
  C26: every shown item, nested ones included, carries the right related state: as answer the valid
  candidate with the greatest (time, id) among the answers of the group to that item and as
  acknowledgement the viewer's own latest one.
\<close>

theorem project_related_state:
  "list_all (\<lambda>f. si_answer f = select_answer (si_questions f) (answers_of (kc_group_id cfg) rs (si_id f))
      \<and> si_acknowledgement f = viewer_acknowledgement cfg rs (si_id f))
    (concat (map item_nodes (qs_items (project cfg rs ev))))"
  using shown_related_state unfolding list_all_iff by blast

text \<open>Grouping of the reactions of one item by emoji.\<close>

definition reacting :: "string \<Rightarrow> string \<Rightarrow> (reaction_key, reaction) btree_map \<Rightarrow> string list" where
  "reacting root emoji reactions =
     map (\<lambda>((r, author, e), reaction). author)
       (filter (\<lambda>((r, author, e), reaction). r = root \<and> e = emoji \<and> re_active reaction) reactions)"

lemma fold_group_reaction:
  "btree_invar m \<Longrightarrow> (\<forall>e. btree_get m e \<noteq> Some []) \<Longrightarrow>
   btree_invar (fold (group_reaction root) xs m)
   \<and> (\<forall>e. btree_get (fold (group_reaction root) xs m) e \<noteq> Some [])
   \<and> (\<forall>e. listed (btree_get (fold (group_reaction root) xs m) e) = listed (btree_get m e) @ reacting root e xs)"
proof (induction xs arbitrary: m)
  case (Cons x xs)
  obtain r author e reaction where x: "x = ((r, author, e), reaction)" by (metis prod_cases3 surj_pair)
  define m' where "m' = group_reaction root x m"
  have m': "m' = (if r = root \<and> re_active reaction then btree_push e author m else m)"
    by (simp add: m'_def x group_reaction_def)
  have "btree_invar m'" "\<forall>e. btree_get m' e \<noteq> Some []"
    using Cons.prems by (auto simp: m' btree split: if_splits)
  moreover have "listed (btree_get m' d) = listed (btree_get m d) @ reacting root d [x]" for d
    using Cons.prems(1) by (simp add: m' x reacting_def btree listed_def)
  moreover have "reacting root d (x # xs) = reacting root d [x] @ reacting root d xs" for d
    by (simp add: reacting_def)
  ultimately show ?case using Cons.IH [of m'] by (simp flip: m'_def)
qed (simp add: reacting_def)

lemma reacting_set:
  assumes "btree_invar reactions"
  shows "a \<in> set (reacting root e reactions) \<longleftrightarrow>
    is_some_and (btree_get reactions (root, a, e)) re_active"
proof -
  have "a \<in> set (reacting root e reactions) \<longleftrightarrow>
      (\<exists>reaction. ((root, a, e), reaction) \<in> set reactions \<and> re_active reaction)"
    by (force simp: reacting_def)
  also have "\<dots> \<longleftrightarrow> is_some_and (btree_get reactions (root, a, e)) re_active"
    by (auto simp: bt.entries_iff [OF assms] is_some_and_iff)
  finally show ?thesis .
qed

lemma reacting_distinct:
  assumes "distinct (map fst reactions)"
  shows "distinct (reacting root e reactions)"
  using assms
proof (induction reactions)
  case (Cons x xs)
  then show ?case by (force simp: reacting_def split: prod.splits)
qed (simp add: reacting_def)

lemma reaction_summaries_spec:
  assumes "btree_invar reactions"
  shows "sorted_wrt (<) (map rs_emoji (reaction_summaries root reactions))"
    and "s \<in> set (reaction_summaries root reactions) \<longleftrightarrow>
      rs_authors s = sort_by (\<le>) (reacting root (rs_emoji s) reactions)
      \<and> reacting root (rs_emoji s) reactions \<noteq> [] \<and> rs_count s = length (rs_authors s)"
proof -
  let ?g = "fold (group_reaction root) reactions []"
  have g: "btree_invar ?g" "\<And>e. btree_get ?g e \<noteq> Some []"
    "\<And>e. listed (btree_get ?g e) = reacting root e reactions"
    using fold_group_reaction [of "[]" root reactions] by (simp_all add: bt.invar_empty)
  have "map rs_emoji (reaction_summaries root reactions) = map fst ?g"
    by (simp add: reaction_summaries_def Let_def case_prod_beta)
  then show "sorted_wrt (<) (map rs_emoji (reaction_summaries root reactions))"
    using g(1) by (simp add: btree_invar_def)
  have mem: "(e, as) \<in> set ?g \<longleftrightarrow> as = reacting root e reactions \<and> as \<noteq> []" for e as
    using g(2) [of e] g(3) [of e] by (cases "btree_get ?g e") (auto simp: bt.entries_iff [OF g(1)])
  show "s \<in> set (reaction_summaries root reactions) \<longleftrightarrow>
      rs_authors s = sort_by (\<le>) (reacting root (rs_emoji s) reactions)
      \<and> reacting root (rs_emoji s) reactions \<noteq> [] \<and> rs_count s = length (rs_authors s)"
    by (cases s) (auto simp: reaction_summaries_def Let_def mem image_iff Bex_def)
qed

lemma sort_by_strict:
  fixes xs :: "'a::linorder list"
  shows "distinct xs \<Longrightarrow> sorted_wrt (<) (sort_by (\<le>) xs)"
  using sorted_sort_by [of "(\<le>) :: 'a \<Rightarrow> _", OF _ linear, of xs] distinct_sort_by [of "(\<le>)" xs]
  by (auto simp: strict_sorted_iff transp_def)

text \<open>
  C31: the reaction summaries of every shown item are exactly the reactions that stand: one summary
  per emoji in ascending order, each with its authors in ascending order without repetition and
  their number, and an author is listed under an emoji precisely when the latest event of that
  author for that emoji adds it.
\<close>

theorem project_reactions:
  "list_all (\<lambda>f.
      sorted_wrt (<) (map rs_emoji (si_reactions f))
      \<and> list_all (\<lambda>s. rs_count s = length (rs_authors s) \<and> rs_authors s \<noteq> []
            \<and> sorted_wrt (<) (rs_authors s)) (si_reactions f)
      \<and> {(rs_emoji s, a) | s a. s \<in> set (si_reactions f) \<and> a \<in> set (rs_authors s)}
          = {(e, a). reaction_active cfg rs (si_id f) a e})
    (concat (map item_nodes (qs_items (project cfg rs ev))))"
  (is "list_all ?P _")
proof -
  have "?P f" if f: "f \<in> set (concat (map item_nodes (qs_items (project cfg rs ev))))" for f
  proof -
    let ?re = "co_reactions (collect_rows (kc_group_id cfg) rs)"
    have inv: "btree_invar ?re" using collect_rows_invar by (simp add: collected_invar_def)
    have re: "si_reactions f = reaction_summaries (si_id f) ?re"
      using project_nodes [OF f] by (auto simp: resolved_items_get resolved_view_def)
    have active: "a \<in> set (reacting root e ?re) \<longleftrightarrow> reaction_active cfg rs root a e" for a root e
      by (simp add: reacting_set [OF inv] reaction_active_def collect_rows_get)
    note summaries = reaction_summaries_spec(2) [OF inv]
    have "rs_count s = length (rs_authors s) \<and> rs_authors s \<noteq> [] \<and> sorted_wrt (<) (rs_authors s)"
      if "s \<in> set (si_reactions f)" for s
    proof -
      have s: "rs_authors s = sort_by (\<le>) (reacting (si_id f) (rs_emoji s) ?re)"
        "reacting (si_id f) (rs_emoji s) ?re \<noteq> []" "rs_count s = length (rs_authors s)"
        using that by (simp_all add: re summaries)
      then show ?thesis
        using sort_by_strict [OF reacting_distinct [OF bt.entries_distinct [OF inv]]]
        by (metis length_0_conv length_sort_by)
    qed
    moreover have "{(rs_emoji s, a) | s a. s \<in> set (si_reactions f) \<and> a \<in> set (rs_authors s)}
        = {(e, a). reaction_active cfg rs (si_id f) a e}" (is "?L = ?R")
    proof
      show "?L \<subseteq> ?R" by (auto simp: re summaries active)
      show "?R \<subseteq> ?L"
      proof (clarify)
        fix e a assume a: "reaction_active cfg rs (si_id f) a e"
        let ?as = "reacting (si_id f) e ?re"
        have "a \<in> set ?as" using a active by simp
        moreover have "\<lparr>rs_emoji = e, rs_count = length ?as, rs_authors = sort_by (\<le>) ?as\<rparr>
            \<in> set (si_reactions f)"
          using calculation by (auto simp: re summaries)
        ultimately show "\<exists>s a'. (e, a) = (rs_emoji s, a') \<and> s \<in> set (si_reactions f) \<and> a' \<in> set (rs_authors s)"
          by (intro exI [of _ "\<lparr>rs_emoji = e, rs_count = length ?as, rs_authors = sort_by (\<le>) ?as\<rparr>"]) auto
      qed
    qed
    ultimately show ?thesis
      using reaction_summaries_spec(1) [OF inv] by (simp add: re list_all_iff)
  qed
  then show ?thesis unfolding list_all_iff by blast
qed

section \<open>The order of the rows cannot be observed\<close>

lemma parse_AnswerD:
  "parse r g = Some (Answer a) \<Longrightarrow>
   ab_event_id (rel_value a) = ev_id r \<and> ab_created_at (rel_value a) = ev_created_at r"
  by (auto simp: parse_def parse_answer_def Let_def split: if_splits option.splits)

lemma parse_AcknowledgementD:
  "parse r g = Some (Acknowledgement a) \<Longrightarrow>
   ack_event_id (rel_value a) = ev_id r \<and> ack_author (rel_value a) = ev_pubkey r"
  by (auto simp: parse_def parse_acknowledgement_def split: if_splits option.splits)

lemma parse_ReactionD:
  "parse r g = Some (Reaction a) \<Longrightarrow>
   re_event_id (rel_value a) = ev_id r \<and> re_author (rel_value a) = ev_pubkey r"
  by (auto simp: parse_def parse_reaction_def Let_def split: if_splits option.splits)

lemma mset_map_filter_cong: "mset xs = mset ys \<Longrightarrow> mset (List.map_filter f xs) = mset (List.map_filter f ys)"
  by (simp add: map_filter_def mset_filter)

lemma map_filter_mem: "y \<in> set (List.map_filter f xs) \<longleftrightarrow> (\<exists>x \<in> set xs. f x = Some y)"
  by (force simp: map_filter_def)

lemma answers_of_mem:
  "a \<in> set (answers_of g rs root) \<longleftrightarrow>
   (\<exists>r \<in> set rs. \<exists>ev. parse r g = Some (Answer ev) \<and> rel_root_id ev = root \<and> a = rel_value ev)"
  unfolding answers_of_def map_filter_mem
  by (intro bex_cong refl) (auto split: option.splits parsed_event.splits)

lemma acknowledgements_of_mem:
  "a \<in> set (acknowledgements_of g rs key) \<longleftrightarrow>
   (\<exists>r \<in> set rs. \<exists>ev. parse r g = Some (Acknowledgement ev) \<and> a = rel_value ev
     \<and> (rel_root_id ev, ack_author a) = key)"
  unfolding acknowledgements_of_def map_filter_mem
  by (intro bex_cong refl) (auto split: option.splits parsed_event.splits)

lemma reactions_of_mem:
  "a \<in> set (reactions_of g rs key) \<longleftrightarrow>
   (\<exists>r \<in> set rs. \<exists>ev. parse r g = Some (Reaction ev) \<and> a = rel_value ev
     \<and> (rel_root_id ev, re_author a, re_emoji a) = key)"
  unfolding reactions_of_def map_filter_mem
  by (intro bex_cong refl) (auto split: option.splits parsed_event.splits)

lemma map_of_set_cong:
  assumes "set xs = set ys"
    and "\<And>k v w. (k, v) \<in> set xs \<Longrightarrow> (k, w) \<in> set xs \<Longrightarrow> v = w"
  shows "map_of xs = map_of ys"
proof
  fix k
  show "map_of xs k = map_of ys k"
  proof (cases "map_of xs k")
    case None
    then show ?thesis using assms(1) by (metis map_of_eq_None_iff)
  next
    case (Some v)
    then have v: "(k, v) \<in> set xs" by (rule map_of_SomeD)
    then obtain w where w: "map_of ys k = Some w"
      using assms(1) weak_map_of_SomeI by fastforce
    then have "(k, w) \<in> set xs" using assms(1) by (auto dest: map_of_SomeD)
    with v w Some assms(2) show ?thesis by metis
  qed
qed

definition same_rows :: "event list \<Rightarrow> event list \<Rightarrow> bool" where
  "same_rows rs rs' \<longleftrightarrow> mset rs = mset rs' \<and> inj_on ev_id (set rs)"

lemma same_rows_set: "same_rows rs rs' \<Longrightarrow> set rs = set rs'"
  by (metis same_rows_def set_mset_mset)

lemma same_rows_event:
  "same_rows rs rs' \<Longrightarrow> r \<in> set rs \<Longrightarrow> s \<in> set rs \<Longrightarrow> ev_id r = ev_id s \<Longrightarrow> r = s"
  by (auto simp: same_rows_def dest: inj_onD)

lemma same_rows_items:
  assumes "same_rows rs rs'"
  shows "co_items (collect_rows g rs) = co_items (collect_rows g rs')"
proof (rule btree_ext)
  show "btree_invar (co_items (collect_rows g rs))" "btree_invar (co_items (collect_rows g rs'))"
    using collect_rows_invar by (simp_all add: collected_invar_def)
  have inj: "v = w"
    if vw: "v \<in> set (items_of g rs)" "w \<in> set (items_of g rs)" "item_id v = item_id w" for v w
  proof -
    obtain r s where "r \<in> set rs" "parse r g = Some (Item v)" "s \<in> set rs" "parse s g = Some (Item w)"
      using vw(1,2) by (auto simp: items_of_mem)
    moreover from this have "r = s"
      using vw(3) same_rows_event [OF assms] by (simp add: parse_ItemD(2))
    ultimately show ?thesis by simp
  qed
  have set: "set (items_of g rs) = set (items_of g rs')"
    using same_rows_set [OF assms] by (auto simp: items_of_mem)
  show "btree_get (co_items (collect_rows g rs)) = btree_get (co_items (collect_rows g rs'))"
    unfolding collect_rows_get
  proof (rule map_of_set_cong)
    show "v = w" if "(k, v) \<in> set (rev (map (\<lambda>i. (item_id i, i)) (items_of g rs)))"
      "(k, w) \<in> set (rev (map (\<lambda>i. (item_id i, i)) (items_of g rs)))" for k v w
      using that by (auto intro: inj)
  qed (simp add: set)
qed

lemma same_rows_answers: "same_rows rs rs' \<Longrightarrow> mset (answers_of g rs root) = mset (answers_of g rs' root)"
  unfolding answers_of_def same_rows_def by (intro mset_map_filter_cong) simp

lemma same_rows_select:
  assumes "same_rows rs rs'"
  shows "select_answer qs (answers_of g rs root) = select_answer qs (answers_of g rs' root)"
  unfolding select_answer_def
proof (rule max_by_set_cong)
  show "set (filter (valid_answer qs) (answers_of g rs root)) = set (filter (valid_answer qs) (answers_of g rs' root))"
    using same_rows_answers [OF assms] by (metis mset_filter set_mset_mset)
  fix a b
  assume "a \<in> set (filter (valid_answer qs) (answers_of g rs root))"
    and "b \<in> set (filter (valid_answer qs) (answers_of g rs root))" and o: "answer_order a = answer_order b"
  then obtain r ea s eb where *: "r \<in> set rs" "parse r g = Some (Answer ea)" "a = rel_value ea"
    "s \<in> set rs" "parse s g = Some (Answer eb)" "b = rel_value eb"
    by (auto simp: answers_of_mem)
  then have "r = s"
    using o parse_AnswerD same_rows_event [OF assms] by (auto simp: answer_order_def)
  then show "a = b" using * by simp
qed

lemma same_rows_acknowledgement:
  assumes "same_rows rs rs'"
  shows "latest_from acknowledgement_order None (acknowledgements_of g rs key)
    = latest_from acknowledgement_order None (acknowledgements_of g rs' key)"
proof (rule latest_from_set_cong)
  show "set (acknowledgements_of g rs key) = set (acknowledgements_of g rs' key)"
    using same_rows_set [OF assms] by (auto simp: acknowledgements_of_mem)
  fix a b
  assume "a \<in> set (acknowledgements_of g rs key)" "b \<in> set (acknowledgements_of g rs key)"
    and o: "acknowledgement_order a = acknowledgement_order b"
  then obtain r ea s eb where *: "r \<in> set rs" "parse r g = Some (Acknowledgement ea)" "a = rel_value ea"
    "s \<in> set rs" "parse s g = Some (Acknowledgement eb)" "b = rel_value eb"
    by (auto simp: acknowledgements_of_mem)
  then have "r = s"
    using o parse_AcknowledgementD same_rows_event [OF assms] by (auto simp: acknowledgement_order_def)
  then show "a = b" using * by simp
qed

lemma same_rows_reactions:
  assumes "same_rows rs rs'"
  shows "co_reactions (collect_rows g rs) = co_reactions (collect_rows g rs')"
proof (rule btree_ext)
  show "btree_invar (co_reactions (collect_rows g rs))" "btree_invar (co_reactions (collect_rows g rs'))"
    using collect_rows_invar by (simp_all add: collected_invar_def)
  have "latest_from reaction_order None (reactions_of g rs key)
      = latest_from reaction_order None (reactions_of g rs' key)" for key
  proof (rule latest_from_set_cong)
    show "set (reactions_of g rs key) = set (reactions_of g rs' key)"
      using same_rows_set [OF assms] by (auto simp: reactions_of_mem)
    fix a b
    assume "a \<in> set (reactions_of g rs key)" "b \<in> set (reactions_of g rs key)"
      and o: "reaction_order a = reaction_order b"
    then obtain r ea s eb where *: "r \<in> set rs" "parse r g = Some (Reaction ea)" "a = rel_value ea"
      "s \<in> set rs" "parse s g = Some (Reaction eb)" "b = rel_value eb"
      by (auto simp: reactions_of_mem)
    then have "r = s"
      using o parse_ReactionD same_rows_event [OF assms] by (auto simp: reaction_order_def)
    then show "a = b" using * by simp
  qed
  then show "btree_get (co_reactions (collect_rows g rs)) = btree_get (co_reactions (collect_rows g rs'))"
    by (simp add: fun_eq_iff collect_rows_get)
qed

lemma same_rows_acknowledgements:
  assumes "same_rows rs rs'"
  shows "co_acknowledgements (collect_rows g rs) = co_acknowledgements (collect_rows g rs')"
proof (rule btree_ext)
  show "btree_invar (co_acknowledgements (collect_rows g rs))"
    "btree_invar (co_acknowledgements (collect_rows g rs'))"
    using collect_rows_invar by (simp_all add: collected_invar_def)
  show "btree_get (co_acknowledgements (collect_rows g rs))
      = btree_get (co_acknowledgements (collect_rows g rs'))"
    by (simp add: fun_eq_iff collect_rows_get same_rows_acknowledgement [OF assms])
qed

lemma same_rows_answer_map:
  assumes "same_rows rs rs'"
  shows "map (\<lambda>(root, vs). (root, mset vs)) (co_answers (collect_rows g rs))
    = map (\<lambda>(root, vs). (root, mset vs)) (co_answers (collect_rows g rs'))"
proof (rule btree_ext)
  have inv: "btree_invar (co_answers (collect_rows g rs))" "btree_invar (co_answers (collect_rows g rs'))"
    "btree_get (co_answers (collect_rows g rs)) k \<noteq> Some []"
    "btree_get (co_answers (collect_rows g rs')) k \<noteq> Some []" for k
    using collect_rows_invar by (simp_all add: collected_invar_def)
  show "btree_invar (map (\<lambda>(root, vs). (root, mset vs)) (co_answers (collect_rows g rs)))"
    "btree_invar (map (\<lambda>(root, vs). (root, mset vs)) (co_answers (collect_rows g rs')))"
    by (simp_all add: btree_invar_map_values inv)
  have "map_option mset (btree_get (co_answers (collect_rows g rs)) k)
      = map_option mset (btree_get (co_answers (collect_rows g rs')) k)" for k
    using same_rows_answers [OF assms, of g k] inv(3,4) [of k]
    by (cases "btree_get (co_answers (collect_rows g rs)) k";
        cases "btree_get (co_answers (collect_rows g rs')) k")
      (auto simp flip: collect_rows_get(2))
  then show "btree_get (map (\<lambda>(root, vs). (root, mset vs)) (co_answers (collect_rows g rs)))
      = btree_get (map (\<lambda>(root, vs). (root, mset vs)) (co_answers (collect_rows g rs')))"
    by (simp add: fun_eq_iff btree_get_map_values)
qed

lemma unknown_answers_mset:
  "sum_list (map (\<lambda>(root, vs). length vs) (filter (\<lambda>(root, vs). P root) m))
   = sum_list (map (\<lambda>(root, vs). size vs) (filter (\<lambda>(root, vs). P root) (map (\<lambda>(root, vs). (root, mset vs)) m)))"
  by (induction m) auto

lemma same_rows_rejected:
  assumes "same_rows rs rs'"
  shows "rejected_rows cfg rs = rejected_rows cfg rs'"
proof -
  let ?g = "kc_group_id cfg"
  have "length (unparsed_of ?g rs) = length (unparsed_of ?g rs')"
    using assms unfolding same_rows_def unparsed_of_def by (metis mset_filter size_mset)
  moreover have "unknown_root_count (collect_rows ?g rs) = unknown_root_count (collect_rows ?g rs')"
    unfolding unknown_root_count_def unknown_answers_mset Let_def
    by (simp only: same_rows_answer_map [OF assms] same_rows_items [OF assms]
        same_rows_acknowledgements [OF assms] same_rows_reactions [OF assms])
  moreover have "invalid_answers (answers_of ?g rs) item = invalid_answers (answers_of ?g rs') item" for item
    unfolding invalid_answers_def
    using same_rows_answers [OF assms, of ?g "item_id item"] by (metis mset_filter size_mset)
  ultimately show ?thesis
    by (simp add: rejected_rows_def resolve_all_closed collect_rows_invar collect_rows_keyed
        collect_rows_get same_rows_items [OF assms] comp_def)
qed

lemma same_rows_resolved:
  assumes "same_rows rs rs'"
  shows "resolved_items cfg rs = resolved_items cfg rs'"
proof -
  have "resolved_view v re (answers_of g rs) ak item = resolved_view v re (answers_of g rs') ak item"
    for v re g ak item
    by (simp add: resolved_view_def same_rows_select [OF assms])
  then show ?thesis
    by (simp add: resolved_items_closed same_rows_items [OF assms] same_rows_reactions [OF assms]
        same_rows_acknowledgement [OF assms])
qed

text \<open>
  C9: the snapshot does not depend on the order in which relays deliver the rows. Two row lists with
  the same events, in any order, project to the same snapshot, counters included, as long as an
  event id names one event.
\<close>

theorem project_row_order:
  assumes "mset rs = mset rs'" and "inj_on ev_id (set rs)"
  shows "project cfg rs ev = project cfg rs' ev"
proof -
  have same: "same_rows rs rs'" using assms by (simp add: same_rows_def)
  show ?thesis
    using same_rows_resolved [OF same, of cfg] same_rows_rejected [OF same, of cfg]
    by (simp add: project_def resolved_items_def rejected_rows_def case_prod_beta)
qed

section \<open>A concrete group, and completeness of the screen\<close>

definition sample_event :: "event_id \<Rightarrow> event" where
  "sample_event eid =
     signed_event eid (projr (compose_spoken_item hex_key_parse plain_group_send ''wss://relay'' sample_item))"

lemma sample_event_parse:
  "\<exists>author. parse (sample_event eid) ''tts'' = Some (Item (published_view eid author sample_item))"
  and sample_event_id: "ev_id (sample_event eid) = eid"
proof -
  obtain intent where
    i: "compose_spoken_item hex_key_parse plain_group_send ''wss://relay'' sample_item = Inr intent"
    using sample_item_composes by blast
  note facts = compose_spoken_item_event [OF plain_group_send_contract i]
  have "marker (signed_event eid intent) = Some (''item'', VERSION)"
    by (simp add: marker_def facts(2) tags_rows_head)
  moreover have "group_matches (signed_event eid intent) ''tts''"
    using facts(3) by (simp add: sample_item_def)
  moreover have "parse_item (signed_event eid intent) = Some (published_view eid (wi_author intent) sample_item)"
    using compose_spoken_item_parse_item [OF plain_group_send_contract i, of eid] sample_item_readable
    by simp
  ultimately show "\<exists>author. parse (sample_event eid) ''tts'' = Some (Item (published_view eid author sample_item))"
    by (auto simp: sample_event_def i parse_def facts(4))
  show "ev_id (sample_event eid) = eid" by (simp add: sample_event_def i facts(8))
qed

definition sample_configuration :: kernel_configuration where
  "sample_configuration =
     \<lparr>kc_relay = ''wss://relay'', kc_group_id = ''tts'', kc_store_path = None, kc_viewer_pubkey = Some ''me''\<rparr>"

definition no_evidence :: acquisition_evidence where
  "no_evidence = \<lparr>aq_sources = [], aq_shortfall = []\<rparr>"

theorem project_row_order_witness:
  "project sample_configuration [sample_event ''e1'', sample_event ''e2''] no_evidence
   = project sample_configuration [sample_event ''e2'', sample_event ''e1''] no_evidence"
proof (rule project_row_order)
  show "mset [sample_event ''e1'', sample_event ''e2''] = mset [sample_event ''e2'', sample_event ''e1'']"
    by simp
  show "inj_on ev_id (set [sample_event ''e1'', sample_event ''e2''])"
    by (auto simp: sample_event_id inj_on_def)
qed

lemma collect_rows_item:
  assumes "inj_on ev_id (set rs)" and "r \<in> set rs" and "parse r g = Some (Item item)"
  shows "btree_get (co_items (collect_rows g rs)) (ev_id r) = Some item"
proof -
  let ?xs = "rev (map (\<lambda>i. (item_id i, i)) (items_of g rs))"
  have "(ev_id r, item) \<in> set ?xs"
    using assms(2,3) parse_ItemD(2) [OF assms(3)] by (force simp: items_of_mem image_iff)
  then obtain w where w: "map_of ?xs (ev_id r) = Some w" using weak_map_of_SomeI by fastforce
  then have "w \<in> set (items_of g rs)" "item_id w = ev_id r" by (auto dest!: map_of_SomeD)
  then obtain s where "s \<in> set rs" "parse s g = Some (Item w)" "ev_id s = ev_id r"
    by (auto simp: items_of_mem parse_ItemD(2))
  moreover from this have "s = r" using assms(1,2) by (auto dest: inj_onD)
  ultimately show ?thesis using w assms(3) by (simp add: collect_rows_get)
qed

lemma queue_ids_rows: "set (queue_ids cfg rs) \<subseteq> ev_id ` set rs"
proof
  fix i assume "i \<in> set (queue_ids cfg rs)"
  then obtain item where "btree_get (co_items (collect_rows (kc_group_id cfg) rs)) i = Some item"
    using queue_ids_visible by (fastforce simp: resolved_items_get)
  then show "i \<in> ev_id ` set rs"
    by (auto simp: collect_rows_get items_of_mem parse_ItemD(2) dest!: map_of_SomeD)
qed

lemma sorted_take_before:
  assumes "transp le" and "\<And>a b. le a b \<or> le b a" and "x \<in> set xs" and "sorted_wrt le xs"
  shows "x \<in> set (take n xs) \<or> (length (take n xs) = n \<and> list_all (\<lambda>y. le y x) (take n xs))"
proof (cases "x \<in> set (take n xs)")
  case False
  then have x: "x \<in> set (drop n xs)" using assms(3) by (metis Un_iff append_take_drop_id set_append)
  then have "n < length xs" by (metis drop_all empty_iff list.set(1) not_le)
  moreover have "sorted_wrt le (take n xs @ drop n xs)" using assms(4) by simp
  then have "\<forall>y \<in> set (take n xs). le y x" using x unfolding sorted_wrt_append by blast
  ultimately show ?thesis by (simp add: list_all_iff)
qed simp

lemma project_item_ids: "map item_id (qs_items (project cfg rs ev)) = queue_ids cfg rs"
proof -
  have "item_id (the (btree_get (resolved_items cfg rs) i)) = i" if "i \<in> set (queue_ids cfg rs)" for i
    using queue_ids_visible [OF that] by auto
  then show ?thesis by (simp add: project_queue_items comp_def map_idI)
qed

text \<open>
  C31: nothing visible is lost. An event of the group that parses as an item without attach link and
  that the viewer has not dismissed or archived is on the screen, unless the screen is full with 40
  items that all rank at least as high by (time descending, id ascending).
\<close>

theorem project_shows_all:
  assumes "inj_on ev_id (set rs)" and "r \<in> set rs"
    and "parse r (kc_group_id cfg) = Some (Item item)"
    and "si_attach (item_fields item) = None"
    and "\<not> is_some_and (viewer_acknowledgement cfg rs (ev_id r))
           (\<lambda>ack. ack_state ack = Dismissed \<or> ack_state ack = Archived)"
  shows "ev_id r \<in> set (map item_id (qs_items (project cfg rs ev)))
    \<or> (length (qs_items (project cfg rs ev)) = 40
       \<and> list_all (\<lambda>shown. ev_created_at r < si_created_at (item_fields shown)
            \<or> (ev_created_at r = si_created_at (item_fields shown) \<and> item_id shown \<le> ev_id r))
          (qs_items (project cfg rs ev)))"
proof -
  let ?R = "resolved_items cfg rs"
  have "btree_get (co_items (collect_rows (kc_group_id cfg) rs)) (ev_id r) = Some item"
    using assms(1-3) by (rule collect_rows_item)
  then obtain shown where shown: "btree_get ?R (ev_id r) = Some shown"
    "si_attach (item_fields shown) = None" "si_created_at (item_fields shown) = ev_created_at r"
    "si_acknowledgement (item_fields shown) = viewer_acknowledgement cfg rs (ev_id r)"
    using assms(4) parse_ItemD [OF assms(3)]
    by (simp add: resolved_items_get) (simp add: resolved_view_def viewer_acknowledgement_def split: option.splits)
  have "ev_id r \<in> set (sort_by (screen_le ?R)
      (filter (\<lambda>i. \<not> is_some_and (btree_get ?R i) is_hidden) (unattached ?R)))"
    using shown assms(5) unattached_mem [OF resolved_items_keyed, of "ev_id r"]
    by (simp add: is_hidden_def)
  from sorted_take_before [OF screen_le_trans screen_le_total this
      sorted_sort_by [OF screen_le_trans screen_le_total], of MAX_PROJECTED_ITEMS]
  have "ev_id r \<in> set (queue_ids cfg rs) \<or>
      (length (queue_ids cfg rs) = 40 \<and> list_all (\<lambda>y. screen_le ?R y (ev_id r)) (queue_ids cfg rs))"
    by (simp add: queue_ids_def screen_ids_def MAX_PROJECTED_ITEMS_def)
  then show ?thesis
  proof
    assume full: "length (queue_ids cfg rs) = 40 \<and> list_all (\<lambda>y. screen_le ?R y (ev_id r)) (queue_ids cfg rs)"
    have "ev_created_at r < si_created_at (item_fields s)
        \<or> (ev_created_at r = si_created_at (item_fields s) \<and> item_id s \<le> ev_id r)"
      if s: "s \<in> set (qs_items (project cfg rs ev))" for s
    proof -
      obtain i where i: "i \<in> set (queue_ids cfg rs)" "item_fields s = item_fields (the (btree_get ?R i))"
        using s by (auto simp: project_queue_items)
      then have "screen_le ?R i (ev_id r)" using full by (simp add: list_all_iff)
      then show ?thesis
        using queue_ids_visible [OF i(1)] i(2) shown(1,3) by (auto simp: screen_le_def created_of_def)
    qed
    then show ?thesis
      using full project_item_ids [of cfg rs ev] unfolding list_all_iff by (metis length_map)
  qed (simp add: project_item_ids)
qed

theorem project_shows_all_witness:
  "''e1'' \<in> set (map item_id (qs_items (project sample_configuration [sample_event ''e1''] no_evidence)))"
proof -
  let ?items = "qs_items (project sample_configuration [sample_event ''e1''] no_evidence)"
  obtain author where p: "parse (sample_event ''e1'') (kc_group_id sample_configuration)
      = Some (Item (published_view ''e1'' author sample_item))"
    using sample_event_parse by (auto simp: sample_configuration_def)
  have "si_attach (item_fields (published_view ''e1'' author sample_item)) = None"
    by (simp add: published_view_def sample_item_def)
  moreover have "viewer_acknowledgement sample_configuration [sample_event ''e1''] ''e1'' = None"
    using p by (simp add: viewer_acknowledgement_def acknowledgements_of_def map_filter_simps sample_configuration_def)
  ultimately have "''e1'' \<in> set (map item_id ?items) \<or> length ?items = 40"
    using project_shows_all [OF _ _ p, of "[sample_event ''e1'']" no_evidence] by (auto simp: sample_event_id)
  moreover have "length (map item_id ?items) \<le> card (ev_id ` set [sample_event ''e1''])"
    using card_mono [OF _ queue_ids_rows] distinct_card [OF queue_ids_distinct]
    by (metis List.finite_set finite_imageI project_item_ids)
  ultimately show ?thesis by simp
qed

end
