(* ===== verification/File_System.thy ===== *)
theory File_System
  imports Prelude
begin

text \<open>
  What the daemon uses of \<open>std::fs\<close> and \<open>std::path\<close>. Files are byte strings under path names;
  directories are not recorded. Every operation first consumes one entry of a fault schedule, so that
  any call may fail with an operating system error at any moment; an interrupted write leaves a prefix
  of its bytes. Fallible operations on a state are functions to a sum and the next state.
\<close>

section \<open>Fallible operations on a state\<close>

type_synonym ('s, 'e, 'a) action = "'s \<Rightarrow> ('e + 'a) \<times> 's"

definition and_then :: "('s, 'e, 'a) action \<Rightarrow> ('a \<Rightarrow> ('s, 'e, 'b) action) \<Rightarrow> ('s, 'e, 'b) action" where
  "and_then m f s = (case m s of (Inl e, s') \<Rightarrow> (Inl e, s') | (Inr x, s') \<Rightarrow> f x s')"

definition with_error :: "('e \<Rightarrow> 'f) \<Rightarrow> ('s, 'e, 'a) action \<Rightarrow> ('s, 'f, 'a) action" where
  "with_error g m s = (case m s of (r, s') \<Rightarrow> (map_err g r, s'))"

definition of_result :: "'e + 'a \<Rightarrow> ('s, 'e, 'a) action" where
  "of_result r s = (r, s)"

abbreviation ok :: "'a \<Rightarrow> ('s, 'e, 'a) action" where
  "ok x \<equiv> of_result (Inr x)"

abbreviation fail :: "'e \<Rightarrow> ('s, 'e, 'a) action" where
  "fail e \<equiv> of_result (Inl e)"

text \<open>Running an action of a part of a larger state.\<close>

definition on_part :: "('w \<Rightarrow> 's) \<Rightarrow> ('s \<Rightarrow> 'w \<Rightarrow> 'w) \<Rightarrow> ('s, 'e, 'a) action \<Rightarrow> ('w, 'e, 'a) action" where
  "on_part get put m w = (case m (get w) of (r, s') \<Rightarrow> (r, put s' w))"

section \<open>Paths\<close>

definition path_join :: "string \<Rightarrow> string \<Rightarrow> string" where
  "path_join base rest =
     (if starts_with rest ''/'' then rest
      else if base = [] then rest
      else if last base = CHR ''/'' then base @ rest
      else base @ CHR ''/'' # rest)"

fun split_path :: "string \<Rightarrow> string \<Rightarrow> string list" where
  "split_path current [] = [rev current]"
| "split_path current (c # cs) =
     (if c = CHR ''/'' then rev current # split_path [] cs else split_path (c # current) cs)"

text \<open>
  \<open>Path::components\<close>: an absolute path keeps its root; repeated separators, a trailing separator and
  inner \<open>.\<close> components disappear; \<open>Path\<close> equality compares components.
\<close>

definition path_components :: "string \<Rightarrow> string list" where
  "path_components path =
     (let parts = split_path [] path;
          plain = filter (\<lambda>part. part \<noteq> [] \<and> part \<noteq> ''.'') parts
      in if starts_with path ''/'' then ''/'' # plain
         else if hd parts = ''.'' then ''.'' # plain
         else plain)"

definition path_eq :: "string \<Rightarrow> string \<Rightarrow> bool" where
  "path_eq a b \<longleftrightarrow> path_components a = path_components b"

section \<open>Files\<close>

datatype io_error = IoNotFound | IoAlreadyExists | IoOther string

definition io_error_text :: "io_error \<Rightarrow> string" where
  "io_error_text e =
     (case e of
        IoNotFound \<Rightarrow> ''No such file or directory (os error 2)''
      | IoAlreadyExists \<Rightarrow> ''File exists (os error 17)''
      | IoOther message \<Rightarrow> message)"

record file_system =
  fs_files :: "string \<rightharpoonup> string"
  fs_faults :: "(string \<times> nat) option list"

type_synonym 'a io = "(file_system, io_error, 'a) action"

definition next_fault :: "file_system \<Rightarrow> (string \<times> nat) option \<times> file_system" where
  "next_fault fs =
     (case fs_faults fs of [] \<Rightarrow> (None, fs) | f # rest \<Rightarrow> (f, fs\<lparr>fs_faults := rest\<rparr>))"

definition guarded :: "'a io \<Rightarrow> 'a io" where
  "guarded op fs =
     (case next_fault fs of (Some (message, n), fs) \<Rightarrow> (Inl (IoOther message), fs) | (None, fs) \<Rightarrow> op fs)"

definition fs_read :: "string \<Rightarrow> string io" where
  "fs_read path =
     guarded (\<lambda>fs. (case fs_files fs path of None \<Rightarrow> Inl IoNotFound | Some bytes \<Rightarrow> Inr bytes, fs))"

definition fs_create_new :: "string \<Rightarrow> unit io" where
  "fs_create_new path =
     guarded (\<lambda>fs. if fs_files fs path \<noteq> None then (Inl IoAlreadyExists, fs)
                   else (Inr (), fs\<lparr>fs_files := (fs_files fs)(path \<mapsto> [])\<rparr>))"

definition file_bytes :: "file_system \<Rightarrow> string \<Rightarrow> string" where
  "file_bytes fs path = (case fs_files fs path of None \<Rightarrow> [] | Some bytes \<Rightarrow> bytes)"

definition fs_write_all :: "string \<Rightarrow> string \<Rightarrow> unit io" where
  "fs_write_all path bytes fs =
     (case next_fault fs of
        (Some (message, n), fs) \<Rightarrow>
          (Inl (IoOther message),
           fs\<lparr>fs_files := (fs_files fs)(path \<mapsto> file_bytes fs path @ take n bytes)\<rparr>)
      | (None, fs) \<Rightarrow> (Inr (), fs\<lparr>fs_files := (fs_files fs)(path \<mapsto> file_bytes fs path @ bytes)\<rparr>))"

definition fs_sync_all :: "unit io" where
  "fs_sync_all = guarded (ok ())"

definition fs_open_dir :: "string \<Rightarrow> unit io" where
  "fs_open_dir path = guarded (ok ())"

definition fs_create_dir_all :: "string \<Rightarrow> unit io" where
  "fs_create_dir_all path = guarded (ok ())"

definition fs_hard_link :: "string \<Rightarrow> string \<Rightarrow> unit io" where
  "fs_hard_link source dest =
     guarded (\<lambda>fs. case fs_files fs source of
         None \<Rightarrow> (Inl IoNotFound, fs)
       | Some bytes \<Rightarrow>
           if fs_files fs dest \<noteq> None then (Inl IoAlreadyExists, fs)
           else (Inr (), fs\<lparr>fs_files := (fs_files fs)(dest \<mapsto> bytes)\<rparr>))"

definition fs_rename :: "string \<Rightarrow> string \<Rightarrow> unit io" where
  "fs_rename source dest =
     guarded (\<lambda>fs. case fs_files fs source of
         None \<Rightarrow> (Inl IoNotFound, fs)
       | Some bytes \<Rightarrow>
           (Inr (), fs\<lparr>fs_files := ((fs_files fs)(source := None))(dest \<mapsto> bytes)\<rparr>))"

definition fs_remove_file :: "string \<Rightarrow> unit io" where
  "fs_remove_file path =
     guarded (\<lambda>fs. if fs_files fs path = None then (Inl IoNotFound, fs)
                   else (Inr (), fs\<lparr>fs_files := (fs_files fs)(path := None)\<rparr>))"

lemmas fs_op_defs =
  fs_read_def fs_create_new_def fs_write_all_def fs_sync_all_def fs_open_dir_def
  fs_create_dir_all_def fs_hard_link_def fs_rename_def fs_remove_file_def guarded_def next_fault_def
  of_result_def

lemma and_then_cases:
  assumes "and_then m f s = (r, s')"
  obtains (Error) e where "m s = (Inl e, s')" "r = Inl e"
    | (Ok) x t where "m s = (Inr x, t)" "f x t = (r, s')"
  using assms by (auto simp: and_then_def split: prod.splits sum.splits)

lemma with_error_Inr [simp]: "with_error g m s = (Inr x, s') \<longleftrightarrow> m s = (Inr x, s')"
  by (cases "m s"; cases "fst (m s)") (auto simp: with_error_def)

lemma with_error_cases:
  assumes "with_error g m s = (r, s')"
  obtains (Error) e where "m s = (Inl e, s')" "r = Inl (g e)"
    | (Ok) x where "m s = (Inr x, s')" "r = Inr x"
  using assms by (cases "m s"; cases "fst (m s)") (auto simp: with_error_def)

lemma of_result_eq [simp]: "of_result r s = (r', s') \<longleftrightarrow> r' = r \<and> s' = s"
  by (auto simp: of_result_def)

lemma of_result_snd [simp]: "snd (of_result r s) = s"
  by (simp add: of_result_def)

lemma file_untouched:
  "fs_read p fs = (r, fs') \<Longrightarrow> fs_files fs' = fs_files fs"
  "fs_sync_all fs = (u, fs') \<Longrightarrow> fs_files fs' = fs_files fs"
  "fs_open_dir p fs = (u, fs') \<Longrightarrow> fs_files fs' = fs_files fs"
  "fs_create_dir_all p fs = (u, fs') \<Longrightarrow> fs_files fs' = fs_files fs"
  by (auto simp: fs_op_defs split: list.splits option.splits prod.splits if_splits)

lemma fs_read_Inr: "fs_read p fs = (Inr bytes, fs') \<Longrightarrow> fs_files fs p = Some bytes"
  by (auto simp: fs_op_defs split: list.splits option.splits prod.splits if_splits)

lemma fs_read_Inl_NotFound: "fs_read p fs = (Inl IoNotFound, fs') \<Longrightarrow> fs_files fs p = None"
  by (auto simp: fs_op_defs split: list.splits option.splits prod.splits if_splits)

lemma file_other:
  "fs_create_new p fs = (u, fs') \<Longrightarrow> q \<noteq> p \<Longrightarrow> fs_files fs' q = fs_files fs q"
  "fs_write_all p bytes fs = (u, fs') \<Longrightarrow> q \<noteq> p \<Longrightarrow> fs_files fs' q = fs_files fs q"
  "fs_remove_file p fs = (u, fs') \<Longrightarrow> q \<noteq> p \<Longrightarrow> fs_files fs' q = fs_files fs q"
  "fs_hard_link o' p fs = (u, fs') \<Longrightarrow> q \<noteq> p \<Longrightarrow> fs_files fs' q = fs_files fs q"
  "fs_rename o' p fs = (u, fs') \<Longrightarrow> q \<noteq> p \<Longrightarrow> q \<noteq> o' \<Longrightarrow> fs_files fs' q = fs_files fs q"
  by (auto simp: fs_op_defs split: list.splits option.splits prod.splits if_splits)

lemma fs_create_new_Inr: "fs_create_new p fs = (Inr u, fs') \<Longrightarrow> fs_files fs' p = Some []"
  by (auto simp: fs_op_defs split: list.splits option.splits prod.splits if_splits)

lemma fs_write_all_Inr:
  "fs_write_all p bytes fs = (Inr u, fs') \<Longrightarrow> fs_files fs' p = Some (file_bytes fs p @ bytes)"
  by (auto simp: fs_op_defs file_bytes_def split: list.splits option.splits prod.splits if_splits)

lemma fs_hard_link_Inr:
  "fs_hard_link o' p fs = (Inr u, fs') \<Longrightarrow>
   fs_files fs p = None \<and> fs_files fs o' \<noteq> None \<and> fs_files fs' = (fs_files fs)(p := fs_files fs o')"
  by (auto simp: fs_op_defs split: list.splits option.splits prod.splits if_splits)

lemma fs_hard_link_Inl:
  "fs_hard_link o' p fs = (Inl e, fs') \<Longrightarrow>
   fs_files fs' = fs_files fs
   \<and> (e = IoAlreadyExists \<longrightarrow> fs_files fs p \<noteq> None) \<and> (e = IoNotFound \<longrightarrow> fs_files fs o' = None)"
  by (auto simp: fs_op_defs split: list.splits option.splits prod.splits if_splits)

lemma fs_rename_Inr:
  "fs_rename o' p fs = (Inr u, fs') \<Longrightarrow>
   fs_files fs o' \<noteq> None \<and> fs_files fs' = ((fs_files fs)(o' := None))(p := fs_files fs o')"
  by (auto simp: fs_op_defs split: list.splits option.splits prod.splits if_splits)

lemma fs_rename_Inl: "fs_rename o' p fs = (Inl e, fs') \<Longrightarrow> fs_files fs' = fs_files fs"
  by (auto simp: fs_op_defs split: list.splits option.splits prod.splits if_splits)

text \<open>With an empty fault schedule every operation has its plain effect.\<close>

lemma fs_no_fault:
  assumes "fs_faults fs = []"
  shows "fs_read p fs = (case fs_files fs p of None \<Rightarrow> Inl IoNotFound | Some bytes \<Rightarrow> Inr bytes, fs)"
    and "fs_sync_all fs = (Inr (), fs)" and "fs_open_dir p fs = (Inr (), fs)"
    and "fs_create_dir_all p fs = (Inr (), fs)"
    and "fs_files fs p = None \<Longrightarrow>
      fs_create_new p fs = (Inr (), fs\<lparr>fs_files := (fs_files fs)(p \<mapsto> [])\<rparr>)"
    and "fs_write_all p bytes fs = (Inr (), fs\<lparr>fs_files := (fs_files fs)(p \<mapsto> file_bytes fs p @ bytes)\<rparr>)"
    and "fs_files fs o' = Some b \<Longrightarrow> fs_files fs p = None \<Longrightarrow>
      fs_hard_link o' p fs = (Inr (), fs\<lparr>fs_files := (fs_files fs)(p \<mapsto> b)\<rparr>)"
    and "fs_files fs o' = Some b \<Longrightarrow>
      fs_rename o' p fs = (Inr (), fs\<lparr>fs_files := ((fs_files fs)(o' := None))(p \<mapsto> b)\<rparr>)"
    and "fs_files fs p = Some b \<Longrightarrow>
      fs_remove_file p fs = (Inr (), fs\<lparr>fs_files := (fs_files fs)(p := None)\<rparr>)"
  using assms by (simp_all add: fs_op_defs split: option.split)

text \<open>A file system with one more file.\<close>

definition with_file :: "string \<Rightarrow> string \<Rightarrow> file_system \<Rightarrow> file_system" where
  "with_file path bytes fs = fs\<lparr>fs_files := (fs_files fs)(path \<mapsto> bytes)\<rparr>"

lemma with_file_simps [simp]:
  "fs_files (with_file path bytes fs) = (fs_files fs)(path \<mapsto> bytes)"
  "fs_faults (with_file path bytes fs) = fs_faults fs"
  by (simp_all add: with_file_def)

section \<open>Triples for fallible operations\<close>

text \<open>
  \<open>yields P m Q\<close>: from a state with \<open>P\<close>, whatever \<open>m\<close> returns and leaves behind satisfies \<open>Q\<close>. An error
  ends a sequence early, so the postcondition of a first step splits into the final one (errors) and
  what the next step starts from.
\<close>

definition yields :: "('s \<Rightarrow> bool) \<Rightarrow> ('s, 'e, 'a) action \<Rightarrow> ('e + 'a \<Rightarrow> 's \<Rightarrow> bool) \<Rightarrow> bool" where
  "yields P m Q \<longleftrightarrow> (\<forall>s r s'. P s \<longrightarrow> m s = (r, s') \<longrightarrow> Q r s')"

lemma yieldsI: "(\<And>s r s'. P s \<Longrightarrow> m s = (r, s') \<Longrightarrow> Q r s') \<Longrightarrow> yields P m Q"
  by (simp add: yields_def)

lemma yieldsD: "yields P m Q \<Longrightarrow> P s \<Longrightarrow> m s = (r, s') \<Longrightarrow> Q r s'"
  by (simp add: yields_def)

lemma yields_and_then:
  assumes "yields P m (case_sum (\<lambda>e. Q (Inl e)) R)" and "\<And>x. yields (R x) (f x) Q"
  shows "yields P (and_then m f) Q"
  using assms by (fastforce simp: yields_def elim!: and_then_cases)

lemma yields_with_error:
  "yields P m (\<lambda>r. Q (map_err g r)) \<Longrightarrow> yields P (with_error g m) Q"
  by (fastforce simp: yields_def elim!: with_error_cases)

lemma yields_of_result: "(\<And>s. P s \<Longrightarrow> Q r s) \<Longrightarrow> yields P (of_result r) Q"
  by (simp add: yields_def)

lemma yields_weaken: "yields P' m Q' \<Longrightarrow> (\<And>s. P s \<Longrightarrow> P' s) \<Longrightarrow> (\<And>r s. Q' r s \<Longrightarrow> Q r s) \<Longrightarrow> yields P m Q"
  unfolding yields_def by blast

section \<open>Triples for operations that must succeed\<close>

text \<open>\<open>attains P m Q\<close>: from every state with \<open>P\<close>, \<open>m\<close> succeeds with a result and a state that satisfy \<open>Q\<close>.\<close>

definition attains :: "('s \<Rightarrow> bool) \<Rightarrow> ('s, 'e, 'a) action \<Rightarrow> ('a \<Rightarrow> 's \<Rightarrow> bool) \<Rightarrow> bool" where
  "attains P m Q \<longleftrightarrow> (\<forall>s. P s \<longrightarrow> (\<exists>x s'. m s = (Inr x, s') \<and> Q x s'))"

lemma attainsI: "(\<And>s. P s \<Longrightarrow> \<exists>x s'. m s = (Inr x, s') \<and> Q x s') \<Longrightarrow> attains P m Q"
  by (simp add: attains_def)

lemma attainsE:
  assumes "attains P m Q" and "P s"
  obtains x s' where "m s = (Inr x, s')" "Q x s'"
  using assms by (auto simp: attains_def)

lemma attains_and_then:
  assumes "attains P m R" and "\<And>x. attains (R x) (f x) Q"
  shows "attains P (and_then m f) Q"
proof (rule attainsI)
  fix s assume "P s"
  then obtain x t where "m s = (Inr x, t)" "R x t" by (rule attainsE [OF assms(1)])
  then show "\<exists>y s'. and_then m f s = (Inr y, s') \<and> Q y s'"
    using assms(2) by (auto simp: attains_def and_then_def)
qed

lemma attains_with_error: "attains P m Q \<Longrightarrow> attains P (with_error g m) Q"
  by (simp add: attains_def)

lemma attains_ok: "(\<And>s. P s \<Longrightarrow> Q x s) \<Longrightarrow> attains P (ok x) Q"
  by (simp add: attains_def)

lemma attains_weaken: "attains P' m Q' \<Longrightarrow> (\<And>s. P s \<Longrightarrow> P' s) \<Longrightarrow> (\<And>x s. Q' x s \<Longrightarrow> Q x s) \<Longrightarrow> attains P m Q"
  unfolding attains_def by meson

lemma attains_assume: "(C \<Longrightarrow> attains P m Q) \<Longrightarrow> attains (\<lambda>s. C \<and> P s) m Q"
  by (auto simp: attains_def)

text \<open>What is known of every outcome holds of the one that is attained.\<close>

lemma attains_yields:
  assumes "attains P m Q" and "yields R m S"
  shows "attains (\<lambda>s. P s \<and> R s) m (\<lambda>x s. Q x s \<and> S (Inr x) s)"
proof (rule attainsI)
  fix s assume s: "P s \<and> R s"
  then obtain x t where t: "m s = (Inr x, t)" "Q x t" by (auto elim: attainsE [OF assms(1)])
  with yieldsD [OF assms(2) conjunct2 [OF s] t(1)]
  show "\<exists>x t. m s = (Inr x, t) \<and> Q x t \<and> S (Inr x) t" by blast
qed

end
