(* ===== verification/Accounts.thy ===== *)
theory Accounts
  imports Nmp File_System
begin

text \<open>
  The account operations of the NMP engine, which is not part of the repository: parameters on the
  engine's state, with what its documentation promises about the registrations it holds.
\<close>

record 'x account_engine =
  ae_add_account :: "string \<Rightarrow> ('x, string, account_registration) action"
  ae_remove_account :: "account_registration \<Rightarrow> ('x, string, bool) action"
  ae_set_active_account :: "public_key option \<Rightarrow> ('x, string, unit) action"

text \<open>Engine calls whose outcome is ignored (\<open>let _ = ...\<close>).\<close>

definition ignoring :: "('x, 'e, 'a) action \<Rightarrow> 'x \<Rightarrow> 'x" where
  "ignoring m x = snd (m x)"

text \<open>
  What the account operations of the engine do to its set of registrations: a successful addition makes a
  new one, a removal removes exactly the given one, and activation leaves the set alone.
\<close>

definition account_contract :: "'x account_engine \<Rightarrow> ('x \<Rightarrow> account_registration set) \<Rightarrow> bool" where
  "account_contract ae accounts \<longleftrightarrow>
     (\<forall>secret x.
        (case ae_add_account ae secret x of
           (Inl _, x') \<Rightarrow> accounts x' = accounts x
         | (Inr registration, x') \<Rightarrow>
             registration \<notin> accounts x \<and> accounts x' = insert registration (accounts x)))
     \<and> (\<forall>registration x. accounts (snd (ae_remove_account ae registration x)) = accounts x - {registration})
     \<and> (\<forall>key x. accounts (snd (ae_set_active_account ae key x)) = accounts x)"

lemma account_contractD:
  assumes "account_contract ae accounts"
  shows "ae_add_account ae secret x = (Inl e, x') \<Longrightarrow> accounts x' = accounts x"
    and "ae_add_account ae secret x = (Inr registration, x') \<Longrightarrow>
      registration \<notin> accounts x \<and> accounts x' = insert registration (accounts x)"
    and "accounts (ignoring (ae_remove_account ae registration) x) = accounts x - {registration}"
    and "accounts (ignoring (ae_set_active_account ae key) x) = accounts x"
    and "ae_set_active_account ae key x = (r, x') \<Longrightarrow> accounts x' = accounts x"
proof -
  note c = assms [unfolded account_contract_def]
  show "ae_add_account ae secret x = (Inl e, x') \<Longrightarrow> accounts x' = accounts x"
    "ae_add_account ae secret x = (Inr registration, x') \<Longrightarrow>
      registration \<notin> accounts x \<and> accounts x' = insert registration (accounts x)"
    using c [THEN conjunct1, THEN spec [of _ secret], THEN spec [of _ x]] by simp_all
  show "accounts (ignoring (ae_remove_account ae registration) x) = accounts x - {registration}"
    "accounts (ignoring (ae_set_active_account ae key) x) = accounts x"
    using c by (simp_all add: ignoring_def)
  show "ae_set_active_account ae key x = (r, x') \<Longrightarrow> accounts x' = accounts x"
    using c by (metis snd_conv)
qed

text \<open>An engine that accepts every non-empty secret; handles grow.\<close>

definition listing_engine :: "account_registration list account_engine" where
  "listing_engine =
     \<lparr>ae_add_account = (\<lambda>secret regs. if secret = [] then (Inl ''empty'', regs)
        else (let r = \<lparr>ac_public_key = secret, ac_handle = Suc (sum_list (map ac_handle regs))\<rparr> in (Inr r, r # regs))),
      ae_remove_account = (\<lambda>r regs. (Inr (r \<in> set regs), removeAll r regs)),
      ae_set_active_account = (\<lambda>key regs. (Inr (), regs))\<rparr>"

lemma listing_engine_contract: "account_contract listing_engine set"
proof -
  have fresh: "\<lparr>ac_public_key = k, ac_handle = Suc (sum_list (map ac_handle regs))\<rparr> \<notin> set regs" for k regs
  proof
    assume "\<lparr>ac_public_key = k, ac_handle = Suc (sum_list (map ac_handle regs))\<rparr> \<in> set regs"
    then have "Suc (sum_list (map ac_handle regs)) \<in> set (map ac_handle regs)" by force
    then show False using member_le_sum_list [of "Suc (sum_list (map ac_handle regs))" "map ac_handle regs"] by simp
  qed
  then show ?thesis by (auto simp: account_contract_def listing_engine_def Let_def)
qed

end
