(* ===== verification/App_Identity.thy ===== *)
theory App_Identity
  imports Projection Accounts
begin

text \<open>
  The identity controller of the app kernel (\<open>core/src/identity.rs\<close>): one signed-in account at most, and
  at most one pending operation on the platform's credential store. The NMP engine's account operations
  are parameters on its state.
\<close>

datatype pending_credential =
    PendingStore credential_request account_registration string
  | PendingDelete credential_request

definition pending_request :: "pending_credential \<Rightarrow> credential_request" where
  "pending_request pending =
     (case pending of PendingStore request registration pubkey \<Rightarrow> request | PendingDelete request \<Rightarrow> request)"

record identity_controller =
  ic_account :: "account_registration option"
  ic_snapshot :: identity_snapshot
  ic_pending :: "pending_credential option"
  ic_next_request_id :: u64

definition identity_new :: identity_controller where
  "identity_new =
     \<lparr>ic_account = None, ic_snapshot = signed_out, ic_pending = None, ic_next_request_id = 1\<rparr>"

definition ic_credential_request :: "identity_controller \<Rightarrow> credential_request option" where
  "ic_credential_request ic = map_option pending_request (ic_pending ic)"

definition active_pubkey :: "identity_controller \<Rightarrow> string option" where
  "active_pubkey ic =
     (if ids_phase (ic_snapshot ic) = SignedIn then ids_pubkey (ic_snapshot ic) else None)"

definition set_error :: "string \<Rightarrow> identity_controller \<Rightarrow> identity_controller" where
  "set_error message ic = ic\<lparr>ic_snapshot := (ic_snapshot ic)\<lparr>ids_error := Some message\<rparr>\<rparr>"

definition new_request :: "credential_operation \<Rightarrow> identity_controller \<Rightarrow> credential_request \<times> identity_controller" where
  "new_request operation ic =
     (\<lparr>cr_id = ic_next_request_id ic, cr_operation = operation\<rparr>,
      ic\<lparr>ic_next_request_id := saturating_add (ic_next_request_id ic) 1\<rparr>)"

definition capability_error :: "string \<Rightarrow> string option \<Rightarrow> string" where
  "capability_error prefix error =
     (case error of
        Some e \<Rightarrow> if trim e \<noteq> [] then prefix @ '' '' @ e else prefix
      | None \<Rightarrow> prefix)"

definition detach ::
  "'x account_engine \<Rightarrow> identity_controller \<times> 'x \<Rightarrow> identity_controller \<times> 'x" where
  "detach ae st =
     (case st of (ic, x) \<Rightarrow>
        (let x = ignoring (ae_set_active_account ae None) x in
         case ic_account ic of
           None \<Rightarrow> (ic, x)
         | Some registration \<Rightarrow> (ic\<lparr>ic_account := None\<rparr>, ignoring (ae_remove_account ae registration) x)))"

definition activate ::
  "'x account_engine \<Rightarrow> account_registration \<Rightarrow> string \<Rightarrow> identity_controller \<times> 'x
   \<Rightarrow> identity_controller \<times> 'x" where
  "activate ae registration pubkey st =
     (case st of (ic, x) \<Rightarrow>
        (case ae_set_active_account ae (Some (ac_public_key registration)) x of
           (Inl error, x) \<Rightarrow>
             (ic\<lparr>ic_snapshot := \<lparr>ids_phase = SignedOut, ids_pubkey = None,
                 ids_error = Some (''The account could not be activated: '' @ error)\<rparr>\<rparr>,
              ignoring (ae_remove_account ae registration) x)
         | (Inr _, x) \<Rightarrow>
             (ic\<lparr>ic_account := Some registration,
                 ic_snapshot := \<lparr>ids_phase = SignedIn, ids_pubkey = Some pubkey, ids_error = None\<rparr>\<rparr>, x)))"

definition login ::
  "'x account_engine \<Rightarrow> string \<Rightarrow> bool \<Rightarrow> identity_controller \<times> 'x \<Rightarrow> identity_controller \<times> 'x" where
  "login ae secret persist st =
     (case st of (ic, x) \<Rightarrow>
        if ic_pending ic \<noteq> None then (set_error ''Another account operation is still in progress.'' ic, x)
        else if ic_account ic \<noteq> None then (set_error ''Log out before signing in with another key.'' ic, x)
        else
          (case ae_add_account ae secret x of
             (Inl _, x) \<Rightarrow>
               (ic\<lparr>ic_snapshot := \<lparr>ids_phase = SignedOut, ids_pubkey = None,
                   ids_error = Some ''That nsec is not valid.''\<rparr>\<rparr>, x)
           | (Inr registration, x) \<Rightarrow>
               (let pubkey = ac_public_key registration in
                if persist
                then
                  (case new_request CredentialStore ic of (request, ic) \<Rightarrow>
                     (ic\<lparr>ic_pending := Some (PendingStore request registration pubkey),
                         ic_snapshot := \<lparr>ids_phase = Saving, ids_pubkey = Some pubkey, ids_error = None\<rparr>\<rparr>, x))
                else activate ae registration pubkey (ic, x))))"

definition logout :: "identity_controller \<Rightarrow> identity_controller" where
  "logout ic =
     (if ic_pending ic \<noteq> None then set_error ''Another account operation is still in progress.'' ic
      else if ic_account ic = None then ic\<lparr>ic_snapshot := signed_out\<rparr>
      else
        (case new_request CredentialDelete ic of (request, ic) \<Rightarrow>
           ic\<lparr>ic_pending := Some (PendingDelete request),
              ic_snapshot := (ic_snapshot ic)\<lparr>ids_phase := LoggingOut, ids_error := None\<rparr>\<rparr>))"

definition restore_failed :: "string \<Rightarrow> identity_controller \<Rightarrow> identity_controller" where
  "restore_failed error ic =
     (if ic_account ic = None \<and> ic_pending ic = None
      then ic\<lparr>ic_snapshot := \<lparr>ids_phase = SignedOut, ids_pubkey = None,
              ids_error = Some (capability_error ''The saved login could not be read.'' (Some error))\<rparr>\<rparr>
      else ic)"

definition credential_result ::
  "'x account_engine \<Rightarrow> u64 \<Rightarrow> bool \<Rightarrow> string option \<Rightarrow> identity_controller \<times> 'x
   \<Rightarrow> identity_controller \<times> 'x" where
  "credential_result ae request_id succeeded error st =
     (case st of (ic, x) \<Rightarrow>
        (case ic_pending ic of
           None \<Rightarrow> (ic, x)
         | Some pending \<Rightarrow>
             if cr_id (pending_request pending) \<noteq> request_id then (ic, x)
             else
               (let ic = ic\<lparr>ic_pending := None\<rparr> in
                case pending of
                  PendingStore request registration pubkey \<Rightarrow>
                    if succeeded then activate ae registration pubkey (ic, x)
                    else (ic\<lparr>ic_snapshot := \<lparr>ids_phase = SignedOut, ids_pubkey = None,
                            ids_error = Some (capability_error ''The login could not be saved.'' error)\<rparr>\<rparr>,
                          ignoring (ae_remove_account ae registration) x)
                | PendingDelete request \<Rightarrow>
                    if succeeded
                    then (case detach ae (ic, x) of (ic, x) \<Rightarrow> (ic\<lparr>ic_snapshot := signed_out\<rparr>, x))
                    else (ic\<lparr>ic_snapshot := (ic_snapshot ic)\<lparr>ids_phase := SignedIn,
                            ids_error := Some (capability_error ''The saved login could not be removed.'' error)\<rparr>\<rparr>,
                          x))))"

definition identity_shutdown :: "'x account_engine \<Rightarrow> identity_controller \<times> 'x \<Rightarrow> identity_controller \<times> 'x" where
  "identity_shutdown ae st =
     (case st of (ic, x) \<Rightarrow>
        (let x = (case ic_pending ic of
                    Some (PendingStore request registration pubkey) \<Rightarrow> ignoring (ae_remove_account ae registration) x
                  | _ \<Rightarrow> x)
         in detach ae (ic\<lparr>ic_pending := None\<rparr>, x)))"

section \<open>The controller's invariant\<close>

text \<open>
  The snapshot the user sees tells the truth about the account and the pending operation; a request id
  that is waiting for the platform is older than the next one unless the counter is exhausted.
\<close>

definition identity_ok :: "identity_controller \<Rightarrow> bool" where
  "identity_ok ic \<longleftrightarrow>
     (case ic_pending ic of
        None \<Rightarrow>
          (case ic_account ic of
             None \<Rightarrow> ids_phase (ic_snapshot ic) = SignedOut \<and> ids_pubkey (ic_snapshot ic) = None
           | Some registration \<Rightarrow>
               ids_phase (ic_snapshot ic) = SignedIn
               \<and> ids_pubkey (ic_snapshot ic) = Some (ac_public_key registration))
      | Some (PendingStore request registration pubkey) \<Rightarrow>
          ic_account ic = None \<and> pubkey = ac_public_key registration
          \<and> ids_phase (ic_snapshot ic) = Saving \<and> ids_pubkey (ic_snapshot ic) = Some pubkey
          \<and> cr_operation request = CredentialStore
      | Some (PendingDelete request) \<Rightarrow>
          (case ic_account ic of
             None \<Rightarrow> False
           | Some registration \<Rightarrow>
               ids_phase (ic_snapshot ic) = LoggingOut
               \<and> ids_pubkey (ic_snapshot ic) = Some (ac_public_key registration))
          \<and> cr_operation request = CredentialDelete)"

datatype identity_event =
    IdLogin string bool
  | IdLogout
  | IdRestoreFailed string
  | IdCredentialResult u64 bool "string option"

definition identity_step ::
  "'x account_engine \<Rightarrow> identity_event \<Rightarrow> identity_controller \<times> 'x \<Rightarrow> identity_controller \<times> 'x" where
  "identity_step ae event st =
     (case event of
        IdLogin secret persist \<Rightarrow> login ae secret persist st
      | IdLogout \<Rightarrow> (logout (fst st), snd st)
      | IdRestoreFailed error \<Rightarrow> (restore_failed error (fst st), snd st)
      | IdCredentialResult request_id succeeded error \<Rightarrow> credential_result ae request_id succeeded error st)"

named_theorems identity_defs
declare login_def [identity_defs] logout_def [identity_defs] restore_failed_def [identity_defs]
  credential_result_def [identity_defs] activate_def [identity_defs] detach_def [identity_defs]
  set_error_def [identity_defs] new_request_def [identity_defs] Let_def [identity_defs]

lemma identity_new_ok: "identity_ok identity_new"
  by (simp add: identity_ok_def identity_new_def signed_out_def)

lemma identity_step_ok: "identity_ok (fst st) \<Longrightarrow> identity_ok (fst (identity_step ae event st))"
  by (cases st; cases event)
    (auto simp: identity_step_def identity_ok_def identity_defs signed_out_def
      split: option.splits pending_credential.splits prod.splits sum.splits if_splits)

section \<open>No signer is left behind\<close>

text \<open>The registrations the controller answers for.\<close>

definition held :: "identity_controller \<Rightarrow> account_registration set" where
  "held ic =
     set_option (ic_account ic)
     \<union> (case ic_pending ic of Some (PendingStore request registration pubkey) \<Rightarrow> {registration} | _ \<Rightarrow> {})"

definition tracked :: "('x \<Rightarrow> account_registration set) \<Rightarrow> account_registration set \<Rightarrow> identity_controller \<times> 'x \<Rightarrow> bool" where
  "tracked accounts base st \<longleftrightarrow>
     accounts (snd st) = base \<union> held (fst st) \<and> base \<inter> held (fst st) = {}"

lemma activate_tracked:
  assumes "account_contract ae accounts" and "accounts x = insert registration base"
    and "registration \<notin> base" and "held ic = {}" and "ic_pending ic = None"
  shows "tracked accounts base (activate ae registration pubkey (ic, x))"
proof (cases "ae_set_active_account ae (Some (ac_public_key registration)) x")
  case (Pair r x')
  then show ?thesis
    using assms account_contractD(5) [OF assms(1) Pair] account_contractD(3) [OF assms(1), of registration x']
    by (cases r) (auto simp: tracked_def activate_def held_def)
qed

lemma login_tracked:
  assumes "account_contract ae accounts" and "tracked accounts base (ic, x)"
  shows "tracked accounts base (login ae secret persist (ic, x))"
proof (cases "ic_pending ic \<noteq> None \<or> ic_account ic \<noteq> None")
  case True
  then show ?thesis using assms(2) by (auto simp: login_def set_error_def tracked_def held_def)
next
  case False
  then have free: "ic_pending ic = None" "ic_account ic = None" "held ic = {}" by (simp_all add: held_def)
  obtain r x' where add: "ae_add_account ae secret x = (r, x')" by fastforce
  note laws = account_contractD [OF assms(1)] and t = assms(2) [unfolded tracked_def fst_conv snd_conv]
  show ?thesis
  proof (cases r)
    case (Inl e)
    then show ?thesis
      using free t laws(1) [OF add [unfolded Inl]] by (simp add: login_def add tracked_def held_def)
  next
    case (Inr registration)
    have new: "registration \<notin> base" "accounts x' = insert registration base"
      using t free laws(2) [OF add [unfolded Inr]] by auto
    show ?thesis
      using free new activate_tracked [OF assms(1) new(2,1) free(3,1)]
      by (auto simp: login_def add Inr tracked_def held_def new_request_def Let_def)
  qed
qed

lemma credential_result_tracked:
  assumes "account_contract ae accounts" and "identity_ok ic" and "tracked accounts base (ic, x)"
  shows "tracked accounts base (credential_result ae request_id succeeded error (ic, x))"
proof (cases "\<exists>pending. ic_pending ic = Some pending \<and> cr_id (pending_request pending) = request_id")
  case False
  then show ?thesis
    using assms(3) by (auto simp: credential_result_def tracked_def split: option.split)
next
  case True
  then obtain pending where p: "ic_pending ic = Some pending" "cr_id (pending_request pending) = request_id" by blast
  note laws = account_contractD [OF assms(1)]
  note ok = assms(2) [unfolded identity_ok_def] and t = assms(3) [unfolded tracked_def fst_conv snd_conv]
  show ?thesis
  proof (cases pending)
    case (PendingStore request registration pubkey)
    have h: "held (ic\<lparr>ic_pending := None\<rparr>) = {}" "registration \<notin> base" "accounts x = insert registration base"
      using ok t p(1) PendingStore by (auto simp: held_def)
    show ?thesis
      using activate_tracked [OF assms(1) h(3,2,1)] laws(3) [of registration x] h p PendingStore
      by (cases succeeded) (auto simp: credential_result_def tracked_def held_def)
  next
    case (PendingDelete request)
    then obtain registration where a: "ic_account ic = Some registration"
      using ok p(1) by (auto split: option.splits)
    then have h: "registration \<notin> base" "accounts x = insert registration base"
      using t p(1) PendingDelete by (auto simp: held_def)
    show ?thesis
      using laws(3,4) h a p PendingDelete
      by (cases succeeded) (auto simp: credential_result_def detach_def Let_def tracked_def held_def)
  qed
qed

lemma identity_step_tracked:
  assumes "account_contract ae accounts" and "identity_ok (fst st)" and "tracked accounts base st"
  shows "tracked accounts base (identity_step ae event st)"
proof -
  obtain ic x where st: "st = (ic, x)" by (cases st)
  then show ?thesis
    using assms login_tracked [OF assms(1)] credential_result_tracked [OF assms(1)]
    by (cases event)
      (auto simp: identity_step_def logout_def restore_failed_def set_error_def new_request_def tracked_def held_def)
qed

definition identity_run ::
  "'x account_engine \<Rightarrow> identity_event list \<Rightarrow> 'x \<Rightarrow> identity_controller \<times> 'x" where
  "identity_run ae events x = fold (identity_step ae) events (identity_new, x)"

lemma identity_run_invariant:
  assumes "account_contract ae accounts"
  shows "identity_ok (fst (identity_run ae events x)) \<and> tracked accounts (accounts x) (identity_run ae events x)"
proof (induction events rule: rev_induct)
  case Nil
  then show ?case using identity_new_ok by (simp add: identity_run_def tracked_def held_def identity_new_def)
next
  case (snoc event events)
  then show ?case
    by (simp add: identity_run_def identity_step_ok identity_step_tracked [OF assms])
qed

lemma identity_shutdown_removes:
  assumes "account_contract ae accounts" and "identity_ok ic" and "tracked accounts base (ic, x)"
  shows "accounts (snd (identity_shutdown ae (ic, x))) = base"
proof -
  note laws = account_contractD(3,4) [OF assms(1)]
  show ?thesis
    using assms(2,3) laws
    by (auto simp: identity_shutdown_def detach_def Let_def tracked_def held_def identity_ok_def
        split: option.splits pending_credential.splits)
qed

text \<open>
  The identity controller tells the truth and leaves no signer behind. After any sequence of logins,
  logouts, restore failures and credential results, with an engine that may refuse any of them, the
  snapshot matches the account and the pending operation, the engine holds beyond its original
  registrations exactly the account or the one waiting to be saved, and a shutdown removes it.
\<close>

theorem identity_truthful:
  assumes "account_contract ae accounts" and "identity_run ae events x = (ic, x')"
  shows "identity_ok ic \<and> accounts x' = accounts x \<union> held ic \<and> accounts x \<inter> held ic = {}
    \<and> accounts (snd (identity_shutdown ae (ic, x'))) = accounts x"
  using identity_run_invariant [OF assms(1), of events x] identity_shutdown_removes [OF assms(1)] assms(2)
  by (simp add: tracked_def)

theorem identity_truthful_witness:
  "identity_ok (fst (identity_run listing_engine
      [IdLogin ''nsec'' True, IdCredentialResult 1 True None, IdLogout, IdCredentialResult 2 True None] []))
   \<and> set (snd (identity_run listing_engine
      [IdLogin ''nsec'' True, IdCredentialResult 1 True None, IdLogout, IdCredentialResult 2 True None] [])) = {}"
proof -
  have held: "held (fst (identity_run listing_engine
      [IdLogin ''nsec'' True, IdCredentialResult 1 True None, IdLogout, IdCredentialResult 2 True None] [])) = {}"
    by (simp add: identity_run_def identity_step_def identity_new_def login_def logout_def credential_result_def
        activate_def detach_def ignoring_def new_request_def pending_request_def listing_engine_def Let_def
        saturating_add_def held_def)
  show ?thesis
    using identity_truthful [OF listing_engine_contract surjective_pairing] held by simp
qed

end
