(* ===== verification/App_Session.thy ===== *)
theory App_Session
  imports App_Identity Projection_Laws
begin

text \<open>
  The session of the app kernel (\<open>core/src/session.rs\<close>): the projected queue, the identity and the
  answers being sent. The engine's state, its clock included, is threaded beside the session.
\<close>

record 'x kernel_engine =
  ke_parse_key :: key_parse
  ke_parse_event_id :: "string \<Rightarrow> event_id option"
  ke_group_send :: group_send
  ke_accounts :: "'x account_engine"
  ke_publish_tracked :: "write_intent \<Rightarrow> ('x, string, u64) action"
  ke_unix_seconds :: "'x \<Rightarrow> u64 \<times> 'x"
  ke_shutdown :: "'x \<Rightarrow> 'x"

record session =
  ss_configuration :: kernel_configuration
  ss_host :: relay_url
  ss_identity :: identity_controller
  ss_rows :: "event list"
  ss_evidence :: acquisition_evidence
  ss_queue :: queue_snapshot
  ss_submissions :: "(string, answer_submission_snapshot) btree_map"

definition session_new :: "kernel_configuration \<Rightarrow> relay_url \<Rightarrow> session" where
  "session_new configuration host =
     \<lparr>ss_configuration = configuration, ss_host = host, ss_identity = identity_new, ss_rows = [],
      ss_evidence = \<lparr>aq_sources = [], aq_shortfall = []\<rparr>, ss_queue = lifecycle configuration Listening,
      ss_submissions = []\<rparr>"

definition reproject :: "session \<Rightarrow> session" where
  "reproject s =
     (let s = s\<lparr>ss_configuration := (ss_configuration s)\<lparr>kc_viewer_pubkey := active_pubkey (ss_identity s)\<rparr>\<rparr> in
      if ss_rows s \<noteq> [] then s\<lparr>ss_queue := project (ss_configuration s) (ss_rows s) (ss_evidence s)\<rparr> else s)"

text \<open>The recursive searches over the nested items.\<close>

fun find_item :: "string \<Rightarrow> spoken_item \<Rightarrow> spoken_item option"
  and find_items :: "string \<Rightarrow> spoken_item list \<Rightarrow> spoken_item option" where
  "find_item ident (SpokenItem f children) =
     (if si_id f = ident then Some (SpokenItem f children) else find_items ident children)"
| "find_items ident [] = None"
| "find_items ident (item # rest) =
     (case find_item ident item of Some found \<Rightarrow> Some found | None \<Rightarrow> find_items ident rest)"

fun visible_item_ids :: "spoken_item list \<Rightarrow> string set" where
  "visible_item_ids [] = {}"
| "visible_item_ids (SpokenItem f children # rest) =
     insert (si_id f) (visible_item_ids children \<union> visible_item_ids rest)"

definition update_rows :: "event list \<Rightarrow> acquisition_evidence \<Rightarrow> session \<Rightarrow> session" where
  "update_rows rs evidence s =
     (let s = reproject (s\<lparr>ss_rows := rs, ss_evidence := evidence\<rparr>);
          visible = visible_item_ids (qs_items (ss_queue s))
      in s\<lparr>ss_submissions := filter (\<lambda>(ident, _). ident \<in> visible) (ss_submissions s)\<rparr>)"

definition session_login :: "'x kernel_engine \<Rightarrow> string \<Rightarrow> bool \<Rightarrow> session \<times> 'x \<Rightarrow> session \<times> 'x" where
  "session_login ke secret persist st =
     (case st of (s, x) \<Rightarrow>
        (case login (ke_accounts ke) secret persist (ss_identity s, x) of (ic, x) \<Rightarrow>
           (reproject (s\<lparr>ss_identity := ic\<rparr>), x)))"

definition session_logout :: "session \<Rightarrow> session" where
  "session_logout s = s\<lparr>ss_identity := logout (ss_identity s)\<rparr>"

definition credential_load_failed :: "string \<Rightarrow> session \<Rightarrow> session" where
  "credential_load_failed error s = s\<lparr>ss_identity := restore_failed error (ss_identity s)\<rparr>"

definition session_credential_result ::
  "'x kernel_engine \<Rightarrow> u64 \<Rightarrow> bool \<Rightarrow> string option \<Rightarrow> session \<times> 'x \<Rightarrow> session \<times> 'x" where
  "session_credential_result ke request_id succeeded error st =
     (case st of (s, x) \<Rightarrow>
        (case credential_result (ke_accounts ke) request_id succeeded error (ss_identity s, x) of (ic, x) \<Rightarrow>
           (reproject (s\<lparr>ss_identity := ic\<rparr>), x)))"

text \<open>\<open>[..].join(sep)\<close> and the readable content of an answer.\<close>

fun join :: "string \<Rightarrow> string list \<Rightarrow> string" where
  "join sep [] = []"
| "join sep [x] = x"
| "join sep (x # y # rest) = x @ sep @ join sep (y # rest)"

definition answer_content :: "spoken_fields \<Rightarrow> question_answer list \<Rightarrow> string" where
  "answer_content item answers =
     join [CHR 0x0A] (List.map_filter (\<lambda>answer.
       map_option (\<lambda>q. q_title q @ '': '' @ join '', '' (map (\<lambda>value.
           case find (\<lambda>opt. opt_id opt = value) (q_options q) of Some opt \<Rightarrow> opt_title opt | None \<Rightarrow> value)
         (qa_values answer)))
       (find (\<lambda>q. q_id q = qa_question_id answer) (si_questions item))) answers)"

definition sending :: "string \<Rightarrow> u64 \<Rightarrow> answer_submission_snapshot" where
  "sending ident receipt_id =
     \<lparr>as_item_id = ident, as_phase = Sending, as_receipt_id = Some receipt_id, as_event_id = None, as_error = None\<rparr>"

definition submit_answer ::
  "'x kernel_engine \<Rightarrow> string \<Rightarrow> question_answer list \<Rightarrow> (session \<times> 'x, string, u64) action" where
  "submit_answer ke ident answers st =
     (case st of (s, x) \<Rightarrow>
        (case active_pubkey (ss_identity s) of
           None \<Rightarrow> (Inl ''Log in before answering.'', (s, x))
         | Some author \<Rightarrow>
             if is_some_and (btree_get (ss_submissions s) ident) (\<lambda>state. as_phase state = Sending)
             then (Inl ''That answer is already being sent.'', (s, x))
             else
               (case find_items ident (qs_items (ss_queue s)) of
                  None \<Rightarrow> (Inl ''The question is no longer in the bounded queue.'', (s, x))
                | Some found \<Rightarrow>
                    (let item = item_fields found in
                     if si_questions item = [] then (Inl ''That update has no questions.'', (s, x))
                     else if si_answer item \<noteq> None then (Inl ''That question already has an answer.'', (s, x))
                     else
                       (case ke_unix_seconds ke x of (now, x) \<Rightarrow>
                          (let candidate = \<lparr>ab_event_id = [], ab_author = author, ab_created_at = now,
                                            ab_answers = answers\<rparr> in
                           if \<not> valid_answer (si_questions item) candidate
                           then (Inl ''The selected answer is not valid for this question.'', (s, x))
                           else
                             (let frozen = \<lparr>fa_author = author, fa_created_at = now,
                                    fa_group_id = kc_group_id (ss_configuration s),
                                    fa_root_event_id = si_id item, fa_content = answer_content item answers,
                                    fa_answers = answers\<rparr> in
                              case compose_answer (ke_parse_key ke) (ke_parse_event_id ke) (ke_group_send ke)
                                     (ss_host s) frozen of
                                Inl error \<Rightarrow> (Inl (related_compose_error_text error), (s, x))
                              | Inr intent \<Rightarrow>
                                  (case ke_publish_tracked ke intent x of
                                     (Inl error, x) \<Rightarrow> (Inl (''NMP refused the answer: '' @ error), (s, x))
                                   | (Inr receipt_id, x) \<Rightarrow>
                                       (Inr receipt_id,
                                        (s\<lparr>ss_submissions :=
                                            btree_insert ident (sending ident receipt_id) (ss_submissions s)\<rparr>,
                                         x))))))))))"

definition fail_submission :: "string \<Rightarrow> answer_submission_snapshot \<Rightarrow> answer_submission_snapshot" where
  "fail_submission error submission = submission\<lparr>as_phase := SubmissionFailed, as_error := Some error\<rparr>"

definition apply_status :: "relay_url \<Rightarrow> write_status \<Rightarrow> answer_submission_snapshot \<Rightarrow> answer_submission_snapshot" where
  "apply_status host status submission =
     (case status of
        Signed event_id \<Rightarrow> submission\<lparr>as_event_id := Some event_id\<rparr>
      | Acked relay \<Rightarrow>
          if relay = host then submission\<lparr>as_phase := SubmissionPublished, as_error := None\<rparr> else submission
      | Rejected relay reason \<Rightarrow>
          if relay = host then fail_submission (''The group rejected the answer: '' @ reason) submission
          else submission
      | GaveUp relay \<Rightarrow>
          if relay = host then fail_submission ''The answer could not reach the group.'' submission
          else submission
      | OutcomeUnknown relay \<Rightarrow>
          if relay = host
          then fail_submission ''The answer delivery outcome is unknown; do not send it again blindly.'' submission
          else submission
      | Cancelled \<Rightarrow> fail_submission ''The answer was cancelled.'' submission
      | ReplaceableConflict \<Rightarrow> fail_submission ''The answer conflicted before publication.'' submission
      | Failed reason \<Rightarrow> fail_submission reason submission
      | OtherStatus _ \<Rightarrow> submission)"

definition receipt_status :: "string \<Rightarrow> u64 \<Rightarrow> write_status \<Rightarrow> session \<Rightarrow> session" where
  "receipt_status ident receipt_id status s =
     (case btree_get (ss_submissions s) ident of
        None \<Rightarrow> s
      | Some submission \<Rightarrow>
          if as_receipt_id submission \<noteq> Some receipt_id then s
          else s\<lparr>ss_submissions := btree_insert ident (apply_status (ss_host s) status submission) (ss_submissions s)\<rparr>)"

definition receipt_closed :: "string \<Rightarrow> u64 \<Rightarrow> session \<Rightarrow> session" where
  "receipt_closed ident receipt_id s =
     (case btree_get (ss_submissions s) ident of
        None \<Rightarrow> s
      | Some submission \<Rightarrow>
          if as_receipt_id submission = Some receipt_id \<and> as_phase submission = Sending
          then s\<lparr>ss_submissions := btree_insert ident
                   (fail_submission ''Answer evidence closed before the group acknowledged it.'' submission)
                   (ss_submissions s)\<rparr>
          else s)"

definition action_error :: "string option \<Rightarrow> string \<Rightarrow> session \<Rightarrow> session" where
  "action_error ident error s =
     (case ident of
        Some i \<Rightarrow>
          s\<lparr>ss_submissions := btree_insert i
              \<lparr>as_item_id = i, as_phase = SubmissionFailed, as_receipt_id = None, as_event_id = None,
               as_error = Some error\<rparr> (ss_submissions s)\<rparr>
      | None \<Rightarrow> s\<lparr>ss_queue := (ss_queue s)\<lparr>qs_error := Some error\<rparr>\<rparr>)"

definition session_snapshot :: "session \<Rightarrow> queue_snapshot" where
  "session_snapshot s =
     (ss_queue s)\<lparr>qs_identity := ic_snapshot (ss_identity s),
       qs_credential_request := ic_credential_request (ss_identity s),
       qs_answer_submissions := map snd (ss_submissions s)\<rparr>"

definition session_shutdown :: "'x kernel_engine \<Rightarrow> session \<times> 'x \<Rightarrow> session \<times> 'x" where
  "session_shutdown ke st =
     (case st of (s, x) \<Rightarrow>
        (case identity_shutdown (ke_accounts ke) (ss_identity s, x) of (ic, x) \<Rightarrow> (s\<lparr>ss_identity := ic\<rparr>, x)))"

end
