(* ===== verification/App_Runtime.thy ===== *)
theory App_Runtime
  imports App_Session
begin

text \<open>
  The actor loop of the app kernel (\<open>core/src/runtime.rs\<close>, with the actions of \<open>core/src/action.rs\<close>): events
  arrive on one channel, each is handled by the session, and a snapshot is emitted. The channel is the list
  of the events received; with each event comes what the loop reads from outside when it handles it, the
  stop flag of \<open>Control\<close> and the outcome of starting a receipt thread.
\<close>

datatype app_action = SubmitAnswer string "question_answer list" | Logout

datatype runtime_event =
    Action app_action
  | ActionError string
  | Login string bool
  | CredentialLoadFailed string
  | CredentialResult u64 bool "string option"
  | Frame frame
  | QueryClosed
  | ReceiptStatus string u64 write_status
  | ReceiptClosed string u64
  | Stop

record received_event =
  rv_event :: runtime_event
  rv_stopping :: bool
  rv_spawn :: "string + unit"

datatype loop_outcome = Continue | Break | Abort string

text \<open>One iteration of the loop: how it goes on, the snapshots emitted, the next state.\<close>

definition emitting :: "session \<times> 'x \<Rightarrow> loop_outcome \<times> queue_snapshot list \<times> session \<times> 'x" where
  "emitting st = (Continue, [session_snapshot (fst st)], st)"

definition handle_submit ::
  "'x kernel_engine \<Rightarrow> string + unit \<Rightarrow> string \<Rightarrow> question_answer list \<Rightarrow> session \<times> 'x
   \<Rightarrow> loop_outcome \<times> queue_snapshot list \<times> session \<times> 'x" where
  "handle_submit ke spawn ident answers st =
     (case submit_answer ke ident answers st of
        (Inr receipt_id, st) \<Rightarrow>
          (case spawn of
             Inl error \<Rightarrow> (Abort (''TTS29 could not observe the answer receipt: '' @ error), [], st)
           | Inr _ \<Rightarrow> emitting st)
      | (Inl error, (s, x)) \<Rightarrow> emitting (action_error (Some ident) error s, x))"

definition handle_event ::
  "'x kernel_engine \<Rightarrow> received_event \<Rightarrow> session \<times> 'x \<Rightarrow> loop_outcome \<times> queue_snapshot list \<times> session \<times> 'x" where
  "handle_event ke received st =
     (case st of (s, x) \<Rightarrow>
        (case rv_event received of
           Frame frame \<Rightarrow>
             (case fr_window frame of
                Some contents \<Rightarrow> emitting (update_rows contents (fr_evidence frame) s, x)
              | None \<Rightarrow> (Continue, [], (s, x)))
         | Login secret persist \<Rightarrow> emitting (session_login ke secret persist (s, x))
         | CredentialResult request_id succeeded error \<Rightarrow>
             emitting (session_credential_result ke request_id succeeded error (s, x))
         | CredentialLoadFailed error \<Rightarrow> emitting (credential_load_failed error s, x)
         | Action Logout \<Rightarrow> emitting (session_logout s, x)
         | Action (SubmitAnswer ident answers) \<Rightarrow> handle_submit ke (rv_spawn received) ident answers (s, x)
         | ActionError error \<Rightarrow> emitting (action_error None error s, x)
         | ReceiptStatus ident receipt_id status \<Rightarrow> emitting (receipt_status ident receipt_id status s, x)
         | ReceiptClosed ident receipt_id \<Rightarrow> emitting (receipt_closed ident receipt_id s, x)
         | QueryClosed \<Rightarrow>
             if rv_stopping received then (Continue, [], (s, x))
             else
               (let s = action_error None ''The NMP group observation closed.'' s in
                (Break, [session_snapshot s], (s, x)))
         | Stop \<Rightarrow> (Break, [], (s, x))))"

fun run_events ::
  "'x kernel_engine \<Rightarrow> received_event list \<Rightarrow> session \<times> 'x
   \<Rightarrow> (string + unit) \<times> queue_snapshot list \<times> session \<times> 'x" where
  "run_events ke [] st = (Inr (), [], st)"
| "run_events ke (received # rest) st =
     (case handle_event ke received st of
        (Continue, emitted, st) \<Rightarrow>
          (case run_events ke rest st of (result, later, st) \<Rightarrow> (result, emitted @ later, st))
      | (Break, emitted, st) \<Rightarrow> (Inr (), emitted, st)
      | (Abort error, emitted, st) \<Rightarrow> (Inl error, emitted, st))"

text \<open>Starting up: the engine, the host, the observation, the cancellation handle and the query thread.\<close>

record 'x kernel_startup =
  su_engine :: "string + 'x"
  su_parse_relay :: "string \<Rightarrow> relay_url option"
  su_observe :: "('x, string, unit) action"
  su_install :: bool
  su_query_thread :: "string + unit"

definition run_inner ::
  "'x kernel_engine \<Rightarrow> 'x kernel_startup \<Rightarrow> kernel_configuration \<Rightarrow> received_event list
   \<Rightarrow> (string + unit) \<times> queue_snapshot list \<times> 'x option" where
  "run_inner ke su configuration events =
     (case su_engine su of
        Inl error \<Rightarrow> (Inl (''NMP engine refused startup: '' @ error), [], None)
      | Inr x \<Rightarrow>
          (case su_parse_relay su (kc_relay configuration) of
             None \<Rightarrow> (Inl ''The configured NIP-29 host is invalid.'', [], Some x)
           | Some host \<Rightarrow>
               (case su_observe su x of
                  (Inl error, x) \<Rightarrow> (Inl (''NMP refused the group observation: '' @ error), [], Some x)
                | (Inr _, x) \<Rightarrow>
                    if \<not> su_install su then (Inr (), [], Some (ke_shutdown ke x))
                    else
                      (case su_query_thread su of
                         Inl error \<Rightarrow> (Inl (''TTS29 could not start its query observer: '' @ error), [], Some x)
                       | Inr _ \<Rightarrow>
                           (let s = session_new configuration host in
                            case run_events ke events (s, x) of
                              (Inl error, emitted, (s', x')) \<Rightarrow>
                                (Inl error, session_snapshot s # emitted, Some x')
                            | (Inr _, emitted, st) \<Rightarrow>
                                (Inr (), session_snapshot s # emitted,
                                 Some (ke_shutdown ke (snd (session_shutdown ke st)))))))))"

definition run ::
  "'x kernel_engine \<Rightarrow> 'x kernel_startup \<Rightarrow> kernel_configuration \<Rightarrow> received_event list
   \<Rightarrow> queue_snapshot list \<times> 'x option" where
  "run ke su configuration events =
     (case run_inner ke su configuration events of (result, emitted, x) \<Rightarrow>
        (lifecycle configuration Starting # emitted
         @ (case result of Inl error \<Rightarrow> [failed_snapshot configuration error] | Inr _ \<Rightarrow> [])
         @ [lifecycle configuration Stopped], x))"

section \<open>The session invariant\<close>

definition submission_ok :: "string \<times> answer_submission_snapshot \<Rightarrow> bool" where
  "submission_ok entry =
     (case entry of (ident, submission) \<Rightarrow>
        as_item_id submission = ident \<and> (as_phase submission = Sending \<longrightarrow> as_receipt_id submission \<noteq> None))"

definition session_ok :: "session \<Rightarrow> bool" where
  "session_ok s \<longleftrightarrow>
     identity_ok (ss_identity s) \<and> btree_invar (ss_submissions s) \<and> list_all submission_ok (ss_submissions s)
     \<and> qs_phase (ss_queue s) = Listening
     \<and> (ss_rows s \<noteq> [] \<longrightarrow>
          (ss_queue s)\<lparr>qs_error := None\<rparr> = project (ss_configuration s) (ss_rows s) (ss_evidence s))"

end
