(* ===== verification/App_Laws.thy ===== *)
theory App_Laws
  imports App_Runtime
begin

text \<open>
  What the app kernel guarantees: the session invariant through every event, the phases of the emitted
  snapshots, and that a submitted answer is one every client accepts.
\<close>

section \<open>Steps of the session keep its invariant\<close>

lemma btree_insert_all: "list_all P m \<Longrightarrow> P (k, v) \<Longrightarrow> list_all P (btree_insert k v m)"
  by (induction k v m rule: btree_insert.induct) auto

lemma btree_filter_invar: "btree_invar m \<Longrightarrow> btree_invar (filter P m)"
  by (induction m) (auto simp: btree_invar_def)

lemma project_phase: "qs_phase (project cfg rs ev) = Listening" "qs_error (project cfg rs ev) = None"
  by (simp_all add: project_def split: prod.split)

lemma session_new_ok: "session_ok (session_new configuration host)"
  by (simp add: session_ok_def session_new_def identity_new_ok lifecycle_def btree_invar_def)

text \<open>A submission map that stays well formed.\<close>

lemma session_ok_insert:
  "session_ok s \<Longrightarrow> submission_ok (ident, submission) \<Longrightarrow>
   session_ok (s\<lparr>ss_submissions := btree_insert ident submission (ss_submissions s)\<rparr>)"
  by (simp add: session_ok_def btree_insert_all btree_invar_insert)

lemma session_ok_submission: "session_ok s \<Longrightarrow> btree_get (ss_submissions s) ident = Some v \<Longrightarrow> submission_ok (ident, v)"
  by (auto simp: session_ok_def list_all_iff btree_get_def dest: map_of_SomeD)

lemma session_ok_identity:
  "session_ok s \<Longrightarrow> identity_ok ic \<Longrightarrow> session_ok (s\<lparr>ss_identity := ic\<rparr>)"
  by (simp add: session_ok_def)

lemma session_ok_reproject:
  assumes "identity_ok (ss_identity s)" and "btree_invar (ss_submissions s)" and "list_all submission_ok (ss_submissions s)"
    and "qs_phase (ss_queue s) = Listening"
  shows "session_ok (reproject s)"
proof -
  have "(project cfg rs ev)\<lparr>qs_error := None\<rparr> = project cfg rs ev" for cfg rs ev
    by (simp add: project_def split: prod.split)
  then show ?thesis using assms by (simp add: reproject_def session_ok_def Let_def project_phase)
qed

lemma session_steps_ok:
  assumes "session_ok s"
  shows "session_ok (update_rows rs evidence s)"
    and "session_ok (fst (session_login ke secret persist (s, x)))"
    and "session_ok (session_logout s)"
    and "session_ok (credential_load_failed error s)"
    and "session_ok (fst (session_credential_result ke request_id succeeded error' (s, x)))"
    and "session_ok (receipt_status ident receipt_id status s)"
    and "session_ok (receipt_closed ident receipt_id s)"
    and "session_ok (action_error target message s)"
proof -
  note parts = assms [unfolded session_ok_def]
  have re: "session_ok (reproject (s\<lparr>ss_rows := rs, ss_evidence := evidence\<rparr>))"
    using parts by (intro session_ok_reproject) simp_all
  then show "session_ok (update_rows rs evidence s)"
    by (auto simp: update_rows_def Let_def session_ok_def btree_filter_invar list_all_iff)
  have step: "identity_ok (fst (identity_step ae event (ss_identity s, y)))" for ae event and y :: 'x
    using parts identity_step_ok [of "(ss_identity s, y)"] by simp
  show "session_ok (fst (session_login ke secret persist (s, x)))"
    using parts step [of "ke_accounts ke" "IdLogin secret persist" x]
    by (auto simp: session_login_def identity_step_def intro!: session_ok_reproject split: prod.splits)
  show "session_ok (session_logout s)"
    using session_ok_identity [OF assms] step [of undefined IdLogout undefined]
    by (simp add: session_logout_def identity_step_def)
  show "session_ok (credential_load_failed error s)"
    using session_ok_identity [OF assms] step [of undefined "IdRestoreFailed error" undefined]
    by (simp add: credential_load_failed_def identity_step_def)
  show "session_ok (fst (session_credential_result ke request_id succeeded error' (s, x)))"
    using parts step [of "ke_accounts ke" "IdCredentialResult request_id succeeded error'" x]
    by (auto simp: session_credential_result_def identity_step_def intro!: session_ok_reproject split: prod.splits)
  show "session_ok (receipt_status ident receipt_id status s)"
    using assms session_ok_submission [OF assms, of ident]
    by (auto simp: receipt_status_def apply_status_def fail_submission_def submission_ok_def
        intro!: session_ok_insert split: option.split write_status.split)
  show "session_ok (receipt_closed ident receipt_id s)"
    using assms session_ok_submission [OF assms, of ident]
    by (auto simp: receipt_closed_def fail_submission_def submission_ok_def intro!: session_ok_insert split: option.split)
  show "session_ok (action_error target message s)"
    using assms by (cases target) (auto simp: action_error_def submission_ok_def session_ok_def
        btree_insert_all btree_invar_insert)
qed

text \<open>What a submission that was accepted has checked, and what it changes.\<close>

lemma submit_answer_ok:
  assumes "submit_answer ke ident answers (s, x) = (Inr receipt_id, st')"
  obtains author found x1 now intent x' where "active_pubkey (ss_identity s) = Some author"
    "find_items ident (qs_items (ss_queue s)) = Some found" "si_answer (item_fields found) = None"
    "si_questions (item_fields found) \<noteq> []"
    "\<not> is_some_and (btree_get (ss_submissions s) ident) (\<lambda>state. as_phase state = Sending)"
    "ke_unix_seconds ke x = (now, x1)"
    "valid_answer (si_questions (item_fields found)) \<lparr>ab_event_id = [], ab_author = author, ab_created_at = now,
       ab_answers = answers\<rparr>"
    "compose_answer (ke_parse_key ke) (ke_parse_event_id ke) (ke_group_send ke) (ss_host s)
       \<lparr>fa_author = author, fa_created_at = now, fa_group_id = kc_group_id (ss_configuration s),
        fa_root_event_id = si_id (item_fields found), fa_content = answer_content (item_fields found) answers,
        fa_answers = answers\<rparr> = Inr intent"
    "ke_publish_tracked ke intent x1 = (Inr receipt_id, x')"
    "st' = (s\<lparr>ss_submissions := btree_insert ident (sending ident receipt_id) (ss_submissions s)\<rparr>, x')"
  using assms unfolding submit_answer_def
  by (auto simp: Let_def split: option.splits if_splits prod.splits sum.splits)

lemma submit_answer_error:
  "submit_answer ke ident answers (s, x) = (Inl error, (s', x')) \<Longrightarrow> s' = s"
  unfolding submit_answer_def
  by (auto simp: Let_def split: option.splits if_splits prod.splits sum.splits)


text \<open>A handled event is well behaved: a good session, and only listening snapshots.\<close>

definition step_ok :: "loop_outcome \<times> queue_snapshot list \<times> session \<times> 'x \<Rightarrow> bool" where
  "step_ok handled \<longleftrightarrow>
     (case handled of (outcome, emitted, st) \<Rightarrow>
        session_ok (fst st) \<and> list_all (\<lambda>q. qs_phase q = Listening) emitted)"

lemma session_snapshot_listening: "session_ok s \<Longrightarrow> qs_phase (session_snapshot s) = Listening"
  by (simp add: session_snapshot_def session_ok_def)

lemma step_ok_emitting: "session_ok (fst st) \<Longrightarrow> step_ok (emitting st)"
  by (simp add: step_ok_def emitting_def session_snapshot_listening)

lemma handle_submit_ok:
  assumes "session_ok s"
  shows "step_ok (handle_submit ke spawn ident answers (s, x))"
proof -
  obtain r s1 x1 where sub: "submit_answer ke ident answers (s, x) = (r, (s1, x1))" by (metis prod.exhaust)
  show ?thesis
  proof (cases r)
    case (Inl error)
    then have "s1 = s" using submit_answer_error sub by fast
    then show ?thesis
      using session_steps_ok(8) [OF assms] by (simp add: handle_submit_def sub Inl step_ok_emitting)
  next
    case (Inr receipt_id)
    have "session_ok s1"
      using sub [unfolded Inr]
    proof (rule submit_answer_ok)
      fix x'
      assume "(s1, x1) = (s\<lparr>ss_submissions := btree_insert ident (sending ident receipt_id) (ss_submissions s)\<rparr>, x')"
      then show ?thesis
        using session_ok_insert [OF assms, of ident "sending ident receipt_id"]
        by (simp add: submission_ok_def sending_def)
    qed
    then show ?thesis
      by (cases spawn) (simp_all add: handle_submit_def sub Inr step_ok_emitting, simp add: step_ok_def)
  qed
qed

lemma handle_event_ok:
  assumes "session_ok s"
  shows "step_ok (handle_event ke received (s, x))"
proof (cases "rv_event received")
  case (Action action)
  then show ?thesis
    using assms by (cases action) (simp_all add: handle_event_def handle_submit_ok step_ok_emitting session_steps_ok)
next
  case (Frame frame)
  then show ?thesis
    using assms by (cases "fr_window frame") (simp_all add: handle_event_def step_ok_emitting session_steps_ok, simp add: step_ok_def)
next
  case QueryClosed
  then show ?thesis
    using session_steps_ok(8) [OF assms] assms
    by (simp add: handle_event_def Let_def step_ok_def session_snapshot_listening)
next
  case Stop
  then show ?thesis using assms by (simp add: handle_event_def step_ok_def)
qed (simp_all add: handle_event_def step_ok_emitting session_steps_ok [OF assms])

text \<open>A property of the session that every event keeps holds after the loop.\<close>

lemma run_events_invariant:
  assumes step: "\<And>received st outcome emitted st'. received \<in> set events \<Longrightarrow> I st \<Longrightarrow>
      handle_event ke received st = (outcome, emitted, st') \<Longrightarrow> I st' \<and> list_all P emitted"
    and "I st" and "run_events ke events st = (result, emitted, st')"
  shows "I st' \<and> list_all P emitted"
  using assms
proof (induction events arbitrary: st emitted)
  case (Cons received rest)
  obtain outcome first st1 where h: "handle_event ke received st = (outcome, first, st1)" by (metis prod.exhaust)
  have one: "I st1 \<and> list_all P first" using Cons.prems(1) [OF _ Cons.prems(2) h] by simp
  show ?case
  proof (cases outcome)
    case Continue
    then obtain later where later: "run_events ke rest st1 = (result, later, st')" "emitted = first @ later"
      using Cons.prems(3) h by (auto split: prod.splits)
    have "I st' \<and> list_all P later"
      using one by (intro Cons.IH [OF _ _ later(1)] Cons.prems(1)) simp_all
    then show ?thesis using one later(2) by simp
  qed (use Cons.prems(3) h one in auto)
qed auto

lemma run_events_ok:
  assumes "session_ok (fst st)" and "run_events ke events st = (result, emitted, st')"
  shows "session_ok (fst st') \<and> list_all (\<lambda>q. qs_phase q = Listening) emitted"
proof (rule run_events_invariant [where I = "\<lambda>st. session_ok (fst st)", OF _ assms])
  fix received and st :: "session \<times> 'a" and outcome emitted st'
  assume "session_ok (fst st)" and "handle_event ke received st = (outcome, emitted, st')"
  then show "session_ok (fst st') \<and> list_all (\<lambda>q. qs_phase q = Listening) emitted"
    using handle_event_ok [of "fst st" ke received "snd st"] by (simp add: step_ok_def)
qed

section \<open>Option ids of the visible questions\<close>

definition options_identified :: "question_option list \<Rightarrow> bool" where
  "options_identified options \<longleftrightarrow> list_all (\<lambda>opt. identifier_of (opt_id opt) \<noteq> None) options"

lemma identifier_of_idem: "identifier_of s = Some t \<Longrightarrow> identifier_of t = Some t"
  by (auto simp: identifier_of_def split: if_splits)

lemma keyed_options_loop_identified:
  "keyed_options_loop rws seen result = Some options \<Longrightarrow>
   (\<forall>k opts. btree_get result k = Some opts \<longrightarrow> options_identified opts) \<Longrightarrow>
   btree_get options k = Some opts \<Longrightarrow> options_identified opts"
proof (induction rws seen result rule: keyed_options_loop.induct)
  case (2 row rest seen result)
  from "2.prems"(1) obtain question_id ident description title where s:
    "length row = 4 \<or> length row = 5" "identifier_of (row ! 1) = Some question_id"
    "identifier_of (row ! 2) = Some ident"
    "(question_id, ident) \<notin> seen" "length (case btree_get result question_id of None \<Rightarrow> [] | Some vs \<Rightarrow> vs) \<noteq> 8"
    "option_description row = Some description" "bounded (row ! 3) 120 = Some title"
    "keyed_options_loop rest (insert (question_id, ident) seen)
       (btree_push question_id \<lparr>opt_id = ident, opt_title = title, opt_description = description\<rparr> result) = Some options"
    by (auto split: if_splits option.splits)
  show ?case
  proof (rule "2.IH" [OF _ s(2,3,4,5,6,7,8) _ "2.prems"(3)])
    show "\<not> \<not> (length row = 4 \<or> length row = 5)" using s(1) by simp
    show "\<forall>k opts. btree_get (btree_push question_id \<lparr>opt_id = ident, opt_title = title,
        opt_description = description\<rparr> result) k = Some opts \<longrightarrow> options_identified opts"
      using "2.prems"(2) identifier_of_idem [OF s(3)]
      by (auto simp: btree_push_def btree_get_insert options_identified_def split: option.splits)
  qed
qed auto

lemma questions_loop_identified:
  "questions_loop labels descriptions rws options seen result = Some (qs, known, unclaimed) \<Longrightarrow>
   btree_invar options \<Longrightarrow>
   (\<forall>k opts. btree_get options k = Some opts \<longrightarrow> options_identified opts) \<Longrightarrow>
   list_all (\<lambda>q. options_identified (q_options q)) result \<Longrightarrow> list_all (\<lambda>q. options_identified (q_options q)) qs"
proof (induction labels descriptions rws options seen result rule: questions_loop.induct)
  case (2 labels descriptions row rest options seen result)
  then show ?case
    by (auto simp: Let_def btree_get_remove btree_invar_remove options_identified_def
        split: if_splits option.splits)
qed auto

lemma keyed_options_invar: "keyed_options_loop rws seen result = Some options \<Longrightarrow> btree_invar result \<Longrightarrow> btree_invar options"
  by (induction rws seen result rule: keyed_options_loop.induct)
    (auto simp: btree_push_def btree_invar_insert split: if_splits option.splits)

lemma questions_identified: "questions row = Some qs \<Longrightarrow> list_all (\<lambda>q. options_identified (q_options q)) qs"
proof -
  assume "questions row = Some qs"
  then obtain labels descriptions options known unclaimed where
    o: "keyed_options_loop (rows row ''option'') {} [] = Some options" and
    q: "questions_loop labels descriptions (rows row ''question'') options {} [] = Some (qs, known, unclaimed)"
    by (auto simp: questions_def keyed_options_def Let_def split: if_splits option.splits)
  show ?thesis
  proof (rule questions_loop_identified [OF q keyed_options_invar [OF o]])
    show "\<forall>k opts. btree_get options k = Some opts \<longrightarrow> options_identified opts"
      using keyed_options_loop_identified [OF o] by (simp add: btree_get_def)
  qed (simp_all add: btree_invar_def)
qed

lemma parse_item_questions: "parse_item row = Some item \<Longrightarrow> questions row = Some (si_questions (item_fields item))"
  by (auto simp: parse_item_def Let_def split: if_splits option.splits)

definition fields_identified :: "spoken_fields \<Rightarrow> bool" where
  "fields_identified f \<longleftrightarrow> list_all (\<lambda>q. options_identified (q_options q)) (si_questions f)"

lemma project_identified:
  assumes "f \<in> set (concat (map item_nodes (qs_items (project cfg rs ev))))"
  shows "fields_identified f"
proof -
  obtain k item where i: "btree_get (resolved_items cfg rs) k = Some item" "f = item_fields item"
    using project_nodes [OF assms] by blast
  then obtain source where "btree_get (co_items (collect_rows (kc_group_id cfg) rs)) k = Some source"
    "si_questions f = si_questions (item_fields source)"
    by (auto simp: resolved_items_get resolved_view_def)
  moreover from this(1) have "source \<in> set (items_of (kc_group_id cfg) rs)"
    by (auto simp: collect_rows_get dest!: map_of_SomeD)
  then obtain row where "parse row (kc_group_id cfg) = Some (Item source)" by (auto simp: items_of_mem)
  ultimately show ?thesis
    using questions_identified [OF parse_item_questions [OF parse_ItemD(1)]] by (simp add: fields_identified_def)
qed

text \<open>The queue of a session only holds items that parsing produced.\<close>

definition queue_identified :: "session \<Rightarrow> bool" where
  "queue_identified s \<longleftrightarrow> list_all fields_identified (concat (map item_nodes (qs_items (ss_queue s))))"

lemma reproject_identified: "queue_identified s \<Longrightarrow> queue_identified (reproject s)"
  using project_identified
  by (fastforce simp: reproject_def Let_def queue_identified_def list_all_iff)

lemma reproject_identified':
  "queue_identified s \<Longrightarrow> queue_identified (reproject (s\<lparr>ss_identity := ic\<rparr>))"
  "queue_identified s \<Longrightarrow> queue_identified (reproject (s\<lparr>ss_rows := rs, ss_evidence := evidence\<rparr>))"
  by (rule reproject_identified, simp add: queue_identified_def)+

lemma handle_event_identified:
  assumes "queue_identified (fst st)" and "handle_event ke received st = (outcome, emitted, st')"
  shows "queue_identified (fst st')"
proof -
  obtain s x where st: "st = (s, x)" by (cases st)
  have q: "queue_identified s" using assms(1) st by simp
  have sub: "queue_identified (fst st1)" if "submit_answer ke ident answers (s, x) = (r, st1)" for ident answers r st1
    using that q unfolding submit_answer_def
    by (auto simp: Let_def queue_identified_def split: option.splits if_splits prod.splits sum.splits)
  have keep: "queue_identified (s'\<lparr>ss_submissions := m\<rparr>) = queue_identified s'"
    "queue_identified (s'\<lparr>ss_identity := ic\<rparr>) = queue_identified s'"
    "queue_identified (s'\<lparr>ss_queue := (ss_queue s')\<lparr>qs_error := e\<rparr>\<rparr>) = queue_identified s'" for s' m ic e
    by (simp_all add: queue_identified_def)
  show ?thesis
    using assms(2) q sub reproject_identified'
    by (auto simp: handle_event_def st emitting_def handle_submit_def Let_def update_rows_def session_login_def
        session_credential_result_def credential_load_failed_def session_logout_def action_error_def
        receipt_status_def receipt_closed_def keep
        split: runtime_event.splits app_action.splits option.splits if_splits sum.splits prod.splits)
qed

lemma run_events_identified:
  "queue_identified (fst st) \<Longrightarrow> run_events ke events st = (result, emitted, st') \<Longrightarrow> queue_identified (fst st')"
  using run_events_invariant [where I = "\<lambda>st. queue_identified (fst st)" and P = "\<lambda>_. True"] handle_event_identified
  by (metis list.pred_True)

lemma find_items_nodes:
  "find_item ident item = Some found \<Longrightarrow> item_fields found \<in> set (item_nodes item) \<and> item_id found = ident"
  "find_items ident items = Some found \<Longrightarrow>
    item_fields found \<in> set (concat (map item_nodes items)) \<and> item_id found = ident"
  by (induction ident item and ident items rule: find_item_find_items.induct) (auto split: if_splits option.splits)

section \<open>Properties of the app kernel\<close>

text \<open>
  C34: the life of the kernel. Whatever the engine does and whatever arrives, the kernel emits first a
  snapshot in phase \<open>Starting\<close>, then only listening snapshots, then at most one failure, and last a snapshot
  in phase \<open>Stopped\<close>.
\<close>

theorem kernel_lifecycle:
  "\<exists>listening failures. fst (run ke su configuration events) =
      lifecycle configuration Starting # listening @ failures @ [lifecycle configuration Stopped]
    \<and> list_all (\<lambda>q. qs_phase q = Listening) listening
    \<and> length failures \<le> 1 \<and> list_all (\<lambda>q. qs_phase q = KernelFailed) failures"
proof -
  obtain result emitted x where r: "run_inner ke su configuration events = (result, emitted, x)"
    by (metis prod.exhaust)
  have new: "session_ok (fst (session_new configuration host, y))" for host and y :: 'a
    using session_new_ok by simp
  have first: "qs_phase (session_snapshot (session_new configuration host)) = Listening" for host
    using session_new_ok [of configuration host] by (simp add: session_snapshot_def session_ok_def)
  have "list_all (\<lambda>q. qs_phase q = Listening) emitted"
    using r first run_events_ok [OF new]
    by (auto simp: run_inner_def Let_def split: sum.splits option.splits prod.splits if_splits)
  moreover have "length (case result of Inl error \<Rightarrow> [failed_snapshot configuration error] | Inr _ \<Rightarrow> []) \<le> 1"
    "list_all (\<lambda>q. qs_phase q = KernelFailed) (case result of Inl error \<Rightarrow> [failed_snapshot configuration error] | Inr _ \<Rightarrow> [])"
    by (auto simp: failed_snapshot_def lifecycle_def split: sum.split)
  ultimately show ?thesis using r unfolding run_def by fastforce
qed


text \<open>
  C32: an answer the app sends is an answer everyone accepts. If in a session that was reached by any
  events an answer is submitted, then the item was visible, unanswered and not being answered, and the
  event of the intent handed to NMP, once signed, is read by every client as an answer to that very item
  which is valid for its questions.
\<close>

theorem submitted_answer_accepted:
  assumes "group_send_contract (ke_group_send ke)"
    and "run_events ke events (session_new configuration host, x0) = (result, emitted, (s, x))"
    and "submit_answer ke ident answers (s, x) = (Inr receipt_id, st')" and "is_lower_hex ident 64"
  shows "\<exists>f intent x1. f \<in> set (concat (map item_nodes (qs_items (ss_queue s)))) \<and> si_id f = ident
    \<and> si_answer f = None \<and> ke_publish_tracked ke intent x1 = (Inr receipt_id, snd st')
    \<and> (\<exists>reply. parse (signed_event eid intent) (kc_group_id (ss_configuration s)) = Some (Answer reply)
         \<and> rel_root_id reply = ident \<and> valid_answer (si_questions f) (rel_value reply))"
  using assms(3)
proof (rule submit_answer_ok)
  fix author found x1 now intent x'
  assume a: "find_items ident (qs_items (ss_queue s)) = Some found" "si_answer (item_fields found) = None"
    "valid_answer (si_questions (item_fields found)) \<lparr>ab_event_id = [], ab_author = author, ab_created_at = now,
       ab_answers = answers\<rparr>"
    "compose_answer (ke_parse_key ke) (ke_parse_event_id ke) (ke_group_send ke) (ss_host s)
       \<lparr>fa_author = author, fa_created_at = now, fa_group_id = kc_group_id (ss_configuration s),
        fa_root_event_id = si_id (item_fields found), fa_content = answer_content (item_fields found) answers,
        fa_answers = answers\<rparr> = Inr intent"
    "ke_publish_tracked ke intent x1 = (Inr receipt_id, x')"
    "st' = (s\<lparr>ss_submissions := btree_insert ident (sending ident receipt_id) (ss_submissions s)\<rparr>, x')"
  have node: "item_fields found \<in> set (concat (map item_nodes (qs_items (ss_queue s))))" "item_id found = ident"
    using find_items_nodes(2) [OF a(1)] by auto
  have "queue_identified (session_new configuration host)"
    by (simp add: queue_identified_def session_new_def lifecycle_def)
  then have "queue_identified s" using run_events_identified assms(2) by fastforce
  then have ids: "\<forall>q \<in> set (si_questions (item_fields found)). \<forall>opt \<in> set (q_options q).
      identifier_of (opt_id opt) \<noteq> None"
    using node(1) by (auto simp: queue_identified_def fields_identified_def options_identified_def list_all_iff)
  obtain reply where "parse (signed_event eid intent) (kc_group_id (ss_configuration s)) = Some (Answer reply)"
    "rel_root_id reply = ident" "valid_answer (si_questions (item_fields found)) (rel_value reply)"
    using composed_answer_valid [OF assms(1) a(4) _ _ ids, of eid] assms(4) a(3) node(2) by auto
  then show ?thesis using node a(2,5,6) by auto
qed

text \<open>
  C40: an impatient second tap loses the receipt. While an answer is being sent, submitting again is
  refused, but the loop then records the refusal over the submission in flight: it becomes failed and
  forgets its receipt, so the acknowledgement that follows is ignored and a third submission is sent.
\<close>

theorem resubmission_forgets_receipt:
  assumes "active_pubkey (ss_identity s) \<noteq> None"
    and "btree_get (ss_submissions s) ident = Some submission" and "as_phase submission = Sending"
    and "handle_submit ke spawn ident answers (s, x) = (outcome, emitted, (s', x'))"
  shows "\<exists>v. btree_get (ss_submissions s') ident = Some v \<and> as_phase v = SubmissionFailed \<and> as_receipt_id v = None
    \<and> receipt_status ident receipt_id status s' = s'"
proof -
  obtain author where "active_pubkey (ss_identity s) = Some author" using assms(1) by blast
  then have "submit_answer ke ident answers (s, x) = (Inl ''That answer is already being sent.'', (s, x))"
    using assms(2,3) by (simp add: submit_answer_def is_some_and_def)
  then have "s' = action_error (Some ident) ''That answer is already being sent.'' s"
    using assms(4) by (simp add: handle_submit_def emitting_def)
  then show ?thesis by (simp add: action_error_def btree_get_insert receipt_status_def)
qed

text \<open>
  An emptied group keeps showing its old items: when the observation delivers an empty window the session
  does not project it, so the queue stays as it was.
\<close>

lemma empty_window_keeps_queue: "ss_queue (update_rows [] evidence s) = ss_queue s"
  by (simp add: update_rows_def reproject_def Let_def)

section \<open>A kernel for the witnesses\<close>

definition sample_kernel :: "account_registration list kernel_engine" where
  "sample_kernel =
     \<lparr>ke_parse_key = hex_key_parse, ke_parse_event_id = hex_key_parse, ke_group_send = plain_group_send,
      ke_accounts = listing_engine, ke_publish_tracked = (\<lambda>intent. ok 9), ke_unix_seconds = (\<lambda>x. (200, x)),
      ke_shutdown = (\<lambda>x. x)\<rparr>"

abbreviation receive :: "runtime_event \<Rightarrow> received_event" where
  "receive event \<equiv> \<lparr>rv_event = event, rv_stopping = False, rv_spawn = Inr ()\<rparr>"


definition sending_session :: session where
  "sending_session =
     (session_new sample_configuration ''wss://relay'')
       \<lparr>ss_identity := identity_new\<lparr>ic_snapshot := \<lparr>ids_phase = SignedIn, ids_pubkey = Some ''key'', ids_error = None\<rparr>\<rparr>,
        ss_submissions := [(''item'', sending ''item'' 9)]\<rparr>"

theorem resubmission_forgets_receipt_witness:
  "\<exists>v. btree_get (ss_submissions (fst (snd (snd
      (handle_submit sample_kernel (Inr ()) ''item'' [] (sending_session, [])))))) ''item'' = Some v
    \<and> as_receipt_id v = None"
proof -
  obtain outcome emitted s' x' where h:
    "handle_submit sample_kernel (Inr ()) ''item'' [] (sending_session, []) = (outcome, emitted, (s', x'))"
    by (metis prod.exhaust)
  have "\<exists>v. btree_get (ss_submissions s') ''item'' = Some v \<and> as_phase v = SubmissionFailed \<and> as_receipt_id v = None
      \<and> receipt_status ''item'' 9 (Acked ''wss://relay'') s' = s'"
    by (rule resubmission_forgets_receipt [OF _ _ _ h, of "sending ''item'' 9"])
      (simp_all add: sending_session_def active_pubkey_def btree_get_def sending_def)
  then show ?thesis using h by auto
qed


lemma project_one:
  assumes "parse event (kc_group_id cfg) = Some (Item (SpokenItem f []))" and "si_attach f = None"
  shows "qs_items (project cfg [event] evidence) =
    [SpokenItem (f\<lparr>si_answer := None, si_acknowledgement := None, si_reactions := []\<rparr>) []]"
  using assms
  apply (simp add: project_def resolve_all_def project_items_def collect_rows_def collect_row_def no_rows_def
      resolve_item_def index_item_def Let_def unknown_root_count_def btree_get_def reaction_summaries_def
      screen_ids_def is_hidden_def is_some_and_def assemble_subtree.simps MAX_ATTACH_DEPTH_def MAX_PROJECTED_ITEMS_def 
      split: prod.splits option.splits)
  done

text \<open>A reader who sees the sample item and logs in with a key.\<close>

abbreviation item_event_id :: event_id where
  "item_event_id \<equiv> replicate 64 (CHR ''a'')"

abbreviation login_events :: "received_event list" where
  "login_events \<equiv>
     [receive (Frame \<lparr>fr_deltas = [], fr_window = Some [sample_event item_event_id], fr_evidence = no_evidence\<rparr>),
      receive (Login (replicate 64 (CHR ''2'')) False)]"

abbreviation sample_answers :: "question_answer list" where
  "sample_answers \<equiv> [\<lparr>qa_question_id = ''ship'', qa_values = [''yes'']\<rparr>]"

lemma logged_in_session:
  obtains emitted s x where
    "run_events sample_kernel login_events (session_new sample_configuration ''wss://relay'', []) = (Inr (), emitted, (s, x))"
    "active_pubkey (ss_identity s) = Some (replicate 64 (CHR ''2''))" "ss_host s = ''wss://relay''"
    "ss_submissions s = []" "kc_group_id (ss_configuration s) = ''tts''"
    "ss_queue s = project (ss_configuration s) [sample_event item_event_id] no_evidence"
proof -
  define r where "r = run_events sample_kernel login_events (session_new sample_configuration ''wss://relay'', [])"
  obtain result emitted s x where r: "r = (result, emitted, (s, x))" by (cases r) auto
  show ?thesis
    by (rule that [of emitted s x]; insert r r_def [symmetric])
      (auto simp: sample_kernel_def handle_event_def emitting_def update_rows_def reproject_def Let_def session_new_def
      session_login_def login_def activate_def listing_engine_def identity_new_def active_pubkey_def sample_configuration_def)
qed


lemma trimmed_question: "map trim_question (fz_questions sample_item) = fz_questions sample_item"
proof -
  have "trim ''Ship'' = ''Ship''" "trim ''Ship it?'' = ''Ship it?''" "trim ''Yes'' = ''Yes''" by code_simp+
  then show ?thesis by (simp add: sample_item_def trim_question_def trim_option_def)
qed

lemma sample_submission:
  assumes "active_pubkey (ss_identity s) = Some (replicate 64 (CHR ''2''))" "ss_host s = ''wss://relay''"
    "ss_submissions s = []" "kc_group_id (ss_configuration s) = ''tts''"
    "ss_queue s = project (ss_configuration s) [sample_event item_event_id] no_evidence"
  shows "\<exists>st'. submit_answer sample_kernel item_event_id sample_answers (s, x) = (Inr 9, st')"
proof -
  obtain author where "parse (sample_event item_event_id) ''tts'' = Some (Item (published_view item_event_id author sample_item))"
    using sample_event_parse by blast
  then obtain f where p: "parse (sample_event item_event_id) ''tts'' = Some (Item (SpokenItem f []))"
    and f: "si_id f = item_event_id" "si_attach f = None" "si_questions f = fz_questions sample_item"
    by (simp add: published_view_def trimmed_question) (simp add: sample_item_def)
  define g where "g = f\<lparr>si_answer := None, si_acknowledgement := None, si_reactions := []\<rparr>"
  have items: "qs_items (ss_queue s) = [SpokenItem g []]"
    using project_one [of "sample_event item_event_id" "ss_configuration s" f no_evidence] p f(2) assms(4,5)
    by (simp add: g_def)
  have g: "si_id g = item_event_id" "si_questions g = fz_questions sample_item" "si_answer g = None"
    using f by (simp_all add: g_def)
  have content: "answer_content g sample_answers = ''Ship it?: Yes''"
    by (simp add: answer_content_def g sample_item_def List.map_filter_def)
  have "tag_rows (answer_tags (sample_answer\<lparr>fa_content := ''Ship it?: Yes''\<rparr>)) ''h'' = []"
    by (simp add: answer_tags_def sample_answer_def)
  then have "\<exists>intent. compose_answer hex_key_parse hex_key_parse plain_group_send ''wss://relay''
      (sample_answer\<lparr>fa_content := ''Ship it?: Yes''\<rparr>) = Inr intent"
    by (simp add: compose_answer_def sample_answer_def validate_answers_def evaluate_text
        plain_group_send_def ok_or_def)
  then obtain intent where "compose_answer hex_key_parse hex_key_parse plain_group_send ''wss://relay''
      (sample_answer\<lparr>fa_content := ''Ship it?: Yes''\<rparr>) = Inr intent" by blast
  moreover have "valid_answer (si_questions g) \<lparr>ab_event_id = [], ab_author = replicate 64 (CHR ''2''),
      ab_created_at = 200, ab_answers = sample_answers\<rparr>"
    by (simp add: g valid_answer_def sample_item_def question_index_def btree_get_def option_ids_def)
  moreover have "si_questions g \<noteq> []" by (simp add: g sample_item_def)
  ultimately show ?thesis
    using assms(1-4) items g(1,3) content
    by (simp add: submit_answer_def sample_kernel_def Let_def sample_answer_def btree_get_def is_some_and_def of_result_def)
qed

theorem submitted_answer_accepted_witness:
  "\<exists>s x st'. submit_answer sample_kernel item_event_id sample_answers (s, x) = (Inr 9, st')
    \<and> (\<exists>f \<in> set (concat (map item_nodes (qs_items (ss_queue s)))). \<exists>intent reply. si_id f = item_event_id \<and> si_answer f = None
       \<and> parse (signed_event ''e2'' intent) ''tts'' = Some (Answer reply)
       \<and> rel_root_id reply = item_event_id \<and> valid_answer (si_questions f) (rel_value reply))"
proof -
  obtain emitted s x where s:
    "run_events sample_kernel login_events (session_new sample_configuration ''wss://relay'', []) = (Inr (), emitted, (s, x))"
    "active_pubkey (ss_identity s) = Some (replicate 64 (CHR ''2''))" "ss_host s = ''wss://relay''"
    "ss_submissions s = []" and group: "kc_group_id (ss_configuration s) = ''tts''"
    and q: "ss_queue s = project (ss_configuration s) [sample_event item_event_id] no_evidence"
    by (rule logged_in_session)
  obtain st' where st: "submit_answer sample_kernel item_event_id sample_answers (s, x) = (Inr 9, st')"
    using sample_submission [OF s(2-4) group q] by blast
  have "group_send_contract (ke_group_send sample_kernel)" "is_lower_hex item_event_id 64"
    by (simp_all add: sample_kernel_def plain_group_send_contract evaluate_text)
  from submitted_answer_accepted [OF this(1) s(1) st this(2), of "''e2''"]
  show ?thesis using st unfolding group by blast
qed

section \<open>Published means acknowledged\<close>

text \<open>Every submission shown as published has had its own receipt acknowledged by the group's host.\<close>

definition acknowledged :: "relay_url \<Rightarrow> received_event set \<Rightarrow> session \<Rightarrow> bool" where
  "acknowledged host received s \<longleftrightarrow>
     ss_host s = host
     \<and> (\<forall>ident v. btree_get (ss_submissions s) ident = Some v \<and> as_phase v = SubmissionPublished \<longrightarrow>
          (\<exists>receipt_id. as_receipt_id v = Some receipt_id
             \<and> ReceiptStatus ident receipt_id (Acked host) \<in> rv_event ` received))"

lemma acknowledged_insert:
  assumes "acknowledged host received s"
    and "as_phase v = SubmissionPublished \<Longrightarrow> \<exists>receipt_id. as_receipt_id v = Some receipt_id
             \<and> ReceiptStatus ident receipt_id (Acked host) \<in> rv_event ` received"
  shows "acknowledged host received (s\<lparr>ss_submissions := btree_insert ident v (ss_submissions s)\<rparr>)"
  using assms by (auto simp: acknowledged_def btree_get_insert)

lemma acknowledged_other:
  "acknowledged host received s \<Longrightarrow> acknowledged host received (s\<lparr>ss_queue := q\<rparr>)"
  "acknowledged host received s \<Longrightarrow> acknowledged host received (s\<lparr>ss_identity := ic\<rparr>)"
  "acknowledged host received s \<Longrightarrow> acknowledged host received (reproject (s\<lparr>ss_identity := ic\<rparr>))"
  by (simp_all add: acknowledged_def reproject_def Let_def)

lemma btree_get_filter: "btree_get (filter (\<lambda>(k, _). P k) m) k = (if P k then btree_get m k else None)"
  by (induction m) (auto simp: btree_get_def)

lemma acknowledged_update_rows:
  "acknowledged host received s \<Longrightarrow> acknowledged host received (update_rows rs evidence s)"
  by (auto simp: acknowledged_def update_rows_def reproject_def Let_def btree_get_filter split: if_splits)

lemma apply_status_published:
  "as_receipt_id (apply_status host status v) = as_receipt_id v"
  "as_phase (apply_status host status v) = SubmissionPublished \<Longrightarrow>
     as_phase v = SubmissionPublished \<or> status = Acked host"
  by (auto simp: apply_status_def fail_submission_def split: write_status.splits if_splits)

lemma acknowledged_receipts:
  assumes "acknowledged host received s"
  shows "ReceiptStatus ident receipt_id status \<in> rv_event ` received \<Longrightarrow>
      acknowledged host received (receipt_status ident receipt_id status s)"
    and "acknowledged host received (receipt_closed ident receipt_id s)"
    and "acknowledged host received (action_error target message s)"
proof -
  show "acknowledged host received (receipt_status ident receipt_id status s)"
    if "ReceiptStatus ident receipt_id status \<in> rv_event ` received"
  proof (cases "btree_get (ss_submissions s) ident")
    case (Some v)
    have "as_receipt_id v = Some receipt_id \<Longrightarrow>
        acknowledged host received (s\<lparr>ss_submissions := btree_insert ident (apply_status (ss_host s) status v) (ss_submissions s)\<rparr>)"
    proof (rule acknowledged_insert [OF assms])
      assume r: "as_receipt_id v = Some receipt_id"
        and "as_phase (apply_status (ss_host s) status v) = SubmissionPublished"
      then have "as_phase v = SubmissionPublished \<or> status = Acked host"
        using apply_status_published(2) assms by (auto simp: acknowledged_def)
      then show "\<exists>receipt_id. as_receipt_id (apply_status (ss_host s) status v) = Some receipt_id
          \<and> ReceiptStatus ident receipt_id (Acked host) \<in> rv_event ` received"
        using assms Some that r unfolding acknowledged_def apply_status_published(1) by blast
    qed
    then show ?thesis using assms Some by (simp add: receipt_status_def)
  qed (simp add: receipt_status_def assms)
  show "acknowledged host received (receipt_closed ident receipt_id s)"
    using assms by (auto simp: receipt_closed_def fail_submission_def intro!: acknowledged_insert split: option.split)
  show "acknowledged host received (action_error target message s)"
    using assms by (auto simp: action_error_def acknowledged_other intro!: acknowledged_insert split: option.split)
qed

lemma submit_answer_acknowledged:
  assumes "acknowledged host received s" and "submit_answer ke ident answers (s, x) = (r, st')"
  shows "acknowledged host received (fst st')"
proof (cases r)
  case (Inl error)
  then show ?thesis using assms submit_answer_error [of ke ident answers s x error "fst st'" "snd st'"] by simp
next
  case (Inr receipt_id)
  then show ?thesis
    using acknowledged_insert [OF assms(1), of "sending ident receipt_id" ident]
    by (auto simp: sending_def intro: submit_answer_ok [OF assms(2) [unfolded Inr]])
qed

lemma handle_submit_acknowledged:
  assumes "acknowledged host received s"
  shows "acknowledged host received (fst (snd (snd (handle_submit ke spawn ident answers (s, x)))))"
proof -
  obtain r s1 x1 where sub: "submit_answer ke ident answers (s, x) = (r, (s1, x1))" by (metis prod.exhaust)
  show ?thesis
    using submit_answer_acknowledged [OF assms sub]
    by (cases r; cases spawn) (simp_all add: handle_submit_def sub emitting_def acknowledged_receipts)
qed

lemma handle_event_acknowledged:
  assumes "received \<in> events" and "acknowledged host events s"
  shows "acknowledged host events (fst (snd (snd (handle_event ke received (s, x)))))"
proof -
  have "rv_event received \<in> rv_event ` events" using assms(1) by simp
  then show ?thesis
    using assms(2)
    by (auto simp: handle_event_def emitting_def Let_def session_login_def
        session_credential_result_def credential_load_failed_def session_logout_def
        handle_submit_acknowledged acknowledged_other acknowledged_update_rows acknowledged_receipts
        split: runtime_event.split app_action.split option.split prod.split)
qed

text \<open>
  C35: published means acknowledged. Whatever the engine does and in whatever order events arrive, an
  answer is shown as published only after the group's own relay acknowledged the receipt recorded for it.
\<close>

theorem published_only_on_ack:
  assumes "run_events ke events (session_new configuration host, x) = (result, emitted, (s, x'))"
    and "btree_get (ss_submissions s) ident = Some v" and "as_phase v = SubmissionPublished"
  shows "\<exists>receipt_id. as_receipt_id v = Some receipt_id
    \<and> ReceiptStatus ident receipt_id (Acked host) \<in> rv_event ` set events"
proof -
  have "acknowledged host (set events) (fst (session_new configuration host, x))"
    by (simp add: acknowledged_def session_new_def)
  moreover have "acknowledged host (set events) (fst st') \<and> list_all (\<lambda>_. True) out"
    if "received \<in> set events" "acknowledged host (set events) (fst st)" "handle_event ke received st = (outcome, out, st')"
    for received st outcome out st'
    using handle_event_acknowledged [OF that(1,2), of ke "snd st"] that(3) by (simp add: list.pred_True)
  ultimately have "acknowledged host (set events) (fst (s, x'))"
    using run_events_invariant [where I = "\<lambda>st. acknowledged host (set events) (fst st)" and P = "\<lambda>_. True",
        OF _ _ assms(1)] by blast
  then show ?thesis using assms(2,3) by (simp add: acknowledged_def)
qed

text \<open>The sample answer, acknowledged: login, submission and the group's acknowledgement.\<close>

abbreviation answering_events :: "received_event list" where
  "answering_events \<equiv> login_events @
     [receive (Action (SubmitAnswer item_event_id sample_answers)),
      receive (ReceiptStatus item_event_id 9 (Acked ''wss://relay''))]"

lemma run_events_append:
  assumes "run_events ke first st = (Inr (), emitted, st1)"
    and "\<forall>received \<in> set first. rv_event received \<noteq> QueryClosed \<and> rv_event received \<noteq> Stop"
  shows "run_events ke (first @ later) st =
    (case run_events ke later st1 of (result, emitted', st') \<Rightarrow> (result, emitted @ emitted', st'))"
  using assms
proof (induction first arbitrary: st emitted)
  case Nil
  then show ?case by (simp split: prod.split)
next
  case (Cons received rest)
  have "fst (handle_event ke received st) \<noteq> Break"
    using Cons.prems(2)
    by (auto simp: handle_event_def emitting_def handle_submit_def split: prod.splits runtime_event.splits
        app_action.splits option.splits sum.splits)
  then show ?case
    using Cons.prems Cons.IH
    by (auto split: prod.splits loop_outcome.splits)
qed

theorem published_only_on_ack_witness:
  "\<exists>result emitted s x v. run_events sample_kernel answering_events (session_new sample_configuration ''wss://relay'', [])
      = (result, emitted, (s, x))
    \<and> btree_get (ss_submissions s) item_event_id = Some v \<and> as_phase v = SubmissionPublished
    \<and> as_receipt_id v = Some 9"
proof -
  obtain emitted s x where s:
    "run_events sample_kernel login_events (session_new sample_configuration ''wss://relay'', []) = (Inr (), emitted, (s, x))"
    "active_pubkey (ss_identity s) = Some (replicate 64 (CHR ''2''))" "ss_host s = ''wss://relay''"
    "ss_submissions s = []" "kc_group_id (ss_configuration s) = ''tts''"
    "ss_queue s = project (ss_configuration s) [sample_event item_event_id] no_evidence"
    by (rule logged_in_session)
  obtain st1 where "submit_answer sample_kernel item_event_id sample_answers (s, x) = (Inr 9, st1)"
    using sample_submission [OF s(2-6)] by blast
  then obtain x1 where sub: "submit_answer sample_kernel item_event_id sample_answers (s, x) =
      (Inr 9, (s\<lparr>ss_submissions := [(item_event_id, sending item_event_id 9)]\<rparr>, x1))"
    using s(4) by (auto elim!: submit_answer_ok)
  have "\<exists>emitted' s' v. run_events sample_kernel
      [receive (Action (SubmitAnswer item_event_id sample_answers)),
       receive (ReceiptStatus item_event_id 9 (Acked ''wss://relay''))] (s, x) = (Inr (), emitted', (s', x1))
    \<and> btree_get (ss_submissions s') item_event_id = Some v \<and> as_phase v = SubmissionPublished"
    using s(3) by (simp add: handle_event_def handle_submit_def sub emitting_def receipt_status_def sending_def
        apply_status_def btree_get_def)
  then obtain emitted' s' v where r: "run_events sample_kernel answering_events
      (session_new sample_configuration ''wss://relay'', []) = (Inr (), emitted @ emitted', (s', x1))"
    and v: "btree_get (ss_submissions s') item_event_id = Some v" "as_phase v = SubmissionPublished"
    using run_events_append [OF s(1)] by auto
  have "as_receipt_id v = Some 9" using published_only_on_ack [OF r v] by auto
  then show ?thesis using r v by blast
qed

section \<open>The kernel leaves no signer behind\<close>

text \<open>The engine operations other than the account operations leave its registrations alone.\<close>

definition kernel_contract :: "'x kernel_engine \<Rightarrow> ('x \<Rightarrow> account_registration set) \<Rightarrow> bool" where
  "kernel_contract ke accounts \<longleftrightarrow>
     account_contract (ke_accounts ke) accounts
     \<and> (\<forall>intent x. accounts (snd (ke_publish_tracked ke intent x)) = accounts x)
     \<and> (\<forall>x. accounts (snd (ke_unix_seconds ke x)) = accounts x)
     \<and> (\<forall>x. accounts (ke_shutdown ke x) = accounts x)"

definition session_tracked ::
  "('x \<Rightarrow> account_registration set) \<Rightarrow> account_registration set \<Rightarrow> session \<times> 'x \<Rightarrow> bool" where
  "session_tracked accounts base st \<longleftrightarrow>
     session_ok (fst st) \<and> tracked accounts base (ss_identity (fst st), snd st)"

lemma submit_answer_tracked:
  assumes "kernel_contract ke accounts" and "submit_answer ke ident answers (s, x) = (r, (s', x'))"
  shows "ss_identity s' = ss_identity s \<and> accounts x' = accounts x"
proof -
  have keep: "ke_publish_tracked ke intent y = (r', y') \<Longrightarrow> accounts y' = accounts y"
    "ke_unix_seconds ke y = (now, y') \<Longrightarrow> accounts y' = accounts y" for intent y r' y' now
    using assms(1) unfolding kernel_contract_def by (metis snd_conv)+
  show ?thesis
    using assms(2) unfolding submit_answer_def
    by (auto simp: Let_def keep dest!: keep split: option.splits if_splits prod.splits sum.splits)
qed

lemma handle_submit_tracked:
  assumes "kernel_contract ke accounts" and "tracked accounts base (ss_identity s, x)"
  shows "tracked accounts base (ss_identity (fst (snd (snd (handle_submit ke spawn ident answers (s, x))))),
    snd (snd (snd (handle_submit ke spawn ident answers (s, x)))))"
proof -
  obtain r s1 x1 where sub: "submit_answer ke ident answers (s, x) = (r, (s1, x1))" by (metis prod.exhaust)
  show ?thesis
    using submit_answer_tracked [OF assms(1) sub] assms(2)
    by (cases r; cases spawn) (simp_all add: handle_submit_def sub emitting_def action_error_def tracked_def)
qed

lemma kept_identity:
  "ss_identity (reproject s) = ss_identity s" "ss_identity (update_rows rs evidence s) = ss_identity s"
  "ss_identity (receipt_status ident receipt_id status s) = ss_identity s"
  "ss_identity (receipt_closed ident receipt_id s) = ss_identity s"
  "ss_identity (action_error target message s) = ss_identity s"
  by (simp_all add: reproject_def update_rows_def receipt_status_def receipt_closed_def action_error_def Let_def
      split: option.split)

lemma handle_event_tracked:
  assumes "kernel_contract ke accounts" and "session_ok s" and "tracked accounts base (ss_identity s, x)"
  shows "tracked accounts base (ss_identity (fst (snd (snd (handle_event ke received (s, x))))),
    snd (snd (snd (handle_event ke received (s, x)))))"
proof -
  have "account_contract (ke_accounts ke) accounts" "identity_ok (fst (ss_identity s, x))"
    using assms(1,2) by (simp_all add: kernel_contract_def session_ok_def)
  note step = identity_step_tracked [OF this assms(3)]
  show ?thesis
    using assms(3) step [of "IdLogin secret persist" for secret persist] step [of IdLogout]
      step [of "IdRestoreFailed error" for error] step [of "IdCredentialResult i b e" for i b e]
    by (cases "rv_event received")
      (auto simp: handle_event_def emitting_def Let_def session_login_def identity_step_def
        session_credential_result_def credential_load_failed_def session_logout_def
        handle_submit_tracked [OF assms(1,3)] kept_identity case_prod_beta
        split: app_action.split option.split)
qed

lemma run_events_tracked:
  assumes "kernel_contract ke accounts" and "session_tracked accounts base st"
    and "run_events ke events st = (result, emitted, st')"
  shows "session_tracked accounts base st'"
proof -
  have "session_tracked accounts base st2 \<and> list_all (\<lambda>_. True) out"
    if "session_tracked accounts base st1" "handle_event ke received st1 = (outcome, out, st2)"
    for received st1 outcome out st2
    using handle_event_tracked [OF assms(1), of "fst st1" base "snd st1" received]
      handle_event_ok [of "fst st1" ke received "snd st1"] that
    by (simp add: session_tracked_def step_ok_def list.pred_True)
  then show ?thesis
    using run_events_invariant [where I = "session_tracked accounts base" and P = "\<lambda>_. True", OF _ assms(2,3)]
    by blast
qed

text \<open>
  The kernel leaves no signer behind. Whatever was logged in, saved or logged out while it ran, when
  the kernel ends without a failure the engine holds exactly the registrations it had when the kernel
  started, a login still waiting for the platform's credential store included.
\<close>

theorem kernel_removes_signers:
  assumes "kernel_contract ke accounts" and "su_engine su = Inr x"
    and "\<forall>y. accounts (snd (su_observe su y)) = accounts y"
    and "run_inner ke su configuration events = (Inr (), emitted, Some x')"
  shows "accounts x' = accounts x"
proof -
  obtain r x1 where obs: "su_observe su x = (r, x1)" by (metis prod.exhaust)
  have x1: "accounts x1 = accounts x" using assms(3) obs by (metis snd_conv)
  have shut: "accounts (ke_shutdown ke y) = accounts y" for y using assms(1) by (simp add: kernel_contract_def)
  show ?thesis
  proof (cases "su_install su")
    case False
    then show ?thesis
      using assms(2,4) obs x1 shut by (auto simp: run_inner_def split: option.splits sum.splits)
  next
    case True
    then obtain host emitted1 s2 x2 where
      run: "run_events ke events (session_new configuration host, x1) = (Inr (), emitted1, (s2, x2))"
      and x': "x' = ke_shutdown ke (snd (session_shutdown ke (s2, x2)))"
      using assms(2,4) obs
      by (auto simp: run_inner_def Let_def split: option.splits sum.splits prod.splits)
    have "session_tracked accounts (accounts x) (session_new configuration host, x1)"
      using session_new_ok x1
      by (auto simp: session_tracked_def tracked_def held_def session_new_def identity_new_def)
    then have "session_tracked accounts (accounts x) (s2, x2)"
      by (rule run_events_tracked [OF assms(1) _ run])
    then have "accounts (snd (identity_shutdown (ke_accounts ke) (ss_identity s2, x2))) = accounts x"
      using assms(1) by (intro identity_shutdown_removes)
        (simp_all add: session_tracked_def session_ok_def kernel_contract_def)
    then show ?thesis using x' shut by (simp add: session_shutdown_def case_prod_beta)
  qed
qed

definition sample_startup :: "account_registration list kernel_startup" where
  "sample_startup =
     \<lparr>su_engine = Inr [], su_parse_relay = Some, su_observe = ok (), su_install = True, su_query_thread = Inr ()\<rparr>"

lemma sample_kernel_contract: "kernel_contract sample_kernel set"
  by (simp add: kernel_contract_def sample_kernel_def listing_engine_contract of_result_def)

theorem kernel_removes_signers_witness:
  "\<exists>emitted x'. run_inner sample_kernel sample_startup sample_configuration
      [receive (Login (replicate 64 (CHR ''2'')) True), receive Stop] = (Inr (), emitted, Some x') \<and> set x' = {}"
proof -
  have "\<exists>emitted x'. run_inner sample_kernel sample_startup sample_configuration
      [receive (Login (replicate 64 (CHR ''2'')) True), receive Stop] = (Inr (), emitted, Some x')"
    by (simp add: run_inner_def sample_startup_def sample_configuration_def of_result_def Let_def handle_event_def
        emitting_def split: prod.split)
  then obtain emitted x' where r: "run_inner sample_kernel sample_startup sample_configuration
      [receive (Login (replicate 64 (CHR ''2'')) True), receive Stop] = (Inr (), emitted, Some x')" by blast
  have "set x' = set []"
    by (rule kernel_removes_signers [OF sample_kernel_contract _ _ r]) (simp_all add: sample_startup_def of_result_def)
  then show ?thesis using r by auto
qed

end
