(* ===== verification/Cancel_Race.thy ===== *)
theory Cancel_Race
  imports Prelude
begin

text \<open>
  Cancelling an observation that is being installed (\<open>daemon/src/answer_wait.rs\<close>): the state of
  \<open>AnswerWaitCancel\<close> is shared by the waiting thread, which runs \<open>install\<close>, and a thread that runs \<open>cancel\<close>.
  Each step is one atomic access: of the flag, of the lock, or of the stored observation under the lock.
  \<open>cancel\<close> waits for the lock while \<open>install\<close> holds it.
\<close>

record answer_wait_cancel =
  aw_cancelled :: bool
  aw_observation :: bool
  aw_observation_cancelled :: bool

datatype cancel_pc = CancelStart | CancelFlagged | CancelDone
datatype install_pc = InstallStart | InstallChecked | InstallLocked | InstallCommit | InstallDone bool

record cancel_race =
  cr_shared :: answer_wait_cancel
  cr_cancel :: cancel_pc
  cr_install :: install_pc

inductive race_step :: "cancel_race \<Rightarrow> cancel_race \<Rightarrow> bool" where
  flag: "cr_cancel s = CancelStart \<Longrightarrow>
    race_step s (s\<lparr>cr_shared := (cr_shared s)\<lparr>aw_cancelled := True\<rparr>, cr_cancel := CancelFlagged\<rparr>)"
| notify: "cr_cancel s = CancelFlagged \<Longrightarrow> cr_install s \<notin> {InstallLocked, InstallCommit} \<Longrightarrow>
    race_step s (s\<lparr>cr_shared := (cr_shared s)\<lparr>aw_observation_cancelled :=
        aw_observation_cancelled (cr_shared s) \<or> aw_observation (cr_shared s)\<rparr>, cr_cancel := CancelDone\<rparr>)"
| look_refused: "cr_install s = InstallStart \<Longrightarrow> aw_cancelled (cr_shared s) \<Longrightarrow>
    race_step s (s\<lparr>cr_shared := (cr_shared s)\<lparr>aw_observation_cancelled := True\<rparr>, cr_install := InstallDone False\<rparr>)"
| look: "cr_install s = InstallStart \<Longrightarrow> \<not> aw_cancelled (cr_shared s) \<Longrightarrow>
    race_step s (s\<lparr>cr_install := InstallChecked\<rparr>)"
| lock: "cr_install s = InstallChecked \<Longrightarrow> race_step s (s\<lparr>cr_install := InstallLocked\<rparr>)"
| look_again_refused: "cr_install s = InstallLocked \<Longrightarrow> aw_cancelled (cr_shared s) \<Longrightarrow>
    race_step s (s\<lparr>cr_shared := (cr_shared s)\<lparr>aw_observation_cancelled := True\<rparr>, cr_install := InstallDone False\<rparr>)"
| look_again: "cr_install s = InstallLocked \<Longrightarrow> \<not> aw_cancelled (cr_shared s) \<Longrightarrow>
    race_step s (s\<lparr>cr_install := InstallCommit\<rparr>)"
| store: "cr_install s = InstallCommit \<Longrightarrow>
    race_step s (s\<lparr>cr_shared := (cr_shared s)\<lparr>aw_observation := True\<rparr>, cr_install := InstallDone True\<rparr>)"

definition race_start :: cancel_race where
  "race_start =
     \<lparr>cr_shared = \<lparr>aw_cancelled = False, aw_observation = False, aw_observation_cancelled = False\<rparr>,
      cr_cancel = CancelStart, cr_install = InstallStart\<rparr>"

text \<open>Once \<open>cancel\<close> has passed the lock, \<open>install\<close> cannot get past its second look.\<close>

definition race_invariant :: "cancel_race \<Rightarrow> bool" where
  "race_invariant s \<longleftrightarrow>
     (aw_cancelled (cr_shared s) \<longleftrightarrow> cr_cancel s \<noteq> CancelStart)
     \<and> (aw_observation (cr_shared s) \<longleftrightarrow> cr_install s = InstallDone True)
     \<and> (cr_install s = InstallDone False \<longrightarrow> aw_observation_cancelled (cr_shared s))
     \<and> (cr_cancel s = CancelDone \<longrightarrow> cr_install s \<noteq> InstallCommit)
     \<and> (cr_cancel s = CancelDone \<and> cr_install s = InstallDone True \<longrightarrow> aw_observation_cancelled (cr_shared s))"

lemma race_invariant_start: "race_invariant race_start"
  by (simp add: race_invariant_def race_start_def)

lemma race_invariant_step: "race_step s t \<Longrightarrow> race_invariant s \<Longrightarrow> race_invariant t"
  by (induction rule: race_step.induct) (auto simp: race_invariant_def)

lemma race_invariant_reachable: "race_step\<^sup>*\<^sup>* race_start s \<Longrightarrow> race_invariant s"
  by (induction rule: rtranclp_induct) (auto intro: race_invariant_start race_invariant_step)

lemma race_done_cancelled:
  "race_invariant s \<Longrightarrow> cr_cancel s = CancelDone \<Longrightarrow> cr_install s = InstallDone installed \<Longrightarrow>
   aw_observation_cancelled (cr_shared s)"
  by (cases installed) (auto simp: race_invariant_def)

text \<open>
  A cancelled wait never keeps its observation. In every interleaving of \<open>install\<close> and \<open>cancel\<close>, once
  both have finished the observation is cancelled, whether \<open>install\<close> refused it or stored it.
\<close>

theorem cancel_reaches_observation:
  assumes "race_step\<^sup>*\<^sup>* race_start s" and "cr_cancel s = CancelDone" and "cr_install s = InstallDone installed"
  shows "aw_observation_cancelled (cr_shared s)"
  using race_invariant_reachable [OF assms(1)] assms(2,3) by (rule race_done_cancelled)

text \<open>The interleaving in which the flag is set after \<open>install\<close> has looked at it for the last time.\<close>

abbreviation late_flag :: "cancel_race \<Rightarrow> cancel_race" where
  "late_flag s \<equiv> s\<lparr>cr_shared := (cr_shared s)\<lparr>aw_cancelled := True\<rparr>, cr_cancel := CancelFlagged\<rparr>"

abbreviation late_store :: "cancel_race \<Rightarrow> cancel_race" where
  "late_store s \<equiv> s\<lparr>cr_shared := (cr_shared s)\<lparr>aw_observation := True\<rparr>, cr_install := InstallDone True\<rparr>"

abbreviation late_notify :: "cancel_race \<Rightarrow> cancel_race" where
  "late_notify s \<equiv> s\<lparr>cr_shared := (cr_shared s)\<lparr>aw_observation_cancelled :=
      aw_observation_cancelled (cr_shared s) \<or> aw_observation (cr_shared s)\<rparr>, cr_cancel := CancelDone\<rparr>"

lemma late_cancel_run:
  "race_step\<^sup>*\<^sup>* race_start (late_notify (late_store (late_flag (race_start\<lparr>cr_install := InstallCommit\<rparr>))))"
proof -
  have "race_step race_start (race_start\<lparr>cr_install := InstallChecked\<rparr>)"
    by (rule race_step.look) (simp_all add: race_start_def)
  moreover have "race_step (race_start\<lparr>cr_install := InstallChecked\<rparr>) (race_start\<lparr>cr_install := InstallLocked\<rparr>)"
    using race_step.lock [of "race_start\<lparr>cr_install := InstallChecked\<rparr>"] by simp
  moreover have "race_step (race_start\<lparr>cr_install := InstallLocked\<rparr>) (race_start\<lparr>cr_install := InstallCommit\<rparr>)"
    using race_step.look_again [of "race_start\<lparr>cr_install := InstallLocked\<rparr>"] by (simp add: race_start_def)
  moreover have "race_step (race_start\<lparr>cr_install := InstallCommit\<rparr>) (late_flag (race_start\<lparr>cr_install := InstallCommit\<rparr>))"
    by (rule race_step.flag) (simp add: race_start_def)
  moreover have "race_step (late_flag (race_start\<lparr>cr_install := InstallCommit\<rparr>))
      (late_store (late_flag (race_start\<lparr>cr_install := InstallCommit\<rparr>)))"
    by (rule race_step.store) simp
  moreover have "race_step (late_store (late_flag (race_start\<lparr>cr_install := InstallCommit\<rparr>)))
      (late_notify (late_store (late_flag (race_start\<lparr>cr_install := InstallCommit\<rparr>))))"
    by (rule race_step.notify) simp_all
  ultimately show ?thesis by (meson rtranclp.rtrancl_into_rtrancl rtranclp.rtrancl_refl)
qed

theorem cancel_reaches_observation_witness:
  "aw_observation_cancelled (cr_shared (late_notify (late_store (late_flag (race_start\<lparr>cr_install := InstallCommit\<rparr>)))))"
  by (rule cancel_reaches_observation [OF late_cancel_run]) simp_all

end
