(* ===== verification/App_Control.thy ===== *)
theory App_Control
  imports App_Laws Cancel_Race
begin

text \<open>
  The control block and the foreign-function surface of the app kernel (\<open>core/src/lib.rs\<close>), and the threads
  that feed the kernel's channel (\<open>forward_receipt\<close> and the query thread of \<open>core/src/runtime.rs\<close>).
\<close>

section \<open>The control block\<close>

record control =
  ct_stopping :: bool
  ct_cancellation :: bool
  ct_observation_cancelled :: bool
  ct_sent :: "runtime_event list"

definition control_new :: control where
  "control_new = \<lparr>ct_stopping = False, ct_cancellation = False, ct_observation_cancelled = False, ct_sent = []\<rparr>"

definition is_stopping :: "control \<Rightarrow> bool" where
  "is_stopping c = ct_stopping c"

definition cancel_observation :: "control \<Rightarrow> control" where
  "cancel_observation c = (if ct_cancellation c then c\<lparr>ct_observation_cancelled := True\<rparr> else c)"

text \<open>Without interference \<open>install\<close>, \<open>send\<close> and \<open>stop\<close> run as follows.\<close>

definition control_install :: "control \<Rightarrow> bool \<times> control" where
  "control_install c =
     (if is_stopping c then (False, c\<lparr>ct_observation_cancelled := True\<rparr>)
      else (True, c\<lparr>ct_cancellation := True\<rparr>))"

definition control_send :: "runtime_event \<Rightarrow> control \<Rightarrow> control" where
  "control_send event c = (if is_stopping c then c else c\<lparr>ct_sent := ct_sent c @ [event]\<rparr>)"

definition control_stop :: "control \<Rightarrow> control" where
  "control_stop c =
     (if is_stopping c then c
      else (let c = cancel_observation (c\<lparr>ct_stopping := True\<rparr>) in c\<lparr>ct_sent := ct_sent c @ [Stop]\<rparr>))"

section \<open>Foreign calls\<close>

text \<open>
  A C string is a null pointer or its bytes; \<open>utf8\<close> says whether bytes are UTF-8. A handle is a null
  pointer or the control block of the kernel; \<open>decode\<close> is the JSON reader of actions.
\<close>

type_synonym c_string = "string option"

definition parse_c_string :: "(string \<Rightarrow> bool) \<Rightarrow> c_string \<Rightarrow> string option" where
  "parse_c_string utf8 value = Option.bind value (\<lambda>bytes. if utf8 bytes then Some bytes else None)"

definition send_secret :: "(string \<Rightarrow> bool) \<Rightarrow> c_string \<Rightarrow> bool \<Rightarrow> control option \<Rightarrow> control option" where
  "send_secret utf8 secret persist handle =
     map_option (\<lambda>c. case parse_c_string utf8 secret of
         None \<Rightarrow> c
       | Some s \<Rightarrow> control_send (Login s persist) c) handle"

definition tts29_login :: "(string \<Rightarrow> bool) \<Rightarrow> c_string \<Rightarrow> control option \<Rightarrow> control option" where
  "tts29_login utf8 secret handle = send_secret utf8 secret True handle"

definition tts29_restore_login :: "(string \<Rightarrow> bool) \<Rightarrow> c_string \<Rightarrow> control option \<Rightarrow> control option" where
  "tts29_restore_login utf8 secret handle = send_secret utf8 secret False handle"

definition tts29_credential_load_failed :: "(string \<Rightarrow> bool) \<Rightarrow> c_string \<Rightarrow> control option \<Rightarrow> control option" where
  "tts29_credential_load_failed utf8 error handle =
     map_option (\<lambda>c. case parse_c_string utf8 error of
         None \<Rightarrow> c
       | Some e \<Rightarrow> control_send (CredentialLoadFailed e) c) handle"

definition tts29_dispatch ::
  "(string \<Rightarrow> bool) \<Rightarrow> (string \<Rightarrow> app_action option) \<Rightarrow> c_string \<Rightarrow> control option \<Rightarrow> control option" where
  "tts29_dispatch utf8 decode action handle =
     map_option (control_send
       (case Option.bind (parse_c_string utf8 action) decode of
          Some a \<Rightarrow> Action a
        | None \<Rightarrow> ActionError ''The app action was invalid.'')) handle"

definition tts29_credential_result ::
  "(string \<Rightarrow> bool) \<Rightarrow> u64 \<Rightarrow> bool \<Rightarrow> c_string \<Rightarrow> control option \<Rightarrow> control option" where
  "tts29_credential_result utf8 request_id succeeded error handle =
     map_option (control_send (CredentialResult request_id succeeded (parse_c_string utf8 error))) handle"

definition tts29_start ::
  "(string \<Rightarrow> bool) \<Rightarrow> (string \<Rightarrow> kernel_configuration option) \<Rightarrow> bool \<Rightarrow> c_string \<Rightarrow> bool
   \<Rightarrow> (control \<times> kernel_configuration) option" where
  "tts29_start utf8 decode spawned configuration_json callback =
     (if \<not> callback then None
      else case Option.bind (parse_c_string utf8 configuration_json) decode of
        None \<Rightarrow> None
      | Some configuration \<Rightarrow> if spawned then Some (control_new, configuration) else None)"

definition tts29_stop :: "control option \<Rightarrow> control option" where
  "tts29_stop handle = map_option control_stop handle"

text \<open>
  \<open>Emitter::emit\<close>: a snapshot that cannot be written as JSON, or whose JSON has a zero byte, is not handed to
  the callback; any other arrives as a C string. \<open>encode\<close> is the JSON writer.
\<close>

definition emit :: "(queue_snapshot \<Rightarrow> string option) \<Rightarrow> queue_snapshot \<Rightarrow> string option" where
  "emit encode snapshot =
     (case encode snapshot of
        None \<Rightarrow> None
      | Some json \<Rightarrow> if CHR 0x00 \<in> set json then None else Some (json @ [CHR 0x00]))"

definition callbacks :: "(queue_snapshot \<Rightarrow> string option) \<Rightarrow> queue_snapshot list \<Rightarrow> string list" where
  "callbacks encode snapshots = List.map_filter (emit encode) snapshots"

text \<open>
  JSON escapes control characters, so a writer that never fails loses no snapshot: the callback sees one C
  string per emitted snapshot, in order, and reads exactly its JSON up to the zero byte.
\<close>

lemma callbacks_complete:
  assumes "\<And>snapshot. snapshot \<in> set snapshots \<Longrightarrow> \<exists>json. encode snapshot = Some json \<and> CHR 0x00 \<notin> set json"
  shows "map (takeWhile (\<lambda>c. c \<noteq> CHR 0x00)) (callbacks encode snapshots) = map (\<lambda>snapshot. the (encode snapshot)) snapshots"
  using assms
proof (induction snapshots)
  case (Cons snapshot snapshots)
  then obtain json where json: "encode snapshot = Some json" "CHR 0x00 \<notin> set json" by auto
  then have "takeWhile (\<lambda>c. c \<noteq> CHR 0x00) (json @ [CHR 0x00]) = json" by (subst takeWhile_append2) auto
  then show ?case using Cons json by (simp add: callbacks_def emit_def map_filter_simps)
qed (simp add: callbacks_def map_filter_simps)

section \<open>The threads that feed the channel\<close>

text \<open>
  \<open>accepted\<close> is how many sends the channel takes before its receiver is gone; the thread stops at the
  first refused one.
\<close>

definition forward_receipt :: "string \<Rightarrow> u64 \<Rightarrow> write_status list \<Rightarrow> nat \<Rightarrow> runtime_event list" where
  "forward_receipt ident receipt_id statuses accepted =
     take accepted (map (ReceiptStatus ident receipt_id) statuses @ [ReceiptClosed ident receipt_id])"

definition query_thread :: "frame list \<Rightarrow> nat \<Rightarrow> runtime_event list" where
  "query_thread frames accepted = take accepted (map Frame frames @ [QueryClosed])"

section \<open>Stopping while calls arrive\<close>

text \<open>
  The same control block under interference. The kernel thread runs \<open>install\<close> and the caller of
  \<open>tts29_stop\<close> runs \<open>stop\<close>, whose flag and cancellation interleave with \<open>install\<close> as in \<open>race_step\<close>; other
  calls look at the flag and put their event on the channel later.
\<close>

record control_race =
  cc_race :: cancel_race
  cc_looked :: "runtime_event list"
  cc_channel :: "runtime_event list"
  cc_stopped :: bool

definition control_start :: control_race where
  "control_start = \<lparr>cc_race = race_start, cc_looked = [], cc_channel = [], cc_stopped = False\<rparr>"

inductive control_step :: "control_race \<Rightarrow> control_race \<Rightarrow> bool" where
  observe: "race_step (cc_race s) r \<Longrightarrow> control_step s (s\<lparr>cc_race := r\<rparr>)"
| send_stop: "cr_cancel (cc_race s) = CancelDone \<Longrightarrow> \<not> cc_stopped s \<Longrightarrow>
    control_step s (s\<lparr>cc_channel := cc_channel s @ [Stop], cc_stopped := True\<rparr>)"
| look_send: "\<not> aw_cancelled (cr_shared (cc_race s)) \<Longrightarrow> event \<noteq> Stop \<Longrightarrow>
    control_step s (s\<lparr>cc_looked := event # cc_looked s\<rparr>)"
| send: "cc_looked s = before @ event # after \<Longrightarrow>
    control_step s (s\<lparr>cc_looked := before @ after, cc_channel := cc_channel s @ [event]\<rparr>)"

definition control_invariant :: "control_race \<Rightarrow> bool" where
  "control_invariant s \<longleftrightarrow>
     race_invariant (cc_race s) \<and> Stop \<notin> set (cc_looked s)
     \<and> count_list (cc_channel s) Stop = (if cc_stopped s then 1 else 0)
     \<and> (cc_stopped s \<longrightarrow> cr_cancel (cc_race s) = CancelDone)"

inductive_cases race_stepE: "race_step s t"

lemma race_step_done: "race_step s t \<Longrightarrow> cr_cancel s = CancelDone \<Longrightarrow> cr_cancel t = CancelDone"
  by (erule race_stepE) auto

lemma control_invariant_step: "control_step s t \<Longrightarrow> control_invariant s \<Longrightarrow> control_invariant t"
proof (induction rule: control_step.induct)
  case (observe s r)
  then show ?case using race_invariant_step race_step_done by (fastforce simp: control_invariant_def)
next
  case (send s before event after)
  then have "event \<noteq> Stop" by (auto simp: control_invariant_def)
  then show ?case using send by (auto simp: control_invariant_def)
qed (auto simp: control_invariant_def)

lemma control_invariant_reachable: "control_step\<^sup>*\<^sup>* control_start s \<Longrightarrow> control_invariant s"
proof (induction rule: rtranclp_induct)
  case base
  then show ?case by (simp add: control_invariant_def control_start_def race_invariant_start)
qed (rule control_invariant_step)

text \<open>After \<open>stop\<close> only calls that had looked before it can still reach the channel.\<close>

lemma stopped_channel_step:
  assumes "control_step s t" and "control_invariant s" and "cc_stopped s"
  shows "cc_stopped t \<and> (\<exists>late. cc_channel t = cc_channel s @ late \<and> mset (late @ cc_looked t) = mset (cc_looked s))"
proof -
  have "aw_cancelled (cr_shared (cc_race s))"
    using assms(2,3) by (auto simp: control_invariant_def race_invariant_def)
  with assms(1,3) show ?thesis by (induction rule: control_step.induct) auto
qed

lemma stopped_channel:
  assumes "control_step\<^sup>*\<^sup>* s t" and "control_invariant s" and "cc_stopped s"
  shows "control_invariant t \<and> cc_stopped t
    \<and> (\<exists>late. cc_channel t = cc_channel s @ late \<and> mset (late @ cc_looked t) = mset (cc_looked s))"
  using assms(1)
proof (induction rule: rtranclp_induct)
  case base
  then show ?case using assms(2,3) by simp
next
  case (step t u)
  then obtain late where late: "cc_channel t = cc_channel s @ late" "mset (late @ cc_looked t) = mset (cc_looked s)" by blast
  obtain later where "cc_channel u = cc_channel t @ later" "mset (later @ cc_looked u) = mset (cc_looked t)"
    using stopped_channel_step [OF step.hyps(2)] step.IH by blast
  moreover have "mset ((late @ later) @ cc_looked u) = mset (cc_looked s)"
    using late(2) calculation(2) by (simp add: union_assoc)
  ultimately show ?case
    using late(1) step.IH stopped_channel_step [OF step.hyps(2)] control_invariant_step [OF step.hyps(2)]
    by (metis append_assoc)
qed


lemma control_steps_observe: "race_step\<^sup>*\<^sup>* (cc_race s) r \<Longrightarrow> control_step\<^sup>*\<^sup>* s (s\<lparr>cc_race := r\<rparr>)"
proof (induction rule: rtranclp_induct)
  case (step r r')
  then have "control_step (s\<lparr>cc_race := r\<rparr>) ((s\<lparr>cc_race := r\<rparr>)\<lparr>cc_race := r'\<rparr>)" by (intro control_step.observe) simp
  with step.IH show ?case by (simp add: rtranclp.rtrancl_into_rtrancl)
qed simp



section \<open>A forwarded receipt settles its answer\<close>

text \<open>The phase a delivery status decides, if it decides one.\<close>

definition decided_phase :: "relay_url \<Rightarrow> write_status \<Rightarrow> answer_submission_phase option" where
  "decided_phase host status =
     (case status of
        Acked relay \<Rightarrow> if relay = host then Some SubmissionPublished else None
      | Rejected relay _ \<Rightarrow> if relay = host then Some SubmissionFailed else None
      | GaveUp relay \<Rightarrow> if relay = host then Some SubmissionFailed else None
      | OutcomeUnknown relay \<Rightarrow> if relay = host then Some SubmissionFailed else None
      | Cancelled \<Rightarrow> Some SubmissionFailed
      | ReplaceableConflict \<Rightarrow> Some SubmissionFailed
      | Failed _ \<Rightarrow> Some SubmissionFailed
      | _ \<Rightarrow> None)"

lemma apply_status_phase:
  "as_phase (apply_status host status v) = (case decided_phase host status of None \<Rightarrow> as_phase v | Some phase \<Rightarrow> phase)"
  by (auto simp: apply_status_def decided_phase_def fail_submission_def split: write_status.split)

lemma decided_phase_settled: "decided_phase host status \<noteq> Some Sending"
  by (simp add: decided_phase_def split: write_status.split)

lemma statuses_phase:
  assumes "btree_get (ss_submissions s) ident = Some v" and "as_receipt_id v = Some receipt_id"
  shows "\<exists>emitted s' v'. run_events ke (map receive (map (ReceiptStatus ident receipt_id) statuses @ later)) (s, x) =
      (let (result, emitted', st) = run_events ke (map receive later) (s', x) in (result, emitted @ emitted', st))
    \<and> ss_host s' = ss_host s \<and> btree_get (ss_submissions s') ident = Some v' \<and> as_receipt_id v' = Some receipt_id
    \<and> as_phase v' = last (as_phase v # List.map_filter (decided_phase (ss_host s)) statuses)"
  using assms
proof (induction statuses arbitrary: s v)
  case Nil
  then show ?case by (auto simp: List.map_filter_def Let_def split: prod.split intro!: exI [of _ s])
next
  case (Cons status rest)
  define s1 where "s1 = receipt_status ident receipt_id status s"
  define v1 where "v1 = apply_status (ss_host s) status v"
  have s1: "btree_get (ss_submissions s1) ident = Some v1" "ss_host s1 = ss_host s"
    using Cons.prems by (simp_all add: s1_def v1_def receipt_status_def btree_get_insert)
  have v1: "as_receipt_id v1 = Some receipt_id"
    "as_phase v1 = (case decided_phase (ss_host s) status of None \<Rightarrow> as_phase v | Some phase \<Rightarrow> phase)"
    using Cons.prems by (simp_all add: v1_def apply_status_published apply_status_phase)
  obtain emitted s' v' where IH: "run_events ke (map receive (map (ReceiptStatus ident receipt_id) rest @ later)) (s1, x) =
      (let (result, emitted', st) = run_events ke (map receive later) (s', x) in (result, emitted @ emitted', st))"
    "ss_host s' = ss_host s" "btree_get (ss_submissions s') ident = Some v'" "as_receipt_id v' = Some receipt_id"
    "as_phase v' = last (as_phase v1 # List.map_filter (decided_phase (ss_host s)) rest)"
    using Cons.IH [OF s1(1) v1(1)] s1(2) by auto
  have "run_events ke (map receive (map (ReceiptStatus ident receipt_id) (status # rest) @ later)) (s, x) =
      (let (result, emitted', st) = run_events ke (map receive later) (s', x)
       in (result, (session_snapshot s1 # emitted) @ emitted', st))"
    using IH(1) by (simp add: handle_event_def emitting_def s1_def Let_def split: prod.splits)
  moreover have "as_phase v' = last (as_phase v # List.map_filter (decided_phase (ss_host s)) (status # rest))"
    using IH(5) v1(2) by (cases "decided_phase (ss_host s) status") (auto simp: List.map_filter_def)
  ultimately show ?case using IH(2-4) by blast
qed



text \<open>A second \<open>stop\<close> does nothing, and no call reaches a stopped kernel.\<close>

lemma control_stopped:
  "control_stop (control_stop c) = control_stop c" "control_send event (control_stop c) = control_stop c"
  by (simp_all add: control_stop_def control_send_def is_stopping_def cancel_observation_def Let_def)

end
