(* ===== verification/Jobs.thy ===== *)
theory Jobs
  imports Compose File_System
begin

text \<open>
  The data of publication jobs (\<open>producer-api/src/model.rs\<close>, \<open>daemon/src/model.rs\<close>) and the request
  checks of \<open>daemon/src/request.rs\<close>. JSON serialisation and SHA-256 are parameters.
\<close>

record producer_request =
  pr_request_id :: string
  pr_group_id :: string
  pr_voice :: string
  pr_agent_name :: string
  pr_subject :: string
  pr_summary :: string
  pr_body :: string
  pr_attachments :: "durable_artifact list"
  pr_questions :: "question list"
  pr_attach :: "attach_link_rec option"

datatype tree_attachment =
    File string string
  | Narrated string string "question list" "tree_attachment list"

record spoken_tree =
  st_request_id :: string
  st_group_id :: string
  st_title :: string
  st_summary :: "string option"
  st_message :: string
  st_questions :: "question list"
  st_attachments :: "tree_attachment list"

record local_audio_artifact =
  la_path :: string
  la_sha256 :: string
  la_media_type :: string
  la_byte_count :: u64

record membership_evidence =
  me_event_id :: string
  me_receipt_id :: "u64 option"

datatype job_phase =
    Admitted
  | Synthesized local_audio_artifact
  | ArtifactsDurable frozen_spoken_item
  | AuthorizationAccepted frozen_spoken_item u64
  | AuthorAuthorized frozen_spoken_item membership_evidence
  | PublicationAccepted frozen_spoken_item "membership_evidence option" u64
  | Published frozen_spoken_item "membership_evidence option" u64 string

definition phase_name :: "job_phase \<Rightarrow> string" where
  "phase_name phase =
     (case phase of
        Admitted \<Rightarrow> ''admitted''
      | Synthesized _ \<Rightarrow> ''synthesized''
      | ArtifactsDurable _ \<Rightarrow> ''artifacts_durable''
      | AuthorizationAccepted _ _ \<Rightarrow> ''authorization_accepted''
      | AuthorAuthorized _ _ \<Rightarrow> ''author_authorized''
      | PublicationAccepted _ _ _ \<Rightarrow> ''publication_accepted''
      | Published _ _ _ _ \<Rightarrow> ''published'')"

definition is_published :: "job_phase \<Rightarrow> bool" where
  "is_published phase = (case phase of Published _ _ _ _ \<Rightarrow> True | _ \<Rightarrow> False)"

definition phase_event_id :: "job_phase \<Rightarrow> string option" where
  "phase_event_id phase = (case phase of Published _ _ _ event_id \<Rightarrow> Some event_id | _ \<Rightarrow> None)"

record job_record =
  jr_schema_version :: u16
  jr_request_digest :: string
  jr_author :: string
  jr_created_at :: u64
  jr_request :: producer_request
  jr_phase :: job_phase

abbreviation job_id :: "job_record \<Rightarrow> string" where
  "job_id job \<equiv> pr_request_id (jr_request job)"

datatype journal_error = JournalIo io_error | InvalidId string | Corrupt string

definition journal_error_text :: "journal_error \<Rightarrow> string" where
  "journal_error_text e =
     (case e of
        JournalIo error \<Rightarrow> ''job journal I/O failed: '' @ io_error_text error
      | InvalidId ident \<Rightarrow> ''job journal request id is invalid: '' @ ident
      | Corrupt ident \<Rightarrow> ''job journal record is corrupt: '' @ ident)"

datatype producer_error =
    InvalidRequest string
  | RequestConflict string
  | JobNotFound string
  | JournalFailure journal_error
  | Capability string string

definition producer_error_text :: "producer_error \<Rightarrow> string" where
  "producer_error_text e =
     (case e of
        InvalidRequest field \<Rightarrow> ''invalid producer request: '' @ field
      | RequestConflict ident \<Rightarrow> ''request id was reused: '' @ ident
      | JobNotFound ident \<Rightarrow> ''producer job was not found: '' @ ident
      | JournalFailure error \<Rightarrow> journal_error_text error
      | Capability stage reason \<Rightarrow> ''producer stage '' @ stage @ '' failed: '' @ reason)"

section \<open>Request checks\<close>

text \<open>
  What the daemon takes from other crates: \<open>PublicKey::parse\<close>, \<open>serde_json::to_vec\<close> of a request and
  the lower-hex SHA-256 digest.
\<close>

record third_party =
  tp_parse_key :: key_parse
  tp_request_bytes :: "producer_request \<Rightarrow> string option"
  tp_sha256_hex :: "string \<Rightarrow> string"

definition frozen_item :: "job_record \<Rightarrow> durable_artifact \<Rightarrow> frozen_spoken_item" where
  "frozen_item job audio =
     \<lparr>fz_author = jr_author job, fz_created_at = jr_created_at job,
      fz_group_id = pr_group_id (jr_request job), fz_agent_name = pr_agent_name (jr_request job),
      fz_subject = pr_subject (jr_request job), fz_summary = pr_summary (jr_request job),
      fz_body = pr_body (jr_request job), fz_audio = audio,
      fz_attachments = pr_attachments (jr_request job), fz_questions = pr_questions (jr_request job),
      fz_attach = pr_attach (jr_request job)\<rparr>"

definition same_request :: "job_record \<Rightarrow> string \<Rightarrow> string \<Rightarrow> producer_error + job_record" where
  "same_request existing digest author =
     (if jr_request_digest existing = digest \<and> jr_author existing = author then Inr existing
      else Inl (RequestConflict (job_id existing)))"

definition is_request_char :: "char \<Rightarrow> bool" where
  "is_request_char c \<longleftrightarrow> is_ascii_alphanumeric c \<or> c = CHR ''-'' \<or> c = CHR ''_''"

definition valid_request_id :: "string \<Rightarrow> bool" where
  "valid_request_id value \<longleftrightarrow> value \<noteq> [] \<and> length value \<le> 64 \<and> list_all is_request_char value"

definition validate_request_id :: "string \<Rightarrow> producer_error + unit" where
  "validate_request_id value =
     (if value \<noteq> [] \<and> length value \<le> 64 \<and> list_all is_request_char value then Inr ()
      else Inl (InvalidRequest ''request_id''))"

definition request_digest :: "third_party \<Rightarrow> producer_request \<Rightarrow> producer_error + string" where
  "request_digest tp request =
     (case tp_request_bytes tp request of
        None \<Rightarrow> Inl (InvalidRequest ''serialization'')
      | Some bytes \<Rightarrow> Inr (tp_sha256_hex tp bytes))"

definition capability :: "string \<Rightarrow> string \<Rightarrow> producer_error" where
  "capability stage reason = Capability stage reason"

definition is_sha256 :: "string \<Rightarrow> bool" where
  "is_sha256 value \<longleftrightarrow>
     length value = 64 \<and> list_all is_lower_hex_byte value"

definition is_event_id :: "string \<Rightarrow> bool" where
  "is_event_id value = is_sha256 value"

text \<open>The test of \<open>validate_local_audio\<close> on the bytes read from the expected path.\<close>

definition local_audio_valid :: "third_party \<Rightarrow> local_audio_artifact \<Rightarrow> string \<Rightarrow> string \<Rightarrow> bool" where
  "local_audio_valid tp audio expected_path bytes \<longleftrightarrow>
     path_eq (la_path audio) expected_path
     \<and> la_byte_count audio > 0
     \<and> la_byte_count audio = of_nat (length bytes)
     \<and> starts_with (la_media_type audio) ''audio/''
     \<and> is_sha256 (la_sha256 audio)
     \<and> la_sha256 audio = tp_sha256_hex tp bytes"

lemma validate_request_id_iff [simp]: "validate_request_id value = Inr () \<longleftrightarrow> valid_request_id value"
  by (simp add: validate_request_id_def valid_request_id_def)

lemma is_published_iff: "is_published phase \<longleftrightarrow> phase_event_id phase \<noteq> None"
  by (simp add: is_published_def phase_event_id_def split: job_phase.split)

end
