(* ===== verification/Journal.thy ===== *)
theory Journal
  imports Jobs
begin

text \<open>
  The durable job journal (\<open>daemon/src/journal.rs\<close>). \<open>FileJobJournal\<close> keeps one JSON file per request
  id; a record is first written to a staged file and then hard-linked (insert) or renamed (save) into
  place. The trait \<open>JobJournal\<close> is the locale \<open>job_journal\<close>, interpreted on the file journal.
\<close>

datatype insert_outcome = Inserted | AlreadyExists

record file_job_journal =
  fj_root :: string
  fj_pid :: nat

record journal_store =
  js_fs :: file_system
  js_temp_id :: u64

text \<open>\<open>serde_json\<close> on job records.\<close>

record job_codec =
  jc_encode :: "job_record \<Rightarrow> string option"
  jc_decode :: "string \<Rightarrow> job_record option"

type_synonym 'a journal_action = "(journal_store, journal_error, 'a) action"

definition on_fs :: "'a io \<Rightarrow> 'a journal_action" where
  "on_fs m = with_error JournalIo (on_part js_fs (\<lambda>fs st. st\<lparr>js_fs := fs\<rparr>) m)"

definition journal_open :: "string \<Rightarrow> nat \<Rightarrow> file_job_journal journal_action" where
  "journal_open root pid =
     and_then (on_fs (fs_create_dir_all root)) (\<lambda>_. ok \<lparr>fj_root = root, fj_pid = pid\<rparr>)"

definition record_path :: "file_job_journal \<Rightarrow> string \<Rightarrow> journal_error + string" where
  "record_path j request_id =
     (if \<not> valid_request_id request_id then Inl (InvalidId request_id)
      else Inr (path_join (fj_root j) (request_id @ ''.json'')))"

definition staged_name :: "file_job_journal \<Rightarrow> string \<Rightarrow> u64 \<Rightarrow> string" where
  "staged_name j request_id temp =
     path_join (fj_root j)
       (''.'' @ request_id @ ''.'' @ nat_to_string (fj_pid j) @ ''.'' @ u64_to_string temp @ ''.tmp'')"

text \<open>\<open>TEMP_ID.fetch_add(1, Relaxed)\<close> returns the old value and wraps around.\<close>

definition staged_path :: "file_job_journal \<Rightarrow> string \<Rightarrow> string journal_action" where
  "staged_path j request_id st =
     (Inr (staged_name j request_id (js_temp_id st)), st\<lparr>js_temp_id := js_temp_id st + 1\<rparr>)"

definition write_staged :: "job_codec \<Rightarrow> file_job_journal \<Rightarrow> job_record \<Rightarrow> string journal_action" where
  "write_staged codec j job =
     and_then (staged_path j (job_id job)) (\<lambda>path.
     and_then (of_result (ok_or (Corrupt (job_id job)) (jc_encode codec job))) (\<lambda>bytes.
     and_then (on_fs (fs_create_new path)) (\<lambda>_.
     and_then (on_fs (fs_write_all path bytes)) (\<lambda>_.
     and_then (on_fs (fs_write_all path [CHR 0x0A])) (\<lambda>_.
     and_then (on_fs fs_sync_all) (\<lambda>_. ok path))))))"

definition sync_root :: "file_job_journal \<Rightarrow> unit journal_action" where
  "sync_root j = and_then (on_fs (fs_open_dir (fj_root j))) (\<lambda>_. on_fs fs_sync_all)"

definition remove_staged :: "string \<Rightarrow> unit journal_action" where
  "remove_staged path st =
     (case fs_remove_file path (js_fs st) of
        (Inr _, fs) \<Rightarrow> (Inr (), st\<lparr>js_fs := fs\<rparr>)
      | (Inl IoNotFound, fs) \<Rightarrow> (Inr (), st\<lparr>js_fs := fs\<rparr>)
      | (Inl error, fs) \<Rightarrow> (Inl (JournalIo error), st\<lparr>js_fs := fs\<rparr>))"

definition journal_load :: "job_codec \<Rightarrow> file_job_journal \<Rightarrow> string \<Rightarrow> job_record option journal_action" where
  "journal_load codec j request_id =
     and_then (of_result (record_path j request_id)) (\<lambda>path st.
       (case fs_read path (js_fs st) of
          (Inr bytes, fs) \<Rightarrow>
            (case jc_decode codec bytes of
               Some job \<Rightarrow> (Inr (Some job), st\<lparr>js_fs := fs\<rparr>)
             | None \<Rightarrow> (Inl (Corrupt request_id), st\<lparr>js_fs := fs\<rparr>))
        | (Inl IoNotFound, fs) \<Rightarrow> (Inr None, st\<lparr>js_fs := fs\<rparr>)
        | (Inl error, fs) \<Rightarrow> (Inl (JournalIo error), st\<lparr>js_fs := fs\<rparr>)))"

definition link_record :: "file_job_journal \<Rightarrow> string \<Rightarrow> string \<Rightarrow> insert_outcome journal_action" where
  "link_record j staged dest st =
     (case fs_hard_link staged dest (js_fs st) of
        (Inr _, fs) \<Rightarrow> and_then (sync_root j) (\<lambda>_. ok Inserted) (st\<lparr>js_fs := fs\<rparr>)
      | (Inl IoAlreadyExists, fs) \<Rightarrow> (Inr AlreadyExists, st\<lparr>js_fs := fs\<rparr>)
      | (Inl error, fs) \<Rightarrow> (Inl (JournalIo error), st\<lparr>js_fs := fs\<rparr>))"

definition journal_insert :: "job_codec \<Rightarrow> file_job_journal \<Rightarrow> job_record \<Rightarrow> insert_outcome journal_action" where
  "journal_insert codec j job =
     and_then (write_staged codec j job) (\<lambda>staged.
     and_then (of_result (record_path j (job_id job))) (\<lambda>dest.
     and_then (link_record j staged dest) (\<lambda>result.
     and_then (remove_staged staged) (\<lambda>_. ok result))))"

definition journal_save :: "job_codec \<Rightarrow> file_job_journal \<Rightarrow> job_record \<Rightarrow> unit journal_action" where
  "journal_save codec j job =
     and_then (write_staged codec j job) (\<lambda>staged.
     and_then (of_result (record_path j (job_id job))) (\<lambda>dest.
     and_then (on_fs (fs_rename staged dest)) (\<lambda>_. sync_root j)))"

section \<open>The contract of a job journal\<close>

text \<open>
  What the runner relies on: \<open>jobs\<close> is the durable map from request ids to records. A load reports it, an
  insert never replaces a record, and after any failure an operation either had no effect on the map
  or its full effect.
\<close>

locale job_journal =
  fixes load :: "string \<Rightarrow> ('s, journal_error, job_record option) action"
    and insert :: "job_record \<Rightarrow> ('s, journal_error, insert_outcome) action"
    and save :: "job_record \<Rightarrow> ('s, journal_error, unit) action"
    and jobs :: "'s \<Rightarrow> string \<Rightarrow> job_record option"
    and sound :: "'s \<Rightarrow> bool"
  assumes jobs_keyed: "sound s \<Longrightarrow> jobs s i = Some job \<Longrightarrow> job_id job = i"
    and load_keeps: "sound s \<Longrightarrow> load i s = (lr, s') \<Longrightarrow> sound s' \<and> jobs s' = jobs s"
    and load_reads: "sound s \<Longrightarrow> load i s = (Inr found, s') \<Longrightarrow> found = jobs s i"
    and insert_sound: "sound s \<Longrightarrow> insert job s = (ir, s') \<Longrightarrow> sound s'"
    and insert_new: "sound s \<Longrightarrow> insert job s = (Inr Inserted, s') \<Longrightarrow>
      jobs s (job_id job) = None \<and> jobs s' = (jobs s)(job_id job \<mapsto> job)"
    and insert_taken: "sound s \<Longrightarrow> insert job s = (Inr AlreadyExists, s') \<Longrightarrow>
      jobs s (job_id job) \<noteq> None \<and> jobs s' = jobs s"
    and insert_failed: "sound s \<Longrightarrow> insert job s = (Inl e, s') \<Longrightarrow>
      jobs s' = jobs s \<or> (jobs s (job_id job) = None \<and> jobs s' = (jobs s)(job_id job \<mapsto> job))"
    and save_sound: "sound s \<Longrightarrow> save job s = (sr, s') \<Longrightarrow> sound s'"
    and save_done: "sound s \<Longrightarrow> save job s = (Inr (), s') \<Longrightarrow> jobs s' = (jobs s)(job_id job \<mapsto> job)"
    and save_failed: "sound s \<Longrightarrow> save job s = (Inl e, s') \<Longrightarrow>
      jobs s' = jobs s \<or> jobs s' = (jobs s)(job_id job \<mapsto> job)"
begin

lemma insert_never_replaces:
  assumes "sound s" and "insert job s = (r, s')" and "jobs s i = Some old"
  shows "jobs s' i = Some old"
proof (cases r)
  case (Inl e)
  then show ?thesis using insert_failed [OF assms(1)] assms(2,3) by fastforce
next
  case (Inr out)
  then show ?thesis
    using insert_new [OF assms(1)] insert_taken [OF assms(1)] assms(2,3) by (cases out) fastforce+
qed

lemma save_effect:
  assumes "sound s" and "save job s = (r, s')"
  shows "jobs s' = jobs s \<or> jobs s' = (jobs s)(job_id job \<mapsto> job)"
  using save_done [OF assms(1)] save_failed [OF assms(1)] assms(2) by (cases r) auto

end

section \<open>The file journal keeps the contract\<close>

definition codec_round_trip :: "job_codec \<Rightarrow> bool" where
  "codec_round_trip codec \<longleftrightarrow>
     (\<forall>job. \<exists>bytes. jc_encode codec job = Some bytes \<and> jc_decode codec (bytes @ [CHR 0x0A]) = Some job)"

definition record_file :: "file_job_journal \<Rightarrow> string \<Rightarrow> string" where
  "record_file j request_id = path_join (fj_root j) (request_id @ ''.json'')"

definition stored_jobs :: "job_codec \<Rightarrow> file_job_journal \<Rightarrow> journal_store \<Rightarrow> string \<Rightarrow> job_record option" where
  "stored_jobs codec j st request_id =
     (if valid_request_id request_id
      then Option.bind (fs_files (js_fs st) (record_file j request_id)) (jc_decode codec)
      else None)"

definition store_sound :: "job_codec \<Rightarrow> file_job_journal \<Rightarrow> journal_store \<Rightarrow> bool" where
  "store_sound codec j st \<longleftrightarrow>
     (\<forall>i bytes. valid_request_id i \<longrightarrow> fs_files (js_fs st) (record_file j i) = Some bytes \<longrightarrow>
        (\<exists>job. jc_decode codec bytes = Some job \<and> job_id job = i))"

definition path_prefix :: "string \<Rightarrow> string" where
  "path_prefix base =
     (if base = [] \<or> last base = CHR ''/'' then base else base @ ''/'')"

lemma path_join_prefix: "\<not> starts_with rest ''/'' \<Longrightarrow> path_join base rest = path_prefix base @ rest"
  by (simp add: path_join_def path_prefix_def)

lemma valid_request_id_head: "valid_request_id i \<Longrightarrow> \<not> starts_with (i @ rest) ''/''"
  by (cases i) (auto simp: valid_request_id_def starts_with_iff is_request_char_def
      is_ascii_alphanumeric_def is_ascii_digit_def)

lemma record_file_prefix: "valid_request_id i \<Longrightarrow> record_file j i = path_prefix (fj_root j) @ i @ ''.json''"
  by (simp add: record_file_def path_join_prefix valid_request_id_head)

lemma staged_name_prefix:
  "\<exists>rest. staged_name j i t = path_prefix (fj_root j) @ rest @ ''.tmp''"
  by (simp add: staged_name_def path_join_prefix starts_with_iff)

lemma staged_not_record: "valid_request_id i \<Longrightarrow> staged_name j k t \<noteq> record_file j i"
proof -
  assume i: "valid_request_id i"
  obtain rest where s: "staged_name j k t = path_prefix (fj_root j) @ rest @ ''.tmp''"
    using staged_name_prefix by blast
  have "last (staged_name j k t) = CHR ''p''" "last (record_file j i) = CHR ''n''"
    by (simp_all add: s record_file_prefix [OF i])
  then show ?thesis by auto
qed

lemma record_file_inj:
  "valid_request_id i \<Longrightarrow> valid_request_id k \<Longrightarrow> record_file j i = record_file j k \<Longrightarrow> i = k"
  by (simp add: record_file_prefix)

lemma record_path_eq:
  "record_path j i = (if valid_request_id i then Inr (record_file j i) else Inl (InvalidId i))"
  by (simp add: record_path_def record_file_def)

lemma on_fs_eq:
  "on_fs m st = (case m (js_fs st) of (r, fs) \<Rightarrow> (map_err JournalIo r, st\<lparr>js_fs := fs\<rparr>))"
  by (simp add: on_fs_def with_error_def on_part_def split: prod.split)

lemma on_fs_cases:
  assumes "on_fs m st = (r, st')"
  obtains (Error) e fs where "m (js_fs st) = (Inl e, fs)" "r = Inl (JournalIo e)" "st' = st\<lparr>js_fs := fs\<rparr>"
    | (Ok) x fs where "m (js_fs st) = (Inr x, fs)" "r = Inr x" "st' = st\<lparr>js_fs := fs\<rparr>"
  using assms by (cases "m (js_fs st)"; cases "fst (m (js_fs st))") (auto simp: on_fs_eq)

abbreviation files :: "journal_store \<Rightarrow> string \<Rightarrow> string option" where
  "files st \<equiv> fs_files (js_fs st)"

text \<open>Staging touches the staged path only, and a staged file holds the whole record.\<close>

definition only_at :: "string \<Rightarrow> journal_store \<Rightarrow> journal_store \<Rightarrow> bool" where
  "only_at path st st' \<longleftrightarrow> (\<forall>q. q \<noteq> path \<longrightarrow> files st' q = files st q)"

lemma only_at_refl [simp]: "only_at path st st"
  by (simp add: only_at_def)

lemma only_at_trans: "only_at path s t \<Longrightarrow> only_at path t u \<Longrightarrow> only_at path s u"
  by (simp add: only_at_def)

lemma on_fs_only_at:
  assumes "on_fs m st = (r, st')"
    and "\<And>r0 fs q. m (js_fs st) = (r0, fs) \<Longrightarrow> q \<noteq> path \<Longrightarrow> fs_files fs q = files st q"
  shows "only_at path st st'"
  using assms(1) by (rule on_fs_cases) (auto simp: only_at_def assms(2))

lemma yields_on_fs:
  assumes "\<And>fs r fs'. m fs = (r, fs') \<Longrightarrow> P st \<Longrightarrow> js_fs st = fs \<Longrightarrow> Q (map_err JournalIo r) (st\<lparr>js_fs := fs'\<rparr>)"
  shows "yields (\<lambda>s. s = st \<and> P s) (on_fs m) Q"
  using assms by (auto simp: yields_def on_fs_eq split: prod.splits)

text \<open>The staged file while it is written: everything else is as in the initial store.\<close>

definition staging :: "journal_store \<Rightarrow> string \<Rightarrow> string option \<Rightarrow> journal_store \<Rightarrow> bool" where
  "staging st path content st' \<longleftrightarrow> only_at path st st' \<and> (content \<noteq> None \<longrightarrow> files st' path = content)"

lemma staging_steps:
  "yields (staging st path c) (on_fs (fs_create_new path))
     (case_sum (\<lambda>_. staging st path None) (\<lambda>_. staging st path (Some [])))"
  "yields (staging st path (Some c')) (on_fs (fs_write_all path bytes))
     (case_sum (\<lambda>_. staging st path None) (\<lambda>_. staging st path (Some (c' @ bytes))))"
  "yields (staging st path c) (on_fs fs_sync_all)
     (case_sum (\<lambda>_. staging st path None) (\<lambda>_. staging st path c))"
  by (auto simp: yields_def staging_def only_at_def file_other(1,2) file_untouched(2) file_bytes_def
      fs_write_all_Inr elim!: on_fs_cases dest: fs_create_new_Inr)

lemma write_staged_yields:
  "yields (\<lambda>s. s = st) (write_staged codec j job)
     (case_sum (\<lambda>_. staging st (staged_name j (job_id job) (js_temp_id st)) None)
        (\<lambda>path st'. path = staged_name j (job_id job) (js_temp_id st)
           \<and> (\<exists>bytes. jc_encode codec job = Some bytes
                \<and> staging st path (Some (bytes @ [CHR 0x0A])) st')))"
proof -
  let ?p = "staged_name j (job_id job) (js_temp_id st)"
  let ?Q = "case_sum (\<lambda>_. staging st ?p None) (\<lambda>path st'. path = ?p
      \<and> (\<exists>bytes. jc_encode codec job = Some bytes \<and> staging st path (Some (bytes @ [CHR 0x0A])) st'))"
  have body: "yields (staging st ?p None) (and_then (on_fs (fs_create_new ?p)) (\<lambda>_.
       and_then (on_fs (fs_write_all ?p bytes)) (\<lambda>_.
       and_then (on_fs (fs_write_all ?p [CHR 0x0A])) (\<lambda>_.
       and_then (on_fs fs_sync_all) (\<lambda>_. ok ?p))))) ?Q"
    if "jc_encode codec job = Some bytes" for bytes
  proof (intro yields_and_then yields_of_result)
    show "yields (staging st ?p None) (on_fs (fs_create_new ?p))
        (case_sum (\<lambda>e. ?Q (Inl e)) (\<lambda>_. staging st ?p (Some [])))"
      using staging_steps(1) by simp
    show "yields (staging st ?p (Some [])) (on_fs (fs_write_all ?p bytes))
        (case_sum (\<lambda>e. ?Q (Inl e)) (\<lambda>_. staging st ?p (Some bytes)))"
      using staging_steps(2) [of st ?p "[]" bytes] by simp
    show "yields (staging st ?p (Some bytes)) (on_fs (fs_write_all ?p [CHR 0x0A]))
        (case_sum (\<lambda>e. ?Q (Inl e)) (\<lambda>_. staging st ?p (Some (bytes @ [CHR 0x0A]))))"
      using staging_steps(2) [of st ?p bytes "[CHR 0x0A]"] by simp
    show "yields (staging st ?p (Some (bytes @ [CHR 0x0A]))) (on_fs fs_sync_all)
        (case_sum (\<lambda>e. ?Q (Inl e)) (\<lambda>_. staging st ?p (Some (bytes @ [CHR 0x0A]))))"
      using staging_steps(3) by simp
  qed (use that in simp)
  show ?thesis
    unfolding write_staged_def
  proof (rule yields_and_then)
    show "yields (\<lambda>s. s = st) (staged_path j (job_id job))
        (case_sum (\<lambda>e. ?Q (Inl e)) (\<lambda>path s. path = ?p \<and> staging st ?p None s))"
      by (auto simp: yields_def staged_path_def staging_def only_at_def)
    fix path
    show "yields (\<lambda>s. path = ?p \<and> staging st ?p None s)
        (and_then (of_result (ok_or (Corrupt (job_id job)) (jc_encode codec job))) (\<lambda>bytes.
           and_then (on_fs (fs_create_new path)) (\<lambda>_.
           and_then (on_fs (fs_write_all path bytes)) (\<lambda>_.
           and_then (on_fs (fs_write_all path [CHR 0x0A])) (\<lambda>_.
           and_then (on_fs fs_sync_all) (\<lambda>_. ok path)))))) ?Q"
    proof (rule yields_and_then)
      show "yields (\<lambda>s. path = ?p \<and> staging st ?p None s)
          (of_result (ok_or (Corrupt (job_id job)) (jc_encode codec job)))
          (case_sum (\<lambda>e. ?Q (Inl e))
             (\<lambda>bytes s. (path = ?p \<and> jc_encode codec job = Some bytes) \<and> staging st ?p None s))"
        by (rule yields_of_result) (simp add: ok_or_def split: option.split)
      fix bytes
      show "yields (\<lambda>s. (path = ?p \<and> jc_encode codec job = Some bytes) \<and> staging st ?p None s)
          (and_then (on_fs (fs_create_new path)) (\<lambda>_.
           and_then (on_fs (fs_write_all path bytes)) (\<lambda>_.
           and_then (on_fs (fs_write_all path [CHR 0x0A])) (\<lambda>_.
           and_then (on_fs fs_sync_all) (\<lambda>_. ok path))))) ?Q"
        using body [of bytes]
        by (cases "path = ?p \<and> jc_encode codec job = Some bytes") (auto simp: yields_def)
    qed
  qed
qed

text \<open>
  The visible effect of an operation: the record files are those of the initial store, except that the
  record of \<open>job\<close> may have been written completely.
\<close>

definition records_kept :: "file_job_journal \<Rightarrow> journal_store \<Rightarrow> journal_store \<Rightarrow> bool" where
  "records_kept j st st' \<longleftrightarrow>
     (\<forall>i. valid_request_id i \<longrightarrow> files st' (record_file j i) = files st (record_file j i))"

definition record_written ::
  "job_codec \<Rightarrow> file_job_journal \<Rightarrow> job_record \<Rightarrow> journal_store \<Rightarrow> journal_store \<Rightarrow> bool" where
  "record_written codec j job st st' \<longleftrightarrow>
     valid_request_id (job_id job)
     \<and> (\<exists>bytes. jc_encode codec job = Some bytes
          \<and> files st' (record_file j (job_id job)) = Some (bytes @ [CHR 0x0A]))
     \<and> (\<forall>i. valid_request_id i \<longrightarrow> i \<noteq> job_id job \<longrightarrow> files st' (record_file j i) = files st (record_file j i))"

lemma staging_records_kept: "staging st (staged_name j k t) c st' \<Longrightarrow> records_kept j st st'"
  using staged_not_record [of _ j k t] unfolding staging_def only_at_def records_kept_def by metis

lemma remove_staged_files:
  "remove_staged path st = (r, st') \<Longrightarrow> q \<noteq> path \<Longrightarrow> files st' q = files st q"
  by (auto simp: remove_staged_def file_other(3) split: prod.splits sum.splits io_error.splits)

lemma sync_root_files: "sync_root j st = (r, st') \<Longrightarrow> js_fs st' = js_fs st \<or> fs_files (js_fs st') = files st"
  by (auto simp: sync_root_def file_untouched elim!: and_then_cases on_fs_cases)

lemma link_record_effect:
  assumes "link_record j staged dest st = (r, st')" and "files st staged = Some content" and "staged \<noteq> dest"
  shows "(\<exists>e. r = Inl e \<and> (fs_files (js_fs st') = files st
        \<or> (files st dest = None \<and> fs_files (js_fs st') = (files st)(dest \<mapsto> content))))
    \<or> (r = Inr AlreadyExists \<and> files st dest \<noteq> None \<and> fs_files (js_fs st') = files st)
    \<or> (r = Inr Inserted \<and> files st dest = None \<and> fs_files (js_fs st') = (files st)(dest \<mapsto> content))"
proof (cases "fs_hard_link staged dest (js_fs st)")
  case (Pair h fs)
  show ?thesis
  proof (cases h)
    case (Inl e)
    then show ?thesis
      using assms(1) Pair fs_hard_link_Inl [of staged dest "js_fs st" e fs]
      by (cases e) (auto simp: link_record_def)
  next
    case (Inr u)
    have fs: "files st dest = None" "fs_files fs = (files st)(dest \<mapsto> content)"
      using fs_hard_link_Inr [of staged dest "js_fs st" u fs] Pair Inr assms(2) by auto
    have "and_then (sync_root j) (\<lambda>_. ok Inserted) (st\<lparr>js_fs := fs\<rparr>) = (r, st')"
      using assms(1) Pair Inr by (simp add: link_record_def)
    then show ?thesis
      using fs by (auto elim!: and_then_cases dest!: sync_root_files)
  qed
qed

lemma journal_save_effect:
  assumes "journal_save codec j job st = (r, st')"
  shows "records_kept j st st' \<or> record_written codec j job st st'"
    and "r = Inr () \<Longrightarrow> record_written codec j job st st'"
proof -
  have "(records_kept j st st' \<or> record_written codec j job st st')
      \<and> (r = Inr () \<longrightarrow> record_written codec j job st st')"
    using assms unfolding journal_save_def
  proof (cases rule: and_then_cases)
    case (Error e)
    then show ?thesis
      using yieldsD [OF write_staged_yields refl Error(1)] staging_records_kept by fastforce
  next
    case (Ok staged st1)
    obtain bytes where st1: "staged = staged_name j (job_id job) (js_temp_id st)"
      "jc_encode codec job = Some bytes" "staging st staged (Some (bytes @ [CHR 0x0A])) st1"
      using yieldsD [OF write_staged_yields refl Ok(1)] by auto
    have kept: "records_kept j st st1" using st1(1,3) staging_records_kept by blast
    show ?thesis
    proof (cases "valid_request_id (job_id job)")
      case False
      then show ?thesis
        using Ok(2) kept by (auto simp: record_path_eq elim!: and_then_cases)
    next
      case True
      let ?d = "record_file j (job_id job)"
      have rest: "and_then (on_fs (fs_rename staged ?d)) (\<lambda>_. sync_root j) st1 = (r, st')"
        using Ok(2) True by (simp add: record_path_eq and_then_def of_result_def)
      then show ?thesis
      proof (cases rule: and_then_cases)
        case (Error e)
        then have "fs_files (js_fs st') = files st1"
          by (auto elim!: on_fs_cases dest: fs_rename_Inl)
        then show ?thesis using kept Error(2) by (simp add: records_kept_def)
      next
        case (Ok u st2)
        have "fs_files (js_fs st') = fs_files (js_fs st2)" using sync_root_files [OF Ok(2)] by auto
        moreover have "fs_files (js_fs st2) = ((files st1)(staged := None))(?d := files st1 staged)"
          using Ok(1) by (auto elim!: on_fs_cases dest: fs_rename_Inr)
        moreover have "files st1 staged = Some (bytes @ [CHR 0x0A])" using st1(3) by (simp add: staging_def)
        ultimately have "record_written codec j job st st'"
          using True st1(1,2) kept staged_not_record [of _ j "job_id job" "js_temp_id st"]
            record_file_inj [of _ "job_id job" j]
          by (fastforce simp: record_written_def records_kept_def)
        then show ?thesis by simp
      qed
    qed
  qed
  then show "records_kept j st st' \<or> record_written codec j job st st'"
    and "r = Inr () \<Longrightarrow> record_written codec j job st st'" by auto
qed

lemma journal_insert_effect:
  assumes "journal_insert codec j job st = (r, st')"
  defines "taken \<equiv> files st (record_file j (job_id job)) \<noteq> None"
  shows "(records_kept j st st' \<or> (record_written codec j job st st' \<and> \<not> taken))
    \<and> (r = Inr Inserted \<longrightarrow> record_written codec j job st st' \<and> \<not> taken)
    \<and> (r = Inr AlreadyExists \<longrightarrow> records_kept j st st' \<and> taken \<and> valid_request_id (job_id job))"
  using assms(1) unfolding journal_insert_def
proof (cases rule: and_then_cases)
  case (Error e)
  then show ?thesis
    using yieldsD [OF write_staged_yields refl Error(1)] staging_records_kept by fastforce
next
  case (Ok staged st1)
  obtain bytes where st1: "staged = staged_name j (job_id job) (js_temp_id st)"
    "jc_encode codec job = Some bytes" "staging st staged (Some (bytes @ [CHR 0x0A])) st1"
    using yieldsD [OF write_staged_yields refl Ok(1)] by auto
  have kept: "records_kept j st st1" using st1(1,3) staging_records_kept by blast
  show ?thesis
  proof (cases "valid_request_id (job_id job)")
    case False
    then show ?thesis
      using Ok(2) kept by (auto simp: record_path_eq elim!: and_then_cases)
  next
    case True
    let ?d = "record_file j (job_id job)"
    have staged: "files st1 staged = Some (bytes @ [CHR 0x0A])" using st1(3) by (simp add: staging_def)
    have away: "valid_request_id i \<Longrightarrow> staged \<noteq> record_file j i" for i
      using staged_not_record st1(1) by metis
    have written: "record_written codec j job st s"
      if "\<And>q. q \<noteq> staged \<Longrightarrow> files s q = ((files st1)(?d \<mapsto> bytes @ [CHR 0x0A])) q" for s
    proof -
      have "files s ?d = Some (bytes @ [CHR 0x0A])" using that [of ?d] away [OF True] by simp
      moreover have "files s (record_file j i) = files st (record_file j i)"
        if i: "valid_request_id i" "i \<noteq> job_id job" for i
      proof -
        have "record_file j i \<noteq> ?d" using record_file_inj [OF i(1) True] i(2) by blast
        then show ?thesis
          using \<open>\<And>q. q \<noteq> staged \<Longrightarrow> files s q = ((files st1)(?d \<mapsto> bytes @ [CHR 0x0A])) q\<close>
            away [OF i(1)] kept i(1) by (simp add: records_kept_def)
      qed
      ultimately show ?thesis using True st1(2) by (simp add: record_written_def)
    qed
    have unchanged: "records_kept j st s"
      if "\<And>q. q \<noteq> staged \<Longrightarrow> files s q = files st1 q" for s
      using that kept away unfolding records_kept_def by metis
    have "taken \<longleftrightarrow> files st1 ?d \<noteq> None" using kept True by (simp add: taken_def records_kept_def)
    note facts = this written unchanged
    have rest: "and_then (link_record j staged ?d) (\<lambda>result.
        and_then (remove_staged staged) (\<lambda>_. ok result)) st1 = (r, st')"
      using Ok(2) True by (simp add: record_path_eq and_then_def of_result_def)
    then show ?thesis
    proof (cases rule: and_then_cases)
      case (Error e)
      from link_record_effect [OF Error(1) staged away [OF True]] show ?thesis
        using Error(2) facts(1) facts(2,3) [of st'] by auto
    next
      case (Ok out st2)
      have "\<And>q. q \<noteq> staged \<Longrightarrow> files st' q = files st2 q" and r: "r = Inr out \<or> (\<exists>e. r = Inl e)"
        using Ok(2) by (auto elim!: and_then_cases dest: remove_staged_files)
      with link_record_effect [OF Ok(1) staged away [OF True]] show ?thesis
        using facts(1) facts(2,3) [of st'] True by auto
    qed
  qed
qed

lemma record_written_jobs:
  assumes "codec_round_trip codec" and "record_written codec j job st st'"
  shows "stored_jobs codec j st' = (stored_jobs codec j st)(job_id job \<mapsto> job)"
proof -
  have "jc_decode codec (bytes @ [CHR 0x0A]) = Some job" if "jc_encode codec job = Some bytes" for bytes
    using assms(1) that by (auto simp: codec_round_trip_def dest: spec [of _ job])
  then show ?thesis
    using assms(2) by (auto simp: fun_eq_iff stored_jobs_def record_written_def)
qed

lemma record_written_sound:
  assumes "codec_round_trip codec" and "record_written codec j job st st'" and "store_sound codec j st"
  shows "store_sound codec j st'"
  unfolding store_sound_def
proof (intro allI impI)
  fix i bytes assume i: "valid_request_id i" "files st' (record_file j i) = Some bytes"
  show "\<exists>job. jc_decode codec bytes = Some job \<and> job_id job = i"
  proof (cases "i = job_id job")
    case True
    then show ?thesis
      using assms(1,2) i by (auto simp: record_written_def codec_round_trip_def dest: spec [of _ job])
  next
    case False
    then show ?thesis using assms(2,3) i by (auto simp: record_written_def store_sound_def)
  qed
qed

lemma records_kept_jobs: "records_kept j st st' \<Longrightarrow> stored_jobs codec j st' = stored_jobs codec j st"
  by (auto simp: fun_eq_iff stored_jobs_def records_kept_def)

lemma records_kept_sound: "records_kept j st st' \<Longrightarrow> store_sound codec j st \<Longrightarrow> store_sound codec j st'"
  by (auto simp: store_sound_def records_kept_def)

lemma stored_jobs_None:
  "store_sound codec j st \<Longrightarrow> valid_request_id i \<Longrightarrow>
   stored_jobs codec j st i = None \<longleftrightarrow> files st (record_file j i) = None"
  by (cases "files st (record_file j i)") (auto simp: stored_jobs_def store_sound_def)

lemma journal_load_effect:
  assumes "journal_load codec j i st = (r, st')"
  shows "fs_files (js_fs st') = files st"
    and "r = Inr found \<Longrightarrow> valid_request_id i \<and> found = Option.bind (files st (record_file j i)) (jc_decode codec)"
proof -
  obtain fr fs where fr: "fs_read (record_file j i) (js_fs st) = (fr, fs)" by (cases "fs_read (record_file j i) (js_fs st)")
  show "fs_files (js_fs st') = files st"
    using assms fr file_untouched(1) [OF fr]
    by (auto simp: journal_load_def record_path_eq and_then_def of_result_def
        split: if_splits sum.splits option.splits io_error.splits)
  show "r = Inr found \<Longrightarrow> valid_request_id i \<and> found = Option.bind (files st (record_file j i)) (jc_decode codec)"
    using assms fr fs_read_Inr [of "record_file j i" "js_fs st"] fs_read_Inl_NotFound [of "record_file j i" "js_fs st"]
    by (auto simp: journal_load_def record_path_eq and_then_def of_result_def
        split: if_splits sum.splits option.splits io_error.splits)
qed

lemma file_journal_contract:
  assumes codec: "codec_round_trip codec"
  shows "job_journal (journal_load codec j) (journal_insert codec j) (journal_save codec j)
    (stored_jobs codec j) (store_sound codec j)"
proof
  fix s s' i job and lr :: "journal_error + job_record option" and found e
    and ir :: "journal_error + insert_outcome" and sr :: "journal_error + unit"
  assume sound: "store_sound codec j s"
  show "job_id job = i" if "stored_jobs codec j s i = Some job"
    using that sound by (auto simp: stored_jobs_def store_sound_def split: if_splits Option.bind_splits)
  show "store_sound codec j s' \<and> stored_jobs codec j s' = stored_jobs codec j s"
    if "journal_load codec j i s = (lr, s')"
    using journal_load_effect(1) [OF that] sound
    by (auto simp: store_sound_def stored_jobs_def fun_eq_iff)
  show "found = stored_jobs codec j s i" if "journal_load codec j i s = (Inr found, s')"
    using journal_load_effect(2) [OF that refl] by (simp add: stored_jobs_def)
  show "store_sound codec j s'" if "journal_insert codec j job s = (ir, s')"
    using journal_insert_effect [OF that] records_kept_sound [OF _ sound]
      record_written_sound [OF codec _ sound] by blast
  show "stored_jobs codec j s (job_id job) = None
      \<and> stored_jobs codec j s' = (stored_jobs codec j s)(job_id job \<mapsto> job)"
    if "journal_insert codec j job s = (Inr Inserted, s')"
    using journal_insert_effect [OF that] record_written_jobs [OF codec] stored_jobs_None [OF sound]
    by (auto simp: record_written_def)
  show "stored_jobs codec j s (job_id job) \<noteq> None \<and> stored_jobs codec j s' = stored_jobs codec j s"
    if "journal_insert codec j job s = (Inr AlreadyExists, s')"
    using journal_insert_effect [OF that] records_kept_jobs stored_jobs_None [OF sound] by auto
  show "stored_jobs codec j s' = stored_jobs codec j s
      \<or> (stored_jobs codec j s (job_id job) = None
         \<and> stored_jobs codec j s' = (stored_jobs codec j s)(job_id job \<mapsto> job))"
    if "journal_insert codec j job s = (Inl e, s')"
    using journal_insert_effect [OF that] records_kept_jobs record_written_jobs [OF codec]
      stored_jobs_None [OF sound] by (auto simp: record_written_def)
  show "store_sound codec j s'" if "journal_save codec j job s = (sr, s')"
    using journal_save_effect(1) [OF that] records_kept_sound [OF _ sound]
      record_written_sound [OF codec _ sound] by blast
  show "stored_jobs codec j s' = (stored_jobs codec j s)(job_id job \<mapsto> job)"
    if "journal_save codec j job s = (Inr (), s')"
    using journal_save_effect(2) [OF that refl] record_written_jobs [OF codec] by blast
  show "stored_jobs codec j s' = stored_jobs codec j s
      \<or> stored_jobs codec j s' = (stored_jobs codec j s)(job_id job \<mapsto> job)"
    if "journal_save codec j job s = (Inl e, s')"
    using journal_save_effect(1) [OF that] record_written_jobs [OF codec] records_kept_jobs by blast
qed

end
