(* ===== verification/Journal_Laws.thy ===== *)
theory Journal_Laws
  imports Journal "HOL-Library.Countable"
begin

text \<open>
  Properties of the file journal, and a concrete serialisation of job records. The development only assumes of \<open>serde_json\<close> that decoding
  an encoded record (with the newline the journal appends) gives the record back; this theory shows
  that such a codec exists, by counting the records, so every statement with that hypothesis has a
  concrete instance.
\<close>

instance word :: (len) countable
  by (rule countable_classI [of unat]) (simp add: unsigned_word_eqI)

instance durable_artifact_ext :: (countable) countable
  by (rule countable_classI [of "\<lambda>r. to_nat (art_url r, art_sha256 r, art_media_type r, art_byte_count r, art_label r, durable_artifact.more r)"])
    (simp add: durable_artifact.equality)

instance question_option_ext :: (countable) countable
  by (rule countable_classI [of "\<lambda>r. to_nat (opt_id r, opt_title r, opt_description r, question_option.more r)"])
    (simp add: question_option.equality)

instance question_kind :: countable by countable_datatype

instance question_ext :: (countable) countable
  by (rule countable_classI [of "\<lambda>r. to_nat (q_id r, q_kind r, q_short_title r, q_title r, q_description r, q_options r, question.more r)"])
    (simp add: question.equality)

instance attach_link_rec_ext :: (countable) countable
  by (rule countable_classI [of "\<lambda>r. to_nat (al_parent_id r, attach_link_rec.more r)"])
    (simp add: attach_link_rec.equality)

instance frozen_spoken_item_ext :: (countable) countable
  by (rule countable_classI [of "\<lambda>r. to_nat (fz_author r, fz_created_at r, fz_group_id r, fz_agent_name r, fz_subject r, fz_summary r, fz_body r, fz_audio r, fz_attachments r, fz_questions r, fz_attach r, frozen_spoken_item.more r)"])
    (simp add: frozen_spoken_item.equality)

instance producer_request_ext :: (countable) countable
  by (rule countable_classI [of "\<lambda>r. to_nat (pr_request_id r, pr_group_id r, pr_voice r, pr_agent_name r, pr_subject r, pr_summary r, pr_body r, pr_attachments r, pr_questions r, pr_attach r, producer_request.more r)"])
    (simp add: producer_request.equality)

instance local_audio_artifact_ext :: (countable) countable
  by (rule countable_classI [of "\<lambda>r. to_nat (la_path r, la_sha256 r, la_media_type r, la_byte_count r, local_audio_artifact.more r)"])
    (simp add: local_audio_artifact.equality)

instance membership_evidence_ext :: (countable) countable
  by (rule countable_classI [of "\<lambda>r. to_nat (me_event_id r, me_receipt_id r, membership_evidence.more r)"])
    (simp add: membership_evidence.equality)

instance job_phase :: countable by countable_datatype

instance job_record_ext :: (countable) countable
  by (rule countable_classI [of "\<lambda>r. to_nat (jr_schema_version r, jr_request_digest r, jr_author r, jr_created_at r, jr_request r, jr_phase r, job_record.more r)"])
    (simp add: job_record.equality)

definition sample_codec :: job_codec where
  "sample_codec =
     \<lparr>jc_encode = (\<lambda>job. Some (replicate (to_nat job) (CHR ''1''))),
      jc_decode = (\<lambda>bytes. Some (from_nat (length bytes - 1)))\<rparr>"

lemma sample_codec_round_trip: "codec_round_trip sample_codec"
  by (simp add: codec_round_trip_def sample_codec_def)

definition sample_journal :: file_job_journal where
  "sample_journal = \<lparr>fj_root = ''/var/jobs'', fj_pid = 7\<rparr>"

text \<open>A store with one interrupted write ahead of it, and one without faults.\<close>

definition faulty_store :: journal_store where
  "faulty_store =
     \<lparr>js_fs = \<lparr>fs_files = Map.empty, fs_faults = [None, Some (''disk full'', 1)]\<rparr>, js_temp_id = 1\<rparr>"

definition quiet_store :: journal_store where
  "quiet_store = \<lparr>js_fs = \<lparr>fs_files = Map.empty, fs_faults = []\<rparr>, js_temp_id = 1\<rparr>"

lemma sample_stores_sound:
  "store_sound sample_codec sample_journal faulty_store"
  "store_sound sample_codec sample_journal quiet_store"
  by (simp_all add: store_sound_def faulty_store_def quiet_store_def)

interpretation counted: job_journal
  "journal_load sample_codec j" "journal_insert sample_codec j" "journal_save sample_codec j"
  "stored_jobs sample_codec j" "store_sound sample_codec j" for j
  by (rule file_journal_contract [OF sample_codec_round_trip])

definition sample_request :: producer_request where
  "sample_request =
     \<lparr>pr_request_id = ''req-1'', pr_group_id = ''tts'', pr_voice = ''af_heart'', pr_agent_name = ''Codex'',
      pr_subject = ''Build'', pr_summary = '''', pr_body = ''Done'', pr_attachments = [],
      pr_questions = [], pr_attach = None\<rparr>"

definition sample_job :: job_record where
  "sample_job =
     \<lparr>jr_schema_version = 1, jr_request_digest = replicate 64 (CHR ''d''), jr_author = replicate 64 (CHR ''1''),
      jr_created_at = 100, jr_request = sample_request, jr_phase = Admitted\<rparr>"

section \<open>Journal properties\<close>

text \<open>
  C7: saving a job record is atomic. Whatever faults the file system injects, short writes included,
  after a save the durable map either is unchanged or holds exactly the new record under its id, every
  other record is untouched, the store stays readable, and success means the record is there.
\<close>

theorem journal_save_atomic:
  assumes "codec_round_trip codec" and "store_sound codec j st"
    and "journal_save codec j job st = (r, st')"
  shows "store_sound codec j st'
    \<and> (stored_jobs codec j st' = stored_jobs codec j st
       \<or> stored_jobs codec j st' = (stored_jobs codec j st)(job_id job \<mapsto> job))
    \<and> (r = Inr () \<longrightarrow> stored_jobs codec j st' = (stored_jobs codec j st)(job_id job \<mapsto> job))"
proof -
  note contract = file_journal_contract [OF assms(1)]
  show ?thesis
    using job_journal.save_sound [OF contract assms(2,3)] job_journal.save_effect [OF contract assms(2,3)]
      job_journal.save_done [OF contract assms(2)] assms(3) by auto
qed

theorem journal_save_atomic_witness:
  "stored_jobs sample_codec sample_journal (snd (journal_save sample_codec sample_journal sample_job faulty_store))
     \<in> {stored_jobs sample_codec sample_journal faulty_store,
        (stored_jobs sample_codec sample_journal faulty_store)(''req-1'' \<mapsto> sample_job)}"
  using journal_save_atomic [OF sample_codec_round_trip sample_stores_sound(1), of sample_job
      "fst (journal_save sample_codec sample_journal sample_job faulty_store)"
      "snd (journal_save sample_codec sample_journal sample_job faulty_store)"]
  by (simp add: sample_job_def sample_request_def)

text \<open>
  Inserting a job record is exclusive. \<open>Inserted\<close> means the id was free and now holds the record,
  \<open>AlreadyExists\<close> means it was taken and nothing changed, and even a failing insert never replaces a
  record that was there.
\<close>

theorem journal_insert_exclusive:
  assumes "codec_round_trip codec" and "store_sound codec j st"
    and "journal_insert codec j job st = (r, st')"
  shows "(r = Inr Inserted \<longrightarrow> stored_jobs codec j st (job_id job) = None
        \<and> stored_jobs codec j st' = (stored_jobs codec j st)(job_id job \<mapsto> job))
    \<and> (r = Inr AlreadyExists \<longrightarrow> stored_jobs codec j st (job_id job) \<noteq> None
        \<and> stored_jobs codec j st' = stored_jobs codec j st)
    \<and> stored_jobs codec j st \<subseteq>\<^sub>m stored_jobs codec j st'"
proof -
  note contract = file_journal_contract [OF assms(1)]
  have "stored_jobs codec j st \<subseteq>\<^sub>m stored_jobs codec j st'"
    using job_journal.insert_never_replaces [OF contract assms(2,3)] by (auto simp: map_le_def)
  then show ?thesis
    using job_journal.insert_new [OF contract assms(2)] job_journal.insert_taken [OF contract assms(2)]
      assms(3) by blast
qed

theorem journal_insert_exclusive_witness:
  "stored_jobs sample_codec sample_journal quiet_store
     \<subseteq>\<^sub>m stored_jobs sample_codec sample_journal (snd (journal_insert sample_codec sample_journal sample_job quiet_store))"
  using journal_insert_exclusive [OF sample_codec_round_trip sample_stores_sound(2), of sample_job
      "fst (journal_insert sample_codec sample_journal sample_job quiet_store)"
      "snd (journal_insert sample_codec sample_journal sample_job quiet_store)"]
  by simp

end
