(* ===== verification/Runner.thy ===== *)
theory Runner
  imports Journal_Laws
begin

text \<open>
  The publication job runner (\<open>daemon/src/runner.rs\<close>, with the audio check of \<open>request.rs\<close>). The traits
  \<open>JobJournal\<close>, \<open>Synthesizer\<close>, \<open>ArtifactUploader\<close> and \<open>Publisher\<close> are the fields of \<open>producer_ops\<close>, actions
  on one world; \<open>admit\<close> and \<open>advance\<close> are generic in them as \<open>ProducerRunner<J, S, U, P>\<close> is.
\<close>

datatype authorization_step = Authorized string | Accepted u64

record 'w producer_ops =
  po_work_root :: string
  po_load :: "string \<Rightarrow> ('w, journal_error, job_record option) action"
  po_insert :: "job_record \<Rightarrow> ('w, journal_error, insert_outcome) action"
  po_save :: "job_record \<Rightarrow> ('w, journal_error, unit) action"
  po_create_dir_all :: "string \<Rightarrow> ('w, io_error, unit) action"
  po_read :: "string \<Rightarrow> ('w, io_error, string) action"
  po_synthesize :: "producer_request \<Rightarrow> string \<Rightarrow> ('w, string, local_audio_artifact) action"
  po_make_durable :: "local_audio_artifact \<Rightarrow> ('w, string, durable_artifact) action"
  po_authorize :: "string \<Rightarrow> string \<Rightarrow> u64 \<Rightarrow> ('w, string, authorization_step) action"
  po_resume_authorization :: "u64 \<Rightarrow> string \<Rightarrow> ('w, string, string) action"
  po_accept :: "frozen_spoken_item \<Rightarrow> ('w, string, u64) action"
  po_resume :: "u64 \<Rightarrow> frozen_spoken_item \<Rightarrow> ('w, string, string) action"

definition audio_path :: "'w producer_ops \<Rightarrow> string \<Rightarrow> string" where
  "audio_path ops request_id = path_join (path_join (po_work_root ops) request_id) ''speech.mp3''"

definition validate_local_audio ::
  "third_party \<Rightarrow> 'w producer_ops \<Rightarrow> local_audio_artifact \<Rightarrow> string \<Rightarrow> ('w, producer_error, unit) action" where
  "validate_local_audio tp ops audio expected_path =
     and_then (with_error (\<lambda>error. capability ''synthesis'' (io_error_text error)) (po_read ops expected_path))
       (\<lambda>bytes. if local_audio_valid tp audio expected_path bytes then ok ()
                else fail (InvalidRequest ''synthesized_audio''))"

definition admitted_job :: "producer_request \<Rightarrow> string \<Rightarrow> string \<Rightarrow> u64 \<Rightarrow> job_record" where
  "admitted_job request digest author created_at =
     \<lparr>jr_schema_version = 1, jr_request_digest = digest, jr_author = author,
      jr_created_at = created_at, jr_request = request, jr_phase = Admitted\<rparr>"

text \<open>The part of \<open>admit\<close> after the journal held no record, and \<open>admit\<close> itself.\<close>

definition admit_new ::
  "'w producer_ops \<Rightarrow> producer_request \<Rightarrow> string \<Rightarrow> string \<Rightarrow> u64
   \<Rightarrow> ('w, producer_error, job_record) action" where
  "admit_new ops request digest author created_at =
     (let job = admitted_job request digest author created_at in
      and_then (with_error JournalFailure (po_insert ops job)) (\<lambda>outcome.
        case outcome of
          Inserted \<Rightarrow> ok job
        | AlreadyExists \<Rightarrow>
            and_then (with_error JournalFailure (po_load ops (job_id job))) (\<lambda>found.
              case found of
                None \<Rightarrow> fail (JobNotFound (job_id job))
              | Some existing \<Rightarrow> of_result (same_request existing digest author))))"

definition admit ::
  "third_party \<Rightarrow> 'w producer_ops \<Rightarrow> producer_request \<Rightarrow> string \<Rightarrow> u64
   \<Rightarrow> ('w, producer_error, job_record) action" where
  "admit tp ops request author created_at =
     and_then (of_result (validate_request_id (pr_request_id request))) (\<lambda>_.
     and_then (of_result (request_digest tp request)) (\<lambda>digest.
     and_then (with_error JournalFailure (po_load ops (pr_request_id request))) (\<lambda>found.
       case found of
         Some existing \<Rightarrow> of_result (same_request existing digest author)
       | None \<Rightarrow> admit_new ops request digest author created_at)))"

text \<open>The arms of the match in \<open>advance\<close>, one per phase.\<close>

definition advance_admitted ::
  "third_party \<Rightarrow> 'w producer_ops \<Rightarrow> string \<Rightarrow> job_record \<Rightarrow> ('w, producer_error, job_phase) action" where
  "advance_admitted tp ops request_id job =
     and_then (with_error (JournalFailure \<circ> JournalIo)
                 (po_create_dir_all ops (path_join (po_work_root ops) request_id))) (\<lambda>_.
     and_then (with_error (capability ''synthesis'')
                 (po_synthesize ops (jr_request job) (audio_path ops request_id))) (\<lambda>audio.
     and_then (validate_local_audio tp ops audio (audio_path ops request_id)) (\<lambda>_.
       ok (Synthesized audio))))"

definition advance_synthesized ::
  "third_party \<Rightarrow> 'w producer_ops \<Rightarrow> job_record \<Rightarrow> local_audio_artifact
   \<Rightarrow> ('w, producer_error, job_phase) action" where
  "advance_synthesized tp ops job audio =
     and_then (with_error (capability ''artifact_upload'') (po_make_durable ops audio)) (\<lambda>durable.
       if art_sha256 durable \<noteq> la_sha256 audio \<or> art_byte_count durable \<noteq> la_byte_count audio
          \<or> art_media_type durable \<noteq> la_media_type audio
       then fail (capability ''artifact_upload'' ''durable metadata does not match synthesized bytes'')
       else
         (let item = frozen_item job durable in
          and_then (of_result (map_err (\<lambda>error. capability ''contract_freeze'' (compose_error_text error))
                      (validate_spoken_item (tp_parse_key tp) item)))
            (\<lambda>_. ok (ArtifactsDurable item))))"

definition advance_durable ::
  "'w producer_ops \<Rightarrow> string \<Rightarrow> job_record \<Rightarrow> frozen_spoken_item \<Rightarrow> ('w, producer_error, job_phase) action" where
  "advance_durable ops request_id job item =
     and_then (with_error (capability ''membership_authorization'')
                 (po_authorize ops request_id (fz_author item) (jr_created_at job))) (\<lambda>step.
       case step of
         Authorized event_id \<Rightarrow>
           if \<not> is_event_id event_id
           then fail (capability ''membership_authorization''
                        ''publisher returned an invalid membership event id'')
           else ok (AuthorAuthorized item \<lparr>me_event_id = event_id, me_receipt_id = None\<rparr>)
       | Accepted receipt_id \<Rightarrow> ok (AuthorizationAccepted item receipt_id))"

definition advance_authorization ::
  "'w producer_ops \<Rightarrow> frozen_spoken_item \<Rightarrow> u64 \<Rightarrow> ('w, producer_error, job_phase) action" where
  "advance_authorization ops item receipt_id =
     and_then (with_error (capability ''membership_receipt'')
                 (po_resume_authorization ops receipt_id (fz_author item))) (\<lambda>event_id.
       if \<not> is_event_id event_id
       then fail (capability ''membership_receipt'' ''publisher returned an invalid membership event id'')
       else ok (AuthorAuthorized item \<lparr>me_event_id = event_id, me_receipt_id = Some receipt_id\<rparr>))"

definition advance_authorized ::
  "'w producer_ops \<Rightarrow> frozen_spoken_item \<Rightarrow> membership_evidence \<Rightarrow> ('w, producer_error, job_phase) action" where
  "advance_authorized ops item membership =
     and_then (with_error (capability ''publication_acceptance'') (po_accept ops item)) (\<lambda>receipt_id.
       ok (PublicationAccepted item (Some membership) receipt_id))"

definition advance_publication ::
  "'w producer_ops \<Rightarrow> frozen_spoken_item \<Rightarrow> membership_evidence option \<Rightarrow> u64
   \<Rightarrow> ('w, producer_error, job_phase) action" where
  "advance_publication ops item membership receipt_id =
     and_then (with_error (capability ''publication_receipt'') (po_resume ops receipt_id item)) (\<lambda>event_id.
       if \<not> is_event_id event_id
       then fail (capability ''publication_receipt'' ''publisher returned an invalid event id'')
       else ok (Published item membership receipt_id event_id))"

definition next_phase ::
  "third_party \<Rightarrow> 'w producer_ops \<Rightarrow> string \<Rightarrow> job_record \<Rightarrow> ('w, producer_error, job_phase) action" where
  "next_phase tp ops request_id job =
     (case jr_phase job of
        Admitted \<Rightarrow> advance_admitted tp ops request_id job
      | Synthesized audio \<Rightarrow> advance_synthesized tp ops job audio
      | ArtifactsDurable item \<Rightarrow> advance_durable ops request_id job item
      | AuthorizationAccepted item receipt_id \<Rightarrow> advance_authorization ops item receipt_id
      | AuthorAuthorized item membership \<Rightarrow> advance_authorized ops item membership
      | PublicationAccepted item membership receipt_id \<Rightarrow>
          advance_publication ops item membership receipt_id
      | Published item membership receipt_id event_id \<Rightarrow>
          ok (Published item membership receipt_id event_id))"

text \<open>The part of \<open>advance\<close> after the job was found, and \<open>advance\<close> itself.\<close>

definition advance_found ::
  "third_party \<Rightarrow> 'w producer_ops \<Rightarrow> string \<Rightarrow> job_record \<Rightarrow> ('w, producer_error, job_record) action" where
  "advance_found tp ops request_id job =
     (if is_published (jr_phase job) then ok job
      else
        and_then (next_phase tp ops request_id job) (\<lambda>phase.
          (let job = job\<lparr>jr_phase := phase\<rparr> in
           and_then (with_error JournalFailure (po_save ops job)) (\<lambda>_. ok job))))"

definition advance ::
  "third_party \<Rightarrow> 'w producer_ops \<Rightarrow> string \<Rightarrow> ('w, producer_error, job_record) action" where
  "advance tp ops request_id =
     and_then (of_result (validate_request_id request_id)) (\<lambda>_.
     and_then (with_error JournalFailure (po_load ops request_id)) (\<lambda>found.
       case found of
         None \<Rightarrow> fail (JobNotFound request_id)
       | Some job \<Rightarrow> advance_found tp ops request_id job))"

end
