(* ===== verification/Relay_Groups.thy ===== *)
theory Relay_Groups
  imports Tags
begin

text \<open>
  Group membership and administration on the wire (\<open>protocol/src/membership.rs\<close> and
  \<open>protocol/src/group_admin.rs\<close>): what the daemon asks the relay for, which group state events count,
  and the management events it composes.
\<close>

text \<open>An NMP demand: kinds, one indexed tag with its values, the pinned hosts, strict caching.\<close>

record demand =
  dm_kinds :: "u16 set"
  dm_tag :: "string \<times> string set"
  dm_hosts :: "relay_url set"
  dm_strict :: bool

definition MEMBER_STATE_KINDS :: "u16 list" where
  "MEMBER_STATE_KINDS = [39001, 39002]"

definition PUT_USER_KIND :: u16 where "PUT_USER_KIND = 9000"
definition GROUP_METADATA_KIND :: u16 where "GROUP_METADATA_KIND = 39000"
definition GROUP_ADMINS_KIND :: u16 where "GROUP_ADMINS_KIND = 39001"
definition CREATE_GROUP_KIND :: u16 where "CREATE_GROUP_KIND = 9007"

definition tag_matches :: "tag \<Rightarrow> string \<Rightarrow> string \<Rightarrow> bool" where
  "tag_matches tag name value \<longleftrightarrow>
     (case tag of n # v # _ \<Rightarrow> n = name \<and> v = value | _ \<Rightarrow> False)"

section \<open>Membership\<close>

datatype membership_error = MembershipGroup | MembershipAdmin | MembershipMember | MembershipTag

definition membership_error_text :: "membership_error \<Rightarrow> string" where
  "membership_error_text e =
     (case e of
        MembershipGroup \<Rightarrow> ''the group id is invalid''
      | MembershipAdmin \<Rightarrow> ''the group admin is not a public key''
      | MembershipMember \<Rightarrow> ''the group member is not a public key''
      | MembershipTag \<Rightarrow> ''NMP refused a generated membership tag'')"

definition membership_validate_group :: "string \<Rightarrow> membership_error + unit" where
  "membership_validate_group group_id =
     map_sum id (\<lambda>_. ()) (ok_or MembershipGroup (bounded group_id 128))"

definition group_membership_demand :: "relay_url \<Rightarrow> string \<Rightarrow> membership_error + demand" where
  "group_membership_demand host group_id =
     bind_result (membership_validate_group group_id) (\<lambda>_.
       Inr \<lparr>dm_kinds = set MEMBER_STATE_KINDS, dm_tag = (''d'', {group_id}), dm_hosts = {host},
            dm_strict = True\<rparr>)"

definition event_authorizes_member :: "event \<Rightarrow> string \<Rightarrow> public_key \<Rightarrow> bool" where
  "event_authorizes_member event group_id member \<longleftrightarrow>
     ev_kind event \<in> set MEMBER_STATE_KINDS
     \<and> list_ex (\<lambda>tag. tag_matches tag ''d'' group_id) (ev_tags event)
     \<and> list_ex (\<lambda>tag. tag_matches tag ''p'' member) (ev_tags event)"

definition compose_membership_upsert ::
  "key_parse \<Rightarrow> group_send \<Rightarrow> relay_url \<Rightarrow> string \<Rightarrow> string \<Rightarrow> string \<Rightarrow> u64 \<Rightarrow> string
   \<Rightarrow> membership_error + write_intent" where
  "compose_membership_upsert parse_key send host group_id admin member created_at correlation =
     bind_result (membership_validate_group group_id) (\<lambda>_.
     bind_result (ok_or MembershipAdmin (parse_key admin)) (\<lambda>admin.
     bind_result (ok_or MembershipMember (parse_key member)) (\<lambda>member.
     bind_result (ok_or MembershipTag
         (send host group_id admin created_at PUT_USER_KIND [] [[''p'', member]])) (\<lambda>intent.
       Inr (intent\<lparr>wi_correlation := Some correlation\<rparr>)))))"

section \<open>Administration\<close>

datatype group_admin_error = AdminGroup | AdminDaemon | AdminOwner | AdminRole | AdminTag

definition group_admin_error_text :: "group_admin_error \<Rightarrow> string" where
  "group_admin_error_text e =
     (case e of
        AdminGroup \<Rightarrow> ''the group id is invalid''
      | AdminDaemon \<Rightarrow> ''the daemon identity is not a public key''
      | AdminOwner \<Rightarrow> ''the owner identity is not a public key''
      | AdminRole \<Rightarrow> ''the owner role is invalid''
      | AdminTag \<Rightarrow> ''NMP refused a generated group-management tag'')"

definition admin_validate_group :: "string \<Rightarrow> group_admin_error + unit" where
  "admin_validate_group group_id = map_sum id (\<lambda>_. ()) (ok_or AdminGroup (bounded group_id 128))"

definition group_admin_demand :: "relay_url \<Rightarrow> string \<Rightarrow> group_admin_error + demand" where
  "group_admin_demand host group_id =
     bind_result (admin_validate_group group_id) (\<lambda>_.
       Inr \<lparr>dm_kinds = {GROUP_METADATA_KIND, GROUP_ADMINS_KIND}, dm_tag = (''d'', {group_id}),
            dm_hosts = {host}, dm_strict = True\<rparr>)"

definition event_establishes_group :: "event \<Rightarrow> string \<Rightarrow> bool" where
  "event_establishes_group event group_id \<longleftrightarrow>
     ev_kind event = GROUP_METADATA_KIND
     \<and> list_ex (\<lambda>tag. tag_matches tag ''d'' group_id) (ev_tags event)"

definition event_is_group_admin_state :: "event \<Rightarrow> string \<Rightarrow> bool" where
  "event_is_group_admin_state event group_id \<longleftrightarrow>
     ev_kind event = GROUP_ADMINS_KIND
     \<and> list_ex (\<lambda>tag. tag_matches tag ''d'' group_id) (ev_tags event)"

definition event_assigns_role :: "event \<Rightarrow> string \<Rightarrow> public_key \<Rightarrow> string \<Rightarrow> bool" where
  "event_assigns_role event group_id user role \<longleftrightarrow>
     event_is_group_admin_state event group_id
     \<and> list_ex (\<lambda>tag. (case tag of n # v # roles \<Rightarrow> n = ''p'' \<and> v = user \<and> role \<in> set roles
                        | _ \<Rightarrow> False)) (ev_tags event)"

definition compose_group_create ::
  "key_parse \<Rightarrow> group_send \<Rightarrow> relay_url \<Rightarrow> string \<Rightarrow> string \<Rightarrow> u64 \<Rightarrow> string
   \<Rightarrow> group_admin_error + write_intent" where
  "compose_group_create parse_key send host group_id daemon created_at correlation =
     bind_result (admin_validate_group group_id) (\<lambda>_.
     bind_result (ok_or AdminDaemon (parse_key daemon)) (\<lambda>daemon.
     bind_result (ok_or AdminTag
         (send host group_id daemon created_at CREATE_GROUP_KIND ''TTS29 durable spoken queue'' [])) (\<lambda>intent.
       Inr (intent\<lparr>wi_correlation := Some correlation\<rparr>))))"

definition compose_admin_upsert ::
  "key_parse \<Rightarrow> group_send \<Rightarrow> relay_url \<Rightarrow> string \<Rightarrow> string \<Rightarrow> string \<Rightarrow> string \<Rightarrow> u64 \<Rightarrow> string
   \<Rightarrow> group_admin_error + write_intent" where
  "compose_admin_upsert parse_key send host group_id daemon owner role created_at correlation =
     bind_result (admin_validate_group group_id) (\<lambda>_.
     bind_result (ok_or AdminDaemon (parse_key daemon)) (\<lambda>daemon.
     bind_result (ok_or AdminOwner (parse_key owner)) (\<lambda>owner.
     bind_result (ok_or AdminRole (bounded role 64)) (\<lambda>role.
     bind_result (ok_or AdminTag
         (send host group_id daemon created_at PUT_USER_KIND [] [[''p'', owner, role]])) (\<lambda>intent.
       Inr (intent\<lparr>wi_correlation := Some correlation\<rparr>))))))"

text \<open>
  An admin is a member. Group state that gives a user any role also authorizes that user as a
  member of the same group, so the membership check never asks to add an admin.
\<close>

theorem admin_is_member:
  assumes "event_assigns_role event group_id user role"
  shows "event_authorizes_member event group_id user"
proof -
  have "list_ex (\<lambda>tag. tag_matches tag ''p'' user) (ev_tags event)"
    using assms
    by (auto simp: event_assigns_role_def list_ex_iff tag_matches_def split: list.splits)
  then show ?thesis
    using assms
    by (simp add: event_assigns_role_def event_is_group_admin_state_def event_authorizes_member_def
        MEMBER_STATE_KINDS_def GROUP_ADMINS_KIND_def)
qed

definition sample_admin_state :: event where
  "sample_admin_state =
     \<lparr>ev_id = ''s1'', ev_pubkey = ''relay'', ev_created_at = 5, ev_kind = 39001,
      ev_tags = [[''d'', ''tts''], [''p'', ''daemon'', ''admin'']], ev_content = []\<rparr>"

theorem admin_is_member_witness: "event_authorizes_member sample_admin_state ''tts'' ''daemon''"
proof (rule admin_is_member)
  show "event_assigns_role sample_admin_state ''tts'' ''daemon'' ''admin''"
    by (simp add: sample_admin_state_def event_assigns_role_def event_is_group_admin_state_def
        GROUP_ADMINS_KIND_def tag_matches_def)
qed

end
