(* ===== verification/Publisher.thy ===== *)
theory Publisher
  imports Runner Relay_Groups
begin

text \<open>
  Publication over NMP: waiting for the host's acknowledgement of a receipt
  (\<open>daemon/src/nmp_receipt.rs\<close>), the publisher that implements the \<open>Publisher\<close> trait
  (\<open>daemon/src/nmp_publisher.rs\<close>) and the group bootstrap (\<open>daemon/src/group_bootstrap.rs\<close>). The NMP
  engine is a parameter: its tracked writes return a receipt, a reattached receipt delivers a list of
  statuses (those that arrive within the timeout of each other), an observation delivers timed frames.
\<close>

datatype receipt_reattachment = Attached "write_status list" | ReceiptNotFound | RetainedButUnreadable

record timed_frame =
  tf_elapsed :: nat
  tf_frame :: frame

record 'n nmp_engine =
  en_parse_key :: key_parse
  en_group_send :: group_send
  en_sha256_hex :: "string \<Rightarrow> string"
  en_correlation :: "string \<Rightarrow> string + string"
  en_publish_tracked :: "write_intent \<Rightarrow> ('n, string, u64) action"
  en_reattach_receipt :: "u64 \<Rightarrow> ('n, string, receipt_reattachment) action"
  en_observe :: "demand \<Rightarrow> ('n, string, timed_frame list) action"
  en_debug_status :: "write_status \<Rightarrow> string"
  en_debug_evidence :: "acquisition_evidence \<Rightarrow> string"

section \<open>Waiting for the host's acknowledgement\<close>

text \<open>The loop \<open>for _ in 0..32\<close>; \<open>n\<close> counts the remaining rounds.\<close>

fun await_loop ::
  "(write_status \<Rightarrow> string) \<Rightarrow> string \<Rightarrow> u64 \<Rightarrow> relay_url \<Rightarrow> nat \<Rightarrow> write_status list
   \<Rightarrow> event_id option \<Rightarrow> bool \<Rightarrow> string \<Rightarrow> string + event_id" where
  "await_loop debug operation receipt_id host 0 statuses event_id host_acked last_status =
     Inl (operation @ '' receipt '' @ u64_to_string receipt_id @ '' exceeded its bounded status stream'')"
| "await_loop debug operation receipt_id host (Suc n) [] event_id host_acked last_status =
     Inl (operation @ '' receipt '' @ u64_to_string receipt_id @ '' is still pending ('' @ last_status @ '')'')"
| "await_loop debug operation receipt_id host (Suc n) (status # rest) event_id host_acked last_status =
     (let continue = (\<lambda>event_id host_acked.
        (case event_id of
           Some event \<Rightarrow>
             if host_acked then Inr event
             else await_loop debug operation receipt_id host n rest event_id host_acked (debug status)
         | None \<Rightarrow> await_loop debug operation receipt_id host n rest event_id host_acked (debug status)))
      in case status of
        Signed event \<Rightarrow> continue (Some event) host_acked
      | Acked relay \<Rightarrow> continue event_id (if relay = host then True else host_acked)
      | Rejected relay reason \<Rightarrow> Inl (operation @ '' was rejected by '' @ relay @ '': '' @ reason)
      | GaveUp relay \<Rightarrow> Inl (operation @ '' delivery was unresolved at '' @ relay)
      | OutcomeUnknown relay \<Rightarrow> Inl (operation @ '' delivery was unresolved at '' @ relay)
      | Failed reason \<Rightarrow> Inl (operation @ '' failed: '' @ reason)
      | Cancelled \<Rightarrow> Inl (operation @ '' was cancelled'')
      | ReplaceableConflict \<Rightarrow> Inl (operation @ '' encountered a replaceable conflict'')
      | OtherStatus _ \<Rightarrow> continue event_id host_acked)"

definition await_host_ack ::
  "'n nmp_engine \<Rightarrow> u64 \<Rightarrow> relay_url \<Rightarrow> string \<Rightarrow> ('n, string, event_id) action" where
  "await_host_ack engine receipt_id host operation =
     and_then (en_reattach_receipt engine receipt_id) (\<lambda>attachment.
       case attachment of
         Attached statuses \<Rightarrow>
           of_result (await_loop (en_debug_status engine) operation receipt_id host 32 statuses None False
             ''no status received'')
       | ReceiptNotFound \<Rightarrow> fail (operation @ '' receipt '' @ u64_to_string receipt_id @ '' was not found'')
       | RetainedButUnreadable \<Rightarrow>
           fail (operation @ '' receipt '' @ u64_to_string receipt_id @ '' is retained but unreadable''))"

section \<open>Observing group state\<close>

text \<open>The deltas of one frame against the current events, at most \<open>limit\<close> of them.\<close>

fun apply_deltas ::
  "nat \<Rightarrow> string \<Rightarrow> row_delta list \<Rightarrow> (event_id, event) btree_map \<Rightarrow> string + (event_id, event) btree_map" where
  "apply_deltas limit refusal [] current = Inr current"
| "apply_deltas limit refusal (Added row # deltas) current =
     (if \<not> btree_contains current (ev_id row) \<and> length current \<ge> limit then Inl refusal
      else apply_deltas limit refusal deltas (btree_insert (ev_id row) row current))"
| "apply_deltas limit refusal (Removed event_id # deltas) current =
     apply_deltas limit refusal deltas (btree_remove event_id current)"
| "apply_deltas limit refusal (SourcesGrew # deltas) current = apply_deltas limit refusal deltas current"

definition host_source :: "relay_url \<Rightarrow> frame \<Rightarrow> source_evidence option" where
  "host_source host frame = find (\<lambda>source. se_relay source = host) (aq_sources (fr_evidence frame))"

definition host_refused :: "relay_url \<Rightarrow> frame \<Rightarrow> bool" where
  "host_refused host frame \<longleftrightarrow>
     is_some_and (host_source host frame) (\<lambda>source. se_status source = AuthDenied \<or> se_status source = SourceError)"

definition host_reconciled :: "relay_url \<Rightarrow> frame \<Rightarrow> bool" where
  "host_reconciled host frame \<longleftrightarrow>
     is_some_and (host_source host frame)
       (\<lambda>source. se_status source = Requesting \<and> se_reconciled_through source \<noteq> None)"

section \<open>The publisher\<close>

record nmp_publisher =
  np_host :: relay_url
  np_group_id :: string
  np_admin_author :: public_key
  np_receipt_timeout :: nat

text \<open>The in-memory cache \<open>authorized_members\<close> beside the engine.\<close>

record 'n publisher_state =
  ps_engine :: 'n
  ps_members :: "(string, string) btree_map"

definition publisher_new :: "relay_url \<Rightarrow> string \<Rightarrow> public_key \<Rightarrow> nat \<Rightarrow> nmp_publisher \<times> (string, string) btree_map" where
  [simp]: "publisher_new host group_id admin_author receipt_timeout =
     (\<lparr>np_host = host, np_group_id = group_id, np_admin_author = admin_author, np_receipt_timeout = receipt_timeout\<rparr>, [])"

definition on_engine :: "('n, 'e, 'a) action \<Rightarrow> ('n publisher_state, 'e, 'a) action" where
  "on_engine m = on_part ps_engine (\<lambda>n st. st\<lparr>ps_engine := n\<rparr>) m"

definition remember_member :: "string \<Rightarrow> string \<Rightarrow> 'n publisher_state \<Rightarrow> 'n publisher_state" where
  "remember_member author event_id st = st\<lparr>ps_members := btree_insert author event_id (ps_members st)\<rparr>"

text \<open>
  The \<open>loop\<close> of \<open>current_membership\<close>. The observation is the list of frames it delivers, each with the
  time it takes; a frame later than the remaining time, or no frame, is a timeout.
\<close>

fun membership_loop ::
  "(acquisition_evidence \<Rightarrow> string) \<Rightarrow> nmp_publisher \<Rightarrow> public_key \<Rightarrow> timed_frame list \<Rightarrow> nat \<Rightarrow> string
   \<Rightarrow> (event_id, event) btree_map \<Rightarrow> string + event_id option" where
  "membership_loop debug p member arrivals remaining last_evidence current =
     (if remaining = 0
      then Inl (''NMP membership observation did not reconcile in time ('' @ last_evidence @ '')'')
      else case arrivals of
        [] \<Rightarrow> Inl (''NMP membership observation did not reconcile in time ('' @ last_evidence @ '')'')
      | arrival # rest \<Rightarrow>
          if tf_elapsed arrival > remaining
          then Inl (''NMP membership observation did not reconcile in time ('' @ last_evidence @ '')'')
          else
            bind_result (apply_deltas 4 ''NMP returned an invalid number of current membership states''
                (fr_deltas (tf_frame arrival)) current) (\<lambda>current.
              if host_refused (np_host p) (tf_frame arrival)
              then Inl ''NMP membership observation was refused by the selected host''
              else if \<not> host_reconciled (np_host p) (tf_frame arrival)
              then membership_loop debug p member rest (remaining - tf_elapsed arrival)
                     (debug (fr_evidence (tf_frame arrival))) current
              else Inr (map_option ev_id
                     (find (\<lambda>event. event_authorizes_member event (np_group_id p) member)
                        (map snd current)))))"

definition current_membership ::
  "'n nmp_engine \<Rightarrow> nmp_publisher \<Rightarrow> public_key \<Rightarrow> ('n, string, event_id option) action" where
  "current_membership engine p member =
     and_then (of_result (map_err membership_error_text (group_membership_demand (np_host p) (np_group_id p)))) (\<lambda>demand.
     and_then (en_observe engine demand) (\<lambda>arrivals.
       of_result (membership_loop (en_debug_evidence engine) p member arrivals (np_receipt_timeout p)
         ''no frame received'' [])))"

definition authorize ::
  "'n nmp_engine \<Rightarrow> nmp_publisher \<Rightarrow> string \<Rightarrow> string \<Rightarrow> u64
   \<Rightarrow> ('n publisher_state, string, authorization_step) action" where
  "authorize engine p request_id author created_at st =
     (case btree_get (ps_members st) author of
        Some event_id \<Rightarrow> (Inr (Authorized event_id), st)
      | None \<Rightarrow>
          and_then (of_result (ok_or ''frozen spoken-item author is not a public key'' (en_parse_key engine author))) (\<lambda>member.
          and_then (on_engine (current_membership engine p member)) (\<lambda>found.
            case found of
              Some event_id \<Rightarrow> (\<lambda>st. (Inr (Authorized event_id), remember_member author event_id st))
            | None \<Rightarrow>
                and_then (of_result (map_err (\<lambda>error. ''membership correlation was refused: '' @ error)
                    (en_correlation engine (en_sha256_hex engine
                       (''tts29-membership-v1'' @ [CHR 0x00] @ request_id @ [CHR 0x00] @ author))))) (\<lambda>correlation.
                and_then (of_result (map_err membership_error_text
                    (compose_membership_upsert (en_parse_key engine) (en_group_send engine) (np_host p)
                       (np_group_id p) (np_admin_author p) author created_at correlation))) (\<lambda>intent.
                and_then (on_engine (en_publish_tracked engine intent)) (\<lambda>receipt_id.
                  ok (Accepted receipt_id)))))) st)"

definition duplicate_member_error :: "string \<Rightarrow> bool" where
  "duplicate_member_error error \<longleftrightarrow>
     contains_str error ''members already'' \<or> contains_str error ''already a member''"

definition resume_authorization ::
  "'n nmp_engine \<Rightarrow> nmp_publisher \<Rightarrow> u64 \<Rightarrow> string \<Rightarrow> ('n publisher_state, string, event_id) action" where
  "resume_authorization engine p receipt_id author st =
     (case on_engine (await_host_ack engine receipt_id (np_host p) ''NMP write'') st of
        (Inr event_id, st) \<Rightarrow> (Inr event_id, remember_member author event_id st)
      | (Inl error, st) \<Rightarrow>
          if duplicate_member_error error
          then (ok_or (''membership add was rejected as duplicate but no prior membership is known: '' @ error)
                  (btree_get (ps_members st) author), st)
          else (Inl error, st))"

definition accept_item ::
  "'n nmp_engine \<Rightarrow> nmp_publisher \<Rightarrow> frozen_spoken_item \<Rightarrow> ('n publisher_state, string, u64) action" where
  "accept_item engine p item =
     (if fz_group_id item \<noteq> np_group_id p
      then fail ''spoken item group does not match the configured producer group''
      else
        and_then (of_result (map_err compose_error_text
            (compose_spoken_item (en_parse_key engine) (en_group_send engine) (np_host p) item))) (\<lambda>intent.
          on_engine (en_publish_tracked engine intent)))"

definition resume_item ::
  "'n nmp_engine \<Rightarrow> nmp_publisher \<Rightarrow> u64 \<Rightarrow> frozen_spoken_item \<Rightarrow> ('n publisher_state, string, event_id) action" where
  "resume_item engine p receipt_id item =
     on_engine (await_host_ack engine receipt_id (np_host p) ''NMP write'')"

section \<open>Group bootstrap\<close>

record group_bootstrap_evidence =
  gb_daemon_pubkey :: string
  gb_group_creation_receipt_id :: "u64 option"
  gb_group_created_event_id :: "string option"
  gb_owner_admin_receipt_id :: "u64 option"
  gb_owner_admin_event_id :: "string option"

record group_state =
  gs_exists :: bool
  gs_daemon_is_admin :: bool
  gs_owner_is_admin :: bool

record bootstrap_plan =
  bp_create_group :: bool
  bp_promote_owner :: bool

definition plan_for_state :: "group_state \<Rightarrow> bool \<Rightarrow> string + bootstrap_plan" where
  "plan_for_state state owner_is_daemon =
     (if \<not> gs_exists state
      then Inr \<lparr>bp_create_group = True, bp_promote_owner = (\<not> owner_is_daemon)\<rparr>
      else if \<not> gs_daemon_is_admin state
      then Inl ''configured group exists, but this daemon identity does not have the admin role''
      else Inr \<lparr>bp_create_group = False, bp_promote_owner = (\<not> gs_owner_is_admin state)\<rparr>)"

fun observe_frames ::
  "(acquisition_evidence \<Rightarrow> string) \<Rightarrow> relay_url \<Rightarrow> string \<Rightarrow> public_key \<Rightarrow> public_key \<Rightarrow> nat \<Rightarrow> nat
   \<Rightarrow> timed_frame list \<Rightarrow> (event_id, event) btree_map \<Rightarrow> string \<Rightarrow> string + group_state" where
  "observe_frames debug host group_id daemon owner timeout 0 arrivals current last_evidence =
     Inl (''group administration exceeded its bounded observation stream ('' @ last_evidence @ '')'')"
| "observe_frames debug host group_id daemon owner timeout (Suc n) arrivals current last_evidence =
     (case arrivals of
        [] \<Rightarrow> Inl (''group administration did not reconcile in time ('' @ last_evidence @ '')'')
      | arrival # rest \<Rightarrow>
          if tf_elapsed arrival > timeout
          then Inl (''group administration did not reconcile in time ('' @ last_evidence @ '')'')
          else
            bind_result (apply_deltas 8 ''NMP returned too many current group administration states''
                (fr_deltas (tf_frame arrival)) current) (\<lambda>current.
              if host_refused host (tf_frame arrival)
              then Inl ''group administration observation was refused by the selected host''
              else if host_reconciled host (tf_frame arrival)
              then Inr \<lparr>gs_exists = list_ex (\<lambda>event. event_establishes_group event group_id
                                             \<or> event_is_group_admin_state event group_id) (map snd current),
                        gs_daemon_is_admin =
                          list_ex (\<lambda>event. event_assigns_role event group_id daemon ''admin'') (map snd current),
                        gs_owner_is_admin =
                          list_ex (\<lambda>event. event_assigns_role event group_id owner ''admin'') (map snd current)\<rparr>
              else observe_frames debug host group_id daemon owner timeout n rest current
                     (debug (fr_evidence (tf_frame arrival)))))"

definition observe_state ::
  "'n nmp_engine \<Rightarrow> relay_url \<Rightarrow> string \<Rightarrow> public_key \<Rightarrow> public_key \<Rightarrow> nat \<Rightarrow> ('n, string, group_state) action" where
  "observe_state engine host group_id daemon owner timeout =
     and_then (of_result (map_err group_admin_error_text (group_admin_demand host group_id))) (\<lambda>demand.
     and_then (with_error (\<lambda>error. ''group administration observation failed: '' @ error)
                 (en_observe engine demand)) (\<lambda>arrivals.
       of_result (observe_frames (en_debug_evidence engine) host group_id daemon owner timeout 8 arrivals []
         ''no frame received'')))"

definition bootstrap_correlation ::
  "'n nmp_engine \<Rightarrow> string \<Rightarrow> relay_url \<Rightarrow> string \<Rightarrow> string \<Rightarrow> string + string" where
  "bootstrap_correlation engine operation host group_id subject =
     map_err (\<lambda>error. ''group bootstrap correlation was refused: '' @ error)
       (en_correlation engine (en_sha256_hex engine
          (''tts29-group-bootstrap-v1'' @ [CHR 0x00] @ operation @ [CHR 0x00] @ host @ [CHR 0x00]
           @ group_id @ [CHR 0x00] @ subject)))"

definition bootstrap_create ::
  "'n nmp_engine \<Rightarrow> relay_url \<Rightarrow> string \<Rightarrow> string \<Rightarrow> u64 \<Rightarrow> group_bootstrap_evidence
   \<Rightarrow> ('n, string, group_bootstrap_evidence) action" where
  "bootstrap_create engine host group_id daemon created_at evidence =
     and_then (of_result (bootstrap_correlation engine ''create'' host group_id daemon)) (\<lambda>correlation.
     and_then (of_result (map_err group_admin_error_text
         (compose_group_create (en_parse_key engine) (en_group_send engine) host group_id daemon created_at
            correlation))) (\<lambda>intent.
     and_then (with_error (\<lambda>error. ''group creation could not be accepted by NMP: '' @ error)
                 (en_publish_tracked engine intent)) (\<lambda>receipt_id.
     and_then (await_host_ack engine receipt_id host ''group creation'') (\<lambda>event_id.
       ok (evidence\<lparr>gb_group_creation_receipt_id := Some receipt_id,
                   gb_group_created_event_id := Some event_id\<rparr>)))))"

definition bootstrap_promote ::
  "'n nmp_engine \<Rightarrow> relay_url \<Rightarrow> string \<Rightarrow> string \<Rightarrow> string \<Rightarrow> u64 \<Rightarrow> group_bootstrap_evidence
   \<Rightarrow> ('n, string, group_bootstrap_evidence) action" where
  "bootstrap_promote engine host group_id daemon owner created_at evidence =
     and_then (of_result (bootstrap_correlation engine ''owner-admin'' host group_id owner)) (\<lambda>correlation.
     and_then (of_result (map_err group_admin_error_text
         (compose_admin_upsert (en_parse_key engine) (en_group_send engine) host group_id daemon owner ''admin''
            created_at correlation))) (\<lambda>intent.
     and_then (with_error (\<lambda>error. ''owner promotion could not be accepted by NMP: '' @ error)
                 (en_publish_tracked engine intent)) (\<lambda>receipt_id.
     and_then (await_host_ack engine receipt_id host ''owner promotion'') (\<lambda>event_id.
       ok (evidence\<lparr>gb_owner_admin_receipt_id := Some receipt_id,
                   gb_owner_admin_event_id := Some event_id\<rparr>)))))"

definition bootstrap_group ::
  "'n nmp_engine \<Rightarrow> relay_url \<Rightarrow> string \<Rightarrow> public_key \<Rightarrow> public_key \<Rightarrow> u64 \<Rightarrow> nat
   \<Rightarrow> ('n, string, group_bootstrap_evidence) action" where
  "bootstrap_group engine host group_id daemon owner created_at timeout =
     and_then (observe_state engine host group_id daemon owner timeout) (\<lambda>state.
     and_then (of_result (plan_for_state state (daemon = owner))) (\<lambda>plan.
     and_then
       ((if bp_create_group plan then bootstrap_create engine host group_id daemon created_at else ok)
          \<lparr>gb_daemon_pubkey = daemon, gb_group_creation_receipt_id = None, gb_group_created_event_id = None,
           gb_owner_admin_receipt_id = None, gb_owner_admin_event_id = None\<rparr>) (\<lambda>evidence.
       (if bp_promote_owner plan then bootstrap_promote engine host group_id daemon owner created_at else ok)
         evidence)))"

section \<open>Receipts\<close>

text \<open>Statuses that end the wait with an error, and what a run of the others has established.\<close>

definition negative_status :: "write_status \<Rightarrow> bool" where
  "negative_status status =
     (case status of Signed _ \<Rightarrow> False | Acked _ \<Rightarrow> False | OtherStatus _ \<Rightarrow> False | _ \<Rightarrow> True)"

lemma ex_le_Suc: "(\<exists>k \<le> Suc n. Q k) \<longleftrightarrow> Q 0 \<or> (\<exists>j \<le> n. Q (Suc j))"
  by (metis Suc_le_mono le0 not0_implies_Suc)

definition settled :: "relay_url \<Rightarrow> event_id option \<Rightarrow> bool \<Rightarrow> write_status list \<Rightarrow> bool" where
  "settled host event acked seen \<longleftrightarrow>
     \<not> list_ex negative_status seen
     \<and> (event \<noteq> None \<or> (\<exists>e. Signed e \<in> set seen)) \<and> (acked \<or> Acked host \<in> set seen)"

lemma settled_Nil: "settled host event acked [] \<longleftrightarrow> event \<noteq> None \<and> acked"
  by (simp add: settled_def)

text \<open>One round: a status either ends the wait or goes on with what is now known.\<close>

definition await_round ::
  "(write_status \<Rightarrow> string) \<Rightarrow> string \<Rightarrow> u64 \<Rightarrow> relay_url \<Rightarrow> nat \<Rightarrow> write_status list
   \<Rightarrow> string \<Rightarrow> event_id option \<Rightarrow> bool \<Rightarrow> string + event_id" where
  "await_round debug operation receipt_id host n rest last_status event acked =
     (if acked \<and> event \<noteq> None then Inr (the event)
      else await_loop debug operation receipt_id host n rest event acked last_status)"

lemma await_loop_round:
  assumes "\<not> negative_status status"
  shows "await_loop debug operation receipt_id host (Suc n) (status # rest) event acked last_status =
    await_round debug operation receipt_id host n rest (debug status)
      (case status of Signed e \<Rightarrow> Some e | _ \<Rightarrow> event)
      (acked \<or> status = Acked host)"
  using assms
  by (cases status) (auto simp: await_round_def negative_status_def Let_def split: option.split)

lemma await_loop_negative:
  "negative_status status \<Longrightarrow>
   \<exists>message. await_loop debug operation receipt_id host (Suc n) (status # rest) event acked last_status
     = Inl message"
  by (cases status) (simp_all add: negative_status_def)

lemma settled_Cons:
  "settled host event acked (status # seen) \<longleftrightarrow>
     \<not> negative_status status
     \<and> settled host (case status of Signed e \<Rightarrow> Some e | _ \<Rightarrow> event) (acked \<or> status = Acked host) seen"
  by (cases status) (auto simp: settled_def negative_status_def)

lemma await_loop_settles:
  assumes "\<not> (acked \<and> event \<noteq> None)"
  shows "(\<exists>e. await_loop debug operation receipt_id host n statuses event acked last_status = Inr e) \<longleftrightarrow>
    (\<exists>k \<le> n. k \<le> length statuses \<and> settled host event acked (take k statuses))"
  using assms
proof (induction n arbitrary: statuses event acked last_status)
  case (Suc n)
  have zero: "\<not> settled host event acked []" using Suc.prems by (auto simp: settled_Nil)
  have round: "(\<exists>e. await_round debug operation receipt_id host n rest last ev ack = Inr e) \<longleftrightarrow>
      (\<exists>k \<le> n. k \<le> length rest \<and> settled host ev ack (take k rest))" for rest last ev ack
    using Suc.IH [of ack ev rest last] by (auto simp: await_round_def settled_Nil intro: exI [of _ 0])
  show ?case
  proof (cases statuses)
    case (Cons status rest)
    show ?thesis
    proof (cases "negative_status status")
      case True
      then show ?thesis
        using await_loop_negative [OF True] zero unfolding ex_le_Suc [of n] Cons
        by (auto simp: settled_Cons) (metis Inl_Inr_False)
    next
      case False
      then show ?thesis
        using zero unfolding ex_le_Suc [of n] Cons await_loop_round [OF False] round
        by (simp add: settled_Cons)
    qed
  qed (use zero in auto)
qed (auto simp: settled_Nil)

lemma await_loop_event:
  "await_loop debug operation receipt_id host n statuses event acked last_status = Inr e \<Longrightarrow>
   event = Some e \<or> Signed e \<in> set statuses"
proof (induction n arbitrary: statuses event acked last_status)
  case (Suc n)
  show ?case
  proof (cases statuses)
    case (Cons status rest)
    show ?thesis
    proof (cases "negative_status status")
      case True
      then show ?thesis
        using await_loop_negative [OF True] Suc.prems Cons by (metis Inl_Inr_False)
    next
      case False
      then show ?thesis
        using Suc.prems Suc.IH unfolding Cons await_loop_round [OF False] await_round_def
        by (cases status) (fastforce split: if_splits)+
    qed
  qed (use Suc.prems in simp)
qed simp

end
