(* ===== verification/Capabilities.thy ===== *)
theory Capabilities
  imports Runner
begin

text \<open>
  The synthesizer (\<open>daemon/src/kokoro.rs\<close>) and the artifact uploader (\<open>daemon/src/blossom.rs\<close>). HTTP,
  URL parsing, hashing, signing and the Blossom client are parameters; the checks around them, the
  reuse of existing audio and the atomic commit of new audio are the sources'.
\<close>

section \<open>Kokoro narration\<close>

datatype kokoro_auth = NoAuth | Bearer string | Basic string string

record parsed_url =
  url_text :: string
  url_scheme :: string
  url_host :: "string option"
  url_username :: string
  url_password :: "string option"
  url_query :: "string option"
  url_fragment :: "string option"

record kokoro_config =
  kk_endpoint :: string
  kk_auth :: kokoro_auth
  kk_request_timeout :: u64
  kk_max_audio_bytes :: nat
  kk_allow_insecure_loopback :: bool

definition kokoro_defaults :: "string \<Rightarrow> kokoro_config" where
  "kokoro_defaults endpoint =
     \<lparr>kk_endpoint = endpoint, kk_auth = NoAuth, kk_request_timeout = 120, kk_max_audio_bytes = 50 * 1024 * 1024,
      kk_allow_insecure_loopback = False\<rparr>"

definition validated_endpoint :: "(string \<Rightarrow> parsed_url option) \<Rightarrow> kokoro_config \<Rightarrow> string + parsed_url" where
  "validated_endpoint parse_url config =
     bind_result (ok_or ''Kokoro endpoint is not a valid URL'' (parse_url (kk_endpoint config))) (\<lambda>endpoint.
       if url_username endpoint \<noteq> [] \<or> url_password endpoint \<noteq> None \<or> url_query endpoint \<noteq> None
          \<or> url_fragment endpoint \<noteq> None
       then Inl ''Kokoro endpoint cannot contain credentials, query, or fragment''
       else
         (let secure = (url_scheme endpoint = ''https'');
              admitted_loopback =
                (url_scheme endpoint = ''http'' \<and> kk_allow_insecure_loopback config
                 \<and> is_some_and (url_host endpoint)
                     (\<lambda>h. h = ''localhost'' \<or> h = ''127.0.0.1'' \<or> h = ''::1''))
          in if \<not> secure \<and> \<not> admitted_loopback then Inl ''Kokoro endpoint must use HTTPS''
             else Inr endpoint))"

record kokoro_synthesizer =
  ks_endpoint :: parsed_url
  ks_auth :: kokoro_auth
  ks_max_audio_bytes :: nat

definition kokoro_new ::
  "(string \<Rightarrow> parsed_url option) \<Rightarrow> string + unit \<Rightarrow> kokoro_config \<Rightarrow> string + kokoro_synthesizer" where
  "kokoro_new parse_url build_client config =
     bind_result (validated_endpoint parse_url config) (\<lambda>endpoint.
       if kk_max_audio_bytes config = 0 then Inl ''Kokoro audio limit must be positive''
       else bind_result (map_err (\<lambda>error. ''Kokoro HTTP client could not start: '' @ error) build_client) (\<lambda>_.
         Inr \<lparr>ks_endpoint = endpoint, ks_auth = kk_auth config,
              ks_max_audio_bytes = kk_max_audio_bytes config\<rparr>))"

text \<open>The answer of the narration service; the body is what a complete read would give, or its error.\<close>

record http_response =
  hr_success :: bool
  hr_status :: string
  hr_content_length :: "nat option"
  hr_content_type :: "string option"
  hr_body :: "string + string"

type_synonym 'x narration = "parsed_url \<Rightarrow> kokoro_auth \<Rightarrow> string \<Rightarrow> string \<Rightarrow> ('x, string, http_response) action"

definition is_mp3_type :: "string \<Rightarrow> bool" where
  "is_mp3_type media_type \<longleftrightarrow>
     media_type = ''audio/mpeg'' \<or> media_type = ''audio/mp3'' \<or> media_type = ''application/octet-stream''"

definition check_response :: "kokoro_synthesizer \<Rightarrow> http_response \<Rightarrow> string + string" where
  "check_response k response =
     (if \<not> hr_success response then Inl (''Kokoro rejected synthesis with HTTP '' @ hr_status response)
      else if is_some_and (hr_content_length response) (\<lambda>len. len = 0 \<or> len > ks_max_audio_bytes k)
      then Inl ''Kokoro response size is invalid''
      else if is_some_and (hr_content_type response)
                (\<lambda>media_type. \<not> is_mp3_type (takeWhile (\<lambda>c. c \<noteq> CHR '';'') media_type))
      then Inl ''Kokoro response is not MP3 audio''
      else
        bind_result (map_err (\<lambda>error. ''Kokoro audio could not be read: '' @ error)
            (map_sum id (take (ks_max_audio_bytes k + 1)) (hr_body response))) (\<lambda>bytes.
          if bytes = [] \<or> length bytes > ks_max_audio_bytes k then Inl ''Kokoro response size is invalid''
          else Inr bytes))"

definition generate ::
  "kokoro_synthesizer \<Rightarrow> 'x narration \<Rightarrow> producer_request \<Rightarrow> ('x, string, string) action" where
  "generate k post request =
     (if trim (pr_body request) = [] then fail ''Kokoro input is empty''
      else if pr_voice request = [] \<or> length (pr_voice request) > 64 then fail ''Kokoro voice is invalid''
      else
        and_then (with_error (\<lambda>error. ''Kokoro request failed: '' @ error)
            (post (ks_endpoint k) (ks_auth k) (pr_body request) (pr_voice request)))
          (\<lambda>response. of_result (check_response k response)))"

text \<open>\<open>Path::parent\<close> and \<open>Path::file_name\<close> of a path that does not end in a separator.\<close>

definition path_file_name :: "string \<Rightarrow> string" where
  "path_file_name path = rev (takeWhile (\<lambda>c. c \<noteq> CHR ''/'') (rev path))"

definition path_parent :: "string \<Rightarrow> string" where
  "path_parent path =
     (case dropWhile (\<lambda>c. c \<noteq> CHR ''/'') (rev path) of
        [] \<Rightarrow> []
      | _ # before \<Rightarrow> if before = [] then ''/'' else rev before)"

record audio_store =
  au_fs :: file_system
  au_staged_id :: u64
  au_pid :: nat

type_synonym 'a audio_action = "(audio_store, string, 'a) action"

definition on_audio_fs :: "'a io \<Rightarrow> (audio_store, io_error, 'a) action" where
  "on_audio_fs m = on_part au_fs (\<lambda>fs st. st\<lparr>au_fs := fs\<rparr>) m"

definition audio_staged_path :: "string \<Rightarrow> string audio_action" where
  "audio_staged_path dest st =
     (Inr (path_join (path_parent dest)
        (''.'' @ path_file_name dest @ ''.'' @ nat_to_string (au_pid st) @ ''.''
         @ u64_to_string (au_staged_id st) @ ''.tmp'')),
      st\<lparr>au_staged_id := au_staged_id st + 1\<rparr>)"

definition link_audio :: "string \<Rightarrow> string \<Rightarrow> (audio_store, io_error, unit) action" where
  "link_audio staged dest st =
     (case on_audio_fs (fs_hard_link staged dest) st of
        (Inl IoAlreadyExists, st) \<Rightarrow> (Inr (), st)
      | (r, st) \<Rightarrow> (r, st))"

definition commit_audio :: "string \<Rightarrow> string \<Rightarrow> string \<Rightarrow> (audio_store, io_error, unit) action" where
  "commit_audio staged dest bytes =
     and_then (on_audio_fs (fs_write_all staged bytes)) (\<lambda>_.
     and_then (on_audio_fs fs_sync_all) (\<lambda>_.
     and_then (link_audio staged dest) (\<lambda>_.
     and_then (on_audio_fs (fs_remove_file staged)) (\<lambda>_.
     and_then (on_audio_fs (fs_open_dir (path_parent dest))) (\<lambda>_.
       on_audio_fs fs_sync_all)))))"

definition write_atomic :: "string \<Rightarrow> string \<Rightarrow> unit audio_action" where
  "write_atomic dest bytes =
     and_then (audio_staged_path dest) (\<lambda>staged.
     and_then (with_error (\<lambda>error. ''Kokoro audio staging failed: '' @ io_error_text error)
         (on_audio_fs (fs_create_new staged))) (\<lambda>_ st.
       (case commit_audio staged dest bytes st of
          (Inr _, st) \<Rightarrow> (Inr (), st)
        | (Inl error, st) \<Rightarrow>
            (Inl (''Kokoro audio commit failed: '' @ io_error_text error),
             snd (on_audio_fs (fs_remove_file staged) st)))))"

definition artifact_for_existing ::
  "(string \<Rightarrow> string) \<Rightarrow> string \<Rightarrow> nat \<Rightarrow> local_audio_artifact audio_action" where
  "artifact_for_existing sha256_hex path limit =
     and_then (with_error (\<lambda>error. ''Kokoro audio could not be read: '' @ io_error_text error)
         (on_audio_fs (fs_read path))) (\<lambda>bytes.
       if bytes = [] \<or> length bytes > limit then fail ''existing Kokoro audio size is invalid''
       else ok \<lparr>la_path = path, la_sha256 = sha256_hex bytes, la_media_type = ''audio/mpeg'',
                la_byte_count = of_nat (length bytes)\<rparr>)"

text \<open>\<open>Path::exists\<close> is false when the file cannot be inspected.\<close>

definition path_exists :: "string \<Rightarrow> file_system \<Rightarrow> bool \<times> file_system" where
  "path_exists path fs =
     (case next_fault fs of (Some _, fs) \<Rightarrow> (False, fs) | (None, fs) \<Rightarrow> (fs_files fs path \<noteq> None, fs))"

text \<open>The files the capabilities work on, beside the outside world of services.\<close>

record 'x media_world =
  mw_audio :: audio_store
  mw_ext :: 'x

definition on_audio :: "(audio_store, 'e, 'a) action \<Rightarrow> ('x media_world, 'e, 'a) action" where
  "on_audio m = on_part mw_audio (\<lambda>a w. w\<lparr>mw_audio := a\<rparr>) m"

definition on_ext :: "('x, 'e, 'a) action \<Rightarrow> ('x media_world, 'e, 'a) action" where
  "on_ext m = on_part mw_ext (\<lambda>x w. w\<lparr>mw_ext := x\<rparr>) m"

definition synthesize ::
  "(string \<Rightarrow> string) \<Rightarrow> kokoro_synthesizer \<Rightarrow> 'x narration \<Rightarrow> producer_request \<Rightarrow> string
   \<Rightarrow> ('x media_world, string, local_audio_artifact) action" where
  "synthesize sha256_hex k post request output w =
     (case path_exists output (au_fs (mw_audio w)) of (found, fs) \<Rightarrow>
        (let w = w\<lparr>mw_audio := (mw_audio w)\<lparr>au_fs := fs\<rparr>\<rparr> in
         if found then on_audio (artifact_for_existing sha256_hex output (ks_max_audio_bytes k)) w
         else
           and_then (on_ext (generate k post request)) (\<lambda>bytes.
           and_then (on_audio (write_atomic output bytes)) (\<lambda>_.
             on_audio (artifact_for_existing sha256_hex output (ks_max_audio_bytes k)))) w))"

section \<open>Blossom upload\<close>

record blob_descriptor =
  bd_url :: string
  bd_sha256 :: string
  bd_mime_type :: "string option"
  bd_size :: u64

text \<open>
  The clock, the URL parser, the signed upload authorization (draft, signature and validation by NMP
  and the Blossom client library) and the upload.
\<close>

record 'x blossom_client =
  bc_unix_millis :: "'x \<Rightarrow> u64 \<times> 'x"
  bc_parse_url :: "string \<Rightarrow> parsed_url option"
  bc_authorize :: "string \<Rightarrow> u64 \<Rightarrow> u64 \<Rightarrow> ('x, string, string) action"
  bc_upload :: "string \<Rightarrow> string \<Rightarrow> string \<Rightarrow> ('x, string, blob_descriptor) action"

record blossom_uploader =
  bu_authorization_lifetime :: u64
  bu_max_upload_bytes :: nat

definition blossom_new :: "u64 \<Rightarrow> nat \<Rightarrow> string + unit \<Rightarrow> string + unit \<Rightarrow> string + unit \<Rightarrow> string + blossom_uploader" where
  "blossom_new lifetime limit server client runtime =
     (if lifetime = 0 \<or> limit = 0
      then Inl ''Blossom authorization lifetime and upload limit must be positive''
      else
        bind_result server (\<lambda>_.
        bind_result client (\<lambda>_.
        bind_result (map_err (\<lambda>error. ''Blossom runtime could not start: '' @ error) runtime) (\<lambda>_.
          Inr \<lparr>bu_authorization_lifetime = lifetime, bu_max_upload_bytes = limit\<rparr>))))"

definition authorization :: "blossom_uploader \<Rightarrow> 'x blossom_client \<Rightarrow> string \<Rightarrow> u64 \<Rightarrow> ('x, string, string) action" where
  "authorization u client hash now =
     and_then (of_result (ok_or ''Blossom authorization time overflow''
         (checked_add now (bu_authorization_lifetime u)))) (\<lambda>expiration.
       bc_authorize client hash now expiration)"

definition validate_public_url :: "(string \<Rightarrow> parsed_url option) \<Rightarrow> string \<Rightarrow> string + unit" where
  "validate_public_url parse_url text_url =
     bind_result (ok_or ''Blossom descriptor URL is invalid'' (parse_url text_url)) (\<lambda>url.
       if url_scheme url \<noteq> ''https'' \<or> url_host url = None \<or> url_username url \<noteq> []
          \<or> url_password url \<noteq> None \<or> url_query url \<noteq> None \<or> url_fragment url \<noteq> None
       then Inl ''Blossom descriptor URL must be public HTTPS''
       else Inr ())"

definition validate_descriptor ::
  "(string \<Rightarrow> parsed_url option) \<Rightarrow> string \<Rightarrow> string option \<Rightarrow> string + unit" where
  "validate_descriptor parse_url text_url media_type =
     bind_result (validate_public_url parse_url text_url) (\<lambda>_.
       if is_some_and media_type (\<lambda>m. \<not> is_mp3_type m) then Inl ''Blossom descriptor is not MP3 audio''
       else Inr ())"

definition current_seconds :: "'x blossom_client \<Rightarrow> ('x, string, u64) action" where
  "current_seconds client x = (case bc_unix_millis client x of (millis, x) \<Rightarrow> (Inr (millis div 1000), x))"

definition make_durable ::
  "(string \<Rightarrow> string) \<Rightarrow> blossom_uploader \<Rightarrow> 'x blossom_client \<Rightarrow> local_audio_artifact
   \<Rightarrow> ('x media_world, string, durable_artifact) action" where
  "make_durable sha256_hex u client audio =
     and_then (with_error (\<lambda>error. ''synthesized audio could not be inspected: '' @ io_error_text error)
         (on_audio (on_audio_fs (fs_read (la_path audio))))) (\<lambda>inspected.
     and_then (if length inspected = 0 \<or> length inspected > bu_max_upload_bytes u
               then fail ''synthesized audio exceeds the Blossom upload limit'' else ok ()) (\<lambda>_.
     and_then (with_error (\<lambda>error. ''synthesized audio could not be read: '' @ io_error_text error)
         (on_audio (on_audio_fs (fs_read (la_path audio))))) (\<lambda>bytes.
     and_then (if sha256_hex bytes \<noteq> la_sha256 audio \<or> of_nat (length bytes) \<noteq> la_byte_count audio
               then fail ''synthesized audio changed before Blossom upload'' else ok ()) (\<lambda>_.
     and_then (on_ext (current_seconds client)) (\<lambda>now.
     and_then (on_ext (authorization u client (sha256_hex bytes) now)) (\<lambda>auth.
     and_then (on_ext (bc_upload client bytes (la_media_type audio) auth)) (\<lambda>descriptor.
     and_then (of_result (validate_descriptor (bc_parse_url client) (bd_url descriptor) (bd_mime_type descriptor))) (\<lambda>_.
       if bd_size descriptor \<noteq> la_byte_count audio
       then fail ''Blossom descriptor size does not match synthesized audio''
       else ok \<lparr>art_url = bd_url descriptor, art_sha256 = bd_sha256 descriptor,
                art_media_type = la_media_type audio, art_byte_count = bd_size descriptor,
                art_label = None\<rparr>))))))))"

definition ascii_lowercase :: "string \<Rightarrow> string" where
  "ascii_lowercase s =
     map (\<lambda>c. if 65 \<le> (of_char c :: nat) \<and> (of_char c :: nat) \<le> 90 then char_of (of_char c + 32 :: nat) else c) s"

text \<open>\<open>Path::extension\<close>: what follows the last dot of the file name, unless the name starts there.\<close>

definition path_extension :: "string \<Rightarrow> string option" where
  "path_extension path =
     (let name = path_file_name path; before = dropWhile (\<lambda>c. c \<noteq> CHR ''.'') (rev name) in
      if name = ''..'' \<or> length before \<le> 1 then None
      else Some (rev (takeWhile (\<lambda>c. c \<noteq> CHR ''.'') (rev name))))"

definition infer_media_type :: "string \<Rightarrow> string" where
  "infer_media_type path =
     (let extension = ascii_lowercase (case path_extension path of None \<Rightarrow> [] | Some e \<Rightarrow> e) in
      if extension = ''png'' then ''image/png''
      else if extension = ''jpg'' \<or> extension = ''jpeg'' then ''image/jpeg''
      else if extension = ''gif'' then ''image/gif''
      else if extension = ''webp'' then ''image/webp''
      else if extension = ''heic'' then ''image/heic''
      else if extension = ''svg'' then ''image/svg+xml''
      else if extension = ''md'' \<or> extension = ''markdown'' then ''text/markdown''
      else if extension = ''txt'' \<or> extension = ''log'' then ''text/plain''
      else if extension = ''json'' then ''application/json''
      else if extension = ''pdf'' then ''application/pdf''
      else if extension = ''mp3'' then ''audio/mpeg''
      else if extension = ''wav'' then ''audio/wav''
      else if extension = ''m4a'' then ''audio/mp4''
      else ''application/octet-stream'')"

definition make_durable_file ::
  "(string \<Rightarrow> string) \<Rightarrow> blossom_uploader \<Rightarrow> 'x blossom_client \<Rightarrow> string \<Rightarrow> string
   \<Rightarrow> ('x media_world, string, durable_artifact) action" where
  "make_durable_file sha256_hex u client path label =
     and_then (with_error (\<lambda>error. ''attachment could not be read: '' @ io_error_text error)
         (on_audio (on_audio_fs (fs_read path)))) (\<lambda>bytes.
     and_then (if length bytes = 0 \<or> length bytes > bu_max_upload_bytes u
               then fail ''attachment is empty or exceeds the Blossom upload limit'' else ok ()) (\<lambda>_.
     and_then (on_ext (current_seconds client)) (\<lambda>now.
     and_then (on_ext (authorization u client (sha256_hex bytes) now)) (\<lambda>auth.
     and_then (on_ext (bc_upload client bytes (infer_media_type path) auth)) (\<lambda>descriptor.
     and_then (of_result (validate_public_url (bc_parse_url client) (bd_url descriptor))) (\<lambda>_.
       if bd_size descriptor \<noteq> of_nat (length bytes)
       then fail ''Blossom descriptor size does not match the attachment''
       else ok \<lparr>art_url = bd_url descriptor, art_sha256 = bd_sha256 descriptor,
                art_media_type = infer_media_type path, art_byte_count = bd_size descriptor,
                art_label = Some label\<rparr>))))))"

section \<open>Audio files are committed whole\<close>

definition audio_files :: "audio_store \<Rightarrow> string \<Rightarrow> string option" where
  "audio_files st = fs_files (au_fs st)"

lemma on_audio_fs_eq:
  "on_audio_fs m st = (case m (au_fs st) of (r, fs) \<Rightarrow> (r, st\<lparr>au_fs := fs\<rparr>))"
  by (simp add: on_audio_fs_def on_part_def)

text \<open>
  While the staged file is written and linked: other files are as before, and the destination is as
  before or, when it was free, holds exactly the staged bytes.
\<close>

definition committing :: "string \<Rightarrow> string \<Rightarrow> string \<Rightarrow> audio_store \<Rightarrow> bool \<Rightarrow> audio_store \<Rightarrow> bool" where
  "committing staged dest bytes st complete st' \<longleftrightarrow>
     (\<forall>q. q \<noteq> staged \<longrightarrow> q \<noteq> dest \<longrightarrow> audio_files st' q = audio_files st q)
     \<and> (audio_files st' dest = audio_files st dest
        \<or> (audio_files st dest = None \<and> audio_files st' dest = Some bytes))
     \<and> (complete \<longrightarrow> audio_files st' staged = Some bytes)"

definition committed :: "string \<Rightarrow> string \<Rightarrow> string \<Rightarrow> audio_store \<Rightarrow> audio_store \<Rightarrow> bool" where
  "committed staged dest bytes st st' \<longleftrightarrow>
     committing staged dest bytes st False st' \<and> audio_files st' dest \<noteq> None"

lemma commit_audio_yields:
  assumes "staged \<noteq> dest" and "audio_files st staged = Some []"
  shows "yields (\<lambda>s. s = st) (commit_audio staged dest bytes)
    (case_sum (\<lambda>_. committing staged dest bytes st False) (\<lambda>_. committed staged dest bytes st))"
  unfolding commit_audio_def
proof (intro yields_and_then)
  let ?C = "committing staged dest bytes st"
  let ?Q = "case_sum (\<lambda>_. ?C False) (\<lambda>_. committed staged dest bytes st)"
  show "yields (\<lambda>s. s = st) (on_audio_fs (fs_write_all staged bytes)) (case_sum (\<lambda>e. ?Q (Inl e)) (\<lambda>_. ?C True))"
    using assms
    by (auto simp: yields_def on_audio_fs_eq committing_def audio_files_def file_other(2)
        file_bytes_def fs_write_all_Inr split: prod.splits sum.splits)
  show "yields (?C True) (on_audio_fs fs_sync_all) (case_sum (\<lambda>e. ?Q (Inl e)) (\<lambda>_. ?C True))" for x :: unit
    by (auto simp: yields_def on_audio_fs_eq committing_def audio_files_def file_untouched(2)
        split: prod.splits sum.splits)
  show "yields (?C True) (link_audio staged dest)
      (case_sum (\<lambda>e. ?Q (Inl e)) (\<lambda>_. committed staged dest bytes st))" for x :: unit
  proof (rule yieldsI)
    fix s r s' assume s: "?C True s" and link: "link_audio staged dest s = (r, s')"
    obtain h fs where h: "fs_hard_link staged dest (au_fs s) = (h, fs)" by force
    show "case_sum (\<lambda>e. ?Q (Inl e)) (\<lambda>_. committed staged dest bytes st) r s'"
    proof (cases h)
      case (Inl e)
      then show ?thesis
        using link h s fs_hard_link_Inl [of staged dest "au_fs s" e fs]
        by (cases e) (auto simp: link_audio_def on_audio_fs_eq committing_def committed_def audio_files_def)
    next
      case (Inr u)
      then show ?thesis
        using link h s fs_hard_link_Inr [of staged dest "au_fs s" u fs] assms(1)
        by (auto simp: link_audio_def on_audio_fs_eq committing_def committed_def audio_files_def)
    qed
  qed
  show "yields (committed staged dest bytes st) (on_audio_fs (fs_remove_file staged))
      (case_sum (\<lambda>e. ?Q (Inl e)) (\<lambda>_. committed staged dest bytes st))" for x :: unit
    using assms(1)
    by (auto simp: yields_def on_audio_fs_eq committing_def committed_def audio_files_def file_other(3)
        split: prod.splits sum.splits)
  show "yields (committed staged dest bytes st) (on_audio_fs (fs_open_dir (path_parent dest)))
      (case_sum (\<lambda>e. ?Q (Inl e)) (\<lambda>_. committed staged dest bytes st))" for x :: unit
    by (auto simp: yields_def on_audio_fs_eq committing_def committed_def audio_files_def file_untouched(3)
        split: prod.splits sum.splits)
  show "yields (committed staged dest bytes st) (on_audio_fs fs_sync_all) ?Q" for x :: unit
    by (auto simp: yields_def on_audio_fs_eq committing_def committed_def audio_files_def file_untouched(2)
        split: prod.splits sum.splits)
qed

lemma path_prefix_last: "path_prefix p = [] \<or> last (path_prefix p) = CHR ''/''"
  by (simp add: path_prefix_def)

lemma path_file_name_join:
  assumes "CHR ''/'' \<notin> set x" and "x \<noteq> []"
  shows "path_file_name (path_join p x) = x"
proof -
  have join: "path_join p x = path_prefix p @ x"
    using assms by (intro path_join_prefix) (cases x, auto simp: starts_with_iff)
  have "takeWhile (\<lambda>c. c \<noteq> CHR ''/'') (rev (path_prefix p)) = []"
    using path_prefix_last [of p] by (cases "rev (path_prefix p)") (auto simp: last_rev [symmetric] hd_rev)
  then show ?thesis
    using assms(1) unfolding path_file_name_def join rev_append
    by (subst takeWhile_append2) auto
qed

lemma path_file_name_no_slash: "CHR ''/'' \<notin> set (path_file_name path)"
  by (auto simp: path_file_name_def dest: set_takeWhileD)

lemma digits_no_slash: "CHR ''/'' \<notin> set (nat_to_string n)" "CHR ''/'' \<notin> set (u64_to_string w)"
  using nat_to_string_digits [of "CHR ''/''" n] nat_to_string_digits [of "CHR ''/''" "unat w"]
  by (auto simp: u64_to_string_def is_ascii_digit_def)

definition audio_staged_name :: "string \<Rightarrow> audio_store \<Rightarrow> string" where
  "audio_staged_name dest st =
     path_join (path_parent dest)
        (''.'' @ path_file_name dest @ ''.'' @ nat_to_string (au_pid st) @ ''.''
         @ u64_to_string (au_staged_id st) @ ''.tmp'')"

lemma audio_staged_differs: "audio_staged_name dest st \<noteq> dest"
proof
  let ?x = "''.'' @ path_file_name dest @ ''.'' @ nat_to_string (au_pid st) @ ''.''
         @ u64_to_string (au_staged_id st) @ ''.tmp''"
  assume "audio_staged_name dest st = dest"
  then have "path_file_name dest = ?x"
    using path_file_name_join [of ?x "path_parent dest"] path_file_name_no_slash [of dest] digits_no_slash
    by (auto simp: audio_staged_name_def)
  then have "length (path_file_name dest) = length ?x" by (rule arg_cong)
  then show False by simp
qed

lemma write_atomic_effect:
  assumes "write_atomic dest bytes st = (r, st')"
  defines "staged \<equiv> audio_staged_name dest st"
  shows "committing staged dest bytes st False st'"
    and "r = Inr () \<Longrightarrow> audio_files st' dest \<noteq> None"
proof -
  let ?st1 = "st\<lparr>au_staged_id := au_staged_id st + 1\<rparr>"
  have first: "audio_staged_path dest st = (Inr staged, ?st1)"
    by (simp add: audio_staged_path_def staged_def audio_staged_name_def)
  have away: "staged \<noteq> dest" unfolding staged_def by (rule audio_staged_differs)
  obtain c fs where c: "fs_create_new staged (au_fs st) = (c, fs)" by force
  have "committing staged dest bytes st False st' \<and> (r = Inr () \<longrightarrow> audio_files st' dest \<noteq> None)"
  proof (cases c)
    case (Inl e)
    then have "r \<noteq> Inr () \<and> st' = ?st1\<lparr>au_fs := fs\<rparr>"
      using assms(1) c first
      by (auto simp: write_atomic_def and_then_def with_error_def on_audio_fs_eq split: prod.splits)
    then show ?thesis
      using file_other(1) [OF c] away by (auto simp: committing_def audio_files_def)
  next
    case (Inr u)
    let ?st2 = "?st1\<lparr>au_fs := fs\<rparr>"
    have two: "audio_files ?st2 staged = Some []" "\<And>q. q \<noteq> staged \<Longrightarrow> audio_files ?st2 q = audio_files st q"
      using fs_create_new_Inr [of staged "au_fs st" u fs] file_other(1) [OF c] c Inr
      by (simp_all add: audio_files_def)
    obtain d st3 where d: "commit_audio staged dest bytes ?st2 = (d, st3)" by force
    have post: "case_sum (\<lambda>_. committing staged dest bytes ?st2 False) (\<lambda>_. committed staged dest bytes ?st2) d st3"
      using yieldsD [OF commit_audio_yields [OF away two(1)] refl d] .
    have base: "committing staged dest bytes ?st2 False s \<Longrightarrow> committing staged dest bytes st False s" for s
      using two(2) away by (auto simp: committing_def)
    show ?thesis
    proof (cases d)
      case (Inl e)
      have "r \<noteq> Inr () \<and> st' = snd (on_audio_fs (fs_remove_file staged) st3)"
        using assms(1) c Inr first d Inl
        by (auto simp: write_atomic_def and_then_def with_error_def on_audio_fs_eq split: prod.splits)
      then show ?thesis
        using post base [of st3] Inl file_other(3) [of staged "au_fs st3"] away
        by (auto simp: on_audio_fs_eq committing_def audio_files_def split: prod.splits)
    next
      case (Inr v)
      have "r = Inr () \<and> st' = st3"
        using assms(1) c \<open>c = Inr u\<close> first d Inr
        by (auto simp: write_atomic_def and_then_def with_error_def on_audio_fs_eq)
      then show ?thesis using post base [of st3] Inr by (auto simp: committed_def)
    qed
  qed
  then show "committing staged dest bytes st False st'" and "r = Inr () \<Longrightarrow> audio_files st' dest \<noteq> None"
    by auto
qed

text \<open>
  C29: audio is committed whole and never overwritten. However the file system fails, after
  \<open>write_atomic\<close> the destination still holds the audio it held before, or it was free and now is
  either still free or holds exactly the new bytes; success means it holds audio; and every other file
  except the staged one is untouched.
\<close>

theorem write_atomic_whole:
  assumes "write_atomic dest bytes st = (r, st')"
  shows "(\<forall>old. audio_files st dest = Some old \<longrightarrow> audio_files st' dest = Some old)
    \<and> (audio_files st dest = None \<longrightarrow> audio_files st' dest \<in> {None, Some bytes})
    \<and> (r = Inr () \<longrightarrow> audio_files st' dest \<noteq> None)
    \<and> (\<forall>q. q \<noteq> dest \<longrightarrow> q \<noteq> audio_staged_name dest st \<longrightarrow> audio_files st' q = audio_files st q)"
  using write_atomic_effect [OF assms] by (auto simp: committing_def)

definition sample_audio_store :: audio_store where
  "sample_audio_store =
     \<lparr>au_fs = \<lparr>fs_files = [''/w/r1/speech.mp3'' \<mapsto> ''first''], fs_faults = [None, Some (''disk full'', 2)]\<rparr>,
      au_staged_id = 1, au_pid = 7\<rparr>"

theorem write_atomic_whole_witness:
  "audio_files (snd (write_atomic ''/w/r1/speech.mp3'' ''second'' sample_audio_store)) ''/w/r1/speech.mp3''
   = Some ''first''"
  using write_atomic_whole [OF surjective_pairing [of "write_atomic ''/w/r1/speech.mp3'' ''second'' sample_audio_store"]]
  by (simp add: sample_audio_store_def audio_files_def)

end
