(* ===== verification/Runner_Laws.thy ===== *)
theory Runner_Laws
  imports Runner
begin

text \<open>
  The runner's phase machine and its behaviour on every environment that keeps the capability contracts
  (locale \<open>producer_environment\<close>): the effect of one \<open>admit\<close> or \<open>advance\<close> on the durable jobs, faults
  included, and invariants of arbitrary call histories.
\<close>

section \<open>The phase machine\<close>

text \<open>
  The transitions a job may take, with what each of them guarantees. \<open>job\<close> supplies the frozen request,
  author and time.
\<close>

inductive phase_step :: "third_party \<Rightarrow> job_record \<Rightarrow> job_phase \<Rightarrow> job_phase \<Rightarrow> bool"
  for tp job where
  synthesize: "starts_with (la_media_type audio) ''audio/'' \<Longrightarrow> is_sha256 (la_sha256 audio) \<Longrightarrow>
    la_byte_count audio > 0 \<Longrightarrow> phase_step tp job Admitted (Synthesized audio)"
| upload: "art_sha256 durable = la_sha256 audio \<Longrightarrow> art_byte_count durable = la_byte_count audio \<Longrightarrow>
    art_media_type durable = la_media_type audio \<Longrightarrow>
    validate_spoken_item (tp_parse_key tp) (frozen_item job durable) = Inr () \<Longrightarrow>
    phase_step tp job (Synthesized audio) (ArtifactsDurable (frozen_item job durable))"
| authorized: "is_event_id event_id \<Longrightarrow>
    phase_step tp job (ArtifactsDurable item)
      (AuthorAuthorized item \<lparr>me_event_id = event_id, me_receipt_id = None\<rparr>)"
| request_membership: "phase_step tp job (ArtifactsDurable item) (AuthorizationAccepted item receipt_id)"
| membership: "is_event_id event_id \<Longrightarrow>
    phase_step tp job (AuthorizationAccepted item receipt_id)
      (AuthorAuthorized item \<lparr>me_event_id = event_id, me_receipt_id = Some receipt_id\<rparr>)"
| accept: "phase_step tp job (AuthorAuthorized item evidence) (PublicationAccepted item (Some evidence) receipt_id)"
| publish: "is_event_id event_id \<Longrightarrow>
    phase_step tp job (PublicationAccepted item evidence receipt_id) (Published item evidence receipt_id event_id)"

inductive_simps phase_step_simps:
  "phase_step tp job Admitted p"
  "phase_step tp job (Synthesized audio) p"
  "phase_step tp job (ArtifactsDurable item) p"
  "phase_step tp job (AuthorizationAccepted item receipt_id) p"
  "phase_step tp job (AuthorAuthorized item evidence) p"
  "phase_step tp job (PublicationAccepted item m receipt_id) p"
  "phase_step tp job (Published item m receipt_id event_id) p"

definition phase_rank :: "job_phase \<Rightarrow> nat" where
  "phase_rank phase =
     (case phase of Admitted \<Rightarrow> 0 | Synthesized _ \<Rightarrow> 1 | ArtifactsDurable _ \<Rightarrow> 2
      | AuthorizationAccepted _ _ \<Rightarrow> 3 | AuthorAuthorized _ _ \<Rightarrow> 4 | PublicationAccepted _ _ _ \<Rightarrow> 5
      | Published _ _ _ _ \<Rightarrow> 6)"

lemma phase_step_rank: "phase_step tp job p q \<Longrightarrow> phase_rank p < phase_rank q"
  by (induction rule: phase_step.induct) (simp_all add: phase_rank_def)

lemma phase_step_same_job:
  "phase_step tp job p q \<Longrightarrow> jr_author job = jr_author job' \<Longrightarrow> jr_created_at job = jr_created_at job' \<Longrightarrow>
   jr_request job = jr_request job' \<Longrightarrow> phase_step tp job' p q"
  by (induction rule: phase_step.induct) (auto simp: phase_step_simps frozen_item_def)

text \<open>What a journalled job always satisfies.\<close>

definition frozen_for :: "third_party \<Rightarrow> job_record \<Rightarrow> frozen_spoken_item \<Rightarrow> bool" where
  "frozen_for tp job item \<longleftrightarrow>
     (\<exists>audio. item = frozen_item job audio) \<and> validate_spoken_item (tp_parse_key tp) item = Inr ()"

definition phase_ok :: "third_party \<Rightarrow> job_record \<Rightarrow> job_phase \<Rightarrow> bool" where
  "phase_ok tp job phase \<longleftrightarrow>
     (case phase of
        Admitted \<Rightarrow> True
      | Synthesized audio \<Rightarrow>
          starts_with (la_media_type audio) ''audio/'' \<and> is_sha256 (la_sha256 audio) \<and> la_byte_count audio > 0
      | ArtifactsDurable item \<Rightarrow> frozen_for tp job item
      | AuthorizationAccepted item receipt_id \<Rightarrow> frozen_for tp job item
      | AuthorAuthorized item evidence \<Rightarrow> frozen_for tp job item \<and> is_event_id (me_event_id evidence)
      | PublicationAccepted item evidence receipt_id \<Rightarrow>
          frozen_for tp job item \<and> is_some_and evidence (\<lambda>m. is_event_id (me_event_id m))
      | Published item evidence receipt_id event_id \<Rightarrow>
          frozen_for tp job item \<and> is_some_and evidence (\<lambda>m. is_event_id (me_event_id m))
          \<and> is_event_id event_id)"

definition job_ok :: "third_party \<Rightarrow> job_record \<Rightarrow> bool" where
  "job_ok tp job \<longleftrightarrow>
     valid_request_id (job_id job) \<and> request_digest tp (jr_request job) = Inr (jr_request_digest job)
     \<and> phase_ok tp job (jr_phase job)"

lemma phase_ok_step: "phase_ok tp job p \<Longrightarrow> phase_step tp job p q \<Longrightarrow> phase_ok tp job q"
  by (auto simp: phase_ok_def frozen_for_def elim!: phase_step.cases)

lemma phase_ok_update [simp]: "phase_ok tp (job\<lparr>jr_phase := q\<rparr>) p = phase_ok tp job p"
  by (simp add: phase_ok_def frozen_for_def frozen_item_def split: job_phase.split)

lemma job_ok_step: "job_ok tp job \<Longrightarrow> phase_step tp job (jr_phase job) q \<Longrightarrow> job_ok tp (job\<lparr>jr_phase := q\<rparr>)"
  using phase_ok_step by (auto simp: job_ok_def)

lemma job_ok_admitted:
  "valid_request_id (pr_request_id request) \<Longrightarrow> request_digest tp request = Inr digest \<Longrightarrow>
   job_ok tp (admitted_job request digest author created_at)"
  by (simp add: job_ok_def admitted_job_def phase_ok_def)

section \<open>The runner on any environment that keeps the contracts\<close>

text \<open>
  What the runner needs of its four capabilities: a job journal, and that none of the other operations
  touches the journal's map.
\<close>

locale producer_environment =
  job_journal "po_load ops" "po_insert ops" "po_save ops" jobs sound
  for ops :: "'w producer_ops" and jobs :: "'w \<Rightarrow> string \<Rightarrow> job_record option" and sound :: "'w \<Rightarrow> bool" +
  fixes tp :: third_party
  assumes create_dir_keeps: "sound w \<Longrightarrow> po_create_dir_all ops p w = (r1, w') \<Longrightarrow> sound w' \<and> jobs w' = jobs w"
    and read_keeps: "sound w \<Longrightarrow> po_read ops p w = (r2, w') \<Longrightarrow> sound w' \<and> jobs w' = jobs w"
    and synthesize_keeps: "sound w \<Longrightarrow> valid_request_id (pr_request_id rq) \<Longrightarrow>
      po_synthesize ops rq (audio_path ops (pr_request_id rq)) w = (r3, w') \<Longrightarrow> sound w' \<and> jobs w' = jobs w"
    and make_durable_keeps: "sound w \<Longrightarrow> po_make_durable ops audio w = (r4, w') \<Longrightarrow> sound w' \<and> jobs w' = jobs w"
    and authorize_keeps: "sound w \<Longrightarrow> po_authorize ops i a t w = (r5, w') \<Longrightarrow> sound w' \<and> jobs w' = jobs w"
    and resume_authorization_keeps: "sound w \<Longrightarrow> po_resume_authorization ops n a w = (r6, w') \<Longrightarrow>
      sound w' \<and> jobs w' = jobs w"
    and accept_keeps: "sound w \<Longrightarrow> po_accept ops item w = (r7, w') \<Longrightarrow> sound w' \<and> jobs w' = jobs w"
    and resume_keeps: "sound w \<Longrightarrow> po_resume ops n item w = (r8, w') \<Longrightarrow> sound w' \<and> jobs w' = jobs w"
begin

definition holds :: "(string \<Rightarrow> job_record option) \<Rightarrow> 'w \<Rightarrow> bool" where
  "holds J w \<longleftrightarrow> sound w \<and> jobs w = J"

lemma holds_ops:
  "yields (holds J) (po_create_dir_all ops p) (\<lambda>_. holds J)"
  "yields (holds J) (po_read ops p) (\<lambda>_. holds J)"
  "valid_request_id (pr_request_id rq) \<Longrightarrow>
     yields (holds J) (po_synthesize ops rq (audio_path ops (pr_request_id rq))) (\<lambda>_. holds J)"
  "yields (holds J) (po_make_durable ops audio) (\<lambda>_. holds J)"
  "yields (holds J) (po_authorize ops i a t) (\<lambda>_. holds J)"
  "yields (holds J) (po_resume_authorization ops n a) (\<lambda>_. holds J)"
  "yields (holds J) (po_accept ops item) (\<lambda>_. holds J)"
  "yields (holds J) (po_resume ops n item) (\<lambda>_. holds J)"
  unfolding yields_def holds_def
  by (metis create_dir_keeps, metis read_keeps, metis synthesize_keeps, metis make_durable_keeps,
      metis authorize_keeps, metis resume_authorization_keeps, metis accept_keeps, metis resume_keeps)

lemma yields_capability:
  assumes "yields (holds J) m (\<lambda>_. holds J)" and "\<And>x. yields (holds J) (f x) Q"
    and "\<And>e w. holds J w \<Longrightarrow> Q (Inl e) w"
  shows "yields (holds J) (and_then (with_error g m) f) Q"
proof (rule yields_and_then [where R = "\<lambda>_. holds J"])
  show "yields (holds J) (with_error g m) (case_sum (\<lambda>e. Q (Inl e)) (\<lambda>_. holds J))"
    by (rule yields_with_error, rule yields_weaken [OF assms(1)])
      (auto simp: assms(3) split: sum.splits)
qed (rule assms(2))

lemma next_phase_yields:
  assumes "job_id job = i" and "valid_request_id i" and "\<not> is_published (jr_phase job)"
  shows "yields (holds J) (next_phase tp ops i job)
    (case_sum (\<lambda>_. holds J) (\<lambda>p w. holds J w \<and> phase_step tp job (jr_phase job) p))"
    (is "yields _ _ ?Q")
proof (cases "jr_phase job")
  case Admitted
  let ?A = "case_sum (\<lambda>_. holds J) (\<lambda>p w. holds J w \<and> phase_step tp job Admitted p)"
  have synth: "yields (holds J) (po_synthesize ops (jr_request job) (audio_path ops i)) (\<lambda>_. holds J)"
    using holds_ops(3) [of "jr_request job" J] assms(1,2) by simp
  have check: "yields (holds J) (and_then (validate_local_audio tp ops audio (audio_path ops i))
      (\<lambda>_. ok (Synthesized audio))) ?A" for audio
  proof (rule yields_and_then [where R = "\<lambda>_ w. holds J w
      \<and> phase_step tp job Admitted (Synthesized audio)"])
    show "yields (holds J) (validate_local_audio tp ops audio (audio_path ops i))
        (case_sum (\<lambda>e. ?A (Inl e)) (\<lambda>_ w. holds J w \<and> phase_step tp job Admitted (Synthesized audio)))"
      unfolding validate_local_audio_def
      by (rule yields_capability [OF holds_ops(2)])
        (auto simp: local_audio_valid_def phase_step_simps intro: yields_of_result)
  qed (auto intro: yields_of_result)
  show ?thesis
    unfolding next_phase_def Admitted job_phase.case advance_admitted_def
    by (rule yields_capability [OF holds_ops(1) yields_capability [OF synth check]]) simp_all
next
  case (Synthesized audio)
  show ?thesis
    unfolding next_phase_def Synthesized job_phase.case advance_synthesized_def
  proof (rule yields_capability [OF holds_ops(4)])
    fix durable
    show "yields (holds J) (if art_sha256 durable \<noteq> la_sha256 audio \<or> art_byte_count durable \<noteq> la_byte_count audio
          \<or> art_media_type durable \<noteq> la_media_type audio
       then fail (capability ''artifact_upload'' ''durable metadata does not match synthesized bytes'')
       else (let item = frozen_item job durable in
          and_then (of_result (map_err (\<lambda>error. capability ''contract_freeze'' (compose_error_text error))
                      (validate_spoken_item (tp_parse_key tp) item)))
            (\<lambda>_. ok (ArtifactsDurable item)))) (case_sum (\<lambda>_. holds J)
              (\<lambda>p w. holds J w \<and> phase_step tp job (Synthesized audio) p))"
      by (cases "validate_spoken_item (tp_parse_key tp) (frozen_item job durable)")
        (auto simp: yields_def and_then_def of_result_def phase_step_simps)
  qed simp
next
  case (ArtifactsDurable item)
  show ?thesis
    unfolding next_phase_def ArtifactsDurable job_phase.case advance_durable_def
    by (rule yields_capability [OF holds_ops(5)])
      (auto simp: phase_step_simps intro!: yields_of_result split: authorization_step.split)
next
  case (AuthorizationAccepted item receipt_id)
  show ?thesis
    unfolding next_phase_def AuthorizationAccepted job_phase.case advance_authorization_def
    by (rule yields_capability [OF holds_ops(6)]) (auto simp: phase_step_simps intro!: yields_of_result)
next
  case (AuthorAuthorized item evidence)
  show ?thesis
    unfolding next_phase_def AuthorAuthorized job_phase.case advance_authorized_def
    by (rule yields_capability [OF holds_ops(7)]) (auto simp: phase_step_simps intro!: yields_of_result)
next
  case (PublicationAccepted item evidence receipt_id)
  show ?thesis
    unfolding next_phase_def PublicationAccepted job_phase.case advance_publication_def
    by (rule yields_capability [OF holds_ops(8)]) (auto simp: phase_step_simps intro!: yields_of_result)
next
  case Published
  then show ?thesis using assms(3) by (simp add: is_published_def)
qed

end

text \<open>Calls on the runner, in any order and with any outcome.\<close>

datatype runner_call = CallAdmit producer_request string u64 | CallAdvance string

definition run_call :: "third_party \<Rightarrow> 'w producer_ops \<Rightarrow> runner_call \<Rightarrow> 'w \<Rightarrow> 'w" where
  "run_call tp ops call w =
     (case call of
        CallAdmit request author created_at \<Rightarrow> snd (admit tp ops request author created_at w)
      | CallAdvance request_id \<Rightarrow> snd (advance tp ops request_id w))"

definition run_calls :: "third_party \<Rightarrow> 'w producer_ops \<Rightarrow> runner_call list \<Rightarrow> 'w \<Rightarrow> 'w" where
  "run_calls tp ops calls w = fold (run_call tp ops) calls w"

definition same_frozen :: "job_record \<Rightarrow> job_record \<Rightarrow> bool" where
  "same_frozen a b \<longleftrightarrow>
     jr_schema_version a = jr_schema_version b \<and> jr_request_digest a = jr_request_digest b
     \<and> jr_author a = jr_author b \<and> jr_created_at a = jr_created_at b \<and> jr_request a = jr_request b"

context producer_environment
begin

lemma journal_calls:
  "yields (holds J) (with_error JournalFailure (po_load ops i))
     (case_sum (\<lambda>_. holds J) (\<lambda>found w. holds J w \<and> found = J i))"
  "yields (holds J) (with_error JournalFailure (po_save ops job))
     (case_sum (\<lambda>_ w. holds J w \<or> holds (J(job_id job \<mapsto> job)) w) (\<lambda>_. holds (J(job_id job \<mapsto> job))))"
  by (fastforce simp: yields_def holds_def elim!: with_error_cases
      dest: load_keeps load_reads save_sound save_done save_failed)+

lemma insert_call:
  "yields (holds J) (with_error JournalFailure (po_insert ops job))
     (case_sum (\<lambda>_ w. holds J w \<or> (J (job_id job) = None \<and> holds (J(job_id job \<mapsto> job)) w))
       (case_insert_outcome (\<lambda>w. J (job_id job) = None \<and> holds (J(job_id job \<mapsto> job)) w)
          (\<lambda>w. holds J w \<and> J (job_id job) \<noteq> None)))"
  by (fastforce simp: yields_def holds_def elim!: with_error_cases split: insert_outcome.split
      dest: insert_sound insert_new insert_taken insert_failed)

text \<open>The result and the effect of one call.\<close>

definition advanced :: "(string \<Rightarrow> job_record option) \<Rightarrow> string \<Rightarrow> job_record \<Rightarrow> bool" where
  "advanced J i job' \<longleftrightarrow>
     (\<exists>job q. J i = Some job \<and> phase_step tp job (jr_phase job) q \<and> job' = job\<lparr>jr_phase := q\<rparr>)"

definition advance_post ::
  "(string \<Rightarrow> job_record option) \<Rightarrow> string \<Rightarrow> producer_error + job_record \<Rightarrow> 'w \<Rightarrow> bool" where
  "advance_post J i =
     case_sum (\<lambda>_ w. holds J w \<or> (\<exists>job'. advanced J i job' \<and> holds (J(i \<mapsto> job')) w))
       (\<lambda>job' w. (is_published (jr_phase job') \<and> J i = Some job' \<and> holds J w)
          \<or> (advanced J i job' \<and> holds (J(i \<mapsto> job')) w))"

lemma advance_post_Inl: "holds J w \<Longrightarrow> advance_post J i (Inl e) w"
  by (simp add: advance_post_def)

lemma save_phase_yields:
  assumes "job_id job = i" and "J i = Some job"
  shows "yields (\<lambda>w. holds J w \<and> phase_step tp job (jr_phase job) p)
    (let job = job\<lparr>jr_phase := p\<rparr> in and_then (with_error JournalFailure (po_save ops job)) (\<lambda>_. ok job))
    (advance_post J i)"
proof (cases "phase_step tp job (jr_phase job) p")
  case True
  then have a: "advanced J i (job\<lparr>jr_phase := p\<rparr>)" using assms(2) by (auto simp: advanced_def)
  show ?thesis
    unfolding Let_def
  proof (rule yields_and_then [where R = "\<lambda>_. holds (J(i \<mapsto> job\<lparr>jr_phase := p\<rparr>))"])
    show "yields (\<lambda>w. holds J w \<and> phase_step tp job (jr_phase job) p)
        (with_error JournalFailure (po_save ops (job\<lparr>jr_phase := p\<rparr>)))
        (case_sum (\<lambda>e. advance_post J i (Inl e)) (\<lambda>_. holds (J(i \<mapsto> job\<lparr>jr_phase := p\<rparr>))))"
      by (rule yields_weaken [OF journal_calls(2)])
        (use a assms(1) in \<open>auto simp: advance_post_def split: sum.splits\<close>)
  qed (use a in \<open>auto simp: advance_post_def intro: yields_of_result\<close>)
qed (simp add: yields_def)

lemma advance_found_yields:
  assumes "valid_request_id i" and "J i = Some job"
  shows "yields (holds J) (advance_found tp ops i job) (advance_post J i)"
proof (cases "is_published (jr_phase job) \<or> (\<forall>w. \<not> holds J w)")
  case True
  then show ?thesis using assms(2) by (auto simp: advance_found_def yields_def advance_post_def)
next
  case False
  then have job: "job_id job = i" "\<not> is_published (jr_phase job)"
    using assms(2) jobs_keyed by (auto simp: holds_def)
  show ?thesis
    unfolding advance_found_def if_not_P [OF job(2)]
  proof (rule yields_and_then [OF _ save_phase_yields [of job i J, OF job(1) assms(2)]])
    show "yields (holds J) (next_phase tp ops i job)
        (case_sum (\<lambda>e. advance_post J i (Inl e)) (\<lambda>p w. holds J w \<and> phase_step tp job (jr_phase job) p))"
      by (rule yields_weaken [OF next_phase_yields [OF job(1) assms(1) job(2)]])
        (auto simp: advance_post_Inl split: sum.splits)
  qed
qed

lemma advance_yields: "yields (holds J) (advance tp ops i) (advance_post J i)"
proof (cases "valid_request_id i")
  case False
  then show ?thesis
    by (auto simp: advance_def yields_def validate_request_id_def valid_request_id_def advance_post_Inl
        elim!: and_then_cases)
next
  case True
  have "yields (holds J) (and_then (with_error JournalFailure (po_load ops i)) (\<lambda>found. case found of
      None \<Rightarrow> fail (JobNotFound i) | Some job \<Rightarrow> advance_found tp ops i job)) (advance_post J i)"
  proof (rule yields_and_then)
    show "yields (holds J) (with_error JournalFailure (po_load ops i))
        (case_sum (\<lambda>e. advance_post J i (Inl e)) (\<lambda>found w. holds J w \<and> found = J i))"
      by (rule yields_weaken [OF journal_calls(1)]) (auto simp: advance_post_Inl split: sum.splits)
    fix f
    show "yields (\<lambda>w. holds J w \<and> f = J i) (case f of None \<Rightarrow> fail (JobNotFound i)
        | Some job \<Rightarrow> advance_found tp ops i job) (advance_post J i)"
    proof (cases f)
      case None
      then show ?thesis by (auto simp: yields_def advance_post_Inl)
    next
      case (Some job)
      have "yields (holds J) (advance_found tp ops i job) (advance_post J i)" if "J i = Some job"
        using advance_found_yields [of i J job, OF True that] .
      then show ?thesis by (cases "J i = Some job") (auto simp: Some yields_def)
    qed
  qed
  then show ?thesis
    using True by (simp add: advance_def yields_def and_then_def of_result_def validate_request_id_def
        valid_request_id_def)
qed

end

context producer_environment
begin

definition admissible :: "(string \<Rightarrow> job_record option) \<Rightarrow> producer_request \<Rightarrow> string \<Rightarrow> bool" where
  "admissible J request digest \<longleftrightarrow>
     valid_request_id (pr_request_id request) \<and> request_digest tp request = Inr digest
     \<and> J (pr_request_id request) = None"

definition admit_post ::
  "(string \<Rightarrow> job_record option) \<Rightarrow> producer_request \<Rightarrow> string \<Rightarrow> u64
   \<Rightarrow> producer_error + job_record \<Rightarrow> 'w \<Rightarrow> bool" where
  "admit_post J request author created_at =
     case_sum
       (\<lambda>e w. holds J w \<or> (\<exists>digest. admissible J request digest
             \<and> holds (J(pr_request_id request \<mapsto> admitted_job request digest author created_at)) w))
       (\<lambda>job w. request_digest tp request = Inr (jr_request_digest job) \<and> jr_author job = author
          \<and> ((J (pr_request_id request) = Some job \<and> holds J w)
             \<or> (admissible J request (jr_request_digest job)
                \<and> job = admitted_job request (jr_request_digest job) author created_at
                \<and> holds (J(pr_request_id request \<mapsto> job)) w)))"

lemma admit_post_Inl: "holds J w \<Longrightarrow> admit_post J request author created_at (Inl e) w"
  by (simp add: admit_post_def)

lemma admit_new_yields:
  assumes "admissible J request digest"
  shows "yields (holds J) (admit_new ops request digest author created_at)
    (admit_post J request author created_at)"
proof -
  let ?i = "pr_request_id request"
  let ?job = "admitted_job request digest author created_at"
  have job: "job_id ?job = ?i" "jr_request_digest ?job = digest" "jr_author ?job = author"
    by (simp_all add: admitted_job_def)
  have d: "request_digest tp request = Inr digest" "J ?i = None"
    using assms by (simp_all add: admissible_def)
  show ?thesis
    unfolding admit_new_def Let_def
  proof (rule yields_and_then)
    show "yields (holds J) (with_error JournalFailure (po_insert ops ?job))
        (case_sum (\<lambda>e. admit_post J request author created_at (Inl e))
           (case_insert_outcome (\<lambda>w. holds (J(?i \<mapsto> ?job)) w) (\<lambda>w. False)))"
      by (rule yields_weaken [OF insert_call [of J ?job]])
        (use assms d in \<open>auto simp: job admit_post_def split: sum.splits insert_outcome.splits\<close>)
    fix outcome
    show "yields (case_insert_outcome (\<lambda>w. holds (J(?i \<mapsto> ?job)) w) (\<lambda>w. False) outcome)
        (case outcome of Inserted \<Rightarrow> ok ?job
         | AlreadyExists \<Rightarrow> and_then (with_error JournalFailure (po_load ops (job_id ?job))) (\<lambda>found.
             case found of None \<Rightarrow> fail (JobNotFound (job_id ?job))
             | Some existing \<Rightarrow> of_result (same_request existing digest author)))
        (admit_post J request author created_at)"
      using assms d by (cases outcome) (auto simp: job yields_def admit_post_def)
  qed
qed

lemma admit_yields:
  "yields (holds J) (admit tp ops request author created_at) (admit_post J request author created_at)"
proof (cases "valid_request_id (pr_request_id request) \<and> (\<exists>digest. request_digest tp request = Inr digest)")
  case False
  then show ?thesis
    by (cases "request_digest tp request")
      (auto simp: admit_def yields_def validate_request_id_def valid_request_id_def admit_post_Inl
        elim!: and_then_cases)
next
  case True
  then obtain digest where d: "request_digest tp request = Inr digest" "valid_request_id (pr_request_id request)"
    by blast
  let ?i = "pr_request_id request"
  let ?post = "admit_post J request author created_at"
  have "yields (holds J) (and_then (with_error JournalFailure (po_load ops ?i)) (\<lambda>found. case found of
      Some existing \<Rightarrow> of_result (same_request existing digest author)
    | None \<Rightarrow> admit_new ops request digest author created_at)) ?post"
  proof (rule yields_and_then)
    show "yields (holds J) (with_error JournalFailure (po_load ops ?i))
        (case_sum (\<lambda>e. ?post (Inl e)) (\<lambda>found w. holds J w \<and> found = J ?i))"
      by (rule yields_weaken [OF journal_calls(1)]) (auto simp: admit_post_Inl split: sum.splits)
    fix f
    show "yields (\<lambda>w. holds J w \<and> f = J ?i) (case f of
        Some existing \<Rightarrow> of_result (same_request existing digest author)
      | None \<Rightarrow> admit_new ops request digest author created_at) ?post"
    proof (cases f)
      case None
      then show ?thesis
        using admit_new_yields [of J request digest author created_at] d
        by (auto simp: admissible_def yields_def)
    next
      case (Some existing)
      then show ?thesis
        using d(1) by (auto simp: yields_def same_request_def admit_post_def split: if_splits)
    qed
  qed
  then show ?thesis
    using d by (simp add: admit_def yields_def and_then_def of_result_def validate_request_id_def
        valid_request_id_def)
qed

section \<open>Histories of calls\<close>

definition call_step :: "(string \<Rightarrow> job_record option) \<Rightarrow> (string \<Rightarrow> job_record option) \<Rightarrow> bool" where
  "call_step J J' \<longleftrightarrow>
     J' = J
     \<or> (\<exists>request author created_at digest. admissible J request digest
          \<and> J' = J(pr_request_id request \<mapsto> admitted_job request digest author created_at))
     \<or> (\<exists>i job'. advanced J i job' \<and> J' = J(i \<mapsto> job'))"

lemma admit_call_step:
  assumes "admit_post J request author created_at r w"
  shows "\<exists>J'. holds J' w \<and> call_step J J'"
proof -
  have "holds J w \<or> (\<exists>digest. admissible J request digest
      \<and> holds (J(pr_request_id request \<mapsto> admitted_job request digest author created_at)) w)"
  proof (cases r)
    case (Inl e)
    then show ?thesis using assms by (simp add: admit_post_def)
  next
    case (Inr job)
    then consider "holds J w" | "admissible J request (jr_request_digest job)"
      "job = admitted_job request (jr_request_digest job) author created_at"
      "holds (J(pr_request_id request \<mapsto> job)) w"
      using assms by (auto simp: admit_post_def)
    then show ?thesis
    proof cases
      case 2
      from 2(3) [unfolded arg_cong [OF 2(2), of Some]] 2(1) show ?thesis by blast
    qed simp
  qed
  then show ?thesis unfolding call_step_def by blast
qed

lemma advance_call_step:
  assumes "advance_post J i r w"
  shows "\<exists>J'. holds J' w \<and> call_step J J'"
proof -
  have "holds J w \<or> (\<exists>job'. advanced J i job' \<and> holds (J(i \<mapsto> job')) w)"
    using assms by (cases r) (auto simp: advance_post_def)
  then show ?thesis unfolding call_step_def by blast
qed

lemma run_call_effect:
  assumes "holds J w"
  shows "\<exists>J'. holds J' (run_call tp ops call w) \<and> call_step J J'"
proof (cases call)
  case (CallAdmit request author created_at)
  then show ?thesis
    using admit_call_step [OF yieldsD [OF admit_yields assms surjective_pairing]] by (simp add: run_call_def)
next
  case (CallAdvance i)
  then show ?thesis
    using advance_call_step [OF yieldsD [OF advance_yields assms surjective_pairing]] by (simp add: run_call_def)
qed

definition all_ok :: "(string \<Rightarrow> job_record option) \<Rightarrow> bool" where
  "all_ok J \<longleftrightarrow> (\<forall>i job. J i = Some job \<longrightarrow> job_ok tp job)"

lemma call_step_ok: "call_step J J' \<Longrightarrow> all_ok J \<Longrightarrow> all_ok J'"
  by (auto simp: call_step_def all_ok_def admissible_def advanced_def job_ok_admitted job_ok_step
      split: if_splits)

lemma run_calls_ok:
  "holds J w \<Longrightarrow> all_ok J \<Longrightarrow> \<exists>J'. holds J' (run_calls tp ops calls w) \<and> all_ok J'"
proof (induction calls arbitrary: J w)
  case (Cons c cs)
  obtain J' where "holds J' (run_call tp ops c w)" "all_ok J'"
    using run_call_effect [OF Cons.prems(1), of c] call_step_ok Cons.prems(2) by blast
  then show ?case using Cons.IH by (simp add: run_calls_def)
qed (auto simp: run_calls_def)

lemma run_call_history:
  assumes "holds J w" and "J i = Some job"
  shows "\<exists>J' job'. holds J' (run_call tp ops call w) \<and> J' i = Some job' \<and> same_frozen job job'
    \<and> (phase_step tp job)\<^sup>*\<^sup>* (jr_phase job) (jr_phase job')"
proof -
  obtain J' where J': "holds J' (run_call tp ops call w)" "call_step J J'"
    using run_call_effect [OF assms(1)] by blast
  then have "\<exists>job'. J' i = Some job' \<and> same_frozen job job'
      \<and> (phase_step tp job)\<^sup>*\<^sup>* (jr_phase job) (jr_phase job')"
    using assms(2) by (auto simp: call_step_def admissible_def advanced_def same_frozen_def)
  then show ?thesis using J'(1) by blast
qed

lemma run_calls_history:
  assumes "holds J w" and "J i = Some job"
  shows "\<exists>J' job'. holds J' (run_calls tp ops calls w) \<and> J' i = Some job' \<and> same_frozen job job'
    \<and> (phase_step tp job)\<^sup>*\<^sup>* (jr_phase job) (jr_phase job')"
  using assms
proof (induction calls arbitrary: J w job)
  case (Cons c cs)
  obtain J1 job1 where 1: "holds J1 (run_call tp ops c w)" "J1 i = Some job1" "same_frozen job job1"
    "(phase_step tp job)\<^sup>*\<^sup>* (jr_phase job) (jr_phase job1)"
    using run_call_history [OF Cons.prems, of c] by blast
  obtain J2 job2 where 2: "holds J2 (run_calls tp ops cs (run_call tp ops c w))" "J2 i = Some job2"
    "same_frozen job1 job2" "(phase_step tp job1)\<^sup>*\<^sup>* (jr_phase job1) (jr_phase job2)"
    using Cons.IH [OF 1(1,2)] by blast
  have "phase_step tp job p q" if "phase_step tp job1 p q" for p q
    using phase_step_same_job [OF that] 1(3) by (simp add: same_frozen_def)
  then have "(phase_step tp job)\<^sup>*\<^sup>* (jr_phase job1) (jr_phase job2)"
    using 2(4) mono_rtranclp [of "phase_step tp job1" "phase_step tp job"] by blast
  then have "(phase_step tp job)\<^sup>*\<^sup>* (jr_phase job) (jr_phase job2)" using 1(4) by simp
  moreover have "same_frozen job job2" using 1(3) 2(3) by (simp add: same_frozen_def)
  ultimately show ?case using 2(1,2) by (auto simp: run_calls_def)
qed (auto simp: run_calls_def same_frozen_def)

end

lemma published_final: "(phase_step tp job)\<^sup>*\<^sup>* p q \<Longrightarrow> is_published p \<Longrightarrow> q = p"
  by (induction rule: converse_rtranclp_induct)
    (auto simp: is_published_def phase_step_simps split: job_phase.splits)

end
