(* ===== verification/Production.thy ===== *)
theory Production
  imports Publisher Capabilities Runner_Laws
begin

text \<open>
  The production composition of the daemon (\<open>daemon/src/production.rs\<close>, with the identity registry of
  \<open>daemon/src/identity.rs\<close>): the runner over the file journal, Kokoro, Blossom and the NMP publisher,
  publication of one request and of a whole spoken tree.
\<close>

section \<open>The world of the daemon\<close>

text \<open>
  Files, the process-wide counters of the journal and of the synthesizer, the publisher's member cache,
  the registration of the daemon's own account, and everything outside the process.
\<close>

record 'x daemon_world =
  dw_fs :: file_system
  dw_temp_id :: u64
  dw_staged_id :: u64
  dw_members :: "(string, string) btree_map"
  dw_daemon :: account_registration
  dw_ext :: 'x

record 'x services =
  sv_third_party :: third_party
  sv_codec :: job_codec
  sv_engine :: "'x nmp_engine"
  sv_narration :: "'x narration"
  sv_blossom :: "'x blossom_client"
  sv_add_account :: "string \<Rightarrow> ('x, string, account_registration) action"
  sv_remove_account :: "account_registration \<Rightarrow> ('x, string, bool) action"

record producer =
  pd_journal :: file_job_journal
  pd_work_root :: string
  pd_kokoro :: kokoro_synthesizer
  pd_uploader :: blossom_uploader
  pd_publisher :: nmp_publisher
  pd_default_voice :: string
  pd_author :: string
  pd_group_id :: string

abbreviation sha256_of :: "'x services \<Rightarrow> string \<Rightarrow> string" where
  "sha256_of sv \<equiv> tp_sha256_hex (sv_third_party sv)"

definition journal_part :: "'x daemon_world \<Rightarrow> journal_store" where
  "journal_part w = \<lparr>js_fs = dw_fs w, js_temp_id = dw_temp_id w\<rparr>"

definition on_journal :: "(journal_store, 'e, 'a) action \<Rightarrow> ('x daemon_world, 'e, 'a) action" where
  "on_journal m = on_part journal_part (\<lambda>s w. w\<lparr>dw_fs := js_fs s, dw_temp_id := js_temp_id s\<rparr>) m"

definition media_part :: "producer \<Rightarrow> 'x daemon_world \<Rightarrow> 'x media_world" where
  "media_part pd w =
     \<lparr>mw_audio = \<lparr>au_fs = dw_fs w, au_staged_id = dw_staged_id w, au_pid = fj_pid (pd_journal pd)\<rparr>,
      mw_ext = dw_ext w\<rparr>"

definition on_media :: "producer \<Rightarrow> ('x media_world, 'e, 'a) action \<Rightarrow> ('x daemon_world, 'e, 'a) action" where
  "on_media pd m =
     on_part (media_part pd)
       (\<lambda>s w. w\<lparr>dw_fs := au_fs (mw_audio s), dw_staged_id := au_staged_id (mw_audio s), dw_ext := mw_ext s\<rparr>) m"

definition on_publisher :: "('x publisher_state, 'e, 'a) action \<Rightarrow> ('x daemon_world, 'e, 'a) action" where
  "on_publisher m =
     on_part (\<lambda>w. \<lparr>ps_engine = dw_ext w, ps_members = dw_members w\<rparr>)
       (\<lambda>s w. w\<lparr>dw_ext := ps_engine s, dw_members := ps_members s\<rparr>) m"

definition on_outside :: "('x, 'e, 'a) action \<Rightarrow> ('x daemon_world, 'e, 'a) action" where
  "on_outside m = on_part dw_ext (\<lambda>x w. w\<lparr>dw_ext := x\<rparr>) m"

definition on_files :: "'a io \<Rightarrow> ('x daemon_world, io_error, 'a) action" where
  "on_files m = on_part dw_fs (\<lambda>fs w. w\<lparr>dw_fs := fs\<rparr>) m"

text \<open>\<open>ProducerRunner<FileJobJournal, KokoroSynthesizer, BlossomArtifactUploader, NmpPublisher>\<close>.\<close>

definition production_ops :: "'x services \<Rightarrow> producer \<Rightarrow> 'x daemon_world producer_ops" where
  "production_ops sv pd =
     \<lparr>po_work_root = pd_work_root pd,
      po_load = (\<lambda>i. on_journal (journal_load (sv_codec sv) (pd_journal pd) i)),
      po_insert = (\<lambda>job. on_journal (journal_insert (sv_codec sv) (pd_journal pd) job)),
      po_save = (\<lambda>job. on_journal (journal_save (sv_codec sv) (pd_journal pd) job)),
      po_create_dir_all = (\<lambda>path. on_files (fs_create_dir_all path)),
      po_read = (\<lambda>path. on_files (fs_read path)),
      po_synthesize = (\<lambda>request output.
        on_media pd (synthesize (sha256_of sv) (pd_kokoro pd) (sv_narration sv) request output)),
      po_make_durable = (\<lambda>audio.
        on_media pd (make_durable (sha256_of sv) (pd_uploader pd) (sv_blossom sv) audio)),
      po_authorize = (\<lambda>request_id author created_at.
        on_publisher (authorize (sv_engine sv) (pd_publisher pd) request_id author created_at)),
      po_resume_authorization = (\<lambda>receipt_id author.
        on_publisher (resume_authorization (sv_engine sv) (pd_publisher pd) receipt_id author)),
      po_accept = (\<lambda>item. on_publisher (accept_item (sv_engine sv) (pd_publisher pd) item)),
      po_resume = (\<lambda>receipt_id item.
        on_publisher (resume_item (sv_engine sv) (pd_publisher pd) receipt_id item))\<rparr>"

section \<open>Request identities\<close>

record request_identity =
  ri_author :: public_key
  ri_registration :: "account_registration option"

definition daemon_author :: "'x daemon_world \<Rightarrow> public_key" where
  [simp]: "daemon_author w = ac_public_key (dw_daemon w)"

definition daemon_identity :: "public_key \<Rightarrow> request_identity" where
  [simp]: "daemon_identity author = \<lparr>ri_author = author, ri_registration = None\<rparr>"

definition identity_request ::
  "'x services \<Rightarrow> string option \<Rightarrow> ('x daemon_world, string, request_identity) action" where
  "identity_request sv agent_secret w =
     (case agent_secret of
        None \<Rightarrow> (Inr (daemon_identity (daemon_author w)), w)
      | Some secret \<Rightarrow>
          and_then (with_error (\<lambda>error. ''NMP request identity was refused: '' @ error)
              (on_outside (sv_add_account sv secret))) (\<lambda>registration w.
            if ac_public_key registration = daemon_author w
            then (Inr (daemon_identity (ac_public_key registration)), w\<lparr>dw_daemon := registration\<rparr>)
            else (Inr \<lparr>ri_author = ac_public_key registration, ri_registration = Some registration\<rparr>, w)) w)"

text \<open>
  \<open>remove_request_registration\<close> takes the registration out of the identity before it gives it back, so that
  dropping an identity that was closed removes nothing more.
\<close>

definition remove_request_registration ::
  "'x services \<Rightarrow> request_identity \<Rightarrow> 'x daemon_world \<Rightarrow> (string + unit) \<times> request_identity \<times> 'x daemon_world" where
  "remove_request_registration sv identity w =
     (case ri_registration identity of
        None \<Rightarrow> (Inr (), identity, w)
      | Some registration \<Rightarrow>
          (case on_outside (sv_remove_account sv registration) w of (removed, w) \<Rightarrow>
             (case removed of
                Inl error \<Rightarrow> Inl (''NMP request identity cleanup failed: '' @ error)
              | Inr True \<Rightarrow> Inr ()
              | Inr False \<Rightarrow> Inl ''NMP request identity changed before cleanup'',
              identity\<lparr>ri_registration := None\<rparr>, w)))"

definition identity_drop :: "'x services \<Rightarrow> request_identity \<Rightarrow> 'x daemon_world \<Rightarrow> 'x daemon_world" where
  "identity_drop sv identity w = (case remove_request_registration sv identity w of (result, identity, w) \<Rightarrow> w)"

text \<open>\<open>close(mut self)\<close> consumes the identity, which is dropped at its end.\<close>

definition identity_close ::
  "'x services \<Rightarrow> request_identity \<Rightarrow> ('x daemon_world, string, unit) action" where
  "identity_close sv identity w =
     (case remove_request_registration sv identity w of (result, identity, w) \<Rightarrow> (result, identity_drop sv identity w))"

text \<open>Closing gives the registration back exactly once.\<close>

lemma identity_close_eq:
  "identity_close sv identity =
     (case ri_registration identity of
        None \<Rightarrow> ok ()
      | Some registration \<Rightarrow>
          and_then (with_error (\<lambda>error. ''NMP request identity cleanup failed: '' @ error)
              (on_outside (sv_remove_account sv registration))) (\<lambda>removed.
            if removed then ok () else fail ''NMP request identity changed before cleanup''))"
proof (cases "ri_registration identity")
  case (Some registration)
  show ?thesis
  proof
    fix w
    obtain removed w' where "on_outside (sv_remove_account sv registration) w = (removed, w')" by force
    then show "identity_close sv identity w = (case ri_registration identity of
        None \<Rightarrow> ok ()
      | Some registration \<Rightarrow>
          and_then (with_error (\<lambda>error. ''NMP request identity cleanup failed: '' @ error)
              (on_outside (sv_remove_account sv registration))) (\<lambda>removed.
            if removed then ok () else fail ''NMP request identity changed before cleanup'')) w"
      by (cases removed) (auto simp: identity_close_def identity_drop_def remove_request_registration_def Some
          and_then_def with_error_def of_result_def split: bool.splits)
  qed
qed (simp add: fun_eq_iff identity_close_def identity_drop_def remove_request_registration_def of_result_def)

section \<open>Publishing one request\<close>

definition producer_admit ::
  "'x services \<Rightarrow> producer \<Rightarrow> producer_request \<Rightarrow> u64 \<Rightarrow> ('x daemon_world, producer_error, job_record) action" where
  "producer_admit sv pd request created_at =
     (if pr_group_id request \<noteq> pd_group_id pd then fail (InvalidRequest ''group_id'')
      else admit (sv_third_party sv) (production_ops sv pd) request (pd_author pd) created_at)"

definition producer_advance ::
  "'x services \<Rightarrow> producer \<Rightarrow> string \<Rightarrow> ('x daemon_world, producer_error, job_record) action" where
  "producer_advance sv pd request_id = advance (sv_third_party sv) (production_ops sv pd) request_id"

fun publish_loop ::
  "third_party \<Rightarrow> 'w producer_ops \<Rightarrow> string \<Rightarrow> nat \<Rightarrow> job_record \<Rightarrow> ('w, producer_error, job_record) action" where
  "publish_loop tp ops request_id 0 job =
     (if is_published (jr_phase job) then ok job
      else fail (Capability ''publication'' ''producer exceeded its bounded stage count''))"
| "publish_loop tp ops request_id (Suc n) job =
     (if is_published (jr_phase job) then ok job
      else and_then (advance tp ops request_id) (publish_loop tp ops request_id n))"

definition publish_as ::
  "third_party \<Rightarrow> 'w producer_ops \<Rightarrow> producer_request \<Rightarrow> string \<Rightarrow> u64 \<Rightarrow> ('w, producer_error, job_record) action" where
  "publish_as tp ops request author created_at =
     and_then (admit tp ops request author created_at) (publish_loop tp ops (pr_request_id request) 6)"

text \<open>Closing the request identity: a cleanup error wins over the result.\<close>

definition close_after ::
  "'x services \<Rightarrow> request_identity \<Rightarrow> ('x daemon_world, producer_error, 'a) action
   \<Rightarrow> ('x daemon_world, producer_error, 'a) action" where
  "close_after sv identity m w =
     (case m w of (result, w) \<Rightarrow>
     (case with_error (Capability ''request_identity_cleanup'') (identity_close sv identity) w of
        (Inl error, w) \<Rightarrow> (Inl error, w)
      | (Inr _, w) \<Rightarrow> (result, w)))"

definition publish ::
  "'x services \<Rightarrow> producer \<Rightarrow> producer_request \<Rightarrow> u64 \<Rightarrow> string option
   \<Rightarrow> ('x daemon_world, producer_error, job_record) action" where
  "publish sv pd request created_at agent_secret =
     (if pr_group_id request \<noteq> pd_group_id pd then fail (InvalidRequest ''group_id'')
      else
        and_then (with_error (Capability ''request_identity'') (identity_request sv agent_secret)) (\<lambda>identity.
          close_after sv identity
            (publish_as (sv_third_party sv) (production_ops sv pd) request (ri_author identity) created_at)))"

definition unix_seconds :: "'x services \<Rightarrow> ('x daemon_world, 'e, u64) action" where
  "unix_seconds sv w =
     (case bc_unix_millis (sv_blossom sv) (dw_ext w) of (millis, x) \<Rightarrow> (Inr (millis div 1000), w\<lparr>dw_ext := x\<rparr>))"

definition publish_now ::
  "'x services \<Rightarrow> producer \<Rightarrow> producer_request \<Rightarrow> string option
   \<Rightarrow> ('x daemon_world, producer_error, job_record) action" where
  "publish_now sv pd request agent_secret =
     and_then (unix_seconds sv) (\<lambda>created_at. publish sv pd request created_at agent_secret)"

section \<open>Publishing a spoken tree\<close>

text \<open>\<open>fs::read_to_string\<close> refuses bytes that are not UTF-8.\<close>

fun valid_utf8 :: "string \<Rightarrow> bool" where
  "valid_utf8 [] = True"
| "valid_utf8 (a # rest) =
     (let x = (of_char a :: nat) in
      if x < 128 then valid_utf8 rest
      else case rest of
        [] \<Rightarrow> False
      | b # rest2 \<Rightarrow>
          (let y = (of_char b :: nat) in
           if 194 \<le> x \<and> x < 224 then is_continuation b \<and> valid_utf8 rest2
           else case rest2 of
             [] \<Rightarrow> False
           | c # rest3 \<Rightarrow>
               if 224 \<le> x \<and> x < 240
               then is_continuation b \<and> is_continuation c \<and> (x = 224 \<longrightarrow> 160 \<le> y) \<and> (x = 237 \<longrightarrow> y < 160)
                    \<and> valid_utf8 rest3
               else case rest3 of
                 [] \<Rightarrow> False
               | d # rest4 \<Rightarrow>
                   240 \<le> x \<and> x < 245 \<and> is_continuation b \<and> is_continuation c \<and> is_continuation d
                   \<and> (x = 240 \<longrightarrow> 144 \<le> y) \<and> (x = 244 \<longrightarrow> y < 144) \<and> valid_utf8 rest4))"

definition read_to_string :: "string \<Rightarrow> ('x daemon_world, string, string) action" where
  "read_to_string path =
     and_then (with_error io_error_text (on_files (fs_read path))) (\<lambda>bytes.
       if valid_utf8 bytes then ok bytes else fail ''stream did not contain valid UTF-8'')"

definition child_request_id :: "string \<Rightarrow> nat \<Rightarrow> string" where
  "child_request_id parent index = chars_take 60 parent @ ''-'' @ nat_to_string index"

text \<open>The loop over the attachments of a node: files are uploaded in order, narrated ones wait.\<close>

fun upload_attachments ::
  "'x services \<Rightarrow> producer \<Rightarrow> tree_attachment list \<Rightarrow> durable_artifact list
   \<Rightarrow> ('x daemon_world, producer_error, durable_artifact list) action" where
  "upload_attachments sv pd [] durable = ok durable"
| "upload_attachments sv pd (File label file # rest) durable =
     and_then (with_error (Capability ''attachment_upload'')
         (on_media pd (make_durable_file (sha256_of sv) (pd_uploader pd) (sv_blossom sv) file label))) (\<lambda>artifact.
       upload_attachments sv pd rest (durable @ [artifact]))"
| "upload_attachments sv pd (Narrated label message qs attachments # rest) durable =
     upload_attachments sv pd rest durable"

definition node_request ::
  "producer \<Rightarrow> string \<Rightarrow> string \<Rightarrow> string \<Rightarrow> string \<Rightarrow> string \<Rightarrow> durable_artifact list \<Rightarrow> question list
   \<Rightarrow> string option \<Rightarrow> producer_request" where
  "node_request pd request_id agent_name title summary body durable qs parent_event_id =
     \<lparr>pr_request_id = request_id, pr_group_id = pd_group_id pd, pr_voice = pd_default_voice pd,
      pr_agent_name = agent_name, pr_subject = title, pr_summary = summary, pr_body = body,
      pr_attachments = durable, pr_questions = qs,
      pr_attach = map_option (\<lambda>parent_id. \<lparr>al_parent_id = parent_id\<rparr>) parent_event_id\<rparr>"

text \<open>Publishing the node itself, up to its event id.\<close>

definition publish_one ::
  "'x services \<Rightarrow> producer \<Rightarrow> string \<Rightarrow> string \<Rightarrow> string \<Rightarrow> string \<Rightarrow> question list \<Rightarrow> tree_attachment list
   \<Rightarrow> string option \<Rightarrow> string \<Rightarrow> string \<Rightarrow> u64 \<Rightarrow> ('x daemon_world, producer_error, string) action" where
  "publish_one sv pd request_id title summary message_path qs attachments parent_event_id
     agent_name author created_at =
     and_then (with_error (Capability ''read_message'') (read_to_string message_path)) (\<lambda>body.
     and_then (upload_attachments sv pd attachments []) (\<lambda>durable.
     and_then (publish_as (sv_third_party sv) (production_ops sv pd)
         (node_request pd request_id agent_name title summary body durable qs parent_event_id)
         author created_at) (\<lambda>job.
       of_result (ok_or (Capability ''publication'' ''spoken node did not reach publication'')
         (phase_event_id (jr_phase job))))))"

text \<open>
  \<open>publish_node\<close> with its loop over the narrated attachments, which are numbered from 0 in the order of
  the attachment list. \<open>children\<close> is \<open>published_children\<close>.
\<close>

function (sequential) publish_node ::
    "'x services \<Rightarrow> producer \<Rightarrow> string \<Rightarrow> string \<Rightarrow> string \<Rightarrow> string \<Rightarrow> question list \<Rightarrow> tree_attachment list
     \<Rightarrow> string option \<Rightarrow> string \<Rightarrow> string \<Rightarrow> u64 \<Rightarrow> string list
     \<Rightarrow> ('x daemon_world, producer_error, string \<times> string list) action"
  and publish_children ::
    "'x services \<Rightarrow> producer \<Rightarrow> string \<Rightarrow> string \<Rightarrow> nat \<Rightarrow> tree_attachment list \<Rightarrow> string \<Rightarrow> string \<Rightarrow> u64
     \<Rightarrow> string list \<Rightarrow> ('x daemon_world, producer_error, string list) action" where
  "publish_node sv pd request_id title summary message_path qs attachments parent_event_id
     agent_name author created_at children =
     and_then (publish_one sv pd request_id title summary message_path qs attachments
         parent_event_id agent_name author created_at) (\<lambda>event_id.
     and_then (publish_children sv pd request_id event_id 0 attachments agent_name author created_at children) (\<lambda>children.
       ok (event_id, children)))"
| "publish_children sv pd request_id event_id index [] agent_name author created_at children = ok children"
| "publish_children sv pd request_id event_id index (File label file # rest) agent_name author created_at children =
     publish_children sv pd request_id event_id index rest agent_name author created_at children"
| "publish_children sv pd request_id event_id index (Narrated label message qs attachments # rest)
     agent_name author created_at children =
     and_then (publish_node sv pd (child_request_id request_id index) label [] message qs attachments
         (Some event_id) agent_name author created_at children) (\<lambda>(child_event, children).
       publish_children sv pd request_id event_id (Suc index) rest agent_name author created_at
         (children @ [child_event]))"
  by pat_completeness auto
termination
  by (relation "measure (case_sum (\<lambda>(_, _, _, _, _, _, _, attachments, _). Suc (2 * size_list size attachments))
      (\<lambda>(_, _, _, _, _, attachments, _). 2 * size_list size attachments))") auto

declare publish_node.simps [simp del]

record tree_publication =
  tpub_root_event_id :: string
  tpub_child_event_ids :: "string list"

definition publish_tree ::
  "'x services \<Rightarrow> producer \<Rightarrow> spoken_tree \<Rightarrow> string \<Rightarrow> string option
   \<Rightarrow> ('x daemon_world, producer_error, tree_publication) action" where
  "publish_tree sv pd tree agent_name agent_secret =
     (if st_group_id tree \<noteq> pd_group_id pd then fail (InvalidRequest ''group_id'')
      else
        and_then (with_error (Capability ''request_identity'') (identity_request sv agent_secret)) (\<lambda>identity.
        and_then (unix_seconds sv) (\<lambda>created_at.
          close_after sv identity
            (and_then (publish_node sv pd (st_request_id tree) (st_title tree)
                (case st_summary tree of None \<Rightarrow> [] | Some s \<Rightarrow> s) (st_message tree) (st_questions tree)
                (st_attachments tree) None agent_name (ri_author identity) created_at []) (\<lambda>(root, children).
              ok \<lparr>tpub_root_event_id = root, tpub_child_event_ids = children\<rparr>)))))"

end
