(* ===== verification/Unix_Files.thy ===== *)
theory Unix_Files
  imports File_System
begin

text \<open>
  The part of a Unix file system that access control looks at: kinds of nodes, permission bits, device and
  inode numbers, symbolic links and listening sockets (\<open>std::fs\<close>, \<open>std::os::unix\<close>). As in File_System every
  call consumes an entry of a fault schedule first.
\<close>

unbundle bit_operations_syntax

datatype io_error_kind =
    KindNotFound | KindConnectionRefused | KindAlreadyExists | KindInvalidInput | KindInvalidData
  | KindPermissionDenied | KindAddrInUse | KindOther

record io_failure =
  if_kind :: io_error_kind
  if_text :: string

datatype node_kind = RegularNode | DirectoryNode | SymlinkNode | SocketNode | OtherNode

text \<open>\<open>nd_resolves\<close>: a symbolic link whose target exists; other nodes resolve to themselves.\<close>

record unix_node =
  nd_kind :: node_kind
  nd_mode :: "32 word"
  nd_dev :: u64
  nd_ino :: u64
  nd_bytes :: string
  nd_listening :: bool
  nd_resolves :: bool

record node_system =
  ns_nodes :: "string \<rightharpoonup> unix_node"
  ns_dev :: u64
  ns_next_ino :: u64
  ns_umask :: "32 word"
  ns_faults :: "(io_failure \<times> nat) option list"

type_synonym 'a node_io = "(node_system, io_failure, 'a) action"

text \<open>Permission bits: \<open>0o077\<close> is group and others, \<open>0o600\<close> and \<open>0o700\<close> the owner only.\<close>

abbreviation mode_077 :: "32 word" where "mode_077 \<equiv> 0x3F"
abbreviation mode_600 :: "32 word" where "mode_600 \<equiv> 0x180"
abbreviation mode_700 :: "32 word" where "mode_700 \<equiv> 0x1C0"
abbreviation mode_777 :: "32 word" where "mode_777 \<equiv> 0x1FF"

definition private_mode :: "32 word \<Rightarrow> bool" where
  "private_mode mode \<longleftrightarrow> mode AND mode_077 = 0"

definition next_node_fault :: "node_system \<Rightarrow> (io_failure \<times> nat) option \<times> node_system" where
  "next_node_fault ns =
     (case ns_faults ns of [] \<Rightarrow> (None, ns) | f # rest \<Rightarrow> (f, ns\<lparr>ns_faults := rest\<rparr>))"

definition node_guarded :: "'a node_io \<Rightarrow> 'a node_io" where
  "node_guarded op ns =
     (case next_node_fault ns of (Some (failure, n), ns) \<Rightarrow> (Inl failure, ns) | (None, ns) \<Rightarrow> op ns)"

definition not_found :: io_failure where
  "not_found = \<lparr>if_kind = KindNotFound, if_text = ''No such file or directory (os error 2)''\<rparr>"

definition symlink_metadata :: "string \<Rightarrow> unix_node node_io" where
  "symlink_metadata path =
     node_guarded (\<lambda>ns. (case ns_nodes ns path of None \<Rightarrow> Inl not_found | Some node \<Rightarrow> Inr node, ns))"

text \<open>\<open>Path::exists\<close> follows links and is false on an error.\<close>

definition node_exists :: "string \<Rightarrow> node_system \<Rightarrow> bool \<times> node_system" where
  "node_exists path ns =
     (case next_node_fault ns of
        (Some _, ns) \<Rightarrow> (False, ns)
      | (None, ns) \<Rightarrow> (case ns_nodes ns path of None \<Rightarrow> False | Some node \<Rightarrow> nd_resolves node, ns))"

definition fresh_node :: "node_kind \<Rightarrow> 32 word \<Rightarrow> bool \<Rightarrow> node_system \<Rightarrow> unix_node" where
  "fresh_node kind mode listening ns =
     \<lparr>nd_kind = kind, nd_mode = mode AND NOT (ns_umask ns), nd_dev = ns_dev ns, nd_ino = ns_next_ino ns,
      nd_bytes = [], nd_listening = listening, nd_resolves = True\<rparr>"

definition put_node :: "string \<Rightarrow> unix_node \<Rightarrow> node_system \<Rightarrow> node_system" where
  "put_node path node ns = ns\<lparr>ns_nodes := (ns_nodes ns)(path \<mapsto> node), ns_next_ino := ns_next_ino ns + 1\<rparr>"

text \<open>
  \<open>create_dir_all\<close>: nothing to do for the empty path or a directory that exists. The ancestors a recursive
  creation makes on the way are not recorded.
\<close>

definition create_dirs :: "32 word \<Rightarrow> string \<Rightarrow> unit node_io" where
  "create_dirs mode path =
     node_guarded (\<lambda>ns.
       if path = [] then (Inr (), ns)
       else case ns_nodes ns path of
         None \<Rightarrow> (Inr (), put_node path (fresh_node DirectoryNode mode False ns) ns)
       | Some node \<Rightarrow>
           if nd_kind node = DirectoryNode \<or> (nd_kind node = SymlinkNode \<and> nd_resolves node) then (Inr (), ns)
           else (Inl \<lparr>if_kind = KindAlreadyExists, if_text = ''File exists (os error 17)''\<rparr>, ns))"

definition connect_socket :: "string \<Rightarrow> unit node_io" where
  "connect_socket path =
     node_guarded (\<lambda>ns.
       (case ns_nodes ns path of
          None \<Rightarrow> Inl not_found
        | Some node \<Rightarrow>
            if nd_kind node = SocketNode \<and> nd_listening node then Inr ()
            else Inl \<lparr>if_kind = KindConnectionRefused, if_text = ''Connection refused (os error 111)''\<rparr>, ns))"

definition bind_socket :: "string \<Rightarrow> unit node_io" where
  "bind_socket path =
     node_guarded (\<lambda>ns.
       if ns_nodes ns path \<noteq> None
       then (Inl \<lparr>if_kind = KindAddrInUse, if_text = ''Address already in use (os error 98)''\<rparr>, ns)
       else (Inr (), put_node path (fresh_node SocketNode mode_777 True ns) ns))"

definition set_permissions :: "string \<Rightarrow> 32 word \<Rightarrow> unit node_io" where
  "set_permissions path mode =
     node_guarded (\<lambda>ns.
       case ns_nodes ns path of
         None \<Rightarrow> (Inl not_found, ns)
       | Some node \<Rightarrow> (Inr (), ns\<lparr>ns_nodes := (ns_nodes ns)(path \<mapsto> node\<lparr>nd_mode := mode\<rparr>)\<rparr>))"

definition remove_node :: "string \<Rightarrow> unit node_io" where
  "remove_node path =
     node_guarded (\<lambda>ns.
       if ns_nodes ns path = None then (Inl not_found, ns)
       else (Inr (), ns\<lparr>ns_nodes := (ns_nodes ns)(path := None)\<rparr>))"

text \<open>\<open>OpenOptions::create_new\<close> with a mode, reading and writing of regular files.\<close>

definition create_new_file :: "string \<Rightarrow> 32 word \<Rightarrow> unit node_io" where
  "create_new_file path mode =
     node_guarded (\<lambda>ns.
       if ns_nodes ns path \<noteq> None
       then (Inl \<lparr>if_kind = KindAlreadyExists, if_text = ''File exists (os error 17)''\<rparr>, ns)
       else (Inr (), put_node path (fresh_node RegularNode mode False ns) ns))"

definition append_node :: "string \<Rightarrow> string \<Rightarrow> node_system \<Rightarrow> node_system" where
  "append_node path bytes ns =
     (case ns_nodes ns path of
        None \<Rightarrow> ns
      | Some node \<Rightarrow> ns\<lparr>ns_nodes := (ns_nodes ns)(path \<mapsto> node\<lparr>nd_bytes := nd_bytes node @ bytes\<rparr>)\<rparr>)"

definition write_node :: "string \<Rightarrow> string \<Rightarrow> unit node_io" where
  "write_node path bytes ns =
     (case next_node_fault ns of
        (Some (failure, n), ns) \<Rightarrow> (Inl failure, append_node path (take n bytes) ns)
      | (None, ns) \<Rightarrow> (Inr (), append_node path bytes ns))"

definition sync_node :: "unit node_io" where
  "sync_node = node_guarded (ok ())"

definition read_node :: "string \<Rightarrow> string node_io" where
  "read_node path =
     node_guarded (\<lambda>ns.
       (case ns_nodes ns path of
          None \<Rightarrow> Inl not_found
        | Some node \<Rightarrow>
            if nd_kind node = RegularNode then Inr (nd_bytes node)
            else Inl \<lparr>if_kind = KindOther, if_text = ''not a regular file''\<rparr>, ns))"

lemmas node_op_defs =
  symlink_metadata_def create_dirs_def connect_socket_def bind_socket_def set_permissions_def remove_node_def
  create_new_file_def write_node_def sync_node_def read_node_def node_guarded_def next_node_fault_def

lemma node_reads:
  "symlink_metadata p ns = (r, ns') \<Longrightarrow> ns_nodes ns' = ns_nodes ns"
  "connect_socket p ns = (r', ns') \<Longrightarrow> ns_nodes ns' = ns_nodes ns"
  "node_exists p ns = (b, ns') \<Longrightarrow> ns_nodes ns' = ns_nodes ns"
  by (auto simp: node_op_defs node_exists_def split: list.splits option.splits prod.splits)

lemma symlink_metadata_Inr: "symlink_metadata p ns = (Inr node, ns') \<Longrightarrow> ns_nodes ns p = Some node"
  by (auto simp: node_op_defs split: list.splits option.splits prod.splits)

lemma remove_node_effect:
  "remove_node p ns = (r, ns') \<Longrightarrow> ns_nodes ns' = ns_nodes ns \<or> ns_nodes ns' = (ns_nodes ns)(p := None)"
  by (auto simp: node_op_defs split: list.splits option.splits prod.splits if_splits)

lemma fresh_node_simps [simp]:
  "nd_kind (fresh_node kind mode listening ns) = kind" "nd_listening (fresh_node kind mode listening ns) = listening"
  "fresh_node kind mode listening (ns\<lparr>ns_faults := fs\<rparr>) = fresh_node kind mode listening ns"
  by (simp_all add: fresh_node_def)

lemma create_dirs_effect:
  "create_dirs mode p ns = (r, ns') \<Longrightarrow>
   ns_nodes ns' = ns_nodes ns
   \<or> (ns_nodes ns p = None \<and> ns_nodes ns' = (ns_nodes ns)(p \<mapsto> fresh_node DirectoryNode mode False ns))"
  by (auto simp: node_op_defs put_node_def split: list.splits option.splits prod.splits if_splits)

section \<open>Paths\<close>

text \<open>
  \<open>Path::parent\<close>, up to repeated separators: the path without its last component, nothing for the root and
  the empty path.
\<close>

fun path_of :: "string list \<Rightarrow> string" where
  "path_of [] = []"
| "path_of [part] = part"
| "path_of (part # rest) = (if part = ''/'' then part @ path_of rest else part @ ''/'' @ path_of rest)"

definition parent_path :: "string \<Rightarrow> string option" where
  "parent_path path =
     (let parts = path_components path in
      if parts = [] \<or> parts = [''/''] then None else Some (path_of (butlast parts)))"

end
