(* ===== verification/Daemon_Identity.thy ===== *)
theory Daemon_Identity
  imports Production Unix_Files Accounts
begin

text \<open>
  The daemon's own identity (\<open>daemon/src/daemon_identity.rs\<close>): a secret from the deployment, from a private
  file, or a new one that is written to that file. The engine's account operations and the random number
  generator are parameters on the state outside.
\<close>

definition MAX_IDENTITY_BYTES :: nat where "MAX_IDENTITY_BYTES = 512"

abbreviation PRIVATE_FILE_MODE :: "32 word" where "PRIVATE_FILE_MODE \<equiv> mode_600"

record 'x identity_world =
  iw_nodes :: node_system
  iw_ext :: 'x

record 'x identity_services =
  is_accounts :: "'x account_engine"
  is_fill_bytes :: "'x \<Rightarrow> 8 word list \<times> 'x"

definition on_nodes :: "('n \<Rightarrow> string) \<Rightarrow> (node_system, 'n, 'a) action \<Rightarrow> ('x identity_world, string, 'a) action" where
  "on_nodes describe m = with_error describe (on_part iw_nodes (\<lambda>ns w. w\<lparr>iw_nodes := ns\<rparr>) m)"

definition on_accounts :: "('x, 'e, 'a) action \<Rightarrow> ('x identity_world, 'e, 'a) action" where
  "on_accounts m = on_part iw_ext (\<lambda>x w. w\<lparr>iw_ext := x\<rparr>) m"

definition lines_count :: "string \<Rightarrow> nat" where
  "lines_count s =
     (if s = [] then 0 else count_list s (CHR 0x0A) + (if last s = CHR 0x0A then 0 else 1))"

definition load_identity :: "string \<Rightarrow> (node_system, string, string option) action" where
  "load_identity path ns =
     (case symlink_metadata path ns of
        (Inl error, ns) \<Rightarrow>
          if if_kind error = KindNotFound then (Inr None, ns)
          else (Inl (''daemon identity metadata could not be read: '' @ if_text error), ns)
      | (Inr metadata, ns) \<Rightarrow>
          if nd_kind metadata \<noteq> RegularNode \<or> nd_bytes metadata = []
             \<or> length (nd_bytes metadata) > MAX_IDENTITY_BYTES
          then (Inl ''daemon identity file is not a bounded regular file'', ns)
          else if \<not> private_mode (nd_mode metadata)
          then (Inl ''daemon identity file must not be accessible by group or other users'', ns)
          else
            (case read_node path ns of
               (Inl error, ns) \<Rightarrow> (Inl (''daemon identity could not be read: '' @ if_text error), ns)
             | (Inr bytes, ns) \<Rightarrow>
                 if \<not> valid_utf8 bytes
                 then (Inl ''daemon identity could not be read: stream did not contain valid UTF-8'', ns)
                 else
                   (let secret = trim bytes in
                    if secret = [] \<or> lines_count secret \<noteq> 1 then (Inl ''daemon identity file is invalid'', ns)
                    else (Inr (Some secret), ns))))"

definition register :: "'x identity_services \<Rightarrow> string \<Rightarrow> ('x identity_world, string, account_registration) action" where
  "register sv secret =
     with_error (\<lambda>error. ''NMP daemon identity was refused: '' @ error) (on_accounts (ae_add_account (is_accounts sv) secret))"

datatype persist_error = PersistAlreadyExists | PersistFailed string

definition persist_new :: "string \<Rightarrow> string \<Rightarrow> (node_system, persist_error, unit) action" where
  "persist_new path secret ns =
     (case create_new_file path PRIVATE_FILE_MODE ns of
        (Inl error, ns) \<Rightarrow>
          (Inl (if if_kind error = KindAlreadyExists then PersistAlreadyExists
                else PersistFailed (''daemon identity could not be created: '' @ if_text error)), ns)
      | (Inr _, ns) \<Rightarrow>
          (case and_then (write_node path secret) (\<lambda>_. and_then (write_node path [CHR 0x0A]) (\<lambda>_. sync_node)) ns of
             (Inl error, ns) \<Rightarrow>
               (Inl (PersistFailed (''daemon identity could not be persisted: '' @ if_text error)),
                snd (remove_node path ns))
           | (Inr _, ns) \<Rightarrow> (Inr (), ns)))"

definition hex_digit :: "nat \<Rightarrow> char" where
  "hex_digit n = ''0123456789abcdef'' ! n"

definition encode_hex :: "8 word list \<Rightarrow> string" where
  "encode_hex bytes =
     concat (map (\<lambda>byte. [hex_digit (unat (drop_bit 4 byte)), hex_digit (unat (byte AND 0x0F))]) bytes)"

text \<open>The loop over at most 16 random secrets; a secret the engine refuses is replaced by the next one.\<close>

fun generate_loop ::
  "'x identity_services \<Rightarrow> string \<Rightarrow> nat \<Rightarrow> ('x identity_world, string, account_registration) action" where
  "generate_loop sv path 0 w = (Inl ''could not generate a valid daemon identity'', w)"
| "generate_loop sv path (Suc n) w =
     (case is_fill_bytes sv (iw_ext w) of (bytes, x) \<Rightarrow>
        (let w = w\<lparr>iw_ext := x\<rparr>; secret = encode_hex bytes in
         case register sv secret w of
           (Inl _, w) \<Rightarrow> generate_loop sv path n w
         | (Inr registration, w) \<Rightarrow>
             (case persist_new path secret (iw_nodes w) of
                (Inr _, ns) \<Rightarrow> (Inr registration, w\<lparr>iw_nodes := ns\<rparr>)
              | (Inl PersistAlreadyExists, ns) \<Rightarrow>
                  and_then (with_error (\<lambda>error. ''generated daemon identity cleanup failed after a file race: '' @ error)
                      (on_accounts (ae_remove_account (is_accounts sv) registration))) (\<lambda>_.
                  and_then (on_nodes (\<lambda>error. error) (load_identity path)) (\<lambda>found.
                    case found of
                      None \<Rightarrow> fail ''daemon identity disappeared during concurrent creation''
                    | Some secret \<Rightarrow> register sv secret)) (w\<lparr>iw_nodes := ns\<rparr>)
              | (Inl (PersistFailed reason), ns) \<Rightarrow>
                  (Inl reason, (w\<lparr>iw_nodes := ns\<rparr>)\<lparr>iw_ext := snd (ae_remove_account (is_accounts sv) registration (iw_ext w))\<rparr>))))"

definition generate_and_install ::
  "'x identity_services \<Rightarrow> string \<Rightarrow> ('x identity_world, string, account_registration) action" where
  "generate_and_install sv path =
     and_then (case parent_path path of
         None \<Rightarrow> ok ()
       | Some parent \<Rightarrow>
           on_nodes (\<lambda>error. ''daemon identity directory could not be created: '' @ if_text error)
             (create_dirs mode_777 parent)) (\<lambda>_. generate_loop sv path 16)"

definition install_daemon_identity ::
  "'x identity_services \<Rightarrow> string \<Rightarrow> string option \<Rightarrow> ('x identity_world, string, account_registration) action" where
  "install_daemon_identity sv path secret_override =
     (case secret_override of
        Some secret \<Rightarrow> register sv secret
      | None \<Rightarrow>
          and_then (on_nodes (\<lambda>error. error) (load_identity path)) (\<lambda>found.
            case found of
              Some secret \<Rightarrow> register sv secret
            | None \<Rightarrow> generate_and_install sv path))"

section \<open>What the identity file holds\<close>

text \<open>The secret a later start reads from a node, when nothing fails.\<close>

definition stored_identity :: "unix_node \<Rightarrow> string option" where
  "stored_identity node =
     (if nd_kind node = RegularNode \<and> nd_bytes node \<noteq> [] \<and> length (nd_bytes node) \<le> MAX_IDENTITY_BYTES
         \<and> private_mode (nd_mode node) \<and> valid_utf8 (nd_bytes node)
         \<and> trim (nd_bytes node) \<noteq> [] \<and> lines_count (trim (nd_bytes node)) = 1
      then Some (trim (nd_bytes node)) else None)"

lemma read_node_effect:
  "read_node p ns = (r, ns') \<Longrightarrow> ns_nodes ns' = ns_nodes ns"
  "read_node p ns = (Inr bytes, ns') \<Longrightarrow> \<exists>node. ns_nodes ns p = Some node \<and> nd_bytes node = bytes"
  by (auto simp: node_op_defs split: list.splits option.splits prod.splits if_splits)

lemma load_identity_effect:
  assumes "load_identity path ns = (r, ns')"
  shows "ns_nodes ns' = ns_nodes ns"
    and "r = Inr (Some secret) \<Longrightarrow> \<exists>node. ns_nodes ns path = Some node \<and> stored_identity node = Some secret"
proof -
  obtain q ns1 where m: "symlink_metadata path ns = (q, ns1)" by fastforce
  have 1: "ns_nodes ns1 = ns_nodes ns" using node_reads(1) [OF m] .
  obtain c ns2 where c: "read_node path ns1 = (c, ns2)" by fastforce
  have 2: "ns_nodes ns2 = ns_nodes ns" using read_node_effect(1) [OF c] 1 by simp
  have "ns' = ns1 \<or> ns' = ns2"
    using assms m c by (auto simp: load_identity_def Let_def split: sum.splits if_splits)
  then show "ns_nodes ns' = ns_nodes ns" using 1 2 by auto
  assume "r = Inr (Some secret)"
  then obtain metadata bytes where "q = Inr metadata" "c = Inr bytes" "nd_kind metadata = RegularNode"
    "nd_bytes metadata \<noteq> []" "length (nd_bytes metadata) \<le> MAX_IDENTITY_BYTES" "private_mode (nd_mode metadata)"
    "valid_utf8 bytes" "trim bytes \<noteq> []" "lines_count (trim bytes) = 1" "secret = trim bytes"
    using assms m c by (auto simp: load_identity_def Let_def not_less split: sum.splits if_splits)
  moreover from this have "ns_nodes ns path = Some metadata" using symlink_metadata_Inr m by simp
  moreover from this have "nd_bytes metadata = bytes" using read_node_effect(2) [of path ns1 bytes ns2] c 1 calculation(2) by simp
  ultimately show "\<exists>node. ns_nodes ns path = Some node \<and> stored_identity node = Some secret"
    by (auto simp: stored_identity_def)
qed

lemma load_identity_quiet:
  assumes "ns_faults ns = []" and "ns_nodes ns path = Some node" and "stored_identity node = Some secret"
  shows "load_identity path ns = (Inr (Some secret), ns)"
  using assms
  by (auto simp: load_identity_def stored_identity_def node_op_defs Let_def split: if_splits)

section \<open>Hexadecimal secrets\<close>

lemma hex_digit_graphic:
  assumes "n < 16"
  shows "is_graphic (hex_digit n)" "hex_digit n \<noteq> CHR 0x0A" "(of_char (hex_digit n) :: nat) < 128"
proof -
  have "hex_digit n \<in> set ''0123456789abcdef''"
    unfolding hex_digit_def by (rule nth_mem) (use assms in simp)
  then show "is_graphic (hex_digit n)" "hex_digit n \<noteq> CHR 0x0A" "(of_char (hex_digit n) :: nat) < 128"
    by (auto simp: is_graphic_def)
qed

lemma hex_nibbles: "unat (drop_bit 4 (b :: 8 word)) < 16" "unat (b AND 0x0F) < 16"
proof -
  have "unat b < 2 ^ 8" using unsigned_less [of b] by simp
  then show "unat (drop_bit 4 b) < 16" by (simp only: unat_drop_bit_eq) (simp add: drop_bit_eq_div)
  have "b AND 0x0F = take_bit 4 b" by (simp add: take_bit_eq_mask mask_eq_exp_minus_1)
  then show "unat (b AND 0x0F) < 16" by (simp only: unsigned_take_bit_eq) (simp add: take_bit_eq_mod)
qed


lemma encode_hex_chars:
  "c \<in> set (encode_hex bytes) \<Longrightarrow> is_graphic c \<and> c \<noteq> CHR 0x0A \<and> (of_char c :: nat) < 128"
  using hex_digit_graphic [OF hex_nibbles(1)] hex_digit_graphic [OF hex_nibbles(2)]
  by (auto simp: encode_hex_def)

lemma encode_hex_length: "length (encode_hex bytes) = 2 * length bytes"
  by (induction bytes) (auto simp: encode_hex_def)

lemma valid_utf8_ascii: "list_all (\<lambda>c. (of_char c :: nat) < 128) s \<Longrightarrow> valid_utf8 s"
  by (induction s) (auto simp: Let_def)

lemma count_list_notin: "x \<notin> set s \<Longrightarrow> count_list s x = 0"
  by (induction s) auto

text \<open>A trailing newline is trimmed away.\<close>

lemma trim_newline:
  assumes "s \<noteq> []" and "is_graphic (hd s)" and "is_graphic (last s)"
  shows "trim (s @ [CHR 0x0A]) = s"
proof -
  have start: "trim_start (s @ [CHR 0x0A]) = s @ [CHR 0x0A]"
    using assms strip_all_graphic [of "hd s" white_space "tl s @ [CHR 0x0A]"] white_space_no_graphic
    by (cases s) (auto simp: trim_start_def)
  have r: "rev s = last s # rev (butlast s)" using assms(1) by (cases s rule: rev_cases) simp_all
  have g: "\<forall>e \<in> set (map rev white_space). \<forall>d \<in> set e. \<not> is_graphic d" using white_space_no_graphic by auto
  have "strip_one (map rev white_space) (CHR 0x0A # rev s) = Some (rev s)"
    by (simp add: white_space_def)
  then have "strip_all (map rev white_space) (CHR 0x0A # rev s) = strip_all (map rev white_space) (rev s)"
    by (subst strip_all.simps) simp
  also have "\<dots> = rev s" unfolding r by (rule strip_all_graphic [OF assms(3) g])
  finally show ?thesis using start by (simp add: trim_def trim_end_def)
qed

lemma generated_identity_stored:
  assumes "length bytes = 32" and "nd_kind node = RegularNode" and "private_mode (nd_mode node)"
    and "nd_bytes node = encode_hex bytes @ [CHR 0x0A]"
  shows "stored_identity node = Some (encode_hex bytes)"
proof -
  define s where "s = encode_hex bytes"
  have len: "length s = 64" using assms(1) by (simp add: s_def encode_hex_length)
  then have "s \<noteq> []" by auto
  moreover from this have "is_graphic (hd s)" "is_graphic (last s)"
    using encode_hex_chars hd_in_set last_in_set unfolding s_def by blast+
  ultimately have trimmed: "trim (s @ [CHR 0x0A]) = s" by (rule trim_newline)
  have "last s \<noteq> CHR 0x0A" using \<open>s \<noteq> []\<close> encode_hex_chars last_in_set unfolding s_def by blast
  then have "lines_count s = 1"
    using \<open>s \<noteq> []\<close> encode_hex_chars by (auto simp: lines_count_def s_def intro!: count_list_notin)
  moreover have "valid_utf8 (s @ [CHR 0x0A])"
    by (rule valid_utf8_ascii) (use encode_hex_chars in \<open>auto simp: list_all_iff s_def\<close>)
  ultimately show ?thesis
    using assms(2-4) trimmed len \<open>s \<noteq> []\<close>
    by (simp add: stored_identity_def s_def [symmetric] MAX_IDENTITY_BYTES_def)
qed

section \<open>Writing the identity\<close>

lemma write_node_effect:
  "write_node p bytes ns = (r, ns') \<Longrightarrow> \<exists>k. ns_nodes ns' = ns_nodes (append_node p (take k bytes) ns)"
  "write_node p bytes ns = (Inr u, ns') \<Longrightarrow> ns_nodes ns' = ns_nodes (append_node p bytes ns)"
  by (auto simp: write_node_def next_node_fault_def append_node_def
      split: list.splits option.splits prod.splits if_splits intro: exI [of _ "length bytes"])

lemma append_node_at: "p' \<noteq> p \<Longrightarrow> ns_nodes (append_node p bytes ns) p' = ns_nodes ns p'"
  by (simp add: append_node_def split: option.split)

lemma append_node_same:
  "ns_nodes ns p = Some node \<Longrightarrow> ns_nodes (append_node p bytes ns) p = Some (node\<lparr>nd_bytes := nd_bytes node @ bytes\<rparr>)"
  by (simp add: append_node_def)

lemma sync_node_effect: "sync_node ns = (r, ns') \<Longrightarrow> ns_nodes ns' = ns_nodes ns"
  by (auto simp: node_op_defs split: list.splits option.splits prod.splits)

lemma create_new_file_effect:
  "create_new_file p mode ns = (Inl e, ns') \<Longrightarrow> ns_nodes ns' = ns_nodes ns"
  "create_new_file p mode ns = (Inr u, ns') \<Longrightarrow>
     ns_nodes ns p = None \<and> ns_nodes ns' = (ns_nodes ns)(p \<mapsto> fresh_node RegularNode mode False ns)"
  by (auto simp: node_op_defs put_node_def split: list.splits option.splits prod.splits if_splits)

lemma private_mode_600: "private_mode (mode_600 AND NOT umask)"
proof -
  have "(mode_600 AND NOT umask) AND mode_077 = (mode_600 AND mode_077) AND NOT umask"
    by (simp only: and.assoc and.commute and.left_commute)
  then show ?thesis by (simp add: private_mode_def)
qed

lemma persist_writes_other:
  assumes "and_then (write_node path secret) (\<lambda>_. and_then (write_node path nl) (\<lambda>_. sync_node)) ns = (r, ns')"
    and "p \<noteq> path"
  shows "ns_nodes ns' p = ns_nodes ns p"
proof -
  have w: "ns_nodes ns2 p = ns_nodes ns1 p" if "write_node path b ns1 = (q, ns2)" for b ns1 q ns2
    using write_node_effect(1) [OF that] append_node_at [OF assms(2)] by auto
  show ?thesis
    using assms(1) w sync_node_effect by (auto elim!: and_then_cases)
qed

lemma persist_new_effect:
  assumes "persist_new path secret ns = (r, ns')"
  shows "p \<noteq> path \<Longrightarrow> ns_nodes ns' p = ns_nodes ns p"
    and "ns_nodes ns path = Some node \<Longrightarrow> ns_nodes ns' path = Some node"
    and "r = Inr u \<Longrightarrow> \<exists>node. ns_nodes ns' path = Some node \<and> nd_kind node = RegularNode
      \<and> private_mode (nd_mode node) \<and> nd_bytes node = secret @ [CHR 0x0A]"
proof -
  obtain c ns1 where c: "create_new_file path mode_600 ns = (c, ns1)" by fastforce
  have all: "(p \<noteq> path \<longrightarrow> ns_nodes ns' p = ns_nodes ns p)
      \<and> (\<forall>node. ns_nodes ns path = Some node \<longrightarrow> ns_nodes ns' path = Some node)
      \<and> (\<forall>u. r = Inr u \<longrightarrow> (\<exists>node. ns_nodes ns' path = Some node \<and> nd_kind node = RegularNode
          \<and> private_mode (nd_mode node) \<and> nd_bytes node = secret @ [CHR 0x0A]))"
  proof (cases c)
    case (Inl error)
    then show ?thesis using assms c create_new_file_effect(1) by (auto simp: persist_new_def)
  next
    case (Inr v)
    note created = create_new_file_effect(2) [OF c [unfolded Inr]]
    define writes where "writes = and_then (write_node path secret) (\<lambda>_. and_then (write_node path [CHR 0x0A]) (\<lambda>_. sync_node))"
    obtain q ns2 where q: "writes ns1 = (q, ns2)" by fastforce
    have other: "p \<noteq> path \<Longrightarrow> ns_nodes ns2 p = ns_nodes ns p"
      using persist_writes_other [OF q [unfolded writes_def]] created by simp
    show ?thesis
    proof (cases q)
      case (Inl error)
      then have "r = Inl (PersistFailed (''daemon identity could not be persisted: '' @ if_text error))"
        "ns' = snd (remove_node path ns2)"
        using assms c Inr q by (simp_all add: persist_new_def writes_def)
      moreover have "p \<noteq> path \<Longrightarrow> ns_nodes (snd (remove_node path ns2)) p = ns_nodes ns2 p"
        using remove_node_effect [of path ns2] by (cases "remove_node path ns2") auto
      ultimately show ?thesis using other created by auto
    next
      case (Inr v')
      obtain ns3 ns4 where w: "write_node path secret ns1 = (Inr (), ns3)" "write_node path [CHR 0x0A] ns3 = (Inr (), ns4)"
        "sync_node ns4 = (Inr v', ns2)"
        using q Inr unfolding writes_def by (auto elim!: and_then_cases)
      define node where "node = (fresh_node RegularNode mode_600 False ns)\<lparr>nd_bytes := secret @ [CHR 0x0A]\<rparr>"
      have "ns_nodes ns2 path = Some node"
        using created write_node_effect(2) [OF w(1)] write_node_effect(2) [OF w(2)] sync_node_effect [OF w(3)]
        by (auto simp: append_node_same node_def fresh_node_def)
      moreover have "ns' = ns2" "r = Inr ()"
        using assms c \<open>c = Inr v\<close> q Inr by (simp_all add: persist_new_def writes_def)
      moreover have "private_mode (nd_mode node)" using private_mode_600 by (simp add: node_def fresh_node_def)
      ultimately show ?thesis using other created by (simp add: node_def)
    qed
  qed
  then show "p \<noteq> path \<Longrightarrow> ns_nodes ns' p = ns_nodes ns p"
    and "ns_nodes ns path = Some node \<Longrightarrow> ns_nodes ns' path = Some node"
    and "r = Inr u \<Longrightarrow> \<exists>node. ns_nodes ns' path = Some node \<and> nd_kind node = RegularNode
      \<and> private_mode (nd_mode node) \<and> nd_bytes node = secret @ [CHR 0x0A]" by blast+
qed

section \<open>Installing the identity\<close>

text \<open>The generator fills the whole array and does not touch the engine's registrations.\<close>

definition identity_contract :: "'x identity_services \<Rightarrow> ('x \<Rightarrow> account_registration set) \<Rightarrow> bool" where
  "identity_contract sv accounts \<longleftrightarrow>
     account_contract (is_accounts sv) accounts
     \<and> (\<forall>x. length (fst (is_fill_bytes sv x)) = 32 \<and> accounts (snd (is_fill_bytes sv x)) = accounts x)"

text \<open>
  What an installation promises: on success exactly the new registration was added and the file at
  \<open>path\<close> holds the secret it was made from; on failure nothing was added; a file that was there stays.
\<close>

definition identity_installed ::
  "'x identity_services \<Rightarrow> ('x \<Rightarrow> account_registration set) \<Rightarrow> string \<Rightarrow> 'x identity_world
   \<Rightarrow> (string + account_registration) \<times> 'x identity_world \<Rightarrow> bool" where
  "identity_installed sv accounts path w result \<longleftrightarrow>
     (case result of (r, w') \<Rightarrow>
        (\<forall>node. ns_nodes (iw_nodes w) path = Some node \<longrightarrow> ns_nodes (iw_nodes w') path = Some node)
        \<and> (case r of
             Inl _ \<Rightarrow> accounts (iw_ext w') = accounts (iw_ext w)
           | Inr registration \<Rightarrow>
               registration \<notin> accounts (iw_ext w) \<and> accounts (iw_ext w') = insert registration (accounts (iw_ext w))
               \<and> (\<exists>node secret x x'. ns_nodes (iw_nodes w') path = Some node \<and> stored_identity node = Some secret
                    \<and> ae_add_account (is_accounts sv) secret x = (Inr registration, x'))))"

lemma identity_installed_from:
  assumes "identity_installed sv accounts path w0 result" and "accounts (iw_ext w0) = accounts (iw_ext w)"
    and "\<And>node. ns_nodes (iw_nodes w) path = Some node \<Longrightarrow> ns_nodes (iw_nodes w0) path = Some node"
  shows "identity_installed sv accounts path w result"
  using assms unfolding identity_installed_def by (auto split: prod.splits sum.splits)

lemma register_effect:
  assumes "identity_contract sv accounts" and "register sv secret w = (r, w')"
  shows "iw_nodes w' = iw_nodes w"
    and "r = Inl e \<Longrightarrow> accounts (iw_ext w') = accounts (iw_ext w)"
    and "r = Inr registration \<Longrightarrow> registration \<notin> accounts (iw_ext w)
      \<and> accounts (iw_ext w') = insert registration (accounts (iw_ext w))
      \<and> ae_add_account (is_accounts sv) secret (iw_ext w) = (Inr registration, iw_ext w')"
proof -
  have c: "account_contract (is_accounts sv) accounts" using assms(1) by (simp add: identity_contract_def)
  obtain q x where add: "ae_add_account (is_accounts sv) secret (iw_ext w) = (q, x)" by fastforce
  have w': "w' = w\<lparr>iw_ext := x\<rparr>" and r: "r = map_err (\<lambda>error. ''NMP daemon identity was refused: '' @ error) q"
    using assms(2) add by (auto simp: register_def with_error_def on_accounts_def on_part_def)
  show "iw_nodes w' = iw_nodes w" by (simp add: w')
  show "r = Inl e \<Longrightarrow> accounts (iw_ext w') = accounts (iw_ext w)"
    using r w' account_contractD(1) [OF c] add by (cases q) auto
  show "r = Inr registration \<Longrightarrow> registration \<notin> accounts (iw_ext w)
      \<and> accounts (iw_ext w') = insert registration (accounts (iw_ext w))
      \<and> ae_add_account (is_accounts sv) secret (iw_ext w) = (Inr registration, iw_ext w')"
    using r w' account_contractD(2) [OF c] add by (cases q) auto
qed

text \<open>Registering a secret that is stored at the path.\<close>

lemma register_stored:
  assumes "identity_contract sv accounts" and "ns_nodes (iw_nodes w) path = Some node"
    and "stored_identity node = Some secret"
  shows "identity_installed sv accounts path w (register sv secret w)"
proof -
  obtain r w' where reg: "register sv secret w = (r, w')" by fastforce
  note e = register_effect [OF assms(1) reg]
  show ?thesis
  proof (cases r)
    case (Inl error)
    then show ?thesis using reg e(1,2) by (simp add: identity_installed_def)
  next
    case (Inr registration)
    then show ?thesis using reg e(1) e(3) [OF Inr] assms(2,3) by (auto simp: identity_installed_def)
  qed
qed

lemma load_and_register:
  assumes "identity_contract sv accounts"
    and "and_then (on_nodes (\<lambda>error. error) (load_identity path)) (\<lambda>found.
       case found of None \<Rightarrow> rest | Some secret \<Rightarrow> register sv secret) w = (r, w')"
    and "\<And>ns q w1. ns_nodes ns = ns_nodes (iw_nodes w) \<Longrightarrow> rest (w\<lparr>iw_nodes := ns\<rparr>) = (q, w1) \<Longrightarrow>
       identity_installed sv accounts path w (q, w1)"
  shows "identity_installed sv accounts path w (r, w')"
proof -
  obtain q ns where l: "load_identity path (iw_nodes w) = (q, ns)" by fastforce
  have same: "ns_nodes ns = ns_nodes (iw_nodes w)" using load_identity_effect(1) [OF l] .
  have step: "on_nodes (\<lambda>error. error) (load_identity path) w = (q, w\<lparr>iw_nodes := ns\<rparr>)"
    using l by (cases q) (simp_all add: on_nodes_def with_error_def on_part_def)
  show ?thesis
  proof (cases q)
    case (Inl error)
    then show ?thesis using assms(2) step same by (auto simp: and_then_def identity_installed_def)
  next
    case (Inr found)
    show ?thesis
    proof (cases found)
      case None
      then show ?thesis using assms(2) step same Inr by (intro assms(3) [of ns]) (auto simp: and_then_def)
    next
      case (Some secret)
      then obtain node where node: "ns_nodes (iw_nodes w) path = Some node" "stored_identity node = Some secret"
        using load_identity_effect(2) [OF l] Inr by blast
      have "identity_installed sv accounts path (w\<lparr>iw_nodes := ns\<rparr>) (register sv secret (w\<lparr>iw_nodes := ns\<rparr>))"
        by (rule register_stored [OF assms(1)]) (use node same in auto)
      then have "identity_installed sv accounts path w (register sv secret (w\<lparr>iw_nodes := ns\<rparr>))"
        by (rule identity_installed_from) (simp_all add: same)
      then show ?thesis using assms(2) step Inr Some by (simp add: and_then_def)
    qed
  qed
qed


text \<open>One attempt of the loop that was accepted by the engine.\<close>

lemma persist_attempt:
  assumes c: "identity_contract sv accounts" and len: "length bytes = 32"
    and reg: "register sv (encode_hex bytes) w = (Inr registration, w1)"
    and p: "persist_new path (encode_hex bytes) (iw_nodes w1) = (q, ns)"
    and run: "(case q of
        Inr _ \<Rightarrow> (Inr registration, w1\<lparr>iw_nodes := ns\<rparr>)
      | Inl PersistAlreadyExists \<Rightarrow>
          and_then (with_error (\<lambda>error. ''generated daemon identity cleanup failed after a file race: '' @ error)
              (on_accounts (ae_remove_account (is_accounts sv) registration))) (\<lambda>_.
          and_then (on_nodes (\<lambda>error. error) (load_identity path)) (\<lambda>found.
            case found of
              None \<Rightarrow> fail ''daemon identity disappeared during concurrent creation''
            | Some secret \<Rightarrow> register sv secret)) (w1\<lparr>iw_nodes := ns\<rparr>)
      | Inl (PersistFailed reason) \<Rightarrow>
          (Inl reason, (w1\<lparr>iw_nodes := ns\<rparr>)\<lparr>iw_ext := snd (ae_remove_account (is_accounts sv) registration (iw_ext w1))\<rparr>))
      = (r, w')"
  shows "identity_installed sv accounts path w (r, w')"
proof -
  have ac: "account_contract (is_accounts sv) accounts" using c by (simp add: identity_contract_def)
  note e = register_effect [OF c reg]
  have e3: "registration \<notin> accounts (iw_ext w)" "accounts (iw_ext w1) = insert registration (accounts (iw_ext w))"
    "ae_add_account (is_accounts sv) (encode_hex bytes) (iw_ext w) = (Inr registration, iw_ext w1)"
    using e(3) by auto
  have kept: "ns_nodes (iw_nodes w) path = Some node \<Longrightarrow> ns_nodes ns path = Some node" for node
    using persist_new_effect(2) [OF p] e(1) by simp
  have removed: "accounts (snd (ae_remove_account (is_accounts sv) registration (iw_ext w1))) = accounts (iw_ext w)"
    using account_contractD(3) [OF ac, of registration "iw_ext w1"] e3(1,2) by (simp add: ignoring_def)
  show ?thesis
  proof (cases q)
    case (Inr u)
    then obtain node where "ns_nodes ns path = Some node" "nd_kind node = RegularNode" "private_mode (nd_mode node)"
      "nd_bytes node = encode_hex bytes @ [CHR 0x0A]"
      using persist_new_effect(3) [OF p] by blast
    then show ?thesis
      using generated_identity_stored [OF len] run Inr e3 kept
      by (auto simp: identity_installed_def) (metis e3(3))
  next
    case (Inl error)
    show ?thesis
    proof (cases error)
      case (PersistFailed reason)
      then show ?thesis using run Inl removed kept by (auto simp: identity_installed_def)
    next
      case PersistAlreadyExists
      obtain v x where rem: "ae_remove_account (is_accounts sv) registration (iw_ext w1) = (v, x)" by fastforce
      define w2 where "w2 = w1\<lparr>iw_nodes := ns, iw_ext := x\<rparr>"
      have x: "accounts x = accounts (iw_ext w)" using removed rem by simp
      show ?thesis
      proof (cases v)
        case (Inl e)
        then show ?thesis
          using run \<open>q = Inl error\<close> PersistAlreadyExists rem x kept
          by (auto simp: and_then_def with_error_def on_accounts_def on_part_def identity_installed_def)
      next
        case (Inr u)
        then have "and_then (on_nodes (\<lambda>error. error) (load_identity path)) (\<lambda>found.
            case found of None \<Rightarrow> fail ''daemon identity disappeared during concurrent creation''
            | Some secret \<Rightarrow> register sv secret) w2 = (r, w')"
          using run \<open>q = Inl error\<close> PersistAlreadyExists rem
          by (simp add: and_then_def with_error_def on_accounts_def on_part_def w2_def)
        then have "identity_installed sv accounts path w2 (r, w')"
          by (rule load_and_register [OF c]) (auto simp: identity_installed_def)
        then show ?thesis by (rule identity_installed_from) (simp_all add: w2_def x kept)
      qed
    qed
  qed
qed

lemma generate_loop_installs:
  assumes "identity_contract sv accounts"
  shows "generate_loop sv path n w = (r, w') \<Longrightarrow> identity_installed sv accounts path w (r, w')"
proof (induction n arbitrary: w)
  case 0
  then show ?case by (auto simp: identity_installed_def)
next
  case (Suc n)
  obtain bytes x where f: "is_fill_bytes sv (iw_ext w) = (bytes, x)" by fastforce
  have x: "length bytes = 32" "accounts x = accounts (iw_ext w)"
    using assms f unfolding identity_contract_def by (metis fst_conv, metis snd_conv)
  obtain q w1 where reg: "register sv (encode_hex bytes) (w\<lparr>iw_ext := x\<rparr>) = (q, w1)" by fastforce
  show ?case
  proof (cases q)
    case (Inl error)
    then have "generate_loop sv path n w1 = (r, w')" using Suc.prems f reg by (simp add: Let_def)
    from Suc.IH [OF this] show ?thesis
      by (rule identity_installed_from) (use register_effect(1,2) [OF assms reg] Inl x(2) in auto)
  next
    case (Inr registration)
    obtain c ns where p: "persist_new path (encode_hex bytes) (iw_nodes w1) = (c, ns)" by fastforce
    have "identity_installed sv accounts path (w\<lparr>iw_ext := x\<rparr>) (r, w')"
      by (rule persist_attempt [OF assms x(1) reg [unfolded Inr] p])
        (use Suc.prems f reg Inr p in \<open>simp add: Let_def split: sum.splits persist_error.splits\<close>)
    then show ?thesis by (rule identity_installed_from) (simp_all add: x(2))
  qed
qed

text \<open>Making the directory keeps every node that was there.\<close>

lemma generate_and_install_installs:
  assumes "identity_contract sv accounts" and "generate_and_install sv path w = (r, w')"
  shows "identity_installed sv accounts path w (r, w')"
proof -
  define make :: "('a identity_world, string, unit) action" where "make = (case parent_path path of
      None \<Rightarrow> ok ()
    | Some parent \<Rightarrow> on_nodes (\<lambda>error. ''daemon identity directory could not be created: '' @ if_text error)
        (create_dirs mode_777 parent))"
  obtain q w1 where m: "make w = (q, w1)" by fastforce
  have kept: "iw_ext w1 = iw_ext w \<and> (ns_nodes (iw_nodes w) path = Some node \<longrightarrow> ns_nodes (iw_nodes w1) path = Some node)" for node
  proof (cases "parent_path path")
    case None
    then show ?thesis using m by (simp add: make_def of_result_def)
  next
    case (Some parent)
    obtain v ns where c: "create_dirs mode_777 parent (iw_nodes w) = (v, ns)" by fastforce
    then have "w1 = w\<lparr>iw_nodes := ns\<rparr>" using m Some by (simp add: make_def on_nodes_def with_error_def on_part_def)
    then show ?thesis using create_dirs_effect [OF c] by auto
  qed
  have run: "and_then make (\<lambda>_. generate_loop sv path 16) w = (r, w')"
    using assms(2) unfolding generate_and_install_def make_def .
  show ?thesis
  proof (cases q)
    case (Inl error)
    then show ?thesis using run m kept by (auto simp: and_then_def identity_installed_def)
  next
    case (Inr u)
    then have "identity_installed sv accounts path w1 (r, w')"
      using run m by (intro generate_loop_installs [OF assms(1)]) (simp add: and_then_def)
    then show ?thesis by (rule identity_installed_from) (use kept in auto)
  qed
qed

lemma install_daemon_identity_kept:
  assumes "identity_contract sv accounts" and "install_daemon_identity sv path secret_override w = (r, w')"
  shows "(secret_override = None \<longrightarrow> identity_installed sv accounts path w (r, w')
      \<and> (\<forall>registration. r = Inr registration \<longrightarrow>
          (\<exists>secret x x'. ae_add_account (is_accounts sv) secret x = (Inr registration, x')
             \<and> load_identity path ((iw_nodes w')\<lparr>ns_faults := []\<rparr>) = (Inr (Some secret), (iw_nodes w')\<lparr>ns_faults := []\<rparr>))))
    \<and> (secret_override \<noteq> None \<longrightarrow> iw_nodes w' = iw_nodes w)"
proof (cases secret_override)
  case None
  then have "and_then (on_nodes (\<lambda>error. error) (load_identity path)) (\<lambda>found.
      case found of None \<Rightarrow> generate_and_install sv path | Some secret \<Rightarrow> register sv secret) w = (r, w')"
    using assms(2) by (simp add: install_daemon_identity_def)
  then have installed: "identity_installed sv accounts path w (r, w')"
  proof (rule load_and_register [OF assms(1)])
    fix ns q w1
    assume same: "ns_nodes ns = ns_nodes (iw_nodes w)" and g: "generate_and_install sv path (w\<lparr>iw_nodes := ns\<rparr>) = (q, w1)"
    show "identity_installed sv accounts path w (q, w1)"
      by (rule identity_installed_from [OF generate_and_install_installs [OF assms(1) g]]) (simp_all add: same)
  qed
  have "\<exists>secret x x'. ae_add_account (is_accounts sv) secret x = (Inr registration, x')
      \<and> load_identity path ((iw_nodes w')\<lparr>ns_faults := []\<rparr>) = (Inr (Some secret), (iw_nodes w')\<lparr>ns_faults := []\<rparr>)"
    if ok: "r = Inr registration" for registration
  proof -
    obtain node secret x x' where "ns_nodes (iw_nodes w') path = Some node" "stored_identity node = Some secret"
      "ae_add_account (is_accounts sv) secret x = (Inr registration, x')"
      using installed ok by (auto simp: identity_installed_def)
    then show ?thesis using load_identity_quiet [of "(iw_nodes w')\<lparr>ns_faults := []\<rparr>" path node secret] by auto
  qed
  then show ?thesis using None installed by simp
next
  case (Some secret)
  then show ?thesis using assms register_effect(1) [OF assms(1)] by (auto simp: install_daemon_identity_def)
qed


text \<open>A first start: the directory and the file are made.\<close>

definition sample_identity_services :: "account_registration list identity_services" where
  "sample_identity_services = \<lparr>is_accounts = listing_engine, is_fill_bytes = (\<lambda>x. (replicate 32 7, x))\<rparr>"

lemma sample_identity_contract: "identity_contract sample_identity_services set"
  by (simp add: identity_contract_def sample_identity_services_def listing_engine_contract)

definition empty_disk :: "account_registration list identity_world" where
  "empty_disk = \<lparr>iw_nodes = \<lparr>ns_nodes = Map.empty, ns_dev = 1, ns_next_ino = 2, ns_umask = 18, ns_faults = []\<rparr>, iw_ext = []\<rparr>"


end
