(* ===== verification/Daemon_Config.thy ===== *)
theory Daemon_Config
  imports Daemon_Identity
begin

text \<open>
  The daemon's configuration file (\<open>daemon/src/daemon_config.rs\<close>). Durations are in seconds.
\<close>

section \<open>Configurations\<close>

record blossom_upload_config =
  bf_server :: string
  bf_allowed_local_hosts :: "string list"
  bf_request_timeout :: u64
  bf_authorization_lifetime :: u64
  bf_max_upload_bytes :: u64

definition blossom_config_new :: "string \<Rightarrow> blossom_upload_config" where
  "blossom_config_new server =
     \<lparr>bf_server = server, bf_allowed_local_hosts = [], bf_request_timeout = 60, bf_authorization_lifetime = 300,
      bf_max_upload_bytes = 50 * 1024 * 1024\<rparr>"

record production_config =
  pc_journal_root :: string
  pc_work_root :: string
  pc_nmp_store_path :: "string option"
  pc_daemon_identity_path :: string
  pc_secret_key_override :: "string option"
  pc_host :: string
  pc_group_id :: string
  pc_owner_pubkey :: string
  pc_default_voice :: string
  pc_kokoro :: kokoro_config
  pc_blossom :: blossom_upload_config
  pc_receipt_timeout :: u64

record loaded_daemon_config =
  ld_socket_path :: string
  ld_production :: production_config

text \<open>The file as it is written: fields with a serde default may be missing.\<close>

record kokoro_file_config =
  kf_endpoint :: string
  kf_request_timeout_seconds :: "u64 option"
  kf_max_audio_bytes :: "u64 option"
  kf_allow_insecure_loopback :: "bool option"

record blossom_file_config =
  bl_server :: string
  bl_allowed_local_hosts :: "string list option"
  bl_request_timeout_seconds :: "u64 option"
  bl_authorization_lifetime_seconds :: "u64 option"
  bl_max_upload_bytes :: "u64 option"

record file_config =
  fc_socket_path :: string
  fc_journal_root :: string
  fc_work_root :: string
  fc_nmp_store_path :: "string option"
  fc_daemon_identity_path :: "string option"
  fc_host :: string
  fc_group_id :: string
  fc_owner_pubkey :: string
  fc_kokoro :: kokoro_file_config
  fc_blossom :: blossom_file_config
  fc_receipt_timeout_seconds :: "u64 option"
  fc_default_voice :: "string option"

definition MAX_CONFIG_BYTES :: nat where "MAX_CONFIG_BYTES = 64 * 1024"
definition MAX_CAPABILITY_SECONDS :: u64 where "MAX_CAPABILITY_SECONDS = 300"
definition MAX_AUDIO_BYTES :: u64 where "MAX_AUDIO_BYTES = 100 * 1024 * 1024"

definition default_receipt_timeout :: u64 where "default_receipt_timeout = 30"
definition default_daemon_identity_path :: string where "default_daemon_identity_path = ''daemon.key''"
definition default_voice :: string where "default_voice = ''af_heart''"
definition default_kokoro_timeout :: u64 where "default_kokoro_timeout = 120"
definition default_blossom_timeout :: u64 where "default_blossom_timeout = 60"
definition default_authorization_lifetime :: u64 where "default_authorization_lifetime = 300"
definition default_audio_bytes :: u64 where "default_audio_bytes = 50 * 1024 * 1024"

definition or_default :: "'a \<Rightarrow> 'a option \<Rightarrow> 'a" where
  "or_default fallback given = (case given of None \<Rightarrow> fallback | Some v \<Rightarrow> v)"

definition validate_duration :: "string \<Rightarrow> u64 \<Rightarrow> string + unit" where
  "validate_duration name seconds =
     (if seconds = 0 \<or> seconds > MAX_CAPABILITY_SECONDS
      then Inl (name @ '' must be between 1 and '' @ nat_to_string (unat MAX_CAPABILITY_SECONDS) @ '' seconds'')
      else Inr ())"

definition validate_audio_limit :: "string \<Rightarrow> u64 \<Rightarrow> string + unit" where
  "validate_audio_limit name limit =
     (if limit = 0 \<or> limit > MAX_AUDIO_BYTES then Inl (name @ '' byte limit is invalid'') else Inr ())"

definition resolve_path :: "string \<Rightarrow> string \<Rightarrow> string" where
  "resolve_path base path = (if starts_with path ''/'' then path else path_join base path)"

section \<open>The environment\<close>

datatype env_var = EnvNotPresent | EnvNotUnicode | EnvValue string

type_synonym environment = "string \<Rightarrow> env_var"

definition optional_env :: "environment \<Rightarrow> string \<Rightarrow> string + string option" where
  "optional_env env name =
     (case env name of
        EnvValue content \<Rightarrow>
          if content = [] then Inl (''environment variable '' @ name @ '' is empty'') else Inr (Some content)
      | EnvNotPresent \<Rightarrow> Inr None
      | EnvNotUnicode \<Rightarrow> Inl (''environment variable '' @ name @ '' is not valid UTF-8''))"

definition kokoro_auth_from :: "environment \<Rightarrow> string + kokoro_auth" where
  "kokoro_auth_from env =
     bind_result (optional_env env ''TTS29_KOKORO_BEARER'') (\<lambda>bearer.
     bind_result (optional_env env ''TTS29_KOKORO_BASIC_USERNAME'') (\<lambda>username.
     bind_result (optional_env env ''TTS29_KOKORO_BASIC_PASSWORD'') (\<lambda>password.
       (case (bearer, username, password) of
          (None, None, None) \<Rightarrow> Inr NoAuth
        | (Some token, None, None) \<Rightarrow> Inr (Bearer token)
        | (None, Some username, Some password) \<Rightarrow> Inr (Basic username password)
        | _ \<Rightarrow> Inl ''Kokoro authentication environment is incomplete or ambiguous''))))"

section \<open>Loading\<close>

definition check_file :: "file_config \<Rightarrow> string + unit" where
  "check_file f =
     bind_result (validate_duration ''receipt timeout''
         (or_default default_receipt_timeout (fc_receipt_timeout_seconds f))) (\<lambda>_.
     bind_result (validate_duration ''Kokoro timeout''
         (or_default default_kokoro_timeout (kf_request_timeout_seconds (fc_kokoro f)))) (\<lambda>_.
     bind_result (validate_duration ''Blossom timeout''
         (or_default default_blossom_timeout (bl_request_timeout_seconds (fc_blossom f)))) (\<lambda>_.
     bind_result (validate_duration ''Blossom authorization lifetime''
         (or_default default_authorization_lifetime (bl_authorization_lifetime_seconds (fc_blossom f)))) (\<lambda>_.
     bind_result (validate_audio_limit ''Kokoro audio''
         (or_default default_audio_bytes (kf_max_audio_bytes (fc_kokoro f)))) (\<lambda>_.
       validate_audio_limit ''Blossom upload''
         (or_default default_audio_bytes (bl_max_upload_bytes (fc_blossom f))))))))"

definition kokoro_of_file :: "kokoro_auth \<Rightarrow> kokoro_file_config \<Rightarrow> kokoro_config" where
  "kokoro_of_file auth kf =
     (kokoro_defaults (kf_endpoint kf))
       \<lparr>kk_auth := auth,
        kk_request_timeout := or_default default_kokoro_timeout (kf_request_timeout_seconds kf),
        kk_max_audio_bytes := unat (or_default default_audio_bytes (kf_max_audio_bytes kf)),
        kk_allow_insecure_loopback := or_default False (kf_allow_insecure_loopback kf)\<rparr>"

definition blossom_of_file :: "blossom_file_config \<Rightarrow> blossom_upload_config" where
  "blossom_of_file bf =
     (blossom_config_new (bl_server bf))
       \<lparr>bf_allowed_local_hosts := or_default [] (bl_allowed_local_hosts bf),
        bf_request_timeout := or_default default_blossom_timeout (bl_request_timeout_seconds bf),
        bf_authorization_lifetime := or_default default_authorization_lifetime (bl_authorization_lifetime_seconds bf),
        bf_max_upload_bytes := or_default default_audio_bytes (bl_max_upload_bytes bf)\<rparr>"

definition load_daemon_config ::
  "(string \<Rightarrow> string + file_config) \<Rightarrow> environment \<Rightarrow> string \<Rightarrow> io_failure + string \<Rightarrow> string + loaded_daemon_config" where
  "load_daemon_config decode env path contents =
     bind_result (map_err (\<lambda>error. ''daemon config could not be read: '' @ if_text error) contents) (\<lambda>bytes.
     if bytes = [] \<or> length bytes > MAX_CONFIG_BYTES then Inl ''daemon config size is invalid''
     else
       bind_result (map_err (\<lambda>error. ''daemon config is invalid: '' @ error) (decode bytes)) (\<lambda>f.
       bind_result (check_file f) (\<lambda>_.
       (let base = (case parent_path path of None \<Rightarrow> ''.'' | Some parent \<Rightarrow> parent) in
        bind_result (optional_env env ''TTS29_DAEMON_NSEC'') (\<lambda>secret_key_override.
        bind_result (kokoro_auth_from env) (\<lambda>auth.
        bind_result
          (case map_option (resolve_path base) (fc_nmp_store_path f) of
             None \<Rightarrow> Inr None
           | Some store \<Rightarrow> if valid_utf8 store then Inr (Some store) else Inl ''NMP store path is not valid UTF-8'')
          (\<lambda>nmp_store_path.
            Inr \<lparr>ld_socket_path = resolve_path base (fc_socket_path f),
                 ld_production =
                   \<lparr>pc_journal_root = resolve_path base (fc_journal_root f),
                    pc_work_root = resolve_path base (fc_work_root f),
                    pc_nmp_store_path = nmp_store_path,
                    pc_daemon_identity_path = resolve_path base
                      (or_default default_daemon_identity_path (fc_daemon_identity_path f)),
                    pc_secret_key_override = secret_key_override,
                    pc_host = fc_host f, pc_group_id = fc_group_id f, pc_owner_pubkey = fc_owner_pubkey f,
                    pc_default_voice = or_default default_voice (fc_default_voice f),
                    pc_kokoro = kokoro_of_file auth (fc_kokoro f),
                    pc_blossom = blossom_of_file (fc_blossom f),
                    pc_receipt_timeout = or_default default_receipt_timeout (fc_receipt_timeout_seconds f)\<rparr>\<rparr>)))))))"

section \<open>A configuration that loads is usable\<close>

lemma word_one_le: "1 \<le> (s :: u64) \<longleftrightarrow> s \<noteq> 0"
  by (simp add: word_le_nat_alt Suc_le_eq unat_gt_0)

lemma validate_duration_ok: "validate_duration name s = Inr u \<longleftrightarrow> 1 \<le> s \<and> s \<le> MAX_CAPABILITY_SECONDS"
  by (auto simp: validate_duration_def not_less word_one_le)

lemma validate_audio_limit_ok: "validate_audio_limit name s = Inr u \<longleftrightarrow> 1 \<le> s \<and> s \<le> MAX_AUDIO_BYTES"
  by (auto simp: validate_audio_limit_def not_less word_one_le)

text \<open>A path of the configuration: as written if it is absolute, and beside the configuration file otherwise.\<close>

definition placed :: "string \<Rightarrow> string \<Rightarrow> string \<Rightarrow> bool" where
  "placed base written resolved \<longleftrightarrow>
     resolved = written \<and> starts_with written ''/'' \<or> resolved = path_join base written \<and> \<not> starts_with written ''/''"

lemma placed_resolve: "placed base path (resolve_path base path)"
  by (simp add: placed_def resolve_path_def)

lemma optional_env_ok:
  "optional_env env name = Inr found \<longleftrightarrow>
     (case found of None \<Rightarrow> env name = EnvNotPresent | Some content \<Rightarrow> content \<noteq> [] \<and> env name = EnvValue content)"
  by (auto simp: optional_env_def split: env_var.splits option.splits)

lemma loaded_parts:
  assumes "load_daemon_config decode env path contents = Inr loaded"
  obtains bytes f auth where "contents = Inr bytes" "0 < length bytes" "length bytes \<le> MAX_CONFIG_BYTES"
    "decode bytes = Inr f" "check_file f = Inr ()"
    "optional_env env ''TTS29_DAEMON_NSEC'' = Inr (pc_secret_key_override (ld_production loaded))"
    "kokoro_auth_from env = Inr auth"
    "pc_kokoro (ld_production loaded) = kokoro_of_file auth (fc_kokoro f)"
    "pc_blossom (ld_production loaded) = blossom_of_file (fc_blossom f)"
    "pc_receipt_timeout (ld_production loaded) = or_default default_receipt_timeout (fc_receipt_timeout_seconds f)"
    "list_all (case_prod (placed (case parent_path path of None \<Rightarrow> ''.'' | Some parent \<Rightarrow> parent)))
      [(fc_socket_path f, ld_socket_path loaded), (fc_journal_root f, pc_journal_root (ld_production loaded)),
       (fc_work_root f, pc_work_root (ld_production loaded)),
       (or_default default_daemon_identity_path (fc_daemon_identity_path f), pc_daemon_identity_path (ld_production loaded))]"
  using assms
  by (fastforce simp: load_daemon_config_def Let_def bind_result_Inr_iff placed_resolve not_less
      split: if_splits sum.splits)


definition sample_file :: file_config where
  "sample_file =
     \<lparr>fc_socket_path = ''run/daemon.sock'', fc_journal_root = ''/var/jobs'', fc_work_root = ''work'',
      fc_nmp_store_path = None, fc_daemon_identity_path = None, fc_host = ''wss://relay'', fc_group_id = ''tts'',
      fc_owner_pubkey = ''owner'',
      fc_kokoro = \<lparr>kf_endpoint = ''https://kokoro'', kf_request_timeout_seconds = None, kf_max_audio_bytes = None,
        kf_allow_insecure_loopback = None\<rparr>,
      fc_blossom = \<lparr>bl_server = ''https://blossom'', bl_allowed_local_hosts = None, bl_request_timeout_seconds = Some 300,
        bl_authorization_lifetime_seconds = None, bl_max_upload_bytes = Some 1\<rparr>,
      fc_receipt_timeout_seconds = None, fc_default_voice = None\<rparr>"

definition sample_env :: environment where
  "sample_env name = (if name = ''TTS29_DAEMON_NSEC'' then EnvValue ''nsec1'' else EnvNotPresent)"


end
