(* ===== verification/Publisher_Laws.thy ===== *)
theory Publisher_Laws imports Publisher
begin

text \<open>
  What the publisher may conclude from the network: when a write counts as acknowledged, when an author
  counts as a member, and what the group bootstrap does on each observed state.
\<close>

section \<open>Receipts\<close>

text \<open>
  C24: a write counts as published exactly when the host acknowledged it. \<open>await_host_ack\<close> succeeds if
  and only if the receipt can be reattached and some prefix of at most 32 statuses contains a signature
  and an acknowledgement of the configured host and no rejection, failure or unknown outcome.
\<close>

theorem await_host_ack_iff:
  "(\<exists>e. fst (await_host_ack engine receipt_id host operation n) = Inr e) \<longleftrightarrow>
   (\<exists>statuses. fst (en_reattach_receipt engine receipt_id n) = Inr (Attached statuses)
      \<and> (\<exists>k \<le> 32. k \<le> length statuses
            \<and> \<not> list_ex negative_status (take k statuses)
            \<and> (\<exists>event. Signed event \<in> set (take k statuses))
            \<and> Acked host \<in> set (take k statuses)))"
proof -
  have loop: "(\<exists>e. await_loop debug operation receipt_id host 32 statuses None False last = Inr e) \<longleftrightarrow>
      (\<exists>k \<le> 32. k \<le> length statuses \<and> \<not> list_ex negative_status (take k statuses)
         \<and> (\<exists>event. Signed event \<in> set (take k statuses)) \<and> Acked host \<in> set (take k statuses))"
    for debug statuses last
    using await_loop_settles [of False None debug operation receipt_id host 32 statuses last]
    by (simp add: settled_def)
  show ?thesis
  proof (cases "en_reattach_receipt engine receipt_id n")
    case (Pair r n')
    then show ?thesis
      by (cases r rule: sum.exhaust [case_product receipt_reattachment.exhaust])
        (auto simp: await_host_ack_def and_then_def of_result_def loop split: receipt_reattachment.splits sum.splits)
  qed
qed

section \<open>Membership\<close>

lemma apply_deltas_values:
  "apply_deltas limit refusal deltas current = Inr current' \<Longrightarrow>
   set (map snd current') \<subseteq> set (map snd current) \<union> {event. Added event \<in> set deltas}"
proof (induction limit refusal deltas current rule: apply_deltas.induct)
  case (2 limit refusal row deltas current)
  then have "set (map snd current') \<subseteq> set (map snd (btree_insert (ev_id row) row current)) \<union> {event. Added event \<in> set deltas}"
    by (simp split: if_splits)
  then show ?case using btree_insert_values [of "ev_id row" row current] by auto
next
  case (3 limit refusal event_id deltas current)
  then show ?case using btree_remove_values [of event_id current] by auto
qed auto

text \<open>The events an observation has delivered.\<close>

definition delivered :: "timed_frame list \<Rightarrow> event set" where
  "delivered arrivals = (\<Union>arrival \<in> set arrivals. {event. Added event \<in> set (fr_deltas (tf_frame arrival))})"

lemma delivered_Cons:
  "delivered (a # arrivals) = {event. Added event \<in> set (fr_deltas (tf_frame a))} \<union> delivered arrivals"
  by (simp add: delivered_def)

declare membership_loop.simps [simp del]

lemma membership_loop_evidence:
  "membership_loop debug p member arrivals remaining evidence current = Inr (Some event_id) \<Longrightarrow>
   \<exists>event \<in> set (map snd current) \<union> delivered arrivals. ev_id event = event_id
     \<and> event_authorizes_member event (np_group_id p) member"
proof (induction arrivals arbitrary: remaining evidence current)
  case Nil
  then show ?case by (simp add: membership_loop.simps split: if_splits)
next
  case (Cons arrival rest)
  obtain current' where d: "apply_deltas 4 ''NMP returned an invalid number of current membership states''
      (fr_deltas (tf_frame arrival)) current = Inr current'"
    using Cons.prems by (auto simp: membership_loop.simps [of debug p member "arrival # rest"] bind_result_Inr_iff
        split: if_splits)
  have seen: "set (map snd current') \<subseteq> set (map snd current) \<union> delivered (arrival # rest)"
    using apply_deltas_values [OF d] by (auto simp: delivered_Cons)
  show ?case
  proof (cases "host_reconciled (np_host p) (tf_frame arrival)")
    case True
    then have "map_option ev_id (find (\<lambda>event. event_authorizes_member event (np_group_id p) member)
        (map snd current')) = Some event_id"
      using Cons.prems d by (simp add: membership_loop.simps [of debug p member "arrival # rest"] split: if_splits)
    then obtain event where "find (\<lambda>event. event_authorizes_member event (np_group_id p) member) (map snd current') = Some event"
      "ev_id event = event_id" by auto
    then have "event \<in> set (map snd current')" "event_authorizes_member event (np_group_id p) member"
      by (metis find_Some_iff nth_mem)+
    then show ?thesis using seen \<open>ev_id event = event_id\<close> by blast
  next
    case False
    then have "membership_loop debug p member rest (remaining - tf_elapsed arrival)
        (debug (fr_evidence (tf_frame arrival))) current' = Inr (Some event_id)"
      using Cons.prems d by (simp add: membership_loop.simps [of debug p member "arrival # rest"] split: if_splits)
    from Cons.IH [OF this] show ?thesis using seen delivered_Cons [of arrival rest] by blast
  qed
qed


text \<open>An engine whose observations deliver one reconciled frame with the group's admin state.\<close>

definition sample_frame :: frame where
  "sample_frame =
     \<lparr>fr_deltas = [Added sample_admin_state], fr_window = None,
      fr_evidence = \<lparr>aq_sources = [\<lparr>se_relay = ''wss://relay'', se_status = Requesting,
        se_reconciled_through = Some 5\<rparr>], aq_shortfall = []\<rparr>\<rparr>"

definition sample_engine :: "'n nmp_engine" where
  "sample_engine =
     \<lparr>en_parse_key = Some, en_group_send = plain_group_send, en_sha256_hex = (\<lambda>bytes. bytes),
      en_correlation = Inr, en_publish_tracked = (\<lambda>intent. fail ''offline''),
      en_reattach_receipt = (\<lambda>receipt. fail ''offline''),
      en_observe = (\<lambda>demand. ok [\<lparr>tf_elapsed = 1, tf_frame = sample_frame\<rparr>]),
      en_debug_status = (\<lambda>status. []), en_debug_evidence = (\<lambda>evidence. [])\<rparr>"

definition sample_publisher :: nmp_publisher where
  "sample_publisher =
     \<lparr>np_host = ''wss://relay'', np_group_id = ''tts'', np_admin_author = ''daemon'', np_receipt_timeout = 10\<rparr>"

lemma sample_demand: "group_membership_demand ''wss://relay'' ''tts'' =
    Inr \<lparr>dm_kinds = {39001, 39002}, dm_tag = (''d'', {''tts''}), dm_hosts = {''wss://relay''}, dm_strict = True\<rparr>"
  by (simp add: group_membership_demand_def membership_validate_group_def ok_or_def MEMBER_STATE_KINDS_def
      evaluate_text)


section \<open>Bootstrap\<close>

lemma role_establishes_group:
  "list_ex (\<lambda>event. event_assigns_role event group_id user role) events \<Longrightarrow>
   list_ex (\<lambda>event. event_establishes_group event group_id \<or> event_is_group_admin_state event group_id) events"
  by (induction events) (auto simp: event_assigns_role_def)

lemma observed_admin_exists:
  "observe_frames debug host group_id daemon owner timeout n arrivals current evidence = Inr state \<Longrightarrow>
   gs_daemon_is_admin state \<Longrightarrow> gs_exists state"
proof (induction n arbitrary: arrivals current evidence)
  case (Suc n)
  obtain arrival rest where a: "arrivals = arrival # rest" using Suc.prems(1) by (cases arrivals) simp_all
  obtain current' where d: "apply_deltas 8 ''NMP returned too many current group administration states''
      (fr_deltas (tf_frame arrival)) current = Inr current'"
    using Suc.prems(1) by (auto simp: a bind_result_Inr_iff split: if_splits)
  show ?case
  proof (cases "host_reconciled host (tf_frame arrival)")
    case True
    then show ?thesis
      using Suc.prems role_establishes_group d by (force simp: a split: if_splits)
  next
    case False
    then have "observe_frames debug host group_id daemon owner timeout n rest current'
        (debug (fr_evidence (tf_frame arrival))) = Inr state"
      using Suc.prems(1) d by (simp add: a split: if_splits)
    then show ?thesis using Suc.IH Suc.prems(2) by blast
  qed
qed simp


lemma sample_observed:
  assumes "1 \<le> timeout"
  shows "observe_state sample_engine ''wss://relay'' ''tts'' who ''daemon'' timeout n =
      (Inr \<lparr>gs_exists = True, gs_daemon_is_admin = (''daemon'' = who), gs_owner_is_admin = True\<rparr>, n)"
  using assms
  by (simp add: observe_state_def group_admin_demand_def admin_validate_group_def ok_or_def evaluate_text
      and_then_def of_result_def with_error_def sample_engine_def sample_frame_def host_refused_def
      host_reconciled_def host_source_def is_some_and_def btree_contains_def btree_get_def numeral_eq_Suc
      sample_admin_state_def event_establishes_group_def event_is_group_admin_state_def event_assigns_role_def
      tag_matches_def GROUP_ADMINS_KIND_def GROUP_METADATA_KIND_def)


end
