(* ===== verification/Production_Laws.thy ===== *)
theory Production_Laws imports Production
begin

text \<open>
  What the production runner of daemon/src/production.rs guarantees when every external service
  may fail at every call.  The journal, the media store, the publisher and the file system share one
  world; the laws of the runner (Runner_Laws) are reached by showing that the assembled operations
  satisfy the contract of \<open>producer_environment\<close>, for any job codec that reads back what it wrote.
\<close>

section \<open>The journal inside the daemon's world\<close>

definition daemon_jobs :: "'x services \<Rightarrow> producer \<Rightarrow> 'x daemon_world \<Rightarrow> string \<Rightarrow> job_record option" where
  "daemon_jobs sv pd w = stored_jobs (sv_codec sv) (pd_journal pd) (journal_part w)"

definition daemon_sound :: "'x services \<Rightarrow> producer \<Rightarrow> 'x daemon_world \<Rightarrow> bool" where
  "daemon_sound sv pd w = store_sound (sv_codec sv) (pd_journal pd) (journal_part w)"

text \<open>The journal depends on its record files only.\<close>

definition keeps_records :: "producer \<Rightarrow> 'x daemon_world \<Rightarrow> 'x daemon_world \<Rightarrow> bool" where
  "keeps_records pd w w' \<longleftrightarrow>
     (\<forall>i. valid_request_id i \<longrightarrow>
        fs_files (dw_fs w') (record_file (pd_journal pd) i) = fs_files (dw_fs w) (record_file (pd_journal pd) i))"

lemma keeps_records_refl [simp]: "keeps_records pd w w"
  by (simp add: keeps_records_def)

lemma keeps_records_trans: "keeps_records pd u v \<Longrightarrow> keeps_records pd v w \<Longrightarrow> keeps_records pd u w"
  by (simp add: keeps_records_def)

lemma keeps_records_world:
  "keeps_records pd w w' \<Longrightarrow> daemon_sound sv pd w \<Longrightarrow>
   daemon_sound sv pd w' \<and> daemon_jobs sv pd w' = daemon_jobs sv pd w"
  by (auto simp: keeps_records_def daemon_sound_def daemon_jobs_def store_sound_def stored_jobs_def
      journal_part_def fun_eq_iff)

lemma on_part_cases:
  assumes "on_part get put m w = (r, w')"
  obtains s' where "m (get w) = (r, s')" "w' = put s' w"
  using assms by (auto simp: on_part_def split: prod.splits)

lemma same_files_keeps: "fs_files (dw_fs w') = fs_files (dw_fs w) \<Longrightarrow> keeps_records pd w w'"
  by (simp add: keeps_records_def)

lemma on_publisher_keeps: "on_publisher m w = (r, w') \<Longrightarrow> keeps_records pd w w'"
  by (auto simp: on_publisher_def elim!: on_part_cases intro!: same_files_keeps)

lemma on_outside_keeps: "on_outside m w = (r, w') \<Longrightarrow> keeps_records pd w w'"
  by (auto simp: on_outside_def elim!: on_part_cases intro!: same_files_keeps)

lemma on_files_read_keeps: "on_files (fs_read p) w = (r, w') \<Longrightarrow> keeps_records pd w w'"
  by (auto simp: on_files_def file_untouched elim!: on_part_cases intro!: same_files_keeps)

lemma on_files_dir_keeps: "on_files (fs_create_dir_all p) w = (r, w') \<Longrightarrow> keeps_records pd w w'"
  by (auto simp: on_files_def file_untouched elim!: on_part_cases intro!: same_files_keeps)

text \<open>Media operations change at most the audio destination and its staged file.\<close>

definition media_files :: "'x media_world \<Rightarrow> string \<Rightarrow> string option" where
  "media_files m = audio_files (mw_audio m)"

lemma on_ext_files: "on_ext a m = (r, m') \<Longrightarrow> mw_audio m' = mw_audio m"
  by (auto simp: on_ext_def elim!: on_part_cases)

lemma on_audio_read_files:
  "on_audio (on_audio_fs (fs_read p)) m = (r, m') \<Longrightarrow> media_files m' = media_files m"
  by (auto simp: on_audio_def on_audio_fs_def media_files_def audio_files_def file_untouched
      elim!: on_part_cases)

lemma artifact_for_existing_files:
  "on_audio (artifact_for_existing h p n) m = (r, m') \<Longrightarrow> media_files m' = media_files m"
  by (auto simp: artifact_for_existing_def on_audio_def on_audio_fs_def media_files_def audio_files_def
      file_untouched elim!: on_part_cases and_then_cases with_error_cases split: if_splits)

lemma make_durable_files:
  "make_durable h u client audio m = (r, m') \<Longrightarrow> media_files m' = media_files m"
  unfolding make_durable_def
  by (auto elim!: and_then_cases with_error_cases split: if_splits
      dest!: on_ext_files on_audio_read_files simp: media_files_def)

lemma make_durable_file_files:
  "make_durable_file h u client path label m = (r, m') \<Longrightarrow> media_files m' = media_files m"
  unfolding make_durable_file_def
  by (auto elim!: and_then_cases with_error_cases split: if_splits
      dest!: on_ext_files on_audio_read_files simp: media_files_def)

lemma synthesize_files:
  assumes "synthesize h k post request output m = (r, m')"
    and "q \<noteq> output" and "\<And>st. q \<noteq> audio_staged_name output st"
  shows "media_files m' q = media_files m q"
proof -
  obtain found fs where e: "path_exists output (au_fs (mw_audio m)) = (found, fs)" by force
  let ?m = "m\<lparr>mw_audio := (mw_audio m)\<lparr>au_fs := fs\<rparr>\<rparr>"
  have start: "media_files ?m = media_files m"
    using e by (auto simp: path_exists_def next_fault_def media_files_def audio_files_def
        split: list.splits option.splits prod.splits)
  show ?thesis
  proof (cases found)
    case True
    then show ?thesis
      using assms(1) e start artifact_for_existing_files by (fastforce simp: synthesize_def)
  next
    case False
    then have "and_then (on_ext (generate k post request)) (\<lambda>bytes.
        and_then (on_audio (write_atomic output bytes)) (\<lambda>_.
          on_audio (artifact_for_existing h output (ks_max_audio_bytes k)))) ?m = (r, m')"
      using assms(1) e by (simp add: synthesize_def)
    then show ?thesis
    proof (cases rule: and_then_cases)
      case (Error err)
      then show ?thesis using on_ext_files [OF Error(1)] start by (simp add: media_files_def)
    next
      case (Ok bytes m1)
      have one: "media_files m1 = media_files m"
        using on_ext_files [OF Ok(1)] start by (simp add: media_files_def)
      have written: "media_files m2 q = media_files m1 q"
        if w: "on_audio (write_atomic output bytes) m1 = (wr, m2)" for wr m2
      proof -
        obtain a where a: "write_atomic output bytes (mw_audio m1) = (wr, a)" "m2 = m1\<lparr>mw_audio := a\<rparr>"
          using w by (auto simp: on_audio_def elim!: on_part_cases)
        then show ?thesis
          using write_atomic_effect(1) [OF a(1)] assms(2,3) by (auto simp: committing_def media_files_def)
      qed
      from Ok(2) show ?thesis
        by (cases rule: and_then_cases) (use one written artifact_for_existing_files in fastforce)+
    qed
  qed
qed

lemma record_file_last: "valid_request_id i \<Longrightarrow> last (record_file j i) = CHR ''n''"
  by (simp add: record_file_prefix)

lemma audio_path_last: "last (audio_path ops i) = CHR ''3''"
  by (simp add: audio_path_def path_join_def starts_with_iff)

lemma audio_staged_last: "last (audio_staged_name dest st) = CHR ''p''"
  by (simp add: audio_staged_name_def path_join_def starts_with_iff)

lemma on_media_keeps:
  assumes "on_media pd m w = (r, w')"
    and "\<And>m'. m (media_part pd w) = (r, m') \<Longrightarrow>
      \<forall>i. valid_request_id i \<longrightarrow>
        media_files m' (record_file (pd_journal pd) i) = media_files (media_part pd w) (record_file (pd_journal pd) i)"
  shows "keeps_records pd w w'"
  using assms(1) unfolding on_media_def
  by (rule on_part_cases) (use assms(2) in \<open>auto simp: keeps_records_def media_files_def audio_files_def media_part_def\<close>)

lemma synthesize_keeps_records:
  assumes "on_media pd (synthesize h k post request (audio_path ops i)) w = (r, w')"
  shows "keeps_records pd w w'"
  using assms
proof (rule on_media_keeps, intro allI impI)
  fix m' l
  assume m': "synthesize h k post request (audio_path ops i) (media_part pd w) = (r, m')"
    and l: "valid_request_id l"
  show "media_files m' (record_file (pd_journal pd) l)
      = media_files (media_part pd w) (record_file (pd_journal pd) l)"
    using m'
  proof (rule synthesize_files)
    show "record_file (pd_journal pd) l \<noteq> audio_path ops i"
      using record_file_last [OF l, of "pd_journal pd"] audio_path_last [of ops i] by auto
    show "record_file (pd_journal pd) l \<noteq> audio_staged_name (audio_path ops i) st" for st
      using record_file_last [OF l, of "pd_journal pd"] audio_staged_last [of "audio_path ops i" st] by auto
  qed
qed

lemma on_journal_daemon:
  assumes "on_journal m w = (r, w')"
  obtains st' where "m (journal_part w) = (r, st')" "journal_part w' = st'"
  using assms by (auto simp: on_journal_def journal_part_def elim!: on_part_cases)

section \<open>The bounded publication loop\<close>

context producer_environment
begin

lemma phase_rank_published: "phase_rank p \<ge> 6 \<longleftrightarrow> is_published p"
  by (simp add: phase_rank_def is_published_def split: job_phase.split)

lemma publish_loop_done:
  assumes "publish_loop tp ops i n job w = (Inr job', w')" and "holds J w" and "J i = Some job"
  shows "is_published (jr_phase job') \<and> (\<exists>J'. holds J' w' \<and> J' i = Some job')"
  using assms
proof (induction n arbitrary: job w J)
  case 0
  then show ?case by (auto split: if_splits)
next
  case (Suc n)
  show ?case
  proof (cases "is_published (jr_phase job)")
    case True
    then show ?thesis using Suc.prems by auto
  next
    case False
    then obtain job1 w1 where a: "advance tp ops i w = (Inr job1, w1)"
      "publish_loop tp ops i n job1 w1 = (Inr job', w')"
      using Suc.prems(1) by (auto elim!: and_then_cases)
    have "advance_post J i (Inr job1) w1" using yieldsD [OF advance_yields Suc.prems(2) a(1)] .
    then obtain J1 where "holds J1 w1" "J1 i = Some job1"
      using Suc.prems(3) unfolding advance_post_def by (auto split: if_splits)
    then show ?thesis using Suc.IH [OF a(2)] by blast
  qed
qed

lemma publish_loop_errors:
  assumes "publish_loop tp ops i n job w = (Inl e, w')" and "holds J w" and "J i = Some job"
    and "n + phase_rank (jr_phase job) \<ge> 6"
  shows "\<exists>u u'. advance tp ops i u = (Inl e, u')"
  using assms
proof (induction n arbitrary: job w J)
  case 0
  then show ?case using phase_rank_published [of "jr_phase job"] by auto
next
  case (Suc n)
  then have np: "\<not> is_published (jr_phase job)" by auto
  from Suc.prems(1) np have "and_then (advance tp ops i) (publish_loop tp ops i n) w = (Inl e, w')" by simp
  then show ?case
  proof (cases rule: and_then_cases)
    case (Error e')
    then show ?thesis by auto
  next
    case (Ok job1 w1)
    have "advance_post J i (Inr job1) w1" using yieldsD [OF advance_yields Suc.prems(2) Ok(1)] .
    then have step: "advanced J i job1" "holds (J(i \<mapsto> job1)) w1"
      using Suc.prems(3) np unfolding advance_post_def by auto
    have rank: "phase_rank (jr_phase job) < phase_rank (jr_phase job1)"
      using step(1) Suc.prems(3) phase_step_rank by (auto simp: advanced_def)
    show ?thesis
    proof (rule Suc.IH [OF Ok(2)])
      show "holds (J(i \<mapsto> job1)) w1" by (rule step(2))
    qed (use rank Suc.prems(4) in simp_all)
  qed
qed

lemma admit_done:
  assumes "admit tp ops request author created_at w = (Inr job, w')" and "holds J w"
  shows "\<exists>J'. holds J' w' \<and> J' (pr_request_id request) = Some job"
  using yieldsD [OF admit_yields assms(2,1)] unfolding admit_post_def by auto

lemma publish_as_done:
  assumes "publish_as tp ops request author created_at w = (Inr job, w')" and "holds J w"
  shows "is_published (jr_phase job) \<and> (\<exists>J'. holds J' w' \<and> J' (pr_request_id request) = Some job)"
proof -
  obtain job1 w1 where a: "admit tp ops request author created_at w = (Inr job1, w1)"
    "publish_loop tp ops (pr_request_id request) 6 job1 w1 = (Inr job, w')"
    using assms(1) unfolding publish_as_def by (auto elim!: and_then_cases)
  obtain J1 where "holds J1 w1" "J1 (pr_request_id request) = Some job1"
    using admit_done [OF a(1) assms(2)] by blast
  then show ?thesis by (rule publish_loop_done [OF a(2)])
qed

lemma publish_as_errors:
  assumes "publish_as tp ops request author created_at w = (Inl e, w')" and "holds J w"
  shows "(\<exists>u'. admit tp ops request author created_at w = (Inl e, u'))
    \<or> (\<exists>u u'. advance tp ops (pr_request_id request) u = (Inl e, u'))"
  using assms(1) unfolding publish_as_def
proof (cases rule: and_then_cases)
  case (Ok job1 w1)
  obtain J1 where "holds J1 w1" "J1 (pr_request_id request) = Some job1"
    using admit_done [OF Ok(1) assms(2)] by blast
  then show ?thesis using publish_loop_errors [OF Ok(2)] by auto
qed auto

end

section \<open>The production runner keeps the contracts\<close>

lemma production_environment:
  assumes "codec_round_trip (sv_codec sv)"
  shows "producer_environment (production_ops sv pd) (daemon_jobs sv pd) (daemon_sound sv pd)"
proof -
  note contract = file_journal_contract [OF assms]
  have journal: "job_journal (po_load (production_ops sv pd)) (po_insert (production_ops sv pd))
      (po_save (production_ops sv pd)) (daemon_jobs sv pd) (daemon_sound sv pd)"
  proof
    fix s s' i job lr found ir e sr
    assume sound: "daemon_sound sv pd s"
    note s = sound [unfolded daemon_sound_def]
    show "job_id job = i" if "daemon_jobs sv pd s i = Some job"
      using job_journal.jobs_keyed [OF contract s] that by (simp add: daemon_jobs_def)
    show "daemon_sound sv pd s' \<and> daemon_jobs sv pd s' = daemon_jobs sv pd s"
      if "po_load (production_ops sv pd) i s = (lr, s')"
      using that job_journal.load_keeps [OF contract s]
      by (auto simp: production_ops_def daemon_sound_def daemon_jobs_def elim!: on_journal_daemon)
    show "found = daemon_jobs sv pd s i" if "po_load (production_ops sv pd) i s = (Inr found, s')"
      using that job_journal.load_reads [OF contract s]
      by (auto simp: production_ops_def daemon_jobs_def elim!: on_journal_daemon)
    show "daemon_sound sv pd s'" if "po_insert (production_ops sv pd) job s = (ir, s')"
      using that job_journal.insert_sound [OF contract s]
      by (auto simp: production_ops_def daemon_sound_def elim!: on_journal_daemon)
    show "daemon_jobs sv pd s (job_id job) = None \<and> daemon_jobs sv pd s' = (daemon_jobs sv pd s)(job_id job \<mapsto> job)"
      if "po_insert (production_ops sv pd) job s = (Inr Inserted, s')"
      using that job_journal.insert_new [OF contract s]
      by (auto simp: production_ops_def daemon_jobs_def elim!: on_journal_daemon)
    show "daemon_jobs sv pd s (job_id job) \<noteq> None \<and> daemon_jobs sv pd s' = daemon_jobs sv pd s"
      if "po_insert (production_ops sv pd) job s = (Inr AlreadyExists, s')"
      using that job_journal.insert_taken [OF contract s]
      by (auto simp: production_ops_def daemon_jobs_def elim!: on_journal_daemon)
    show "daemon_jobs sv pd s' = daemon_jobs sv pd s
        \<or> (daemon_jobs sv pd s (job_id job) = None
           \<and> daemon_jobs sv pd s' = (daemon_jobs sv pd s)(job_id job \<mapsto> job))"
      if "po_insert (production_ops sv pd) job s = (Inl e, s')"
      using that job_journal.insert_failed [OF contract s]
      by (auto simp: production_ops_def daemon_jobs_def elim!: on_journal_daemon)
    show "daemon_sound sv pd s'" if "po_save (production_ops sv pd) job s = (sr, s')"
      using that job_journal.save_sound [OF contract s]
      by (auto simp: production_ops_def daemon_sound_def elim!: on_journal_daemon)
    show "daemon_jobs sv pd s' = (daemon_jobs sv pd s)(job_id job \<mapsto> job)"
      if "po_save (production_ops sv pd) job s = (Inr (), s')"
      using that job_journal.save_done [OF contract s]
      by (auto simp: production_ops_def daemon_jobs_def elim!: on_journal_daemon)
    show "daemon_jobs sv pd s' = daemon_jobs sv pd s
        \<or> daemon_jobs sv pd s' = (daemon_jobs sv pd s)(job_id job \<mapsto> job)"
      if "po_save (production_ops sv pd) job s = (Inl e, s')"
      using that job_journal.save_failed [OF contract s]
      by (auto simp: production_ops_def daemon_jobs_def elim!: on_journal_daemon)
  qed
  have durable: "keeps_records pd w w'"
    if "on_media pd (make_durable h u client audio) w = (r, w')" for h u client audio w r w'
    using that by (rule on_media_keeps) (auto dest: make_durable_files)
  show ?thesis
  proof (intro producer_environment.intro journal producer_environment_axioms.intro)
    fix w w' assume sound: "daemon_sound sv pd w"
    note keep = keeps_records_world [OF _ sound]
    show "daemon_sound sv pd w' \<and> daemon_jobs sv pd w' = daemon_jobs sv pd w"
      if "po_create_dir_all (production_ops sv pd) p w = (r, w')" for p r
      using keep [OF on_files_dir_keeps] that by (simp add: production_ops_def)
    show "daemon_sound sv pd w' \<and> daemon_jobs sv pd w' = daemon_jobs sv pd w"
      if "po_read (production_ops sv pd) p w = (r, w')" for p r
      using keep [OF on_files_read_keeps] that by (simp add: production_ops_def)
    show "daemon_sound sv pd w' \<and> daemon_jobs sv pd w' = daemon_jobs sv pd w"
      if "po_synthesize (production_ops sv pd) rq (audio_path (production_ops sv pd) i) w = (r, w')" for rq i r
    proof (rule keep, rule synthesize_keeps_records)
      show "on_media pd (synthesize (sha256_of sv) (pd_kokoro pd) (sv_narration sv) rq
          (audio_path (production_ops sv pd) i)) w = (r, w')"
        using that by (simp add: production_ops_def)
    qed
    show "daemon_sound sv pd w' \<and> daemon_jobs sv pd w' = daemon_jobs sv pd w"
      if "po_make_durable (production_ops sv pd) audio w = (r, w')" for audio r
      using keep [OF durable] that by (simp add: production_ops_def)
    show "daemon_sound sv pd w' \<and> daemon_jobs sv pd w' = daemon_jobs sv pd w"
      if "po_authorize (production_ops sv pd) i a t w = (r, w')" for i a t r
      using keep [OF on_publisher_keeps] that by (simp add: production_ops_def)
    show "daemon_sound sv pd w' \<and> daemon_jobs sv pd w' = daemon_jobs sv pd w"
      if "po_resume_authorization (production_ops sv pd) n a w = (r, w')" for n a r
      using keep [OF on_publisher_keeps] that by (simp add: production_ops_def)
    show "daemon_sound sv pd w' \<and> daemon_jobs sv pd w' = daemon_jobs sv pd w"
      if "po_accept (production_ops sv pd) item w = (r, w')" for item r
      using keep [OF on_publisher_keeps] that by (simp add: production_ops_def)
    show "daemon_sound sv pd w' \<and> daemon_jobs sv pd w' = daemon_jobs sv pd w"
      if "po_resume (production_ops sv pd) n item w = (r, w')" for n item r
      using keep [OF on_publisher_keeps] that by (simp add: production_ops_def)
  qed
qed

interpretation counted_daemon: producer_environment
  "production_ops (sv\<lparr>sv_codec := sample_codec\<rparr>) pd" "daemon_jobs (sv\<lparr>sv_codec := sample_codec\<rparr>) pd"
  "daemon_sound (sv\<lparr>sv_codec := sample_codec\<rparr>) pd" tp for sv pd tp
  by (rule production_environment) (simp add: sample_codec_round_trip)

section \<open>A daemon for the witnesses\<close>

text \<open>
  Services outside the process that refuse every call, apart from the codec and the digest; and a disk
  that already holds the published jobs of a two-node tree together with its two message files.
\<close>

definition refusing_services :: "unit services" where
  "refusing_services =
     \<lparr>sv_third_party = \<lparr>tp_parse_key = hex_key_parse, tp_request_bytes = (\<lambda>request. Some (pr_body request)),
        tp_sha256_hex = (\<lambda>bytes. replicate 64 (CHR ''d''))\<rparr>,
      sv_codec = sample_codec,
      sv_engine = \<lparr>en_parse_key = (\<lambda>key. None), en_group_send = plain_group_send,
        en_sha256_hex = (\<lambda>bytes. replicate 64 (CHR ''d'')), en_correlation = Inr,
        en_publish_tracked = (\<lambda>intent. fail ''offline''), en_reattach_receipt = (\<lambda>receipt. fail ''offline''),
        en_observe = (\<lambda>demand. fail ''offline''), en_debug_status = (\<lambda>status. []),
        en_debug_evidence = (\<lambda>evidence. [])\<rparr>,
      sv_narration = (\<lambda>url auth body voice. fail ''offline''),
      sv_blossom = \<lparr>bc_unix_millis = (\<lambda>x. (100000, x)), bc_parse_url = (\<lambda>url. None),
        bc_authorize = (\<lambda>digest created_at expires. fail ''offline''),
        bc_upload = (\<lambda>bytes media_type header. fail ''offline'')\<rparr>,
      sv_add_account = (\<lambda>secret. fail ''offline''), sv_remove_account = (\<lambda>registration. fail ''offline'')\<rparr>"

definition sample_producer :: producer where
  "sample_producer =
     \<lparr>pd_journal = sample_journal, pd_work_root = ''/var/work'',
      pd_kokoro = \<lparr>ks_endpoint = \<lparr>url_text = ''https://kokoro'', url_scheme = ''https'', url_host = Some ''kokoro'',
        url_username = [], url_password = None, url_query = None, url_fragment = None\<rparr>, ks_auth = NoAuth,
        ks_max_audio_bytes = 1000\<rparr>,
      pd_uploader = \<lparr>bu_authorization_lifetime = 60, bu_max_upload_bytes = 1000\<rparr>,
      pd_publisher = \<lparr>np_host = ''wss://relay'', np_group_id = ''tts'', np_admin_author = replicate 64 (CHR ''1''),
        np_receipt_timeout = 10\<rparr>,
      pd_default_voice = ''af_heart'', pd_author = replicate 64 (CHR ''1''), pd_group_id = ''tts''\<rparr>"

text \<open>A published job of that daemon under an id.\<close>

definition sample_audio :: durable_artifact where
  "sample_audio =
     \<lparr>art_url = ''https://cdn/a.mp3'', art_sha256 = replicate 64 (CHR ''d''), art_media_type = ''audio/mpeg'',
      art_byte_count = 4, art_label = None\<rparr>"

definition published_job :: "string \<Rightarrow> char \<Rightarrow> job_record" where
  "published_job request_id event =
     (let job = sample_job\<lparr>jr_request := sample_request\<lparr>pr_request_id := request_id\<rparr>\<rparr> in
      job\<lparr>jr_phase := Published (frozen_item job sample_audio)
        (Some \<lparr>me_event_id = replicate 64 (CHR ''c''), me_receipt_id = None\<rparr>) 5 (replicate 64 event)\<rparr>)"

definition record_bytes :: "job_record \<Rightarrow> string" where
  "record_bytes job = replicate (to_nat job) (CHR ''1'') @ [CHR 0x0A]"

definition sample_world :: "unit daemon_world" where
  "sample_world =
     \<lparr>dw_fs = \<lparr>fs_files = [''/var/jobs/req-1.json'' \<mapsto> record_bytes (published_job ''req-1'' (CHR ''a'')),
          ''/var/jobs/req-1-0.json'' \<mapsto> record_bytes (published_job ''req-1-0'' (CHR ''b'')),
          ''/in/root.md'' \<mapsto> ''Done'', ''/in/child.md'' \<mapsto> ''Done''], fs_faults = []\<rparr>,
      dw_temp_id = 1, dw_staged_id = 1, dw_members = [],
      dw_daemon = \<lparr>ac_public_key = replicate 64 (CHR ''1''), ac_handle = 0\<rparr>, dw_ext = ()\<rparr>"

lemma decode_record_bytes: "jc_decode sample_codec (record_bytes job) = Some job"
  by (simp add: sample_codec_def record_bytes_def)

lemma sample_records:
  "valid_request_id i \<Longrightarrow> record_file sample_journal i = ''/var/jobs/'' @ i @ ''.json''"
  by (simp add: record_file_prefix sample_journal_def path_prefix_def)

lemma published_job_fields:
  "job_id (published_job i c) = i" "is_published (jr_phase (published_job i c))"
  "phase_event_id (jr_phase (published_job i c)) = Some (replicate 64 c)"
  "jr_request_digest (published_job i c) = replicate 64 (CHR ''d'')"
  "jr_author (published_job i c) = replicate 64 (CHR ''1'')"
  by (simp_all add: published_job_def Let_def is_published_def phase_event_id_def sample_job_def)

lemma sample_files:
  "fs_files (dw_fs sample_world) p =
     (if p = ''/in/child.md'' \<or> p = ''/in/root.md'' then Some ''Done''
      else if p = ''/var/jobs/req-1-0.json'' then Some (record_bytes (published_job ''req-1-0'' (CHR ''b'')))
      else if p = ''/var/jobs/req-1.json'' then Some (record_bytes (published_job ''req-1'' (CHR ''a'')))
      else None)"
  by (simp add: sample_world_def)

lemma append_json_iff: "i @ ''.json'' = k @ ''.json'' \<longleftrightarrow> i = k"
  by simp

lemma sample_jobs:
  "daemon_jobs refusing_services sample_producer sample_world =
     [''req-1'' \<mapsto> published_job ''req-1'' (CHR ''a''), ''req-1-0'' \<mapsto> published_job ''req-1-0'' (CHR ''b'')]"
proof
  fix i
  have one: "''/var/jobs/'' @ i @ ''.json'' = ''/var/jobs/req-1-0.json'' \<longleftrightarrow> i = ''req-1-0''"
    using append_json_iff [of i "''req-1-0''"] by simp
  have two: "''/var/jobs/'' @ i @ ''.json'' = ''/var/jobs/req-1.json'' \<longleftrightarrow> i = ''req-1''"
    using append_json_iff [of i "''req-1''"] by simp
  show "daemon_jobs refusing_services sample_producer sample_world i =
     [''req-1'' \<mapsto> published_job ''req-1'' (CHR ''a''), ''req-1-0'' \<mapsto> published_job ''req-1-0'' (CHR ''b'')] i"
  proof (cases "valid_request_id i")
    case True
    then show ?thesis
      using one two
      by (simp add: daemon_jobs_def stored_jobs_def journal_part_def sample_producer_def sample_records
          sample_files decode_record_bytes refusing_services_def)
  next
    case False
    moreover have "valid_request_id ''req-1''" "valid_request_id ''req-1-0''" by code_simp+
    ultimately show ?thesis by (auto simp: daemon_jobs_def stored_jobs_def)
  qed
qed

lemma sample_world_sound: "daemon_sound refusing_services sample_producer sample_world"
proof -
  have one: "''/var/jobs/'' @ i @ ''.json'' = ''/var/jobs/req-1-0.json'' \<longleftrightarrow> i = ''req-1-0''" for i
    using append_json_iff [of i "''req-1-0''"] by simp
  have two: "''/var/jobs/'' @ i @ ''.json'' = ''/var/jobs/req-1.json'' \<longleftrightarrow> i = ''req-1''" for i
    using append_json_iff [of i "''req-1''"] by simp
  show ?thesis
    by (auto simp: daemon_sound_def store_sound_def journal_part_def sample_producer_def sample_records
          sample_files decode_record_bytes refusing_services_def one [simplified] two [simplified]
          published_job_fields split: if_splits)
qed

lemma sample_jobs_ok:
  "list_all (job_ok (sv_third_party refusing_services))
     [published_job ''req-1'' (CHR ''a''), published_job ''req-1-0'' (CHR ''b'')]"
proof -
  have same: "frozen_item (published_job i c) sample_audio = frozen_item sample_job sample_audio"
    "jr_phase (published_job i c) = Published (frozen_item sample_job sample_audio)
      (Some \<lparr>me_event_id = replicate 64 (CHR ''c''), me_receipt_id = None\<rparr>) 5 (replicate 64 c)" for i c
    by (simp_all add: frozen_item_def sample_job_def published_job_def Let_def)
  have valid: "validate_spoken_item hex_key_parse (frozen_item sample_job sample_audio) = Inr ()"
    by (simp add: validate_spoken_item_iff frozen_item_def sample_job_def sample_request_def sample_audio_def
        valid_artifact_def artifact_def artifact_row_def evaluate_text MAX_ARTIFACT_BYTES_def)
  have ids: "is_event_id (replicate 64 (CHR ''a''))" "is_event_id (replicate 64 (CHR ''b''))" "is_event_id (replicate 64 (CHR ''c''))"
    "valid_request_id ''req-1''" "valid_request_id ''req-1-0''" by code_simp+
  have "frozen_for tp (published_job i c) (frozen_item sample_job sample_audio)"
    if "tp_parse_key tp = hex_key_parse" for tp i c
    unfolding frozen_for_def that using valid same(1) [of i c] by metis
  moreover have "request_digest (sv_third_party refusing_services) (jr_request (published_job i c))
      = Inr (replicate 64 (CHR ''d''))" "tp_parse_key (sv_third_party refusing_services) = hex_key_parse" for i c
    by (simp_all add: request_digest_def refusing_services_def)
  ultimately show ?thesis
    using ids by (simp add: job_ok_def phase_ok_def same(2) is_some_and_def published_job_fields)
qed

text \<open>On a disk without faults, a request whose job is journalled is admitted without any change.\<close>

lemma sample_load:
  assumes "daemon_jobs sv pd w i = Some job" and "fs_faults (dw_fs w) = []"
  shows "po_load (production_ops sv pd) i w = (Inr (Some job), w)"
  using assms
  by (auto simp: daemon_jobs_def stored_jobs_def production_ops_def on_journal_def on_part_def journal_load_def
      journal_part_def record_path_def record_file_def valid_request_id_def fs_op_defs and_then_def
      bind_eq_Some_conv split: if_splits option.splits)

lemma sample_admit:
  assumes "daemon_jobs sv pd w (pr_request_id request) = Some job" and "fs_faults (dw_fs w) = []"
    and "request_digest tp request = Inr (jr_request_digest job)" and "jr_author job = author"
  shows "admit tp (production_ops sv pd) request author created_at w = (Inr job, w)"
proof -
  have "valid_request_id (pr_request_id request)"
    using assms(1) by (auto simp: daemon_jobs_def stored_jobs_def split: if_splits)
  then show ?thesis
    using sample_load [OF assms(1,2)] assms(3,4)
    by (simp add: admit_def and_then_def of_result_def with_error_def same_request_def validate_request_id_def
        valid_request_id_def)
qed

lemma sample_world_quiet: "fs_faults (dw_fs sample_world) = []"
  by (simp add: sample_world_def)

section \<open>Properties of the daemon\<close>

text \<open>
  C2: the invariant of the daemon's journal. Starting from a readable journal of well-formed jobs, any
  sequence of \<open>admit\<close> and \<open>advance\<close> calls, with any behaviour of the services and any file system faults,
  leaves a readable journal in which every job has a valid id, its request's digest, and a phase whose
  item is the validated frozen form of that same request.
\<close>

theorem daemon_jobs_invariant:
  assumes "codec_round_trip (sv_codec sv)" and "daemon_sound sv pd w"
    and "\<forall>i job. daemon_jobs sv pd w i = Some job \<longrightarrow> job_ok tp job"
    and "w' = run_calls tp (production_ops sv pd) calls w"
  shows "daemon_sound sv pd w' \<and> (\<forall>i job. daemon_jobs sv pd w' i = Some job \<longrightarrow> job_ok tp job)"
proof -
  note env = production_environment [OF assms(1), of pd]
  show ?thesis
    using producer_environment.run_calls_ok [OF env, of "daemon_jobs sv pd w" w tp calls] assms(2-)
    by (auto simp: producer_environment.holds_def [OF env] producer_environment.all_ok_def [OF env])
qed

theorem daemon_jobs_invariant_witness:
  "daemon_sound refusing_services sample_producer
     (run_calls (sv_third_party refusing_services) (production_ops refusing_services sample_producer)
        [CallAdmit sample_request (replicate 64 (CHR ''1'')) 7, CallAdvance ''req-1-0''] sample_world)"
proof (rule daemon_jobs_invariant [THEN conjunct1])
  show "codec_round_trip (sv_codec refusing_services)"
    by (simp add: refusing_services_def sample_codec_round_trip)
  show "\<forall>i job. daemon_jobs refusing_services sample_producer sample_world i = Some job \<longrightarrow>
      job_ok (sv_third_party refusing_services) job"
    using sample_jobs_ok by (auto simp: sample_jobs split: if_splits)
qed (rule sample_world_sound refl)+

text \<open>
  C10: the history of a job. Over any sequence of calls and faults a journalled job is never lost: it
  keeps its request, digest, author and time, moves only along the phase machine, and once published
  it never changes again.
\<close>

theorem daemon_job_history:
  assumes "codec_round_trip (sv_codec sv)" and "daemon_sound sv pd w"
    and "daemon_jobs sv pd w i = Some job"
  shows "\<exists>job'. daemon_jobs sv pd (run_calls tp (production_ops sv pd) calls w) i = Some job'
    \<and> same_frozen job job' \<and> (phase_step tp job)\<^sup>*\<^sup>* (jr_phase job) (jr_phase job')
    \<and> (is_published (jr_phase job) \<longrightarrow> jr_phase job' = jr_phase job)"
proof -
  note env = production_environment [OF assms(1), of pd]
  show ?thesis
    using producer_environment.run_calls_history [OF env, of "daemon_jobs sv pd w" w i job tp calls] assms(2-)
      published_final [of tp job "jr_phase job"]
    by (auto simp: producer_environment.holds_def [OF env])
qed

theorem daemon_job_history_witness:
  "\<exists>job'. daemon_jobs refusing_services sample_producer
       (run_calls (sv_third_party refusing_services) (production_ops refusing_services sample_producer)
          [CallAdvance ''req-1'', CallAdmit sample_request [] 7] sample_world) ''req-1'' = Some job'
     \<and> jr_phase job' = jr_phase (published_job ''req-1'' (CHR ''a''))"
proof -
  have "codec_round_trip (sv_codec refusing_services)"
    by (simp add: refusing_services_def sample_codec_round_trip)
  from daemon_job_history [OF this sample_world_sound, of "''req-1''" "published_job ''req-1'' (CHR ''a'')"]
  show ?thesis by (fastforce simp: sample_jobs published_job_fields)
qed

text \<open>
  C27: admission is idempotent and never adopts a foreign job. A request that is admitted gets the job
  journalled under its id, with the digest of exactly this request and exactly this author; a job that
  was there before is returned as it was (its first time included), otherwise a fresh one was added.
\<close>

theorem admit_identity:
  assumes "codec_round_trip (sv_codec sv)" and "daemon_sound sv pd w"
    and "admit tp (production_ops sv pd) request author created_at w = (Inr job, w')"
  shows "daemon_jobs sv pd w' (pr_request_id request) = Some job
    \<and> request_digest tp request = Inr (jr_request_digest job) \<and> jr_author job = author
    \<and> (case daemon_jobs sv pd w (pr_request_id request) of
         Some existing \<Rightarrow> job = existing \<and> daemon_jobs sv pd w' = daemon_jobs sv pd w
       | None \<Rightarrow> job = admitted_job request (jr_request_digest job) author created_at
           \<and> daemon_jobs sv pd w' = (daemon_jobs sv pd w)(pr_request_id request \<mapsto> job))"
proof -
  note env = production_environment [OF assms(1), of pd]
  let ?J = "daemon_jobs sv pd w"
  have "producer_environment.holds (daemon_jobs sv pd) (daemon_sound sv pd) ?J w"
    using assms(2) by (simp add: producer_environment.holds_def [OF env])
  from yieldsD [OF producer_environment.admit_yields [OF env] this assms(3)]
  show ?thesis
    unfolding producer_environment.admit_post_def [OF env] producer_environment.holds_def [OF env]
      producer_environment.admissible_def [OF env]
    by (auto split: option.split)
qed

theorem admit_identity_witness:
  "daemon_jobs refusing_services sample_producer sample_world ''req-1'' = Some (published_job ''req-1'' (CHR ''a''))
   \<and> fst (admit (sv_third_party refusing_services) (production_ops refusing_services sample_producer)
        sample_request (replicate 64 (CHR ''1'')) 7 sample_world) = Inr (published_job ''req-1'' (CHR ''a''))"
proof -
  have codec: "codec_round_trip (sv_codec refusing_services)"
    by (simp add: refusing_services_def sample_codec_round_trip)
  have admitted: "admit (sv_third_party refusing_services) (production_ops refusing_services sample_producer)
      sample_request (replicate 64 (CHR ''1'')) 7 sample_world
    = (Inr (published_job ''req-1'' (CHR ''a'')), sample_world)"
    by (rule sample_admit) (simp_all add: sample_request_def sample_jobs sample_world_quiet request_digest_def
        published_job_fields refusing_services_def [THEN arg_cong, of sv_third_party])
  show ?thesis
    using admit_identity [OF codec sample_world_sound admitted] admitted
    by (simp add: sample_jobs sample_request_def)
qed

end
