(* ===== verification/Tree_Laws.thy ===== *)
theory Tree_Laws imports Production_Laws
begin

text \<open>
  Publication of one request and of a whole spoken tree: what a successful \<open>publish\<close> or \<open>publish_tree\<close>
  of daemon/src/production.rs leaves in the journal, and the ids \<open>child_request_id\<close> gives to the nodes
  of a tree.
\<close>

section \<open>What publication does to the other jobs\<close>

lemma run_calls_simps [simp]:
  "run_calls tp ops [] w = w"
  "run_calls tp ops (c # cs) w = run_calls tp ops cs (run_call tp ops c w)"
  by (simp_all add: run_calls_def)

lemma publish_loop_calls:
  "publish_loop tp ops i n job w = (r, w') \<Longrightarrow> \<exists>calls. w' = run_calls tp ops calls w"
proof (induction n arbitrary: job w)
  case 0
  then show ?case by (auto simp: of_result_def split: if_splits intro: exI [of _ "[]"])
next
  case (Suc n)
  show ?case
  proof (cases "is_published (jr_phase job)")
    case True
    then show ?thesis using Suc.prems by (auto simp: of_result_def intro: exI [of _ "[]"])
  next
    case False
    with Suc.prems have "and_then (advance tp ops i) (publish_loop tp ops i n) w = (r, w')" by simp
    then show ?thesis
    proof (cases rule: and_then_cases)
      case (Error e)
      then have "w' = run_calls tp ops [CallAdvance i] w" by (simp add: run_call_def)
      then show ?thesis by blast
    next
      case (Ok job1 w1)
      then have "w1 = run_call tp ops (CallAdvance i) w" by (simp add: run_call_def)
      moreover obtain calls where "w' = run_calls tp ops calls w1" using Suc.IH [OF Ok(2)] by blast
      ultimately have "w' = run_calls tp ops (CallAdvance i # calls) w" by simp
      then show ?thesis by blast
    qed
  qed
qed

lemma publish_as_calls:
  assumes "publish_as tp ops request author created_at w = (r, w')"
  shows "\<exists>calls. w' = run_calls tp ops calls w"
  using assms unfolding publish_as_def
proof (cases rule: and_then_cases)
  case (Error e)
  then have "w' = run_calls tp ops [CallAdmit request author created_at] w" by (simp add: run_call_def)
  then show ?thesis by blast
next
  case (Ok job w1)
  then have "w1 = run_call tp ops (CallAdmit request author created_at) w" by (simp add: run_call_def)
  moreover obtain calls where "w' = run_calls tp ops calls w1" using publish_loop_calls [OF Ok(2)] by blast
  ultimately have "w' = run_calls tp ops (CallAdmit request author created_at # calls) w" by simp
  then show ?thesis by blast
qed

text \<open>Published jobs survive.\<close>

definition published_kept :: "(string \<Rightarrow> job_record option) \<Rightarrow> (string \<Rightarrow> job_record option) \<Rightarrow> bool" where
  "published_kept J J' \<longleftrightarrow> (\<forall>i job. J i = Some job \<longrightarrow> is_published (jr_phase job) \<longrightarrow> J' i = Some job)"

lemma published_kept_refl [simp]: "published_kept J J"
  by (simp add: published_kept_def)

lemma published_kept_trans: "published_kept J K \<Longrightarrow> published_kept K L \<Longrightarrow> published_kept J L"
  by (simp add: published_kept_def)

lemma same_frozen_phase: "same_frozen job job' \<Longrightarrow> jr_phase job' = jr_phase job \<Longrightarrow> job' = job"
  by (simp add: same_frozen_def job_record.equality)

context producer_environment
begin

lemma run_calls_sound: "holds J w \<Longrightarrow> \<exists>J'. holds J' (run_calls tp ops calls w)"
  proof (induction calls arbitrary: J w)
  case (Cons c cs)
  then show ?case using run_call_effect [OF Cons.prems, of c] by auto
qed auto

lemma run_calls_published:
  assumes "holds J w"
  shows "\<exists>J'. holds J' (run_calls tp ops calls w) \<and> published_kept J J'"
proof -
  obtain J' where J': "holds J' (run_calls tp ops calls w)" using run_calls_sound [OF assms] by blast
  have "J' i = Some job" if job: "J i = Some job" "is_published (jr_phase job)" for i job
  proof -
    obtain K job' where K: "holds K (run_calls tp ops calls w)" "K i = Some job'" "same_frozen job job'"
      "(phase_step tp job)\<^sup>*\<^sup>* (jr_phase job) (jr_phase job')"
      using run_calls_history [OF assms job(1)] by blast
    moreover have "K = J'" using K(1) J' by (simp add: holds_def)
    ultimately show ?thesis using published_final [OF K(4) job(2)] same_frozen_phase by blast
  qed
  then show ?thesis using J' by (auto simp: published_kept_def)
qed

lemma publish_loop_frozen:
  assumes "publish_loop tp ops i n job w = (Inr job', w')" and "holds J w" and "J i = Some job"
  shows "same_frozen job job'"
proof -
  obtain calls where calls: "w' = run_calls tp ops calls w" using publish_loop_calls [OF assms(1)] by blast
  obtain J' where J': "holds J' w'" "J' i = Some job'"
    using publish_loop_done [OF assms] by blast
  obtain K job1 where "holds K w'" "K i = Some job1" "same_frozen job job1"
    using run_calls_history [OF assms(2,3), of calls] calls by blast
  moreover from this have "K = J'" using J'(1) by (simp add: holds_def)
  ultimately show ?thesis using J'(2) by simp
qed

lemma publish_as_effect:
  assumes "publish_as tp ops request author created_at w = (Inr job, w')" and "holds J w"
  shows "is_published (jr_phase job) \<and> request_digest tp request = Inr (jr_request_digest job)
    \<and> jr_author job = author
    \<and> (\<exists>J'. holds J' w' \<and> J' (pr_request_id request) = Some job \<and> published_kept J J')"
proof -
  obtain job1 w1 where a: "admit tp ops request author created_at w = (Inr job1, w1)"
    "publish_loop tp ops (pr_request_id request) 6 job1 w1 = (Inr job, w')"
    using assms(1) unfolding publish_as_def by (auto elim!: and_then_cases)
  have post: "admit_post J request author created_at (Inr job1) w1"
    using yieldsD [OF admit_yields assms(2) a(1)] .
  obtain J1 where J1: "holds J1 w1" "J1 (pr_request_id request) = Some job1"
    using admit_done [OF a(1) assms(2)] by blast
  have frozen: "same_frozen job1 job" by (rule publish_loop_frozen [OF a(2) J1])
  obtain J' where J': "holds J' w'" "J' (pr_request_id request) = Some job"
    using publish_as_done [OF assms] by blast
  obtain calls K where "holds K w'" "published_kept J K"
    using publish_as_calls [OF assms(1)] run_calls_published [OF assms(2)] by blast
  then have "published_kept J J'" using J'(1) by (simp add: holds_def)
  then show ?thesis
    using publish_as_done [OF assms] post frozen J'
    by (auto simp: admit_post_def same_frozen_def)
qed

end

section \<open>Publishing a tree\<close>

text \<open>
  The journal holds a published tree: every narrated attachment has a published job under its child id,
  made from a request attached to its parent's event, and the event ids are listed depth first, each
  one after those of its own descendants.
\<close>

inductive published_forest ::
  "third_party \<Rightarrow> (string \<Rightarrow> job_record option) \<Rightarrow> string \<Rightarrow> string \<Rightarrow> nat \<Rightarrow> tree_attachment list
   \<Rightarrow> string list \<Rightarrow> bool"
  for tp J where
  none: "published_forest tp J request_id event_id n [] []"
| plain: "published_forest tp J request_id event_id n rest ids \<Longrightarrow>
    published_forest tp J request_id event_id n (File label path # rest) ids"
| narrated: "J (child_request_id request_id n) = Some job \<Longrightarrow>
    phase_event_id (jr_phase job) = Some child \<Longrightarrow>
    request_digest tp request = Inr (jr_request_digest job) \<Longrightarrow>
    pr_request_id request = child_request_id request_id n \<Longrightarrow>
    pr_subject request = label \<Longrightarrow> pr_questions request = qs \<Longrightarrow>
    pr_attach request = Some \<lparr>al_parent_id = event_id\<rparr> \<Longrightarrow>
    published_forest tp J (child_request_id request_id n) child 0 attachments below \<Longrightarrow>
    published_forest tp J request_id event_id (Suc n) rest after \<Longrightarrow>
    published_forest tp J request_id event_id n (Narrated label path qs attachments # rest)
      (below @ child # after)"

inductive_simps published_forest_simps:
  "published_forest tp J request_id event_id n [] ids"
  "published_forest tp J request_id event_id n (File label path # rest) ids"
  "published_forest tp J request_id event_id n (Narrated label path qs attachments # rest) ids"

lemma published_forest_mono:
  "published_forest tp J request_id event_id n attachments ids \<Longrightarrow> published_kept J J' \<Longrightarrow>
   published_forest tp J' request_id event_id n attachments ids"
proof (induction rule: published_forest.induct)
  case (narrated request_id n job child request label qs event_id attachments below rest after path)
  then have "J' (child_request_id request_id n) = Some job"
    by (simp add: published_kept_def is_published_iff)
  then show ?case using narrated by (intro published_forest.narrated) auto
qed (auto intro: published_forest.intros)

text \<open>What a publishing step has done to a readable journal.\<close>

definition daemon_holds :: "'x services \<Rightarrow> producer \<Rightarrow> (string \<Rightarrow> job_record option) \<Rightarrow> 'x daemon_world \<Rightarrow> bool" where
  "daemon_holds sv pd J w \<longleftrightarrow> daemon_sound sv pd w \<and> daemon_jobs sv pd w = J"

definition grows :: "'x services \<Rightarrow> producer \<Rightarrow> 'x daemon_world \<Rightarrow> 'x daemon_world \<Rightarrow> bool" where
  "grows sv pd w w' \<longleftrightarrow> daemon_sound sv pd w' \<and> published_kept (daemon_jobs sv pd w) (daemon_jobs sv pd w')"

lemma grows_trans: "grows sv pd u v \<Longrightarrow> grows sv pd v w \<Longrightarrow> grows sv pd u w"
  using published_kept_trans by (auto simp: grows_def)

lemma keeps_records_grows: "keeps_records pd w w' \<Longrightarrow> daemon_sound sv pd w \<Longrightarrow> grows sv pd w w'"
  using keeps_records_world [of pd w w' sv] by (simp add: grows_def)

lemma read_to_string_keeps: "read_to_string p w = (r, w') \<Longrightarrow> keeps_records pd w w'"
  unfolding read_to_string_def
  by (auto elim!: and_then_cases with_error_cases dest: on_files_read_keeps split: if_splits)

lemma upload_attachments_keeps:
  "upload_attachments sv pd attachments durable w = (r, w') \<Longrightarrow> keeps_records pd w w'"
proof (induction attachments arbitrary: durable w)
  case (Cons a rest)
  show ?case
  proof (cases a)
    case (File label path)
    have "keeps_records pd w v"
      if "on_media pd (make_durable_file h u client path label) w = (q, v)" for h u client q v
      using that by (rule on_media_keeps) (auto dest: make_durable_file_files)
    then show ?thesis
      using Cons File keeps_records_trans by (fastforce elim!: and_then_cases with_error_cases)
  qed (use Cons in auto)
qed (simp add: of_result_def)

lemma publish_as_production:
  assumes "codec_round_trip (sv_codec sv)" and "daemon_sound sv pd w"
    and "publish_as tp (production_ops sv pd) request author created_at w = (Inr job, w')"
  shows "grows sv pd w w' \<and> daemon_jobs sv pd w' (pr_request_id request) = Some job
    \<and> is_published (jr_phase job) \<and> request_digest tp request = Inr (jr_request_digest job)
    \<and> jr_author job = author"
proof -
  note env = production_environment [OF assms(1), of pd]
  show ?thesis
    using producer_environment.publish_as_effect [OF env assms(3), of "daemon_jobs sv pd w"] assms(2)
    by (auto simp: producer_environment.holds_def [OF env] grows_def)
qed

lemma publish_one_effect:
  assumes "codec_round_trip (sv_codec sv)" and "daemon_sound sv pd w"
    and "publish_one sv pd request_id title summary message_path qs attachments parent agent author created_at w
      = (Inr event_id, w')"
  obtains job request where "grows sv pd w w'" "daemon_jobs sv pd w' request_id = Some job"
    "phase_event_id (jr_phase job) = Some event_id"
    "request_digest (sv_third_party sv) request = Inr (jr_request_digest job)" "pr_request_id request = request_id"
    "pr_subject request = title" "pr_questions request = qs"
    "pr_attach request = map_option (\<lambda>p. \<lparr>al_parent_id = p\<rparr>) parent"
proof -
  obtain body w1 durable w2 job w3 where s:
    "read_to_string message_path w = (Inr body, w1)"
    "upload_attachments sv pd attachments [] w1 = (Inr durable, w2)"
    "publish_as (sv_third_party sv) (production_ops sv pd)
       (node_request pd request_id agent title summary body durable qs parent) author created_at w2 = (Inr job, w')"
    "phase_event_id (jr_phase job) = Some event_id"
    using assms(3) unfolding publish_one_def
    by (auto simp: of_result_def ok_or_def elim!: and_then_cases with_error_cases split: option.splits)
  have 1: "keeps_records pd w w2"
    using read_to_string_keeps [OF s(1)] upload_attachments_keeps [OF s(2)] keeps_records_trans by blast
  then have 2: "daemon_sound sv pd w2" "grows sv pd w w2"
    using assms(2) keeps_records_world keeps_records_grows by blast+
  note 3 = publish_as_production [OF assms(1) 2(1) s(3)]
  show ?thesis
    by (rule that [of job "node_request pd request_id agent title summary body durable qs parent"])
      (use 2 3 s(4) grows_trans in \<open>auto simp: node_request_def\<close>)
qed

text \<open>What a successful call of \<open>publish_node\<close> leaves behind.\<close>

definition node_done ::
  "'x services \<Rightarrow> producer \<Rightarrow> 'x daemon_world \<Rightarrow> string \<Rightarrow> string \<Rightarrow> question list \<Rightarrow> string option \<Rightarrow> string \<Rightarrow> bool" where
  "node_done sv pd w request_id title qs parent event_id \<longleftrightarrow>
     (\<exists>job request. daemon_jobs sv pd w request_id = Some job
      \<and> phase_event_id (jr_phase job) = Some event_id
      \<and> request_digest (sv_third_party sv) request = Inr (jr_request_digest job)
      \<and> pr_request_id request = request_id \<and> pr_subject request = title \<and> pr_questions request = qs
      \<and> pr_attach request = map_option (\<lambda>p. \<lparr>al_parent_id = p\<rparr>) parent)"

lemma node_done_grows:
  "node_done sv pd w request_id title qs parent event_id \<Longrightarrow> grows sv pd w w' \<Longrightarrow>
   node_done sv pd w' request_id title qs parent event_id"
  unfolding node_done_def grows_def published_kept_def is_published_iff by blast

abbreviation forest_done ::
  "'x services \<Rightarrow> producer \<Rightarrow> 'x daemon_world \<Rightarrow> string \<Rightarrow> string \<Rightarrow> nat \<Rightarrow> tree_attachment list \<Rightarrow> string list \<Rightarrow> bool" where
  "forest_done sv pd w \<equiv> published_forest (sv_third_party sv) (daemon_jobs sv pd w)"

lemma forest_done_grows:
  "forest_done sv pd w request_id event_id n attachments ids \<Longrightarrow> grows sv pd w w' \<Longrightarrow>
   forest_done sv pd w' request_id event_id n attachments ids"
  using published_forest_mono by (simp add: grows_def)

lemma forest_done_narrated:
  assumes "node_done sv pd w (child_request_id request_id n) label qs (Some event_id) child"
    and "forest_done sv pd w (child_request_id request_id n) child 0 attachments below"
    and "forest_done sv pd w request_id event_id (Suc n) rest after"
  shows "forest_done sv pd w request_id event_id n (Narrated label path qs attachments # rest)
    (below @ child # after)"
  using assms unfolding node_done_def by (auto intro: published_forest.narrated)

lemma publish_one_node_done:
  assumes "codec_round_trip (sv_codec sv)" and "daemon_sound sv pd w"
    and "publish_one sv pd request_id title summary message_path qs attachments parent agent author created_at w
      = (Inr event_id, w')"
  shows "grows sv pd w w' \<and> node_done sv pd w' request_id title qs parent event_id"
  using publish_one_effect [OF assms] unfolding node_done_def by metis

lemma publish_node_effect:
  "publish_node sv pd request_id title summary message_path qs attachments parent agent author
      created_at children w = (Inr (event_id, children'), w') \<Longrightarrow>
   codec_round_trip (sv_codec sv) \<Longrightarrow> daemon_sound sv pd w \<Longrightarrow>
   grows sv pd w w' \<and> node_done sv pd w' request_id title qs parent event_id
   \<and> (\<exists>ids. children' = children @ ids \<and> forest_done sv pd w' request_id event_id 0 attachments ids)"
  and publish_children_effect:
  "publish_children sv pd request_id parent_event n attachments agent author created_at children w
      = (Inr children', w') \<Longrightarrow>
   codec_round_trip (sv_codec sv) \<Longrightarrow> daemon_sound sv pd w \<Longrightarrow>
   grows sv pd w w'
   \<and> (\<exists>ids. children' = children @ ids \<and> forest_done sv pd w' request_id parent_event n attachments ids)"
proof (induction sv pd request_id title summary message_path qs attachments parent agent author created_at children
    and sv pd request_id parent_event n attachments agent author created_at children
    arbitrary: event_id children' w w' and children' w w' rule: publish_node_publish_children.induct)
  case (1 sv pd request_id title summary message_path qs attachments parent agent author created_at children)
  obtain w1 where s: "publish_one sv pd request_id title summary message_path qs attachments parent agent author
      created_at w = (Inr event_id, w1)"
    "publish_children sv pd request_id event_id 0 attachments agent author created_at children w1 = (Inr children', w')"
    using 1(2) by (auto simp: publish_node.simps of_result_def elim!: and_then_cases)
  have one: "grows sv pd w w1" "node_done sv pd w1 request_id title qs parent event_id"
    using publish_one_node_done [OF 1(3,4) s(1)] by auto
  then have "daemon_sound sv pd w1" by (simp add: grows_def)
  from 1(1) [OF s(2) 1(3) this] show ?case
    using one grows_trans node_done_grows by blast
next
  case (2 sv pd request_id event_id index agent_name author created_at children)
  then show ?case by (auto simp: of_result_def grows_def intro: published_forest.none)
next
  case (3 sv pd request_id event_id index label path rest agent_name author created_at children)
  then show ?case by (simp add: published_forest_simps)
next
  case (4 sv pd request_id event_id index label message qs attachments rest agent_name author created_at children)
  let ?id = "child_request_id request_id index"
  obtain child children1 w1 where s:
    "publish_node sv pd ?id label [] message qs attachments (Some event_id) agent_name author created_at children w
      = (Inr (child, children1), w1)"
    "publish_children sv pd request_id event_id (Suc index) rest agent_name author created_at (children1 @ [child]) w1
      = (Inr children', w')"
    using 4(3) by (auto elim!: and_then_cases)
  obtain below where one: "grows sv pd w w1" "node_done sv pd w1 ?id label qs (Some event_id) child"
    "children1 = children @ below" "forest_done sv pd w1 ?id child 0 attachments below"
    using 4(1) [OF s(1) 4(4,5)] by blast
  have "daemon_sound sv pd w1" using one(1) by (simp add: grows_def)
  from 4(2) [OF s(2) 4(4) this] obtain after where two: "grows sv pd w1 w'"
    "children' = (children1 @ [child]) @ after" "forest_done sv pd w' request_id event_id (Suc index) rest after"
    by blast
  have "forest_done sv pd w' request_id event_id index (Narrated label message qs attachments # rest)
      (below @ child # after)"
    using forest_done_narrated two(3) node_done_grows [OF one(2) two(1)] forest_done_grows [OF one(4) two(1)] by blast
  then show ?case using grows_trans [OF one(1) two(1)] one(3) two(2) by auto
qed

lemma identity_request_keeps:
  "identity_request sv secret w = (r, w') \<Longrightarrow> keeps_records pd w w'"
  unfolding identity_request_def
  by (cases secret) (auto elim!: and_then_cases with_error_cases dest!: on_outside_keeps [where pd = pd]
      split: if_splits simp: keeps_records_def)

lemma identity_close_keeps:
  "identity_close sv identity w = (r, w') \<Longrightarrow> keeps_records pd w w'"
  unfolding identity_close_eq
  by (auto simp: of_result_def elim!: and_then_cases with_error_cases dest!: on_outside_keeps [where pd = pd]
      split: if_splits option.splits)

lemma close_after_ok:
  assumes "close_after sv identity m w = (Inr x, w')"
  obtains w1 where "m w = (Inr x, w1)" "keeps_records pd w1 w'"
  using assms
  by (auto simp: close_after_def split: prod.splits sum.splits elim!: with_error_cases
      dest!: identity_close_keeps [where pd = pd])

lemma unix_seconds_keeps: "unix_seconds sv w = (r, w') \<Longrightarrow> keeps_records pd w w'"
  by (auto simp: unix_seconds_def keeps_records_def split: prod.splits)

lemma publish_effect:
  assumes "codec_round_trip (sv_codec sv)" and "daemon_sound sv pd w"
    and "publish sv pd request created_at agent_secret w = (Inr job, w')"
  shows "pr_group_id request = pd_group_id pd
    \<and> daemon_sound sv pd w' \<and> daemon_jobs sv pd w' (pr_request_id request) = Some job
    \<and> is_published (jr_phase job)
    \<and> request_digest (sv_third_party sv) request = Inr (jr_request_digest job)
    \<and> map_sum id ri_author (fst (identity_request sv agent_secret w)) = Inr (jr_author job)
    \<and> published_kept (daemon_jobs sv pd w) (daemon_jobs sv pd w')"
proof -
  obtain identity w1 where s: "pr_group_id request = pd_group_id pd"
    "identity_request sv agent_secret w = (Inr identity, w1)"
    "close_after sv identity (publish_as (sv_third_party sv) (production_ops sv pd) request (ri_author identity)
       created_at) w1 = (Inr job, w')"
    using assms(3) unfolding publish_def
    by (auto simp: of_result_def elim!: and_then_cases with_error_cases split: if_splits)
  have 1: "daemon_sound sv pd w1" "daemon_jobs sv pd w1 = daemon_jobs sv pd w"
    using keeps_records_world [OF identity_request_keeps [OF s(2)] assms(2)] by auto
  obtain w2 where 2: "publish_as (sv_third_party sv) (production_ops sv pd) request (ri_author identity)
       created_at w1 = (Inr job, w2)" "keeps_records pd w2 w'"
    using close_after_ok [OF s(3)] .
  note 3 = publish_as_production [OF assms(1) 1(1) 2(1)]
  have "daemon_sound sv pd w' \<and> daemon_jobs sv pd w' = daemon_jobs sv pd w2"
    using keeps_records_world [OF 2(2)] 3 by (simp add: grows_def)
  then show ?thesis using 3 1 s(1,2) by (simp add: grows_def)
qed

text \<open>
  C4: a successful publication is durable. When \<open>publish\<close> returns a job, the request is for the daemon's
  group, the job has reached \<open>Published\<close>, the journal on disk holds exactly this job under the request's
  id, it was made from a request with this digest under the identity that was asked for, and every job
  published before is still there unchanged.
\<close>

theorem publish_durable:
  assumes "codec_round_trip (sv_codec sv)" and "daemon_sound sv pd w"
    and "publish sv pd request created_at agent_secret w = (Inr job, w')"
  shows "pr_group_id request = pd_group_id pd
    \<and> daemon_sound sv pd w' \<and> daemon_jobs sv pd w' (pr_request_id request) = Some job
    \<and> is_published (jr_phase job)
    \<and> request_digest (sv_third_party sv) request = Inr (jr_request_digest job)
    \<and> map_sum id ri_author (fst (identity_request sv agent_secret w)) = Inr (jr_author job)
    \<and> published_kept (daemon_jobs sv pd w) (daemon_jobs sv pd w')"
  using assms by (rule publish_effect)

lemma sample_publish_as:
  assumes "daemon_jobs sv pd w (pr_request_id request) = Some job" and "fs_faults (dw_fs w) = []"
    and "request_digest tp request = Inr (jr_request_digest job)" and "jr_author job = author"
    and "is_published (jr_phase job)"
  shows "publish_as tp (production_ops sv pd) request author created_at w = (Inr job, w)"
  using sample_admit [OF assms(1-4)] assms(5)
  by (simp add: publish_as_def and_then_def of_result_def numeral_eq_Suc)

lemma sample_digest: "request_digest (sv_third_party refusing_services) request = Inr (replicate 64 (CHR ''d''))"
  by (simp add: refusing_services_def request_digest_def)

lemma sample_identity:
  "identity_request refusing_services None sample_world =
     (Inr \<lparr>ri_author = replicate 64 (CHR ''1''), ri_registration = None\<rparr>, sample_world)"
  by (simp add: identity_request_def sample_world_def)

lemma sample_close:
  "close_after sv \<lparr>ri_author = a, ri_registration = None\<rparr> m w = m w"
  by (simp add: close_after_def identity_close_eq with_error_def of_result_def split: prod.splits)

theorem publish_durable_witness:
  "fst (publish refusing_services sample_producer sample_request 7 None sample_world)
     = Inr (published_job ''req-1'' (CHR ''a''))
   \<and> is_published (jr_phase (published_job ''req-1'' (CHR ''a'')))"
proof -
  have codec: "codec_round_trip (sv_codec refusing_services)"
    by (simp add: refusing_services_def sample_codec_round_trip)
  have as: "publish_as (sv_third_party refusing_services) (production_ops refusing_services sample_producer)
      sample_request (replicate 64 (CHR ''1'')) 7 sample_world = (Inr (published_job ''req-1'' (CHR ''a'')), sample_world)"
    by (rule sample_publish_as)
      (simp_all add: sample_jobs sample_request_def sample_world_quiet sample_digest published_job_fields)
  have result: "publish refusing_services sample_producer sample_request 7 None sample_world
      = (Inr (published_job ''req-1'' (CHR ''a'')), sample_world)"
    using as by (simp add: publish_def sample_request_def [THEN arg_cong, of pr_group_id] sample_producer_def
        [THEN arg_cong, of pd_group_id] and_then_def with_error_def sample_identity sample_close)
  show ?thesis using publish_durable [OF codec sample_world_sound result] result by simp
qed

lemma publish_tree_effect:
  assumes "codec_round_trip (sv_codec sv)" and "daemon_sound sv pd w"
    and "publish_tree sv pd tree agent_name agent_secret w = (Inr publication, w')"
  shows "st_group_id tree = pd_group_id pd
    \<and> node_done sv pd w' (st_request_id tree) (st_title tree) (st_questions tree) None
        (tpub_root_event_id publication)
    \<and> published_forest (sv_third_party sv) (daemon_jobs sv pd w') (st_request_id tree)
        (tpub_root_event_id publication) 0 (st_attachments tree) (tpub_child_event_ids publication)
    \<and> published_kept (daemon_jobs sv pd w) (daemon_jobs sv pd w')"
proof -
  obtain identity w1 created_at w2 where s: "st_group_id tree = pd_group_id pd"
    "identity_request sv agent_secret w = (Inr identity, w1)" "unix_seconds sv w1 = (Inr created_at :: producer_error + _, w2)"
    "close_after sv identity
       (and_then (publish_node sv pd (st_request_id tree) (st_title tree)
           (case st_summary tree of None \<Rightarrow> [] | Some s \<Rightarrow> s) (st_message tree) (st_questions tree)
           (st_attachments tree) None agent_name (ri_author identity) created_at []) (\<lambda>(root, children).
         ok \<lparr>tpub_root_event_id = root, tpub_child_event_ids = children\<rparr>)) w2 = (Inr publication, w')"
    using assms(3) unfolding publish_tree_def
    by (auto simp: of_result_def elim!: and_then_cases with_error_cases split: if_splits)
  have keep: "keeps_records pd w w2"
    using identity_request_keeps [OF s(2)] unix_seconds_keeps [OF s(3)] keeps_records_trans by blast
  then have 1: "daemon_sound sv pd w2" "daemon_jobs sv pd w2 = daemon_jobs sv pd w"
    using keeps_records_world [OF keep assms(2)] by auto
  obtain w3 where 2: "and_then (publish_node sv pd (st_request_id tree) (st_title tree)
           (case st_summary tree of None \<Rightarrow> [] | Some s \<Rightarrow> s) (st_message tree) (st_questions tree)
           (st_attachments tree) None agent_name (ri_author identity) created_at []) (\<lambda>(root, children).
         ok \<lparr>tpub_root_event_id = root, tpub_child_event_ids = children\<rparr>) w2 = (Inr publication, w3)"
    "keeps_records pd w3 w'"
    using close_after_ok [OF s(4)] .
  then have 3: "publish_node sv pd (st_request_id tree) (st_title tree)
       (case st_summary tree of None \<Rightarrow> [] | Some s \<Rightarrow> s) (st_message tree) (st_questions tree)
       (st_attachments tree) None agent_name (ri_author identity) created_at [] w2
       = (Inr (tpub_root_event_id publication, tpub_child_event_ids publication), w3)"
    by (auto simp: of_result_def elim!: and_then_cases)
  note 4 = publish_node_effect [OF 3 assms(1) 1(1)]
  have 5: "grows sv pd w3 w'" using keeps_records_grows [OF 2(2)] 4 by (simp add: grows_def)
  show ?thesis
    using 4 5 grows_trans [of sv pd w2 w3 w'] node_done_grows [OF _ 5] forest_done_grows [OF _ 5] s(1) 1(2)
    by (auto simp: grows_def)
qed


definition sample_tree :: spoken_tree where
  "sample_tree =
     \<lparr>st_request_id = ''req-1'', st_group_id = ''tts'', st_title = ''Build'', st_summary = None,
      st_message = ''/in/root.md'', st_questions = [],
      st_attachments = [Narrated ''Details'' ''/in/child.md'' [] []]\<rparr>"

lemma sample_read:
  assumes "path = ''/in/root.md'' \<or> path = ''/in/child.md''"
  shows "read_to_string path sample_world = (Inr ''Done'', sample_world)"
proof -
  have "valid_utf8 ''Done''" by code_simp
  then show ?thesis
    using assms by (auto simp: read_to_string_def on_files_def on_part_def fs_op_defs and_then_def with_error_def
        sample_world_def)
qed

lemma sample_one:
  assumes "daemon_jobs refusing_services sample_producer sample_world request_id = Some (published_job request_id c)"
    and "path = ''/in/root.md'' \<or> path = ''/in/child.md''" and "\<forall>l p. File l p \<notin> set attachments"
  shows "publish_one refusing_services sample_producer request_id title summary path qs attachments parent agent
     (replicate 64 (CHR ''1'')) created_at sample_world = (Inr (replicate 64 c), sample_world)"
proof -
  have up: "upload_attachments sv pd attachments durable w = (Inr durable, w)" for sv pd durable and w :: "'x daemon_world"
    using assms(3) by (induction sv pd attachments durable rule: upload_attachments.induct) (auto simp: of_result_def)
  have "publish_as (sv_third_party refusing_services) (production_ops refusing_services sample_producer)
      (node_request sample_producer request_id agent title summary ''Done'' [] qs parent) (replicate 64 (CHR ''1''))
      created_at sample_world = (Inr (published_job request_id c), sample_world)"
    by (rule sample_publish_as)
      (simp_all add: node_request_def assms(1) sample_world_quiet sample_digest published_job_fields)
  then show ?thesis
    by (simp add: publish_one_def and_then_def with_error_def sample_read [OF assms(2)] up published_job_fields
        of_result_def ok_or_def)
qed


section \<open>Ids of the nodes of a tree\<close>

lemma chars_take_plain: "list_all (\<lambda>c. \<not> is_continuation c) s \<Longrightarrow> chars_take n s = take n s"
  by (induction n s rule: chars_take.induct) (auto split: nat.splits)

lemma request_char_plain: "is_request_char c \<Longrightarrow> \<not> is_continuation c"
  by (auto simp: is_request_char_def is_ascii_alphanumeric_def is_ascii_digit_def is_continuation_def)

lemma digit_request_char: "is_ascii_digit c \<Longrightarrow> is_request_char c \<and> c \<noteq> CHR ''-''"
  by (auto simp: is_request_char_def is_ascii_alphanumeric_def is_ascii_digit_def)

lemma child_request_id_plain:
  "list_all is_request_char p \<Longrightarrow> child_request_id p i = take 60 p @ ''-'' @ nat_to_string i"
  using chars_take_plain [of p 60] request_char_plain by (simp add: child_request_id_def list_all_iff)

lemma nat_to_string_length: "n < 10 ^ Suc k \<Longrightarrow> length (nat_to_string n) \<le> Suc k"
proof (induction k arbitrary: n)
  case 0
  then show ?case by (subst nat_to_string.simps) simp
next
  case (Suc k)
  then have "n div 10 < 10 ^ Suc k" by (simp add: less_mult_imp_div_less)
  then show ?case using Suc.IH [of "n div 10"] by (subst nat_to_string.simps) simp
qed

lemma nat_to_string_inj: "i < 2 ^ 64 \<Longrightarrow> j < 2 ^ 64 \<Longrightarrow> nat_to_string i = nat_to_string j \<Longrightarrow> i = j"
  using parse_digits_nat_to_string by (metis option.inject)

lemma first_occurrence: "s @ x # a = t @ x # b \<Longrightarrow> x \<notin> set s \<Longrightarrow> x \<notin> set t \<Longrightarrow> s = t \<and> a = b"
proof (induction s arbitrary: t)
  case Nil
  then show ?case by (cases t) auto
next
  case (Cons y s)
  then show ?case by (cases t) auto
qed

lemma split_at_last_dash:
  assumes "p @ CHR ''-'' # s = q @ CHR ''-'' # t" and "CHR ''-'' \<notin> set s" and "CHR ''-'' \<notin> set t"
  shows "p = q \<and> s = t"
proof -
  have "rev s @ CHR ''-'' # rev p = rev t @ CHR ''-'' # rev q" using arg_cong [OF assms(1), of rev] by simp
  from first_occurrence [OF this] show ?thesis using assms(2,3) by simp
qed

text \<open>
  The ids of tree nodes. Below a parent id of at most 60 characters, the child ids of different
  parents or of different positions differ, and with fewer than a thousand narrated attachments every
  child id is accepted by the request id check.
\<close>

theorem child_request_id_sound:
  assumes "valid_request_id p" and "valid_request_id q" and "length p \<le> 60" and "length q \<le> 60"
    and "i < 1000" and "j < 1000"
  shows "valid_request_id (child_request_id p i)
    \<and> (child_request_id p i = child_request_id q j \<longleftrightarrow> p = q \<and> i = j)"
proof -
  have plain: "child_request_id p i = p @ CHR ''-'' # nat_to_string i"
    "child_request_id q j = q @ CHR ''-'' # nat_to_string j"
    using assms by (simp_all add: child_request_id_plain valid_request_id_def)
  have dash: "CHR ''-'' \<notin> set (nat_to_string n)" for n
    using nat_to_string_digits digit_request_char by blast
  have "child_request_id p i = child_request_id q j \<longleftrightarrow> p = q \<and> i = j"
  proof
    assume "child_request_id p i = child_request_id q j"
    from split_at_last_dash [OF this [unfolded plain] dash dash]
    have "p = q" "nat_to_string i = nat_to_string j" by (rule conjunct1, rule conjunct2)
    moreover have "i < 2 ^ 64" "j < 2 ^ 64" using assms(5,6) by simp_all
    ultimately show "p = q \<and> i = j" using nat_to_string_inj by blast
  qed simp
  moreover have "length (nat_to_string i) \<le> 3" using nat_to_string_length [of i 2] assms(5) by simp
  moreover have "list_all is_request_char (nat_to_string i)"
    using nat_to_string_digits digit_request_char by (auto simp: list_all_iff)
  moreover have "is_request_char (CHR ''-'')" by (simp add: is_request_char_def)
  ultimately show ?thesis using assms(1,3) by (simp add: plain valid_request_id_def)
qed

theorem child_request_id_sound_witness:
  "valid_request_id (child_request_id ''req'' 12) \<and> child_request_id ''req'' 12 \<noteq> child_request_id ''req-1'' 2"
proof -
  have "valid_request_id ''req''" "valid_request_id ''req-1''" by code_simp+
  then show ?thesis using child_request_id_sound [of "''req''" "''req-1''" 12 2] by simp
qed

text \<open>
  The ids of deep trees collide. The child id of a parent of 60 or more characters keeps only the
  first 60, so it forgets which child it belongs to: the grandchild at a position gets the id of the
  child at that position.
\<close>

theorem child_request_id_collides:
  assumes "valid_request_id p" and "60 \<le> length p"
  shows "child_request_id (child_request_id p i) j = child_request_id p j"
proof -
  have "list_all is_request_char (take 60 p)" using assms(1) by (auto simp: valid_request_id_def list_all_iff dest: in_set_takeD)
  moreover have "list_all is_request_char (nat_to_string i)" "is_request_char (CHR ''-'')"
    using nat_to_string_digits digit_request_char by (auto simp: list_all_iff is_request_char_def)
  ultimately have "list_all is_request_char (take 60 p @ ''-'' @ nat_to_string i)" by simp
  then show ?thesis
    using assms by (simp add: child_request_id_plain valid_request_id_def)
qed

theorem child_request_id_collides_witness:
  "child_request_id (child_request_id (replicate 60 (CHR ''a'')) 0) 0 = child_request_id (replicate 60 (CHR ''a'')) 0"
proof (rule child_request_id_collides)
  show "valid_request_id (replicate 60 (CHR ''a''))"
    by (simp add: valid_request_id_def list_all_iff is_request_char_def is_ascii_alphanumeric_def)
qed simp

text \<open>
  C28: the bounded publication loop is long enough. Whatever the services do, an error of \<open>publish_as\<close> is
  the error of the admission or of one of the advances: the six rounds always suffice, so a publication
  in which no call fails ends with a published job.
\<close>

theorem publish_as_rounds_suffice:
  assumes "codec_round_trip (sv_codec sv)" and "daemon_sound sv pd w"
    and "publish_as tp (production_ops sv pd) request author created_at w = (Inl e, w')"
  shows "(\<exists>u'. admit tp (production_ops sv pd) request author created_at w = (Inl e, u'))
      \<or> (\<exists>u u'. advance tp (production_ops sv pd) (pr_request_id request) u = (Inl e, u'))"
proof -
  note env = production_environment [OF assms(1), of pd]
  show ?thesis
    using producer_environment.publish_as_errors [OF env assms(3), of "daemon_jobs sv pd w"] assms(2)
    by (simp add: producer_environment.holds_def [OF env])
qed

definition failing_world :: "unit daemon_world" where
  "failing_world = sample_world\<lparr>dw_fs := (dw_fs sample_world)\<lparr>fs_faults := [Some (''disk error'', 0)]\<rparr>\<rparr>"

lemma failing_admit:
  "admit (sv_third_party refusing_services) (production_ops refusing_services sample_producer)
     sample_request author 7 failing_world = (Inl (JournalFailure (JournalIo (IoOther ''disk error''))), sample_world)"
proof -
  have "valid_request_id ''req-1''" by code_simp
  then show ?thesis
    by (simp add: admit_def sample_digest and_then_def of_result_def with_error_def validate_request_id_def
        valid_request_id_def production_ops_def on_journal_def on_part_def journal_load_def record_path_def
        journal_part_def fs_op_defs failing_world_def sample_request_def sample_world_def)
qed

theorem publish_as_rounds_suffice_witness:
  "\<exists>e. fst (publish_as (sv_third_party refusing_services) (production_ops refusing_services sample_producer)
        sample_request [] 7 failing_world) = Inl e
     \<and> ((\<exists>u'. admit (sv_third_party refusing_services) (production_ops refusing_services sample_producer)
             sample_request [] 7 failing_world = (Inl e, u'))
        \<or> (\<exists>u u'. advance (sv_third_party refusing_services) (production_ops refusing_services sample_producer)
             ''req-1'' u = (Inl e, u')))"
proof -
  have codec: "codec_round_trip (sv_codec refusing_services)"
    by (simp add: refusing_services_def sample_codec_round_trip)
  have sound: "daemon_sound refusing_services sample_producer failing_world"
    using sample_world_sound by (simp add: daemon_sound_def store_sound_def journal_part_def failing_world_def)
  have result: "publish_as (sv_third_party refusing_services) (production_ops refusing_services sample_producer)
      sample_request [] 7 failing_world = (Inl (JournalFailure (JournalIo (IoOther ''disk error''))), sample_world)"
    by (simp add: publish_as_def and_then_def failing_admit)
  show ?thesis
    using publish_as_rounds_suffice [OF codec sound result] result by (simp add: sample_request_def)
qed

end
