(* ===== verification/Answer_Wait.thy ===== *)
theory Answer_Wait
  imports Production Projection_Laws Cancel_Race
begin

text \<open>
  Waiting for the answer to a published item (\<open>daemon/src/answer_wait.rs\<close>). The clock, the cancellation
  flag and the observation run concurrently with the wait, so each round of its loop reads them from an
  environment: what the flag and the clock show at each look and what the observation delivers.
\<close>

datatype answer_wait_error =
    NotPublished
  | NoQuestions
  | InvalidTimeout
  | WaitCancelled
  | TimedOut
  | EngineClosed
  | FrameLimit
  | Observation string

definition answer_wait_error_text :: "answer_wait_error \<Rightarrow> string" where
  "answer_wait_error_text e =
     (case e of
        NotPublished \<Rightarrow> ''answer wait requires a published job''
      | NoQuestions \<Rightarrow> ''published item has no questions''
      | InvalidTimeout \<Rightarrow> ''answer wait timeout is invalid''
      | WaitCancelled \<Rightarrow> ''answer wait was cancelled''
      | TimedOut \<Rightarrow> ''answer wait timed out''
      | EngineClosed \<Rightarrow> ''NMP answer stream closed''
      | FrameLimit \<Rightarrow> ''NMP answer stream exceeded its frame bound''
      | Observation reason \<Rightarrow> ''NMP refused answer observation: '' @ reason)"

definition answer_from_rows ::
  "event list \<Rightarrow> string \<Rightarrow> string \<Rightarrow> question list \<Rightarrow> answer_bundle option" where
  "answer_from_rows rs group_id event_id qs =
     select_answer qs
       (List.map_filter (\<lambda>row. case parse row group_id of
           Some (Answer answer) \<Rightarrow> if rel_root_id answer = event_id then Some (rel_value answer) else None
         | _ \<Rightarrow> None) rs)"

text \<open>
  One round of the loop: the flag and the clock at its start, what \<open>recv_timeout\<close> gives for the remaining
  time, and the flag and the clock after that.
\<close>

datatype received = Received frame | RecvTimeout | RecvDisconnected

record wait_round =
  wr_cancelled :: bool
  wr_now :: u64
  wr_receive :: "u64 \<Rightarrow> received"
  wr_cancelled_after :: bool
  wr_now_after :: u64

fun wait_rounds ::
  "string \<Rightarrow> string \<Rightarrow> question list \<Rightarrow> u64 \<Rightarrow> (nat \<Rightarrow> wait_round) \<Rightarrow> nat \<Rightarrow> nat
   \<Rightarrow> answer_wait_error + answer_bundle" where
  "wait_rounds group_id event_id qs deadline env k 0 = Inl FrameLimit"
| "wait_rounds group_id event_id qs deadline env k (Suc n) =
     (let r = env k in
      if wr_cancelled r then Inl WaitCancelled
      else
        (let remaining = saturating_sub deadline (wr_now r) in
         if remaining = 0 then Inl TimedOut
         else
           case wr_receive r remaining of
             Received frame \<Rightarrow>
               if wr_cancelled_after r then Inl WaitCancelled
               else if deadline \<le> wr_now_after r then Inl TimedOut
               else
                 (case Option.bind (fr_window frame) (\<lambda>window. answer_from_rows window group_id event_id qs) of
                    Some answer \<Rightarrow> Inr answer
                  | None \<Rightarrow> wait_rounds group_id event_id qs deadline env (Suc k) n)
           | RecvTimeout \<Rightarrow> Inl TimedOut
           | RecvDisconnected \<Rightarrow> Inl (if wr_cancelled_after r then WaitCancelled else EngineClosed)))"

text \<open>The answer waiter beside the engine: clock, observation, and the two looks of \<open>install\<close> at the flag.\<close>

record wait_environment =
  we_start :: u64
  we_observe :: "string + unit"
  we_install_first :: bool
  we_install_second :: bool
  we_rounds :: "nat \<Rightarrow> wait_round"

definition wait ::
  "string \<Rightarrow> job_record \<Rightarrow> nat \<Rightarrow> wait_environment \<Rightarrow> answer_wait_error + answer_bundle" where
  "wait group_id job timeout_millis env =
     (case jr_phase job of
        Published item membership receipt_id event_id \<Rightarrow>
          if fz_questions item = [] then Inl NoQuestions
          else if timeout_millis \<ge> 2 ^ 64 \<or> timeout_millis = 0 then Inl InvalidTimeout
          else
            (case checked_add (we_start env) (of_nat timeout_millis) of
               None \<Rightarrow> Inl InvalidTimeout
             | Some deadline \<Rightarrow>
                 (case we_observe env of
                    Inl error \<Rightarrow> Inl (Observation error)
                  | Inr _ \<Rightarrow>
                      if we_install_first env \<or> we_install_second env then Inl WaitCancelled
                      else wait_rounds group_id event_id (fz_questions item) deadline (we_rounds env) 0 128))
      | _ \<Rightarrow> Inl NotPublished)"

section \<open>Answers\<close>

lemma answer_from_rows_eq: "answer_from_rows rs group_id event_id qs = select_answer qs (answers_of group_id rs event_id)"
  by (simp add: answer_from_rows_def answers_of_def)


text \<open>What a round that ends neither in an error nor by cancellation has found.\<close>

definition round_found :: "string \<Rightarrow> string \<Rightarrow> question list \<Rightarrow> u64 \<Rightarrow> wait_round \<Rightarrow> answer_bundle option option" where
  "round_found group_id event_id qs deadline r =
     (if wr_cancelled r \<or> wr_cancelled_after r \<or> deadline \<le> wr_now r \<or> deadline \<le> wr_now_after r then None
      else case wr_receive r (deadline - wr_now r) of
        Received frame \<Rightarrow>
          Some (Option.bind (fr_window frame) (\<lambda>window. select_answer qs (answers_of group_id window event_id)))
      | _ \<Rightarrow> None)"

lemma saturating_sub_zero: "saturating_sub a b = 0 \<longleftrightarrow> a \<le> b"
  by (auto simp: saturating_sub_def)

lemma wait_rounds_step:
  "wait_rounds group_id event_id qs deadline env k (Suc n) = Inr answer \<longleftrightarrow>
     (case round_found group_id event_id qs deadline (env k) of
        None \<Rightarrow> False
      | Some (Some found) \<Rightarrow> found = answer
      | Some None \<Rightarrow> wait_rounds group_id event_id qs deadline env (Suc k) n = Inr answer)"
  by (auto simp: Let_def round_found_def saturating_sub_zero answer_from_rows_eq not_le
      saturating_sub_def split: received.splits option.splits)

lemma wait_rounds_iff:
  "wait_rounds group_id event_id qs deadline env k n = Inr answer \<longleftrightarrow>
     (\<exists>i < n. round_found group_id event_id qs deadline (env (k + i)) = Some (Some answer)
        \<and> (\<forall>j < i. round_found group_id event_id qs deadline (env (k + j)) = Some None))"
proof (induction n arbitrary: k)
  case (Suc n)
  have shift: "(\<exists>i < Suc n. P i) \<longleftrightarrow> P 0 \<or> (\<exists>i < n. P (Suc i))" for P by (auto simp: less_Suc_eq_0_disj)
  have below: "(\<forall>j < Suc i. P j) \<longleftrightarrow> P 0 \<and> (\<forall>j < i. P (Suc j))" for P i by (auto simp: less_Suc_eq_0_disj)
  show ?case
    unfolding wait_rounds_step shift below
    by (simp add: Suc.IH split: option.splits)
qed simp

text \<open>
  C38: what the answer wait returns. For a published job with questions, a representable deadline and a
  running observation, \<open>wait\<close> returns an answer if and only if some round within the first 128 delivers,
  before the deadline and uncancelled, a window with a valid answer to the job's event, every earlier round
  having delivered a window without one; and it is the valid answer with the greatest time and id there.
\<close>

theorem wait_iff:
  assumes "jr_phase job = Published item membership receipt_id event_id" and "fz_questions item \<noteq> []"
    and "checked_add (we_start env) (of_nat timeout) = Some deadline" and "0 < timeout" and "timeout < 2 ^ 64"
    and "we_observe env = Inr ()" and "\<not> we_install_first env" and "\<not> we_install_second env"
  shows "wait group_id job timeout env = Inr answer \<longleftrightarrow>
     (\<exists>i < 128. round_found group_id event_id (fz_questions item) deadline (we_rounds env i) = Some (Some answer)
        \<and> (\<forall>j < i. round_found group_id event_id (fz_questions item) deadline (we_rounds env j) = Some None))"
  using assms wait_rounds_iff [of group_id event_id "fz_questions item" deadline "we_rounds env" 0 128 answer]
  by (simp add: wait_def)

definition waiting_job :: job_record where
  "waiting_job = sample_job\<lparr>jr_phase := Published sample_item None 5 (replicate 64 (CHR ''a''))\<rparr>"

lemma sample_reply:
  "\<exists>event reply. parse event ''tts'' = Some (Answer reply) \<and> rel_root_id reply = replicate 64 (CHR ''a'')
     \<and> valid_answer (fz_questions sample_item) (rel_value reply)"
proof -
  obtain intent where i:
    "compose_answer hex_key_parse hex_key_parse plain_group_send ''wss://relay'' sample_answer = Inr intent"
    using sample_answer_composes by blast
  have "marker (signed_event ''e2'' intent) = Some (''answer'', VERSION)"
    by (simp add: marker_def compose_answer_event(2) [OF plain_group_send_contract i] answer_tags_rows)
  moreover have "fa_group_id sample_answer = ''tts''" "is_lower_hex (fa_root_event_id sample_answer) 64"
    by (simp_all add: sample_answer_def evaluate_text)
  ultimately have "parse (signed_event ''e2'' intent) ''tts'' =
      Some (Answer (answer_view ''e2'' (wi_author intent) sample_answer))"
    using parse_answer_composed [OF plain_group_send_contract i, of "''e2''"]
    using compose_answer_event(3,4) [OF plain_group_send_contract i]
    by (simp add: parse_def)
  moreover have "trim ''yes'' = ''yes''" by code_simp
  then have "valid_answer (fz_questions sample_item)
      (rel_value (answer_view ''e2'' (wi_author intent) sample_answer))"
    by (simp add: answer_view_def trim_answer_def valid_answer_def sample_answer_def sample_item_def
        question_index_def btree_get_def option_ids_def evaluate_text)
  ultimately show ?thesis by (force simp: answer_view_def sample_answer_def)
qed

text \<open>An environment in which the second frame delivers the given window.\<close>

definition answering :: "event list \<Rightarrow> wait_environment" where
  "answering window =
     \<lparr>we_start = 100, we_observe = Inr (), we_install_first = False, we_install_second = False,
      we_rounds = (\<lambda>k. \<lparr>wr_cancelled = False, wr_now = 100,
        wr_receive = (\<lambda>remaining. Received \<lparr>fr_deltas = [], fr_window = (if k = 0 then None else Some window),
          fr_evidence = \<lparr>aq_sources = [], aq_shortfall = []\<rparr>\<rparr>),
        wr_cancelled_after = False, wr_now_after = 100\<rparr>)\<rparr>"

theorem wait_iff_witness:
  "\<exists>event answer. wait ''tts'' waiting_job 60000 (answering [event]) = Inr answer
     \<and> valid_answer (fz_questions sample_item) answer"
proof -
  obtain event reply where e: "parse event ''tts'' = Some (Answer reply)"
    "rel_root_id reply = replicate 64 (CHR ''a'')" "valid_answer (fz_questions sample_item) (rel_value reply)"
    using sample_reply by blast
  have deadline: "checked_add (we_start (answering [event])) (of_nat 60000) = Some 60100"
    by (simp add: answering_def checked_add_def)
  have found: "round_found ''tts'' (replicate 64 (CHR ''a'')) (fz_questions sample_item) 60100
      (we_rounds (answering [event]) 1) = Some (Some (rel_value reply))"
    using e by (simp add: round_found_def answering_def answers_of_def map_filter_simps select_answer_def)
  have first: "round_found ''tts'' (replicate 64 (CHR ''a'')) (fz_questions sample_item) 60100
      (we_rounds (answering [event]) 0) = Some None"
    by (simp add: round_found_def answering_def)
  have "wait ''tts'' waiting_job 60000 (answering [event]) = Inr (rel_value reply) \<longleftrightarrow>
     (\<exists>i < 128. round_found ''tts'' (replicate 64 (CHR ''a'')) (fz_questions sample_item) 60100
          (we_rounds (answering [event]) i) = Some (Some (rel_value reply))
        \<and> (\<forall>j < i. round_found ''tts'' (replicate 64 (CHR ''a'')) (fz_questions sample_item) 60100
             (we_rounds (answering [event]) j) = Some None))"
    by (rule wait_iff [OF _ _ deadline]) (simp_all add: waiting_job_def sample_item_def answering_def)
  moreover have "(1::nat) < 128" by simp
  ultimately have "wait ''tts'' waiting_job 60000 (answering [event]) = Inr (rel_value reply)"
    using found first by (metis less_one)
  then show ?thesis using e(3) by blast
qed

end
