(* ===== verification/Local_Service.thy ===== *)
theory Local_Service
  imports Tree_Laws Answer_Wait Unix_Files
begin

text \<open>
  The local protocol between a producer client and the daemon: its requests and responses
  (\<open>producer-api/src/protocol.rs\<close>), the client (\<open>producer-api/src/unix_client.rs\<close>), the service over the
  production composition (\<open>daemon/src/local_service.rs\<close>) and one served connection
  (\<open>serve_stream\<close> of \<open>daemon/src/local_server.rs\<close>).
\<close>

section \<open>Requests and responses\<close>

definition LOCAL_PROTOCOL_VERSION :: u16 where "LOCAL_PROTOCOL_VERSION = 1"
definition MAX_LOCAL_FRAME_BYTES :: nat where "MAX_LOCAL_FRAME_BYTES = 128 * 1024"
definition MAX_ANSWER_WAIT_SECONDS :: u64 where "MAX_ANSWER_WAIT_SECONDS = 300"

record local_publish_request =
  lp_version :: u16
  lp_request :: producer_request
  lp_wait_for_answer_seconds :: "u64 option"
  lp_agent_nsec :: "string option"

record local_tree_request =
  lt_version :: u16
  lt_tree :: spoken_tree
  lt_agent_id :: "string option"
  lt_agent_nsec :: "string option"

record local_request_error =
  le_code :: string
  le_message :: string

datatype answer_wait_result =
    NotRequested
  | Answered answer_bundle
  | WaitTimedOut
  | Unavailable string string

datatype local_publish_response =
    LocalPublished u16 string u64 string answer_wait_result
  | PublishedTree u16 string string "string list"
  | LocalError u16 string string

definition local_error :: "string \<Rightarrow> string \<Rightarrow> local_publish_response" where
  "local_error code message = LocalError LOCAL_PROTOCOL_VERSION code message"

definition unsupported_version :: "u16 \<Rightarrow> local_request_error" where
  "unsupported_version version =
     \<lparr>le_code = ''unsupported_version'',
      le_message = ''local protocol version '' @ nat_to_string (unat version) @ '' is unsupported; expected ''
        @ nat_to_string (unat LOCAL_PROTOCOL_VERSION)\<rparr>"

definition validate_publish :: "local_publish_request \<Rightarrow> local_request_error + unit" where
  "validate_publish input =
     (if lp_version input \<noteq> LOCAL_PROTOCOL_VERSION then Inl (unsupported_version (lp_version input))
      else if is_some_and (lp_wait_for_answer_seconds input)
                (\<lambda>seconds. seconds = 0 \<or> seconds > MAX_ANSWER_WAIT_SECONDS)
      then Inl \<lparr>le_code = ''invalid_answer_wait'',
                le_message = ''answer wait must be between 1 and ''
                  @ nat_to_string (unat MAX_ANSWER_WAIT_SECONDS) @ '' seconds''\<rparr>
      else if lp_wait_for_answer_seconds input \<noteq> None \<and> pr_questions (lp_request input) = []
      then Inl \<lparr>le_code = ''invalid_answer_wait'', le_message = ''answer wait requires at least one question''\<rparr>
      else if is_some_and (lp_agent_nsec input) (\<lambda>value. value = [] \<or> length value > 128)
      then Inl \<lparr>le_code = ''invalid_agent_identity'',
                le_message = ''request identity has an invalid encoded length''\<rparr>
      else Inr ())"

definition validate_tree :: "local_tree_request \<Rightarrow> local_request_error + unit" where
  "validate_tree input =
     (if lt_version input \<noteq> LOCAL_PROTOCOL_VERSION then Inl (unsupported_version (lt_version input))
      else if is_some_and (lt_agent_id input) (\<lambda>value. value = [] \<or> length value > 80)
      then Inl \<lparr>le_code = ''invalid_agent_identity'', le_message = ''agent id has an invalid length''\<rparr>
      else if is_some_and (lt_agent_nsec input) (\<lambda>value. value = [] \<or> length value > 128)
      then Inl \<lparr>le_code = ''invalid_agent_identity'',
                le_message = ''request identity has an invalid encoded length''\<rparr>
      else Inr ())"

section \<open>The service\<close>

definition producer_error_response :: "producer_error \<Rightarrow> local_publish_response" where
  "producer_error_response error =
     local_error
       (case error of
          InvalidRequest _ \<Rightarrow> ''invalid_request''
        | RequestConflict _ \<Rightarrow> ''request_conflict''
        | JobNotFound _ \<Rightarrow> ''job_not_found''
        | JournalFailure _ \<Rightarrow> ''journal_failed''
        | Capability _ _ \<Rightarrow> ''capability_failed'')
       (producer_error_text error)"

definition answer_error_code :: "answer_wait_error \<Rightarrow> string" where
  "answer_error_code error =
     (case error of
        NotPublished \<Rightarrow> ''not_published''
      | NoQuestions \<Rightarrow> ''no_questions''
      | InvalidTimeout \<Rightarrow> ''invalid_timeout''
      | WaitCancelled \<Rightarrow> ''cancelled''
      | TimedOut \<Rightarrow> ''timed_out''
      | EngineClosed \<Rightarrow> ''engine_closed''
      | FrameLimit \<Rightarrow> ''frame_limit''
      | Observation _ \<Rightarrow> ''observation_failed'')"

text \<open>
  The service makes a new \<open>AnswerWaitCancel\<close> that nobody else holds, so the flag is never set. What the
  wait observes comes from outside (\<open>attend\<close>).
\<close>

definition uncancelled :: "wait_environment \<Rightarrow> wait_environment" where
  "uncancelled env =
     env\<lparr>we_install_first := False, we_install_second := False,
         we_rounds := (\<lambda>i. (we_rounds env i)\<lparr>wr_cancelled := False, wr_cancelled_after := False\<rparr>)\<rparr>"

definition wait_for_answer ::
  "producer \<Rightarrow> job_record \<Rightarrow> u64 \<Rightarrow> wait_environment \<Rightarrow> answer_wait_error + answer_bundle" where
  "wait_for_answer pd job seconds env = wait (pd_group_id pd) job (unat seconds * 1000) (uncancelled env)"

definition answer_wait_of :: "answer_wait_error + answer_bundle \<Rightarrow> answer_wait_result" where
  "answer_wait_of outcome =
     (case outcome of
        Inr answer \<Rightarrow> Answered answer
      | Inl TimedOut \<Rightarrow> WaitTimedOut
      | Inl error \<Rightarrow> Unavailable (answer_error_code error) (answer_wait_error_text error))"

definition publish_local ::
  "'x services \<Rightarrow> producer \<Rightarrow> ('x \<Rightarrow> wait_environment \<times> 'x) \<Rightarrow> local_publish_request
   \<Rightarrow> 'x daemon_world \<Rightarrow> local_publish_response \<times> 'x daemon_world" where
  "publish_local sv pd attend input w =
     (case validate_publish input of
        Inl error \<Rightarrow> (local_error (le_code error) (le_message error), w)
      | Inr _ \<Rightarrow>
          (case publish_now sv pd (lp_request input) (lp_agent_nsec input) w of
             (Inl error, w) \<Rightarrow> (producer_error_response error, w)
           | (Inr job, w) \<Rightarrow>
               (case jr_phase job of
                  Published item membership receipt_id event_id \<Rightarrow>
                    (case lp_wait_for_answer_seconds input of
                       None \<Rightarrow>
                         (LocalPublished LOCAL_PROTOCOL_VERSION (pr_request_id (jr_request job)) receipt_id event_id
                            NotRequested, w)
                     | Some seconds \<Rightarrow>
                         (case attend (dw_ext w) of (env, x) \<Rightarrow>
                            (LocalPublished LOCAL_PROTOCOL_VERSION (pr_request_id (jr_request job)) receipt_id event_id
                               (answer_wait_of (wait_for_answer pd job seconds env)), w\<lparr>dw_ext := x\<rparr>)))
                | _ \<Rightarrow>
                    (local_error ''publication_incomplete'' ''producer returned without durable publication evidence'',
                     w))))"

definition publish_tree_local ::
  "'x services \<Rightarrow> producer \<Rightarrow> local_tree_request \<Rightarrow> 'x daemon_world
   \<Rightarrow> local_publish_response \<times> 'x daemon_world" where
  "publish_tree_local sv pd input w =
     (case validate_tree input of
        Inl error \<Rightarrow> (local_error (le_code error) (le_message error), w)
      | Inr _ \<Rightarrow>
          (case publish_tree sv pd (lt_tree input) (case lt_agent_id input of None \<Rightarrow> [] | Some name \<Rightarrow> name)
                  (lt_agent_nsec input) w of
             (Inr publication, w) \<Rightarrow>
               (PublishedTree LOCAL_PROTOCOL_VERSION (st_request_id (lt_tree input))
                  (tpub_root_event_id publication) (tpub_child_event_ids publication), w)
           | (Inl error, w) \<Rightarrow> (producer_error_response error, w)))"

section \<open>One connection\<close>

definition invalid_data :: "string \<Rightarrow> io_failure" where
  "invalid_data message = \<lparr>if_kind = KindInvalidData, if_text = message\<rparr>"

text \<open>
  The JSON readers and writers of the protocol; an error is the text \<open>serde_json\<close> reports. A connection is
  what the operating system does to it: setting the timeouts, the bytes the peer sends before it shuts
  its side down or an error while reading, and writing the response.
\<close>

record local_codec =
  lc_encode_publish :: "local_publish_request \<Rightarrow> string + string"
  lc_decode_publish :: "string \<Rightarrow> local_publish_request option"
  lc_encode_tree :: "local_tree_request \<Rightarrow> string + string"
  lc_decode_tree :: "string \<Rightarrow> local_tree_request option"
  lc_encode_response :: "local_publish_response \<Rightarrow> string + string"
  lc_decode_response :: "string \<Rightarrow> string + local_publish_response"

record connection =
  cn_timeouts :: "io_failure + unit"
  cn_incoming :: "io_failure + string"
  cn_write :: "io_failure + unit"

definition read_bounded :: "io_failure + string \<Rightarrow> io_failure + string" where
  "read_bounded incoming =
     (case incoming of
        Inl error \<Rightarrow> Inl error
      | Inr sent \<Rightarrow>
          (let bytes = take (MAX_LOCAL_FRAME_BYTES + 1) sent in
           if length bytes > MAX_LOCAL_FRAME_BYTES then Inl (invalid_data ''local frame exceeds the byte limit'')
           else Inr bytes))"

record 'w local_publish_service =
  ls_publish_local :: "local_publish_request \<Rightarrow> 'w \<Rightarrow> local_publish_response \<times> 'w"
  ls_publish_tree_local :: "local_tree_request \<Rightarrow> 'w \<Rightarrow> local_publish_response \<times> 'w"

definition respond ::
  "local_codec \<Rightarrow> 'w local_publish_service \<Rightarrow> io_failure + string \<Rightarrow> 'w \<Rightarrow> local_publish_response \<times> 'w" where
  "respond codec service received w =
     (case received of
        Inr bytes \<Rightarrow>
          if bytes = [] then (local_error ''malformed_request'' ''local request is empty'', w)
          else
            (case lc_decode_publish codec bytes of
               Some request \<Rightarrow>
                 (case validate_publish request of
                    Inr _ \<Rightarrow> ls_publish_local service request w
                  | Inl error \<Rightarrow> (local_error (le_code error) (le_message error), w))
             | None \<Rightarrow>
                 (case lc_decode_tree codec bytes of
                    Some tree \<Rightarrow>
                      (case validate_tree tree of
                         Inr _ \<Rightarrow> ls_publish_tree_local service tree w
                       | Inl error \<Rightarrow> (local_error (le_code error) (le_message error), w))
                  | None \<Rightarrow>
                      (local_error ''malformed_request'' ''local request is not valid protocol JSON'', w)))
      | Inl error \<Rightarrow>
          if if_kind error = KindInvalidData then (local_error ''request_too_large'' (if_text error), w)
          else (local_error ''request_read_failed'' (if_text error), w))"

text \<open>A served connection gives the bytes that were written.\<close>

definition serve_stream ::
  "local_codec \<Rightarrow> 'w local_publish_service \<Rightarrow> connection \<Rightarrow> ('w, io_failure, string) action" where
  "serve_stream codec service stream w =
     (case cn_timeouts stream of
        Inl error \<Rightarrow> (Inl error, w)
      | Inr _ \<Rightarrow>
          (case respond codec service (read_bounded (cn_incoming stream)) w of
             (response, w) \<Rightarrow>
               (case lc_encode_response codec response of
                  Inl error \<Rightarrow> (Inl (invalid_data error), w)
                | Inr bytes \<Rightarrow>
                    (case cn_write stream of Inl error \<Rightarrow> (Inl error, w) | Inr _ \<Rightarrow> (Inr bytes, w)))))"

definition production_service ::
  "'x services \<Rightarrow> producer \<Rightarrow> ('x \<Rightarrow> wait_environment \<times> 'x) \<Rightarrow> 'x daemon_world local_publish_service" where
  "production_service sv pd attend =
     \<lparr>ls_publish_local = publish_local sv pd attend, ls_publish_tree_local = publish_tree_local sv pd\<rparr>"

section \<open>The client\<close>

text \<open>
  \<open>exchange\<close> connects with the timeout for reading and writing, sends the payload, shuts its side down and
  gives what the server sends until it closes.
\<close>

type_synonym 'w exchange = "u64 option \<Rightarrow> string \<Rightarrow> ('w, io_failure, string) action"

text \<open>The client has its own copies of the two helpers of the server.\<close>

definition client_invalid_data :: "string \<Rightarrow> io_failure" where
  "client_invalid_data error = \<lparr>if_kind = KindInvalidData, if_text = error\<rparr>"

definition client_read_bounded :: "string \<Rightarrow> io_failure + string" where
  "client_read_bounded incoming =
     (let bytes = take (MAX_LOCAL_FRAME_BYTES + 1) incoming in
      if length bytes > MAX_LOCAL_FRAME_BYTES
      then Inl \<lparr>if_kind = KindInvalidData, if_text = ''local frame exceeds the byte limit''\<rparr>
      else Inr bytes)"

lemma client_helpers [simp]:
  "client_invalid_data = invalid_data" "client_read_bounded incoming = read_bounded (Inr incoming)"
  by (simp_all add: fun_eq_iff client_invalid_data_def invalid_data_def client_read_bounded_def read_bounded_def Let_def)

definition submit ::
  "local_codec \<Rightarrow> 'w exchange \<Rightarrow> string + string \<Rightarrow> u64 option \<Rightarrow> ('w, io_failure, local_publish_response) action" where
  "submit codec exchange encoded timeout =
     (case encoded of
        Inl error \<Rightarrow> fail (client_invalid_data error)
      | Inr payload \<Rightarrow>
          if length payload > MAX_LOCAL_FRAME_BYTES
          then fail \<lparr>if_kind = KindInvalidInput, if_text = ''local request exceeds the frame limit''\<rparr>
          else and_then (exchange timeout payload) (\<lambda>sent.
               and_then (of_result (client_read_bounded sent)) (\<lambda>response.
                 of_result (map_err client_invalid_data (lc_decode_response codec response)))))"

definition submit_local ::
  "local_codec \<Rightarrow> 'w exchange \<Rightarrow> local_publish_request \<Rightarrow> ('w, io_failure, local_publish_response) action" where
  "submit_local codec exchange request = submit codec exchange (lc_encode_publish codec request) None"

definition submit_local_with_timeout ::
  "local_codec \<Rightarrow> 'w exchange \<Rightarrow> local_publish_request \<Rightarrow> u64
   \<Rightarrow> ('w, io_failure, local_publish_response) action" where
  "submit_local_with_timeout codec exchange request timeout =
     submit codec exchange (lc_encode_publish codec request) (Some timeout)"

definition submit_local_tree ::
  "local_codec \<Rightarrow> 'w exchange \<Rightarrow> local_tree_request \<Rightarrow> ('w, io_failure, local_publish_response) action" where
  "submit_local_tree codec exchange request = submit codec exchange (lc_encode_tree codec request) None"

text \<open>The exchange with a server that serves the connection while the network behaves.\<close>

definition served_exchange :: "local_codec \<Rightarrow> 'w local_publish_service \<Rightarrow> 'w exchange" where
  "served_exchange codec service timeout payload =
     serve_stream codec service \<lparr>cn_timeouts = Inr (), cn_incoming = Inr payload, cn_write = Inr ()\<rparr>"

end
