(* ===== verification/Local_Laws.thy ===== *)
theory Local_Laws
  imports Local_Service
begin

text \<open>
  What the local service guarantees to its clients: any call keeps the published jobs, and what a client
  that submits over the socket is told is true of the journal on disk.
\<close>

section \<open>Publication keeps the published jobs, whatever its outcome\<close>

lemma publish_as_grows:
  assumes "codec_round_trip (sv_codec sv)" and "daemon_sound sv pd w"
    and "publish_as tp (production_ops sv pd) request author created_at w = (r, w')"
  shows "grows sv pd w w'"
proof -
  note env = production_environment [OF assms(1), of pd]
  obtain calls where w': "w' = run_calls tp (production_ops sv pd) calls w" using publish_as_calls [OF assms(3)] by blast
  show ?thesis
    using producer_environment.run_calls_published [OF env, of "daemon_jobs sv pd w" w tp calls] assms(2)
    by (auto simp: producer_environment.holds_def [OF env] grows_def w')
qed

lemma publish_one_grows:
  assumes "codec_round_trip (sv_codec sv)" and "daemon_sound sv pd w"
    and "publish_one sv pd request_id title summary message_path qs attachments parent agent author created_at w = (r, w')"
  shows "grows sv pd w w'"
  using assms(3) unfolding publish_one_def
proof (cases rule: and_then_cases)
  case (Error e)
  then show ?thesis
    using keeps_records_grows [OF read_to_string_keeps assms(2)] by (auto elim!: with_error_cases)
next
  case (Ok body w1)
  then have 1: "grows sv pd w w1"
    using keeps_records_grows [OF read_to_string_keeps assms(2)] by (auto elim!: with_error_cases)
  from Ok(2) show ?thesis
  proof (cases rule: and_then_cases)
    case (Error e)
    then show ?thesis
      using grows_trans [OF 1 keeps_records_grows [OF upload_attachments_keeps]] 1 by (auto simp: grows_def)
  next
    case (Ok durable w2)
    have 2: "grows sv pd w1 w2"
      using keeps_records_grows [OF upload_attachments_keeps [OF Ok(1)]] 1 by (simp add: grows_def)
    from Ok(2) have "grows sv pd w2 w'"
      by (cases rule: and_then_cases) (use publish_as_grows [OF assms(1)] 2 in \<open>auto simp: grows_def\<close>)
    then show ?thesis using grows_trans 1 2 by blast
  qed
qed

lemma publish_node_grows:
  assumes "codec_round_trip (sv_codec sv)"
  shows "publish_node sv pd request_id title summary message_path qs attachments parent agent author created_at children w
      = (r, w') \<Longrightarrow> daemon_sound sv pd w \<Longrightarrow> grows sv pd w w'"
    and "publish_children sv pd request_id event_id index attachments agent author created_at children w = (q, w')
      \<Longrightarrow> daemon_sound sv pd w \<Longrightarrow> grows sv pd w w'"
  using assms
proof (induction sv pd request_id title summary message_path qs attachments parent agent author created_at children
    and sv pd request_id event_id index attachments agent author created_at children
    arbitrary: w r w' and w q w' rule: publish_node_publish_children.induct)
  case (1 sv pd request_id title summary message_path qs attachments parent agent author created_at children)
  from "1.prems"(1) show ?case unfolding publish_node.simps
  proof (cases rule: and_then_cases)
    case (Error e)
    then show ?thesis using publish_one_grows "1.prems" by blast
  next
    case (Ok event_id w1)
    then have one: "grows sv pd w w1" using publish_one_grows "1.prems" by blast
    from Ok(2) have "grows sv pd w1 w'"
    proof (cases rule: and_then_cases)
      case (Ok children' w2)
      then have "w' = w2" by simp
      then show ?thesis using "1.IH" [OF Ok(1)] one "1.prems" by (simp add: grows_def)
    qed (use "1.IH" one "1.prems" in \<open>auto simp: grows_def\<close>)
    then show ?thesis using grows_trans one by blast
  qed
next
  case (4 sv pd request_id event_id index label message qs attachments rest agent author created_at children)
  from "4.prems"(1) show ?case unfolding publish_children.simps(3)
  proof (cases rule: and_then_cases)
    case (Error e)
    then show ?thesis using "4.IH"(1) "4.prems" by blast
  next
    case (Ok result w1)
    obtain child children1 where result: "result = (child, children1)" by (cases result)
    have one: "grows sv pd w w1" using "4.IH"(1) [OF Ok(1)] "4.prems" by blast
    then have "grows sv pd w1 w'" using "4.IH"(2) Ok(2) "4.prems" result by (simp add: grows_def)
    then show ?thesis using grows_trans one by blast
  qed
qed (auto simp: publish_node.simps grows_def)

lemma close_after_grows:
  assumes "close_after sv identity m w = (r, w')" and "\<And>q w1. m w = (q, w1) \<Longrightarrow> grows sv pd w w1"
  shows "grows sv pd w w'"
proof -
  obtain q w1 where m: "m w = (q, w1)" by (cases "m w")
  then have "keeps_records pd w1 w'"
    using assms(1) by (auto simp: close_after_def split: prod.splits sum.splits elim!: with_error_cases
        dest!: identity_close_keeps [where pd = pd])
  then show ?thesis
    using assms(2) [OF m] grows_trans keeps_records_grows by (fastforce simp: grows_def)
qed

lemma publish_grows:
  assumes "codec_round_trip (sv_codec sv)" and "daemon_sound sv pd w"
    and "publish sv pd request created_at agent_secret w = (r, w')"
  shows "grows sv pd w w'"
proof (cases "pr_group_id request = pd_group_id pd")
  case False
  then show ?thesis using assms(2,3) by (auto simp: publish_def of_result_def grows_def)
next
  case True
  with assms(3) have "and_then (with_error (Capability ''request_identity'') (identity_request sv agent_secret)) (\<lambda>identity.
      close_after sv identity (publish_as (sv_third_party sv) (production_ops sv pd) request (ri_author identity) created_at))
      w = (r, w')" by (simp add: publish_def)
  then show ?thesis
  proof (cases rule: and_then_cases)
    case (Error e)
    then show ?thesis using keeps_records_grows [OF identity_request_keeps assms(2)] by (auto elim!: with_error_cases)
  next
    case (Ok identity w1)
    then have 1: "grows sv pd w w1"
      using keeps_records_grows [OF identity_request_keeps assms(2)] by (auto elim!: with_error_cases)
    moreover have "grows sv pd w1 w'"
      using 1 by (intro close_after_grows [OF Ok(2)] publish_as_grows [OF assms(1)]) (auto simp: grows_def)
    ultimately show ?thesis by (rule grows_trans)
  qed
qed

lemma publish_now_publish:
  assumes "publish_now sv pd request agent_secret w = (r, w')"
  obtains created_at w1 where "keeps_records pd w w1" "publish sv pd request created_at agent_secret w1 = (r, w')"
    "dw_daemon w1 = dw_daemon w"
proof -
  obtain millis x where "bc_unix_millis (sv_blossom sv) (dw_ext w) = (millis, x)" by fastforce
  then have "publish sv pd request (millis div 1000) agent_secret (w\<lparr>dw_ext := x\<rparr>) = (r, w')"
    using assms by (simp add: publish_now_def unix_seconds_def and_then_def)
  then show ?thesis by (rule that [rotated]) (simp_all add: keeps_records_def)
qed

lemma publish_now_grows:
  assumes "codec_round_trip (sv_codec sv)" and "daemon_sound sv pd w"
    and "publish_now sv pd request agent_secret w = (r, w')"
  shows "grows sv pd w w'"
  using assms(3)
proof (rule publish_now_publish)
  fix created_at w1 assume "keeps_records pd w w1" and p: "publish sv pd request created_at agent_secret w1 = (r, w')"
  then have 1: "grows sv pd w w1" using keeps_records_grows assms(2) by blast
  show ?thesis by (rule grows_trans [OF 1 publish_grows [OF assms(1) _ p]]) (use 1 in \<open>simp add: grows_def\<close>)
qed

lemma publish_now_effect:
  assumes "codec_round_trip (sv_codec sv)" and "daemon_sound sv pd w"
    and "publish_now sv pd request agent_secret w = (Inr job, w')"
  shows "pr_group_id request = pd_group_id pd \<and> daemon_jobs sv pd w' (pr_request_id request) = Some job
    \<and> is_published (jr_phase job) \<and> request_digest (sv_third_party sv) request = Inr (jr_request_digest job)"
  using assms(3)
proof (rule publish_now_publish)
  fix created_at w1 assume k: "keeps_records pd w w1" and p: "publish sv pd request created_at agent_secret w1 = (Inr job, w')"
  then show ?thesis using publish_effect [OF assms(1) _ p] keeps_records_grows [OF k assms(2)] by (auto simp: grows_def)
qed

lemma publish_tree_grows:
  assumes "codec_round_trip (sv_codec sv)" and "daemon_sound sv pd w"
    and "publish_tree sv pd tree agent_name agent_secret w = (r, w')"
  shows "grows sv pd w w'"
proof (cases "st_group_id tree = pd_group_id pd")
  case False
  then show ?thesis using assms(2,3) by (auto simp: publish_tree_def of_result_def grows_def)
next
  case True
  define node where "node identity created_at =
      and_then (publish_node sv pd (st_request_id tree) (st_title tree)
         (case st_summary tree of None \<Rightarrow> [] | Some s \<Rightarrow> s) (st_message tree) (st_questions tree)
         (st_attachments tree) None agent_name (ri_author identity) created_at []) (\<lambda>(root, children).
       ok \<lparr>tpub_root_event_id = root, tpub_child_event_ids = children\<rparr>)" for identity :: request_identity and created_at
  have nodes: "grows sv pd v v'" if "node identity created_at v = (q, v')" "daemon_sound sv pd v" for identity created_at v q v'
    using that(1) unfolding node_def
    by (cases rule: and_then_cases) (use publish_node_grows(1) [OF assms(1)] that(2) in \<open>auto split: prod.splits\<close>)
  have "and_then (with_error (Capability ''request_identity'') (identity_request sv agent_secret)) (\<lambda>identity.
      and_then (unix_seconds sv) (\<lambda>created_at. close_after sv identity (node identity created_at))) w = (r, w')"
    using assms(3) True by (simp add: publish_tree_def node_def)
  then show ?thesis
  proof (cases rule: and_then_cases)
    case (Error e)
    then show ?thesis using keeps_records_grows [OF identity_request_keeps assms(2)] by (auto elim!: with_error_cases)
  next
    case (Ok identity w1)
    then have 1: "grows sv pd w w1"
      using keeps_records_grows [OF identity_request_keeps assms(2)] by (auto elim!: with_error_cases)
    from Ok(2) have "grows sv pd w1 w'"
    proof (cases rule: and_then_cases)
      case (Error e)
      then show ?thesis by (auto simp: unix_seconds_def split: prod.splits)
    next
      case (Ok created_at w2)
      have 2: "grows sv pd w1 w2"
        using keeps_records_grows [OF unix_seconds_keeps [OF Ok(1)]] 1 by (simp add: grows_def)
      show ?thesis
        using 2 nodes by (intro grows_trans [OF 2] close_after_grows [OF Ok(2)]) (auto simp: grows_def)
    qed
    then show ?thesis using grows_trans 1 by blast
  qed
qed

lemma daemon_jobs_id: "daemon_sound sv pd w \<Longrightarrow> daemon_jobs sv pd w i = Some job \<Longrightarrow> job_id job = i"
  by (fastforce simp: daemon_sound_def daemon_jobs_def stored_jobs_def store_sound_def bind_eq_Some_conv split: if_splits)

lemma wait_valid:
  assumes "wait group_id job timeout env = Inr answer"
    and "jr_phase job = Published item membership receipt_id event_id"
  shows "valid_answer (fz_questions item) answer"
proof -
  obtain deadline where "wait_rounds group_id event_id (fz_questions item) deadline (we_rounds env) 0 128 = Inr answer"
    using assms by (auto simp: wait_def split: if_splits option.splits sum.splits)
  then obtain i where "round_found group_id event_id (fz_questions item) deadline (we_rounds env i) = Some (Some answer)"
    by (auto simp: wait_rounds_iff)
  then show ?thesis
    by (auto simp: round_found_def select_answer_Some split: if_splits received.splits bind_splits)
qed

section \<open>What a response tells\<close>

text \<open>
  What a response to a request claims about the journal: a publication is on disk under the request's id,
  with the receipt and the event of the response and the digest of this very request, and an answer in the
  response is valid for the item's questions. A tree is never the response to a single request.
\<close>

definition response_truthful ::
  "'x services \<Rightarrow> producer \<Rightarrow> local_publish_request \<Rightarrow> local_publish_response \<Rightarrow> 'x daemon_world \<Rightarrow> bool" where
  "response_truthful sv pd input response w \<longleftrightarrow>
     (case response of
        LocalPublished version request_id receipt_id event_id answer_wait \<Rightarrow>
          validate_publish input = Inr () \<and> version = LOCAL_PROTOCOL_VERSION
          \<and> request_id = pr_request_id (lp_request input)
          \<and> (\<exists>job item membership. daemon_jobs sv pd w request_id = Some job
               \<and> jr_phase job = Published item membership receipt_id event_id
               \<and> request_digest (sv_third_party sv) (lp_request input) = Inr (jr_request_digest job)
               \<and> (\<forall>answer. answer_wait = Answered answer \<longrightarrow> valid_answer (fz_questions item) answer))
          \<and> (lp_wait_for_answer_seconds input = None \<longleftrightarrow> answer_wait = NotRequested)
      | PublishedTree _ _ _ _ \<Rightarrow> False
      | LocalError version _ _ \<Rightarrow> version = LOCAL_PROTOCOL_VERSION)"

lemma answer_wait_of_simps [simp]:
  "answer_wait_of r \<noteq> NotRequested" "NotRequested \<noteq> answer_wait_of r"
  "answer_wait_of r = Answered answer \<longleftrightarrow> r = Inr answer"
  by (auto simp: answer_wait_of_def split: sum.split answer_wait_error.split)

lemma daemon_ext [simp]:
  "daemon_sound sv pd (w\<lparr>dw_ext := x\<rparr>) = daemon_sound sv pd w" "daemon_jobs sv pd (w\<lparr>dw_ext := x\<rparr>) = daemon_jobs sv pd w"
  "grows sv pd w' (w\<lparr>dw_ext := x\<rparr>) = grows sv pd w' w"
  by (simp_all add: daemon_sound_def daemon_jobs_def journal_part_def grows_def)

lemma publish_local_effect:
  assumes "codec_round_trip (sv_codec sv)" and "daemon_sound sv pd w"
    and "publish_local sv pd attend input w = (response, w')"
  shows "grows sv pd w w' \<and> response_truthful sv pd input response w'"
proof (cases "validate_publish input")
  case (Inl error)
  then show ?thesis
    using assms(2,3) by (auto simp: publish_local_def grows_def response_truthful_def local_error_def)
next
  case (Inr u)
  obtain r w1 where p: "publish_now sv pd (lp_request input) (lp_agent_nsec input) w = (r, w1)" by fastforce
  note grown = publish_now_grows [OF assms(1,2) p]
  show ?thesis
  proof (cases r)
    case (Inl error)
    then show ?thesis
      using assms(3) grown Inr p
      by (auto simp: publish_local_def response_truthful_def producer_error_response_def local_error_def)
  next
    case (Inr job)
    note e = publish_now_effect [OF assms(1,2) p [unfolded Inr]]
    then obtain item membership receipt_id event_id where phase: "jr_phase job = Published item membership receipt_id event_id"
      by (cases "jr_phase job") (auto simp: is_published_def)
    have ident: "pr_request_id (jr_request job) = pr_request_id (lp_request input)"
      using daemon_jobs_id [of sv pd w1] grown e by (simp add: grows_def)
    show ?thesis
      using assms(3) grown e phase ident \<open>validate_publish input = Inr u\<close> p Inr
      by (auto simp: publish_local_def response_truthful_def wait_for_answer_def wait_valid split: option.splits prod.splits)
  qed
qed


section \<open>Submitting over the socket\<close>

text \<open>
  What \<open>serde_json\<close> does with the protocol types: a request or response that is written is read back as
  itself, no written request is empty, and a written tree is not read as a single request, since its
  fields differ and unknown ones are denied.
\<close>

definition local_codec_contract :: "local_codec \<Rightarrow> bool" where
  "local_codec_contract lc \<longleftrightarrow>
     (\<forall>input payload. lc_encode_publish lc input = Inr payload \<longrightarrow>
        payload \<noteq> [] \<and> lc_decode_publish lc payload = Some input)
     \<and> (\<forall>input payload. lc_encode_tree lc input = Inr payload \<longrightarrow>
        payload \<noteq> [] \<and> lc_decode_publish lc payload = None \<and> lc_decode_tree lc payload = Some input)
     \<and> (\<forall>response bytes. lc_encode_response lc response = Inr bytes \<longrightarrow> lc_decode_response lc bytes = Inr response)"

lemma local_codec_contractD:
  assumes "local_codec_contract lc"
  shows "lc_encode_publish lc input = Inr payload \<Longrightarrow> payload \<noteq> [] \<and> lc_decode_publish lc payload = Some input"
    and "lc_encode_tree lc tree = Inr payload \<Longrightarrow>
      payload \<noteq> [] \<and> lc_decode_publish lc payload = None \<and> lc_decode_tree lc payload = Some tree"
    and "lc_encode_response lc response = Inr bytes \<Longrightarrow> lc_decode_response lc bytes = Inr response"
  using assms by (simp_all add: local_codec_contract_def)

lemma read_bounded_within: "length sent \<le> MAX_LOCAL_FRAME_BYTES \<Longrightarrow> read_bounded (Inr sent) = Inr sent"
  by (simp add: read_bounded_def)

lemma read_bounded_Inr: "read_bounded (Inr sent) = Inr bytes \<Longrightarrow> bytes = sent \<and> length sent \<le> MAX_LOCAL_FRAME_BYTES"
  by (auto simp: read_bounded_def Let_def split: if_splits)

lemma publish_local_invalid:
  "validate_publish input = Inl error \<Longrightarrow>
   publish_local sv pd attend input w = (local_error (le_code error) (le_message error), w)"
  "validate_tree tree = Inl error \<Longrightarrow>
   publish_tree_local sv pd tree w = (local_error (le_code error) (le_message error), w)"
  by (simp_all add: publish_local_def publish_tree_local_def)

lemma respond_production:
  assumes "local_codec_contract lc"
  shows "lc_encode_publish lc input = Inr payload \<Longrightarrow>
      respond lc (production_service sv pd attend) (Inr payload) w = publish_local sv pd attend input w"
    and "lc_encode_tree lc tree = Inr payload \<Longrightarrow>
      respond lc (production_service sv pd attend) (Inr payload) w = publish_tree_local sv pd tree w"
  using local_codec_contractD(1,2) [OF assms]
  by (auto simp: respond_def production_service_def publish_local_invalid split: sum.split)

lemma served_exchange_Inr:
  assumes "served_exchange lc service timeout payload w = (Inr bytes, w')" and "length payload \<le> MAX_LOCAL_FRAME_BYTES"
  obtains response where "respond lc service (Inr payload) w = (response, w')" "lc_encode_response lc response = Inr bytes"
  using assms by (auto simp: served_exchange_def serve_stream_def read_bounded_within split: prod.splits sum.splits)

lemma submit_Inr:
  assumes "local_codec_contract lc"
    and "submit lc (served_exchange lc service) encoded timeout w = (Inr response, w')"
  obtains payload where "encoded = Inr payload" "length payload \<le> MAX_LOCAL_FRAME_BYTES"
    "respond lc service (Inr payload) w = (response, w')"
proof -
  obtain payload where p: "encoded = Inr payload" "length payload \<le> MAX_LOCAL_FRAME_BYTES"
    "and_then (served_exchange lc service timeout payload) (\<lambda>sent.
       and_then (of_result (read_bounded (Inr sent))) (\<lambda>response.
         of_result (map_err invalid_data (lc_decode_response lc response)))) w = (Inr response, w')"
    using assms(2) by (auto simp: submit_def split: sum.splits if_splits)
  from p(3) obtain sent where sent: "served_exchange lc service timeout payload w = (Inr sent, w')"
    and decoded: "lc_decode_response lc sent = Inr response"
    by (auto simp: of_result_def dest!: read_bounded_Inr elim!: and_then_cases)
  from served_exchange_Inr [OF sent p(2)] obtain response' where
    r: "respond lc service (Inr payload) w = (response', w')" "lc_encode_response lc response' = Inr sent" .
  then have "response' = response" using local_codec_contractD(3) [OF assms(1) r(2)] decoded by simp
  then show ?thesis using that p(1,2) r(1) by blast
qed


text \<open>
  C19: the protocol delivers. When a request fits the frame and so does the response to it, submitting it
  over the socket returns exactly what the service computed.
\<close>

theorem local_submission_delivered:
  assumes "local_codec_contract lc" and "lc_encode_publish lc input = Inr payload"
    and "length payload \<le> MAX_LOCAL_FRAME_BYTES" and "publish_local sv pd attend input w = (response, w')"
    and "lc_encode_response lc response = Inr bytes" and "length bytes \<le> MAX_LOCAL_FRAME_BYTES"
  shows "submit_local lc (served_exchange lc (production_service sv pd attend)) input w = (Inr response, w')"
proof -
  have "served_exchange lc (production_service sv pd attend) None payload w = (Inr bytes, w')"
    using assms respond_production(1) [OF assms(1,2), of sv pd attend w]
    by (simp add: served_exchange_def serve_stream_def read_bounded_within)
  then show ?thesis
    using assms local_codec_contractD(3) [OF assms(1,5)]
    by (simp add: submit_local_def submit_def and_then_def read_bounded_within of_result_def)
qed


lemma publish_tree_local_effect:
  assumes "codec_round_trip (sv_codec sv)" and "daemon_sound sv pd w" and "publish_tree_local sv pd input w = (response, w')"
  shows "grows sv pd w w'
    \<and> (\<forall>version request_id root children. response = PublishedTree version request_id root children \<longrightarrow>
         request_id = st_request_id (lt_tree input)
         \<and> node_done sv pd w' request_id (st_title (lt_tree input)) (st_questions (lt_tree input)) None root
         \<and> published_forest (sv_third_party sv) (daemon_jobs sv pd w') request_id root 0
             (st_attachments (lt_tree input)) children)"
proof (cases "validate_tree input")
  case (Inl error)
  then show ?thesis using assms(2,3) by (auto simp: publish_local_invalid local_error_def grows_def)
next
  case (Inr u)
  obtain r w1 where t: "publish_tree sv pd (lt_tree input) (case lt_agent_id input of None \<Rightarrow> [] | Some name \<Rightarrow> name)
      (lt_agent_nsec input) w = (r, w1)" by fastforce
  note grown = publish_tree_grows [OF assms(1,2) t]
  show ?thesis
  proof (cases r)
    case (Inl error)
    then show ?thesis
      using assms(3) t grown Inr by (auto simp: publish_tree_local_def producer_error_response_def local_error_def)
  next
    case (Inr publication)
    then show ?thesis
      using assms(3) t grown publish_tree_effect [OF assms(1,2) t [unfolded Inr]] \<open>validate_tree input = Inr u\<close>
      by (auto simp: publish_tree_local_def)
  qed
qed

text \<open>A tree submitted over the socket that is reported as published is complete on disk.\<close>

lemma local_tree_truthful:
  assumes "codec_round_trip (sv_codec sv)" and "local_codec_contract lc" and "daemon_sound sv pd w"
    and "submit_local_tree lc (served_exchange lc (production_service sv pd attend)) input w = (Inr response, w')"
  shows "grows sv pd w w'
    \<and> (\<forall>version request_id root children. response = PublishedTree version request_id root children \<longrightarrow>
         request_id = st_request_id (lt_tree input)
         \<and> node_done sv pd w' request_id (st_title (lt_tree input)) (st_questions (lt_tree input)) None root
         \<and> published_forest (sv_third_party sv) (daemon_jobs sv pd w') request_id root 0
             (st_attachments (lt_tree input)) children)"
proof -
  obtain payload where "lc_encode_tree lc input = Inr payload"
    "respond lc (production_service sv pd attend) (Inr payload) w = (response, w')"
    using submit_Inr [OF assms(2) assms(4) [unfolded submit_local_tree_def]] by blast
  then have "publish_tree_local sv pd input w = (response, w')"
    using respond_production(2) [OF assms(2), of input payload sv pd attend w] by simp
  then show ?thesis by (rule publish_tree_local_effect [OF assms(1,3)])
qed

section \<open>A submission that was published before\<close>

definition sample_submission_input :: local_publish_request where
  "sample_submission_input =
     \<lparr>lp_version = 1, lp_request = sample_request, lp_wait_for_answer_seconds = None, lp_agent_nsec = None\<rparr>"

definition sample_response :: local_publish_response where
  "sample_response = LocalPublished 1 ''req-1'' 5 (replicate 64 (CHR ''a'')) NotRequested"

text \<open>A codec that knows this one request and response.\<close>

definition sample_local_codec :: local_codec where
  "sample_local_codec =
     \<lparr>lc_encode_publish = (\<lambda>input. if input = sample_submission_input then Inr ''request'' else Inl ''unsupported''),
      lc_decode_publish = (\<lambda>bytes. if bytes = ''request'' then Some sample_submission_input else None),
      lc_encode_tree = (\<lambda>input. Inl ''unsupported''), lc_decode_tree = (\<lambda>bytes. None),
      lc_encode_response = (\<lambda>response. if response = sample_response then Inr ''response'' else Inl ''unsupported''),
      lc_decode_response = (\<lambda>bytes. if bytes = ''response'' then Inr sample_response else Inl ''unsupported'')\<rparr>"

lemma sample_local_codec_contract: "local_codec_contract sample_local_codec"
  by (auto simp: local_codec_contract_def sample_local_codec_def split: if_splits)

definition quiet :: "unit \<Rightarrow> wait_environment \<times> unit" where
  "quiet x =
     (\<lparr>we_start = 0, we_observe = Inl ''offline'', we_install_first = False, we_install_second = False,
       we_rounds = (\<lambda>i. \<lparr>wr_cancelled = False, wr_now = 0, wr_receive = (\<lambda>remaining. RecvTimeout),
         wr_cancelled_after = False, wr_now_after = 0\<rparr>)\<rparr>, x)"

lemma sample_publish_local:
  "publish_local refusing_services sample_producer quiet sample_submission_input sample_world
     = (sample_response, sample_world)"
proof -
  have as: "publish_as (sv_third_party refusing_services) (production_ops refusing_services sample_producer)
      sample_request (replicate 64 (CHR ''1'')) created_at sample_world = (Inr (published_job ''req-1'' (CHR ''a'')), sample_world)"
    for created_at
    by (rule sample_publish_as)
      (simp_all add: sample_jobs sample_request_def sample_world_quiet sample_digest published_job_fields)
  have now: "unix_seconds refusing_services sample_world = (Inr 100, sample_world)"
    by (simp add: unix_seconds_def refusing_services_def sample_world_def)
  have "publish_now refusing_services sample_producer sample_request None sample_world
      = (Inr (published_job ''req-1'' (CHR ''a'')), sample_world)"
    using as by (simp add: publish_now_def now publish_def sample_request_def [THEN arg_cong, of pr_group_id]
        sample_producer_def [THEN arg_cong, of pd_group_id] and_then_def with_error_def sample_identity sample_close)
  moreover have "validate_publish sample_submission_input = Inr ()"
    by (simp add: validate_publish_def sample_submission_input_def LOCAL_PROTOCOL_VERSION_def)
  ultimately show ?thesis
    by (simp add: publish_local_def sample_submission_input_def sample_response_def published_job_def Let_def
        LOCAL_PROTOCOL_VERSION_def)
qed

lemma sample_codec_facts:
  "lc_encode_publish sample_local_codec sample_submission_input = Inr ''request''"
  "lc_encode_response sample_local_codec sample_response = Inr ''response''"
  by (simp_all add: sample_local_codec_def)

theorem local_submission_delivered_witness:
  "submit_local sample_local_codec (served_exchange sample_local_codec
       (production_service refusing_services sample_producer quiet)) sample_submission_input sample_world
     = (Inr sample_response, sample_world)"
  by (rule local_submission_delivered [OF sample_local_codec_contract sample_codec_facts(1) _ sample_publish_local
        sample_codec_facts(2)]) (simp_all add: MAX_LOCAL_FRAME_BYTES_def)

lemma sample_submit:
  "submit_local sample_local_codec (served_exchange sample_local_codec
       (production_service refusing_services sample_producer quiet)) sample_submission_input sample_world
     = (Inr sample_response, sample_world)"
  using respond_production(1) [OF sample_local_codec_contract sample_codec_facts(1),
      of refusing_services sample_producer quiet sample_world]
  by (simp add: submit_local_def submit_def sample_codec_facts MAX_LOCAL_FRAME_BYTES_def and_then_def
      served_exchange_def serve_stream_def read_bounded_def sample_publish_local of_result_def)
    (simp add: sample_local_codec_def)


end
