(* ===== verification/Local_Server.thy ===== *)
theory Local_Server
  imports Local_Laws
begin

text \<open>
  The private Unix socket of the daemon (\<open>daemon/src/local_server.rs\<close>): preparing its directory, replacing
  a stale socket, binding, releasing, and the serving loops.
\<close>

section \<open>The listener\<close>

record private_unix_listener =
  ul_path :: string
  ul_device :: u64
  ul_inode :: u64

definition prepare_parent :: "string \<Rightarrow> unit node_io" where
  "prepare_parent parent ns =
     (case node_exists parent ns of (found, ns) \<Rightarrow>
        and_then (if found then ok () else create_dirs mode_700 parent) (\<lambda>_.
        and_then (symlink_metadata parent) (\<lambda>metadata.
          if nd_kind metadata \<noteq> DirectoryNode
          then fail \<lparr>if_kind = KindInvalidInput, if_text = ''socket parent must be a real directory''\<rparr>
          else if \<not> private_mode (nd_mode metadata)
          then fail \<lparr>if_kind = KindPermissionDenied,
                     if_text = ''socket parent must not be accessible by group or other users''\<rparr>
          else ok ())) ns)"

definition remove_if_same_socket :: "string \<Rightarrow> u64 \<Rightarrow> u64 \<Rightarrow> unit node_io" where
  "remove_if_same_socket path device inode ns =
     (case symlink_metadata path ns of
        (Inl error, ns) \<Rightarrow> if if_kind error = KindNotFound then (Inr (), ns) else (Inl error, ns)
      | (Inr metadata, ns) \<Rightarrow>
          if nd_kind metadata = SocketNode \<and> nd_dev metadata = device \<and> nd_ino metadata = inode
          then remove_node path ns
          else (Inl \<lparr>if_kind = KindAlreadyExists, if_text = ''socket path changed while checking ownership''\<rparr>, ns))"

definition remove_stale_socket :: "string \<Rightarrow> unit node_io" where
  "remove_stale_socket path ns =
     (case symlink_metadata path ns of
        (Inl error, ns) \<Rightarrow> if if_kind error = KindNotFound then (Inr (), ns) else (Inl error, ns)
      | (Inr metadata, ns) \<Rightarrow>
          if nd_kind metadata \<noteq> SocketNode
          then (Inl \<lparr>if_kind = KindAlreadyExists, if_text = ''socket path exists and is not a Unix socket''\<rparr>, ns)
          else
            (case connect_socket path ns of
               (Inr _, ns) \<Rightarrow>
                 (Inl \<lparr>if_kind = KindAddrInUse, if_text = ''another daemon is already listening''\<rparr>, ns)
             | (Inl error, ns) \<Rightarrow>
                 if if_kind error = KindConnectionRefused \<or> if_kind error = KindNotFound
                 then remove_if_same_socket path (nd_dev metadata) (nd_ino metadata) ns
                 else (Inl error, ns)))"

text \<open>A listener that is dropped closes its socket; the node stays behind.\<close>

definition close_socket :: "string \<Rightarrow> node_system \<Rightarrow> node_system" where
  "close_socket path ns =
     (case ns_nodes ns path of
        None \<Rightarrow> ns
      | Some node \<Rightarrow> ns\<lparr>ns_nodes := (ns_nodes ns)(path \<mapsto> node\<lparr>nd_listening := False\<rparr>)\<rparr>)"

definition listen_at :: "string \<Rightarrow> private_unix_listener node_io" where
  "listen_at path ns =
     (case bind_socket path ns of
        (Inl error, ns) \<Rightarrow> (Inl error, ns)
      | (Inr _, ns) \<Rightarrow>
          (case and_then (set_permissions path mode_600) (\<lambda>_. symlink_metadata path) ns of
             (Inl error, ns) \<Rightarrow> (Inl error, close_socket path ns)
           | (Inr metadata, ns) \<Rightarrow>
               (Inr \<lparr>ul_path = path, ul_device = nd_dev metadata, ul_inode = nd_ino metadata\<rparr>, ns)))"

definition bind_listener :: "string \<Rightarrow> private_unix_listener node_io" where
  "bind_listener path =
     (case parent_path path of
        Some parent \<Rightarrow>
          if parent \<noteq> []
          then and_then (prepare_parent parent) (\<lambda>_.
               and_then (remove_stale_socket path) (\<lambda>_. listen_at path))
          else fail \<lparr>if_kind = KindInvalidInput, if_text = ''socket path needs a parent directory''\<rparr>
      | None \<Rightarrow> fail \<lparr>if_kind = KindInvalidInput, if_text = ''socket path needs a parent directory''\<rparr>)"

text \<open>\<open>Drop\<close>: the node is removed if it is still this socket, then the listener itself goes.\<close>

definition drop_listener :: "private_unix_listener \<Rightarrow> node_system \<Rightarrow> node_system" where
  "drop_listener listener ns =
     snd (remove_if_same_socket (ul_path listener) (ul_device listener) (ul_inode listener) ns)"

section \<open>Serving\<close>

text \<open>
  The connections \<open>accept\<close> gives, one after the other, with what the shutdown flag shows before and after
  each \<open>accept\<close>. A connection that fails is ignored; a failing \<open>accept\<close> ends the loop.
\<close>

record accepted_connection =
  ac_requested :: bool
  ac_stream :: "io_failure + connection"
  ac_requested_after :: bool

definition serve_one ::
  "local_codec \<Rightarrow> 'w local_publish_service \<Rightarrow> io_failure + connection \<Rightarrow> ('w, io_failure, string) action" where
  "serve_one codec service accepted =
     (case accepted of Inl error \<Rightarrow> fail error | Inr stream \<Rightarrow> serve_stream codec service stream)"

fun serve_forever ::
  "local_codec \<Rightarrow> 'w local_publish_service \<Rightarrow> (io_failure + connection) list \<Rightarrow> ('w, io_failure, unit) action" where
  "serve_forever codec service [] = ok ()"
| "serve_forever codec service (accepted # rest) =
     (case accepted of
        Inl error \<Rightarrow> fail error
      | Inr stream \<Rightarrow> (\<lambda>w. serve_forever codec service rest (snd (serve_stream codec service stream w))))"

fun serve_until_shutdown ::
  "local_codec \<Rightarrow> 'w local_publish_service \<Rightarrow> accepted_connection list \<Rightarrow> ('w, io_failure, unit) action" where
  "serve_until_shutdown codec service [] = ok ()"
| "serve_until_shutdown codec service (c # rest) =
     (if ac_requested c then ok ()
      else
        case ac_stream c of
          Inl error \<Rightarrow> fail error
        | Inr stream \<Rightarrow>
            if ac_requested_after c then ok ()
            else (\<lambda>w. serve_until_shutdown codec service rest (snd (serve_stream codec service stream w))))"

text \<open>
  The shutdown request, from the signal handler: the first one sets the flag and connects to the socket,
  so that an \<open>accept\<close> that is waiting returns; later ones do nothing.
\<close>

record local_server_shutdown =
  ls_requested :: bool
  ls_socket_path :: string

definition shutdown_new :: "string \<Rightarrow> local_server_shutdown" where
  "shutdown_new path = \<lparr>ls_requested = False, ls_socket_path = path\<rparr>"

definition shutdown_request :: "local_server_shutdown \<Rightarrow> string list \<times> local_server_shutdown" where
  "shutdown_request shutdown =
     (if \<not> ls_requested shutdown then ([ls_socket_path shutdown], shutdown\<lparr>ls_requested := True\<rparr>)
      else ([], shutdown\<lparr>ls_requested := True\<rparr>))"

fun shutdown_requests :: "nat \<Rightarrow> local_server_shutdown \<Rightarrow> string list \<times> local_server_shutdown" where
  "shutdown_requests 0 shutdown = ([], shutdown)"
| "shutdown_requests (Suc n) shutdown =
     (case shutdown_request shutdown of (connects, shutdown) \<Rightarrow>
        (case shutdown_requests n shutdown of (more_connects, shutdown) \<Rightarrow> (connects @ more_connects, shutdown)))"

lemma shutdown_requested: "ls_requested shutdown \<Longrightarrow> shutdown_requests n shutdown = ([], shutdown)"
  by (cases shutdown, induction n) (simp_all add: shutdown_request_def)

text \<open>However often it is requested, the waiting \<open>accept\<close> is woken exactly once.\<close>

lemma shutdown_wakes_once:
  "shutdown_requests (Suc n) (shutdown_new path) = ([path], \<lparr>ls_requested = True, ls_socket_path = path\<rparr>)"
  by (simp add: shutdown_new_def shutdown_request_def shutdown_requested)

section \<open>Clients cannot harm published jobs\<close>

lemma publish_tree_local_grows:
  assumes "codec_round_trip (sv_codec sv)" and "daemon_sound sv pd w"
    and "publish_tree_local sv pd tree w = (response, w')"
  shows "grows sv pd w w'"
proof -
  obtain r w1 where t: "publish_tree sv pd (lt_tree tree) (case lt_agent_id tree of None \<Rightarrow> [] | Some name \<Rightarrow> name)
      (lt_agent_nsec tree) w = (r, w1)" by fastforce
  have "w' = w \<or> w' = w1" using assms(3) t by (auto simp: publish_tree_local_def split: sum.splits)
  then show ?thesis using publish_tree_grows [OF assms(1,2) t] assms(2) by (auto simp: grows_def)
qed

lemma respond_grows:
  assumes "codec_round_trip (sv_codec sv)" and "daemon_sound sv pd w"
    and "respond lc (production_service sv pd attend) received w = (response, w')"
  shows "grows sv pd w w'"
proof -
  have keep: "grows sv pd w w" using assms(2) by (simp add: grows_def)
  show ?thesis
    using assms(3) keep publish_local_effect [OF assms(1,2)] publish_tree_local_grows [OF assms(1,2)]
    by (auto simp: respond_def production_service_def split: sum.splits if_splits option.splits)
qed

lemma serve_stream_grows:
  assumes "codec_round_trip (sv_codec sv)" and "daemon_sound sv pd w"
    and "serve_stream lc (production_service sv pd attend) stream w = (r, w')"
  shows "grows sv pd w w'"
proof -
  obtain response w1 where p: "respond lc (production_service sv pd attend) (read_bounded (cn_incoming stream)) w = (response, w1)"
    by fastforce
  have "w' = w \<or> w' = w1" using assms(3) p by (auto simp: serve_stream_def split: sum.splits)
  then show ?thesis using respond_grows [OF assms(1,2) p] assms(2) by (auto simp: grows_def)
qed

text \<open>The production daemon behind its socket.\<close>

definition backend_sound :: "'x services \<Rightarrow> local_codec \<Rightarrow> producer \<Rightarrow> 'x daemon_world \<Rightarrow> bool" where
  "backend_sound sv lc pd w \<longleftrightarrow> codec_round_trip (sv_codec sv) \<and> local_codec_contract lc \<and> daemon_sound sv pd w"

lemma submit_production_grows:
  assumes "backend_sound sv lc pd w"
    and "submit lc (served_exchange lc (production_service sv pd attend)) encoded timeout w = (r, w')"
  shows "grows sv pd w w'"
proof -
  have sound: "codec_round_trip (sv_codec sv)" "daemon_sound sv pd w" using assms(1) by (simp_all add: backend_sound_def)
  have "w' = w \<or> (\<exists>payload q. served_exchange lc (production_service sv pd attend) timeout payload w = (q, w'))"
    using assms(2) by (auto simp: submit_def of_result_def split: sum.splits if_splits elim!: and_then_cases)
  then show ?thesis
    using serve_stream_grows [OF sound] sound(2) by (auto simp: served_exchange_def grows_def)
qed

lemma submit_production_truthful:
  assumes "backend_sound sv lc pd w"
    and "submit lc (served_exchange lc (production_service sv pd attend)) (lc_encode_publish lc input) timeout w
      = (Inr response, w')"
  shows "response_truthful sv pd input response w'"
proof -
  have sound: "codec_round_trip (sv_codec sv)" "local_codec_contract lc" "daemon_sound sv pd w"
    using assms(1) by (simp_all add: backend_sound_def)
  obtain payload where "lc_encode_publish lc input = Inr payload"
    "respond lc (production_service sv pd attend) (Inr payload) w = (response, w')"
    using submit_Inr [OF sound(2) assms(2)] by blast
  then have "publish_local sv pd attend input w = (response, w')"
    using respond_production(1) [OF sound(2), of input payload sv pd attend w] by simp
  then show ?thesis using publish_local_effect [OF sound(1,3)] by blast
qed

lemma serve_until_shutdown_grows:
  assumes "codec_round_trip (sv_codec sv)"
  shows "daemon_sound sv pd w \<Longrightarrow>
    serve_until_shutdown lc (production_service sv pd attend) connections w = (r, w') \<Longrightarrow> grows sv pd w w'"
proof (induction connections arbitrary: w)
  case Nil
  then show ?case by (simp add: grows_def)
next
  case (Cons c rest)
  show ?case
  proof (cases "\<exists>stream. \<not> ac_requested c \<and> ac_stream c = Inr stream \<and> \<not> ac_requested_after c")
    case False
    then have "w' = w" using Cons.prems(2) by (cases "ac_stream c") (auto split: if_splits)
    then show ?thesis using Cons.prems(1) by (simp add: grows_def)
  next
    case True
    then obtain stream where s: "\<not> ac_requested c" "ac_stream c = Inr stream" "\<not> ac_requested_after c" by blast
    obtain q w1 where one: "serve_stream lc (production_service sv pd attend) stream w = (q, w1)" by fastforce
    have 1: "grows sv pd w w1" by (rule serve_stream_grows [OF assms Cons.prems(1) one])
    then have "grows sv pd w1 w'"
      using Cons.IH [of w1] Cons.prems(2) s one by (simp add: grows_def)
    then show ?thesis using grows_trans 1 by blast
  qed
qed

lemma serve_until_shutdown_prefix:
  assumes "ac_requested c \<or> ac_requested_after c"
  shows "serve_until_shutdown lc service (before @ c # after) w = serve_until_shutdown lc service (before @ [c]) w"
proof (induction before arbitrary: w)
  case Nil
  then show ?case using assms by (auto split: sum.split)
next
  case (Cons b before)
  then show ?case by (simp split: sum.split)
qed

text \<open>
  No client can harm a published job, and a shutdown is obeyed. Whatever bytes arrive on whatever
  connections, with any failures of the sockets, the services and the disk, serving keeps the journal
  readable and every published job as it is; and once the shutdown flag is seen no later connection has
  any effect.
\<close>

theorem serving_keeps_published:
  assumes "codec_round_trip (sv_codec sv)" and "daemon_sound sv pd w"
    and "serve_until_shutdown lc (production_service sv pd attend) (before @ c # after) w = (r, w')"
  shows "daemon_sound sv pd w' \<and> published_kept (daemon_jobs sv pd w) (daemon_jobs sv pd w')
    \<and> (ac_requested c \<or> ac_requested_after c \<longrightarrow>
         serve_until_shutdown lc (production_service sv pd attend) (before @ [c]) w = (r, w'))"
  using serve_until_shutdown_grows [OF assms] serve_until_shutdown_prefix assms(3)
  by (metis grows_def)

definition sample_connection :: accepted_connection where
  "sample_connection =
     \<lparr>ac_requested = False, ac_stream = Inr \<lparr>cn_timeouts = Inr (), cn_incoming = Inr ''request'', cn_write = Inr ()\<rparr>,
      ac_requested_after = False\<rparr>"

definition sample_shutdown :: accepted_connection where
  "sample_shutdown = sample_connection\<lparr>ac_requested_after := True\<rparr>"

theorem serving_keeps_published_witness:
  "published_kept (daemon_jobs refusing_services sample_producer sample_world)
     (daemon_jobs refusing_services sample_producer (snd (serve_until_shutdown sample_local_codec
        (production_service refusing_services sample_producer quiet) ([sample_connection] @ sample_shutdown # []) sample_world)))"
proof -
  obtain r w' where run: "serve_until_shutdown sample_local_codec (production_service refusing_services sample_producer quiet)
      ([sample_connection] @ sample_shutdown # []) sample_world = (r, w')" by fastforce
  have "codec_round_trip (sv_codec refusing_services)"
    by (simp add: refusing_services_def sample_codec_round_trip)
  from serving_keeps_published [OF this sample_world_sound run] show ?thesis using run by simp
qed

section \<open>The socket is private and nobody else's socket is taken\<close>

definition dead_socket :: "unix_node \<Rightarrow> bool" where
  "dead_socket node \<longleftrightarrow> nd_kind node = SocketNode \<and> \<not> nd_listening node"

text \<open>
  Faults the operating system invents are not the two errors that mean a dead or missing socket: those
  are reported only when they are true.
\<close>

fun honest_fault :: "(io_failure \<times> nat) option \<Rightarrow> bool" where
  "honest_fault None = True"
| "honest_fault (Some (failure, n)) = (if_kind failure \<noteq> KindNotFound \<and> if_kind failure \<noteq> KindConnectionRefused)"

definition honest_faults :: "node_system \<Rightarrow> bool" where
  "honest_faults ns \<longleftrightarrow> list_all honest_fault (ns_faults ns)"

lemma honest_calls:
  assumes "honest_faults ns"
  shows "symlink_metadata p ns = (r, ns') \<Longrightarrow> honest_faults ns'"
    and "connect_socket p ns = (r', ns') \<Longrightarrow> honest_faults ns'"
    and "node_exists p ns = (b, ns') \<Longrightarrow> honest_faults ns'"
    and "create_dirs mode p ns = (r', ns') \<Longrightarrow> honest_faults ns'"
  using assms
  by (auto simp: node_op_defs node_exists_def honest_faults_def put_node_def of_result_def
      split: list.splits option.splits prod.splits if_splits)

lemma connect_refused:
  assumes "honest_faults ns" and "connect_socket p ns = (Inl error, ns')"
    and "if_kind error = KindConnectionRefused \<or> if_kind error = KindNotFound" and "ns_nodes ns p = Some node"
    and "nd_kind node = SocketNode"
  shows "dead_socket node"
  using assms
  by (auto simp: node_op_defs dead_socket_def honest_faults_def not_found_def
      split: list.splits option.splits prod.splits if_splits)

lemma remove_if_same_socket_effect:
  assumes "remove_if_same_socket path device inode ns = (r, ns')"
  shows "ns_nodes ns' = ns_nodes ns
    \<or> (ns_nodes ns' = (ns_nodes ns)(path := None)
        \<and> (\<exists>node. ns_nodes ns path = Some node \<and> nd_kind node = SocketNode \<and> nd_dev node = device \<and> nd_ino node = inode))"
proof -
  obtain q ns1 where m: "symlink_metadata path ns = (q, ns1)" by fastforce
  have same: "ns_nodes ns1 = ns_nodes ns" using node_reads(1) [OF m] .
  show ?thesis
  proof (cases q)
    case (Inl error)
    then show ?thesis using assms m same by (auto simp: remove_if_same_socket_def split: if_splits)
  next
    case (Inr node)
    then show ?thesis
      using assms m same symlink_metadata_Inr [OF m [unfolded Inr]] remove_node_effect [of path ns1 r ns']
      by (auto simp: remove_if_same_socket_def split: if_splits)
  qed
qed

lemma remove_stale_socket_effect:
  assumes "honest_faults ns" and "remove_stale_socket path ns = (r, ns')"
  shows "ns_nodes ns' = ns_nodes ns
    \<or> (ns_nodes ns' = (ns_nodes ns)(path := None) \<and> (\<exists>node. ns_nodes ns path = Some node \<and> dead_socket node))"
    and "r = Inr u \<Longrightarrow> ns_nodes ns path = Some node \<Longrightarrow> dead_socket node"
proof -
  obtain q ns1 where m: "symlink_metadata path ns = (q, ns1)" by fastforce
  have same: "ns_nodes ns1 = ns_nodes ns" and h: "honest_faults ns1"
    using node_reads(1) [OF m] honest_calls(1) [OF assms(1) m] by auto
  have missing: "ns_nodes ns path = None" if "q = Inl error" "if_kind error = KindNotFound" for error
    using m that assms(1)
    by (auto simp: node_op_defs honest_faults_def split: list.splits option.splits prod.splits)
  have both: "(ns_nodes ns' = ns_nodes ns
      \<or> (ns_nodes ns' = (ns_nodes ns)(path := None) \<and> (\<exists>node. ns_nodes ns path = Some node \<and> dead_socket node)))
    \<and> (\<forall>u node. r = Inr u \<longrightarrow> ns_nodes ns path = Some node \<longrightarrow> dead_socket node)"
  proof (cases "\<exists>metadata. q = Inr metadata \<and> nd_kind metadata = SocketNode")
    case False
    then show ?thesis using assms(2) m same missing by (auto simp: remove_stale_socket_def split: sum.splits if_splits)
  next
    case True
    then obtain metadata where q: "q = Inr metadata" "nd_kind metadata = SocketNode" by blast
    have at: "ns_nodes ns path = Some metadata" using symlink_metadata_Inr m q(1) by blast
    obtain c ns2 where c: "connect_socket path ns1 = (c, ns2)" by fastforce
    have same2: "ns_nodes ns2 = ns_nodes ns" using node_reads(2) [OF c] same by simp
    show ?thesis
    proof (cases "\<exists>error. c = Inl error \<and> (if_kind error = KindConnectionRefused \<or> if_kind error = KindNotFound)")
      case False
      then show ?thesis using assms(2) m q c same2 by (auto simp: remove_stale_socket_def split: sum.splits if_splits)
    next
      case True
      then have "dead_socket metadata" using connect_refused [OF h] c at same q(2) by auto
      moreover have "remove_if_same_socket path (nd_dev metadata) (nd_ino metadata) ns2 = (r, ns')"
        using assms(2) m q c True by (auto simp: remove_stale_socket_def)
      ultimately show ?thesis using remove_if_same_socket_effect same2 at by fastforce
    qed
  qed
  show "ns_nodes ns' = ns_nodes ns
    \<or> (ns_nodes ns' = (ns_nodes ns)(path := None) \<and> (\<exists>node. ns_nodes ns path = Some node \<and> dead_socket node))"
    using both by blast
  show "r = Inr u \<Longrightarrow> ns_nodes ns path = Some node \<Longrightarrow> dead_socket node" using both by blast
qed

lemma prepare_parent_effect:
  assumes "honest_faults ns" and "prepare_parent parent ns = (r, ns')"
  shows "honest_faults ns'"
    and "ns_nodes ns' = ns_nodes ns
      \<or> (\<exists>node. ns_nodes ns parent = None \<and> nd_kind node = DirectoryNode \<and> ns_nodes ns' = (ns_nodes ns)(parent \<mapsto> node))"
    and "r = Inr u \<Longrightarrow> \<exists>node. ns_nodes ns' parent = Some node \<and> nd_kind node = DirectoryNode \<and> private_mode (nd_mode node)"
proof -
  obtain found ns1 where e: "node_exists parent ns = (found, ns1)" by fastforce
  have 1: "ns_nodes ns1 = ns_nodes ns" "honest_faults ns1"
    using node_reads(3) [OF e] honest_calls(3) [OF assms(1) e] by auto
  define make :: "unit node_io" where "make = (if found then ok () else create_dirs mode_700 parent)"
  obtain q ns2 where c: "make ns1 = (q, ns2)" by fastforce
  have 2: "honest_faults ns2" "ns_nodes ns2 = ns_nodes ns
      \<or> (\<exists>node. ns_nodes ns parent = None \<and> nd_kind node = DirectoryNode \<and> ns_nodes ns2 = (ns_nodes ns)(parent \<mapsto> node))"
  proof (atomize (full), cases found)
    case True
    then show "honest_faults ns2 \<and> (ns_nodes ns2 = ns_nodes ns
      \<or> (\<exists>node. ns_nodes ns parent = None \<and> nd_kind node = DirectoryNode \<and> ns_nodes ns2 = (ns_nodes ns)(parent \<mapsto> node)))"
      using c 1 by (simp add: make_def)
  next
    case False
    then have "create_dirs mode_700 parent ns1 = (q, ns2)" using c by (simp add: make_def)
    from create_dirs_effect [OF this] honest_calls(4) [OF 1(2) this] 1(1)
    show "honest_faults ns2 \<and> (ns_nodes ns2 = ns_nodes ns
      \<or> (\<exists>node. ns_nodes ns parent = None \<and> nd_kind node = DirectoryNode \<and> ns_nodes ns2 = (ns_nodes ns)(parent \<mapsto> node)))"
      using fresh_node_simps(1) by metis
  qed
  obtain m ns3 where meta: "symlink_metadata parent ns2 = (m, ns3)" by fastforce
  have 3: "ns_nodes ns3 = ns_nodes ns2" "honest_faults ns3"
    using node_reads(1) [OF meta] honest_calls(1) [OF 2(1) meta] by auto
  have "(r, ns') = (case q of Inl error \<Rightarrow> (Inl error, ns2)
      | Inr _ \<Rightarrow> (case m of Inl error \<Rightarrow> (Inl error, ns3)
          | Inr metadata \<Rightarrow>
              (if nd_kind metadata \<noteq> DirectoryNode
               then Inl \<lparr>if_kind = KindInvalidInput, if_text = ''socket parent must be a real directory''\<rparr>
               else if \<not> private_mode (nd_mode metadata)
               then Inl \<lparr>if_kind = KindPermissionDenied,
                     if_text = ''socket parent must not be accessible by group or other users''\<rparr>
               else Inr (), ns3)))"
    using assms(2) e c meta
    by (auto simp: prepare_parent_def make_def [symmetric] and_then_def of_result_def split: sum.split)
  then show "honest_faults ns'"
    and "ns_nodes ns' = ns_nodes ns
      \<or> (\<exists>node. ns_nodes ns parent = None \<and> nd_kind node = DirectoryNode \<and> ns_nodes ns' = (ns_nodes ns)(parent \<mapsto> node))"
    and "r = Inr u \<Longrightarrow> \<exists>node. ns_nodes ns' parent = Some node \<and> nd_kind node = DirectoryNode \<and> private_mode (nd_mode node)"
    using 2 3 symlink_metadata_Inr meta
    by (auto split: sum.splits if_splits)
qed

lemma listen_at_effect:
  assumes "listen_at path ns = (r, ns')"
  shows "\<forall>p. p \<noteq> path \<longrightarrow> ns_nodes ns' p = ns_nodes ns p"
    and "ns_nodes ns path \<noteq> None \<Longrightarrow> ns_nodes ns' = ns_nodes ns \<and> (\<exists>error. r = Inl error)"
    and "r = Inr listener \<Longrightarrow> ns_nodes ns path = None
      \<and> (\<exists>node. ns_nodes ns' path = Some node \<and> nd_kind node = SocketNode \<and> nd_listening node
          \<and> nd_mode node = mode_600 \<and> listener = \<lparr>ul_path = path, ul_device = nd_dev node, ul_inode = nd_ino node\<rparr>)"
  using assms
  by (auto simp: listen_at_def node_op_defs and_then_def close_socket_def put_node_def fresh_node_def
      split: list.splits option.splits prod.splits sum.splits if_splits)

lemma drop_listener_effect:
  "ns_nodes (drop_listener listener ns) = ns_nodes ns
   \<or> (ns_nodes (drop_listener listener ns) = (ns_nodes ns)(ul_path listener := None)
       \<and> (\<exists>node. ns_nodes ns (ul_path listener) = Some node \<and> nd_kind node = SocketNode
            \<and> nd_dev node = ul_device listener \<and> nd_ino node = ul_inode listener))"
  using remove_if_same_socket_effect [of "ul_path listener" "ul_device listener" "ul_inode listener" ns]
  by (cases "remove_if_same_socket (ul_path listener) (ul_device listener) (ul_inode listener) ns")
    (simp add: drop_listener_def)

text \<open>What binding may do to any other path: make the missing parent directory.\<close>

definition only_parent_made :: "string \<Rightarrow> string \<Rightarrow> node_system \<Rightarrow> node_system \<Rightarrow> bool" where
  "only_parent_made path parent ns ns' \<longleftrightarrow>
     (\<forall>p. p \<noteq> path \<longrightarrow> ns_nodes ns' p = ns_nodes ns p
        \<or> (p = parent \<and> ns_nodes ns p = None \<and> (\<exists>node. ns_nodes ns' p = Some node \<and> nd_kind node = DirectoryNode)))"

lemma only_parent_madeI:
  assumes "ns_nodes ns1 = ns_nodes ns
      \<or> (\<exists>node. ns_nodes ns parent = None \<and> nd_kind node = DirectoryNode \<and> ns_nodes ns1 = (ns_nodes ns)(parent \<mapsto> node))"
    and "\<And>p. p \<noteq> path \<Longrightarrow> ns_nodes ns' p = ns_nodes ns1 p"
  shows "only_parent_made path parent ns ns'"
  using assms by (auto simp: only_parent_made_def split: if_splits)

lemma bind_listener_steps:
  assumes "parent_path path = Some parent" and "parent \<noteq> []" and "bind_listener path ns = (r, ns')"
  obtains (Parent) error where "prepare_parent parent ns = (Inl error, ns')" "r = Inl error"
    | (Stale) u ns1 error where "prepare_parent parent ns = (Inr u, ns1)" "remove_stale_socket path ns1 = (Inl error, ns')"
        "r = Inl error"
    | (Listen) u ns1 v ns2 where "prepare_parent parent ns = (Inr u, ns1)" "remove_stale_socket path ns1 = (Inr v, ns2)"
        "listen_at path ns2 = (r, ns')"
  using assms by (auto simp: bind_listener_def elim!: and_then_cases)


text \<open>A directory that does not exist yet, and a dead socket left behind in one that does.\<close>

definition sample_nodes :: node_system where
  "sample_nodes =
     \<lparr>ns_nodes = [''/run/tts29'' \<mapsto> \<lparr>nd_kind = DirectoryNode, nd_mode = mode_700, nd_dev = 1, nd_ino = 2, nd_bytes = [],
          nd_listening = False, nd_resolves = True\<rparr>,
        ''/run/tts29/daemon.sock'' \<mapsto> \<lparr>nd_kind = SocketNode, nd_mode = mode_600, nd_dev = 1, nd_ino = 3, nd_bytes = [],
          nd_listening = False, nd_resolves = True\<rparr>],
      ns_dev = 1, ns_next_ino = 9, ns_umask = 0, ns_faults = []\<rparr>"

lemma sample_parent: "parent_path ''/run/tts29/daemon.sock'' = Some ''/run/tts29''"
  by code_simp

lemma sample_bind:
  "\<exists>ns'. bind_listener ''/run/tts29/daemon.sock'' sample_nodes =
     (Inr \<lparr>ul_path = ''/run/tts29/daemon.sock'', ul_device = 1, ul_inode = 9\<rparr>, ns')"
  by (simp add: bind_listener_def sample_parent prepare_parent_def node_exists_def and_then_def of_result_def
      sample_nodes_def node_op_defs private_mode_def remove_stale_socket_def remove_if_same_socket_def listen_at_def
      put_node_def fresh_node_def)


end
