(* ===== verification/Daemon_Open.thy ===== *)
theory Daemon_Open
  imports Daemon_Config Publisher_Laws Local_Server
begin

text \<open>
  Opening the production composition from a configuration (\<open>open_with_clock\<close> of
  \<open>daemon/src/production.rs\<close>, with the constructor of the runner) and the daemon process
  (\<open>daemon/src/bin/tts29d.rs\<close>): configuration, opening, the private socket, serving and shutdown.
\<close>

section \<open>Opening\<close>

text \<open>
  What opening calls outside the repository. A runtime is built once per uploader, so \<open>ss_runtime\<close> gives the
  outcome of the first and of the second one.
\<close>

record 'x startup_services =
  ss_parse_relay :: "string \<Rightarrow> relay_url option"
  ss_engine_new :: "string option \<Rightarrow> ('x, string, unit) action"
  ss_identity :: "'x identity_services"
  ss_kokoro_client :: "u64 \<Rightarrow> string + unit"
  ss_blossom_server :: "string \<Rightarrow> string + unit"
  ss_blossom_client :: "string list \<Rightarrow> u64 \<Rightarrow> string + unit"
  ss_runtime :: "nat \<Rightarrow> string + unit"

text \<open>
  The world before there is a producer. The identity and the socket live on \<open>su_nodes\<close>, the journal and the
  work directory on \<open>su_fs\<close>: the configured paths do not overlap.
\<close>

record 'x startup_world =
  su_nodes :: node_system
  su_fs :: file_system
  su_temp_id :: u64
  su_staged_id :: u64
  su_ext :: 'x

record opened =
  op_producer :: producer
  op_account :: account_registration
  op_bootstrap :: group_bootstrap_evidence

definition at_outside :: "('x, 'e, 'a) action \<Rightarrow> ('x startup_world, 'e, 'a) action" where
  "at_outside m = on_part su_ext (\<lambda>x su. su\<lparr>su_ext := x\<rparr>) m"

definition at_identity :: "('x identity_world, 'e, 'a) action \<Rightarrow> ('x startup_world, 'e, 'a) action" where
  "at_identity m =
     on_part (\<lambda>su. \<lparr>iw_nodes = su_nodes su, iw_ext = su_ext su\<rparr>)
       (\<lambda>s su. su\<lparr>su_nodes := iw_nodes s, su_ext := iw_ext s\<rparr>) m"

definition startup_journal :: "'x startup_world \<Rightarrow> journal_store" where
  "startup_journal su = \<lparr>js_fs = su_fs su, js_temp_id = su_temp_id su\<rparr>"

definition at_journal :: "(journal_store, 'e, 'a) action \<Rightarrow> ('x startup_world, 'e, 'a) action" where
  "at_journal m = on_part startup_journal (\<lambda>s su. su\<lparr>su_fs := js_fs s, su_temp_id := js_temp_id s\<rparr>) m"

definition startup_seconds :: "'x services \<Rightarrow> ('x startup_world, 'e, u64) action" where
  "startup_seconds sv =
     at_outside (\<lambda>x. case bc_unix_millis (sv_blossom sv) x of (millis, x) \<Rightarrow> (Inr (millis div 1000), x))"

definition uploader_of :: "'x startup_services \<Rightarrow> blossom_upload_config \<Rightarrow> nat \<Rightarrow> string + blossom_uploader" where
  "uploader_of ss config n =
     blossom_new (bf_authorization_lifetime config) (unat (bf_max_upload_bytes config))
       (ss_blossom_server ss (bf_server config))
       (ss_blossom_client ss (bf_allowed_local_hosts config) (bf_request_timeout config)) (ss_runtime ss n)"

definition runner_new :: "string \<Rightarrow> ('x startup_world, producer_error, unit) action" where
  "runner_new work_root = with_error JournalFailure (at_journal (on_fs (fs_create_dir_all work_root)))"

text \<open>
  The timeout of the receipts is in milliseconds, as the arrival times of the frames are. The two uploaders
  are built from the same configuration, so the producer's record has one for both.
\<close>

definition open_with_clock ::
  "'x services \<Rightarrow> 'x startup_services \<Rightarrow> nat \<Rightarrow> production_config \<Rightarrow> ('x startup_world, string, opened) action" where
  "open_with_clock sv ss pid config =
     (if pc_group_id config = [] \<or> length (pc_group_id config) > 128 then fail ''configured group id is invalid''
      else
        and_then (of_result (ok_or ''configured NIP-29 host is invalid'' (ss_parse_relay ss (pc_host config)))) (\<lambda>host.
        and_then (of_result (ok_or ''configured owner public key is invalid''
            (en_parse_key (sv_engine sv) (pc_owner_pubkey config)))) (\<lambda>owner_key.
        and_then (with_error (\<lambda>error. ''NMP engine refused startup: '' @ error)
            (at_outside (ss_engine_new ss (pc_nmp_store_path config)))) (\<lambda>_.
        and_then (at_identity (install_daemon_identity (ss_identity ss) (pc_daemon_identity_path config)
            (pc_secret_key_override config))) (\<lambda>account.
        and_then (with_error (\<lambda>error. ''NMP producer identity could not activate: '' @ error)
            (at_outside (ae_set_active_account (is_accounts (ss_identity ss)) (Some (ac_public_key account))))) (\<lambda>_.
        and_then (startup_seconds sv) (\<lambda>now.
        and_then (at_outside (bootstrap_group (sv_engine sv) host (pc_group_id config) (ac_public_key account) owner_key
            now (unat (pc_receipt_timeout config) * 1000))) (\<lambda>bootstrap.
        and_then (of_result (kokoro_new (bc_parse_url (sv_blossom sv))
            (ss_kokoro_client ss (kk_request_timeout (pc_kokoro config))) (pc_kokoro config))) (\<lambda>synthesizer.
        and_then (of_result (uploader_of ss (pc_blossom config) 0)) (\<lambda>uploader.
        and_then (of_result (uploader_of ss (pc_blossom config) 1)) (\<lambda>file_uploader.
        and_then (with_error journal_error_text (at_journal (journal_open (pc_journal_root config) pid))) (\<lambda>journal.
        and_then (with_error producer_error_text (runner_new (pc_work_root config))) (\<lambda>_.
          ok \<lparr>op_producer =
                \<lparr>pd_journal = journal, pd_work_root = pc_work_root config, pd_kokoro = synthesizer,
                 pd_uploader = uploader,
                 pd_publisher = fst (publisher_new host (pc_group_id config) (ac_public_key account)
                   (unat (pc_receipt_timeout config) * 1000)),
                 pd_default_voice = pc_default_voice config, pd_author = ac_public_key account,
                 pd_group_id = pc_group_id config\<rparr>,
              op_account = account, op_bootstrap = bootstrap\<rparr>)))))))))))))"

text \<open>The world the opened producer works in: nobody is known as a member yet.\<close>

definition daemon_of :: "opened \<Rightarrow> 'x startup_world \<Rightarrow> 'x daemon_world" where
  "daemon_of opened su =
     \<lparr>dw_fs = su_fs su, dw_temp_id = su_temp_id su, dw_staged_id = su_staged_id su, dw_members = [],
      dw_daemon = op_account opened, dw_ext = su_ext su\<rparr>"

definition served :: "'x daemon_world \<Rightarrow> 'x startup_world \<Rightarrow> 'x startup_world" where
  "served w su =
     su\<lparr>su_fs := dw_fs w, su_temp_id := dw_temp_id w, su_staged_id := dw_staged_id w, su_ext := dw_ext w\<rparr>"

section \<open>The daemon process\<close>

text \<open>
  The arguments after the program's name. \<open>--help\<close> prints the usage and ends the process.
\<close>

datatype argument_outcome = ConfigPath string | ConfigHelp | ConfigUsage string

definition config_argument :: "string list \<Rightarrow> argument_outcome" where
  "config_argument arguments =
     (case arguments of
        [flag, path] \<Rightarrow> if flag = ''--config'' then ConfigPath path else ConfigUsage ''usage: tts29d --config <daemon.json>''
      | [flag] \<Rightarrow> if flag = ''--help'' \<or> flag = ''-h'' then ConfigHelp else ConfigUsage ''usage: tts29d --config <daemon.json>''
      | _ \<Rightarrow> ConfigUsage ''usage: tts29d --config <daemon.json>'')"

text \<open>
  What the process meets besides the services: its arguments and environment, the bytes of its
  configuration file, the outcome of installing the signal handler, the connections that arrive and what
  the waits for answers observe.
\<close>

record 'x process_environment =
  pe_arguments :: "string list"
  pe_variables :: environment
  pe_config_bytes :: "string \<Rightarrow> io_failure + string"
  pe_decode :: "string \<Rightarrow> string + file_config"
  pe_pid :: nat
  pe_set_handler :: "string + unit"
  pe_connections :: "accepted_connection list"
  pe_attend :: "'x \<Rightarrow> wait_environment \<times> 'x"
  pe_shutdown :: "'x \<Rightarrow> 'x"

text \<open>
  The part of \<open>run\<close> after opening. A failure to bind or to install the handler returns early, without
  shutting the engine down; a bound listener is dropped on every way out.
\<close>

definition run_opened ::
  "'x services \<Rightarrow> local_codec \<Rightarrow> 'x process_environment \<Rightarrow> string \<Rightarrow> opened \<Rightarrow> ('x startup_world, string, unit) action" where
  "run_opened sv lc pe socket_path opened su =
     (case bind_listener socket_path (su_nodes su) of
        (Inl error, ns) \<Rightarrow> (Inl (''local endpoint could not start: '' @ if_text error), su\<lparr>su_nodes := ns\<rparr>)
      | (Inr listener, ns) \<Rightarrow>
          (case pe_set_handler pe of
             Inl error \<Rightarrow>
               (Inl (''shutdown signal handler could not start: '' @ error), su\<lparr>su_nodes := drop_listener listener ns\<rparr>)
           | Inr _ \<Rightarrow>
               (case serve_until_shutdown lc (production_service sv (op_producer opened) (pe_attend pe))
                       (pe_connections pe) (daemon_of opened su) of
                  (result, w) \<Rightarrow>
                    (map_err (\<lambda>error. ''local endpoint failed: '' @ if_text error) result,
                     (served (w\<lparr>dw_ext := pe_shutdown pe (dw_ext w)\<rparr>) su)\<lparr>su_nodes := drop_listener listener ns\<rparr>))))"

definition run_configured ::
  "'x services \<Rightarrow> 'x startup_services \<Rightarrow> local_codec \<Rightarrow> 'x process_environment \<Rightarrow> loaded_daemon_config
   \<Rightarrow> ('x startup_world, string, unit) action" where
  "run_configured sv ss lc pe loaded =
     and_then (open_with_clock sv ss (pe_pid pe) (ld_production loaded)) (run_opened sv lc pe (ld_socket_path loaded))"

definition run_tts29d ::
  "'x services \<Rightarrow> 'x startup_services \<Rightarrow> local_codec \<Rightarrow> 'x process_environment \<Rightarrow> ('x startup_world, string, unit) action" where
  "run_tts29d sv ss lc pe =
     (case config_argument (pe_arguments pe) of
        ConfigUsage error \<Rightarrow> fail error
      | ConfigHelp \<Rightarrow> ok ()
      | ConfigPath path \<Rightarrow>
          and_then (of_result (load_daemon_config (pe_decode pe) (pe_variables pe) path (pe_config_bytes pe path)))
            (run_configured sv ss lc pe))"

text \<open>\<open>main\<close>: an error is printed and ends the process with status 1.\<close>

definition main_tts29d ::
  "'x services \<Rightarrow> 'x startup_services \<Rightarrow> local_codec \<Rightarrow> 'x process_environment \<Rightarrow> 'x startup_world
   \<Rightarrow> nat \<times> string \<times> 'x startup_world" where
  "main_tts29d sv ss lc pe su =
     (case run_tts29d sv ss lc pe su of
        (Inl error, su) \<Rightarrow> (1, ''tts29d: '' @ error, su)
      | (Inr _, su) \<Rightarrow> (0, [], su))"

section \<open>What opening leaves alone\<close>

definition keeps_files :: "('x startup_world, 'e, 'a) action \<Rightarrow> bool" where
  "keeps_files m \<longleftrightarrow> (\<forall>su r su'. m su = (r, su') \<longrightarrow> fs_files (su_fs su') = fs_files (su_fs su))"

lemma keeps_filesI [intro]:
  "keeps_files (ok x)" "keeps_files (fail e)" "keeps_files (of_result q)"
  "keeps_files (at_outside a)" "keeps_files (at_identity b)" "keeps_files (startup_seconds sv)"
  "keeps_files (at_journal (on_fs (fs_create_dir_all path)))"
  by (auto simp: keeps_files_def of_result_def at_outside_def at_identity_def startup_seconds_def at_journal_def
      startup_journal_def on_part_def on_fs_def with_error_def fs_op_defs split: prod.splits sum.splits list.splits option.splits)

lemma keeps_files_with_error [intro]: "keeps_files m \<Longrightarrow> keeps_files (with_error g m)"
  by (fastforce simp: keeps_files_def elim!: with_error_cases)

lemma keeps_files_and_then [intro]:
  "keeps_files m \<Longrightarrow> (\<And>x. keeps_files (f x)) \<Longrightarrow> keeps_files (and_then m f)"
  by (fastforce simp: keeps_files_def elim!: and_then_cases)

lemma journal_open_keeps_files [intro]: "keeps_files (at_journal (journal_open root pid))"
  by (auto simp: keeps_files_def journal_open_def and_then_def at_journal_def startup_journal_def on_part_def on_fs_def
      with_error_def fs_op_defs split: prod.splits sum.splits list.splits option.splits)

lemma open_keeps_files: "keeps_files (open_with_clock sv ss pid config)"
  unfolding open_with_clock_def runner_new_def by (auto intro!: keeps_filesI keeps_files_and_then keeps_files_with_error)

lemma open_files:
  "open_with_clock sv ss pid config su = (r, su') \<Longrightarrow> fs_files (su_fs su') = fs_files (su_fs su)"
  using open_keeps_files unfolding keeps_files_def by blast

lemma startup_records:
  assumes "fs_files (su_fs su') = fs_files (su_fs su)"
  shows "stored_jobs codec j (startup_journal su') = stored_jobs codec j (startup_journal su)"
    and "store_sound codec j (startup_journal su') = store_sound codec j (startup_journal su)"
  using assms by (simp_all add: stored_jobs_def store_sound_def startup_journal_def fun_eq_iff)

lemma bootstrap_evidence:
  assumes "bootstrap_group engine host group_id daemon owner now timeout x = (Inr evidence, x')"
  shows "gb_daemon_pubkey evidence = daemon"
    and "\<exists>state x1. observe_state engine host group_id daemon owner timeout x = (Inr state, x1)
      \<and> (gs_daemon_is_admin state \<or> \<not> gs_exists state \<and> gb_group_created_event_id evidence \<noteq> None)
      \<and> (gs_owner_is_admin state \<or> owner = daemon \<or> gb_owner_admin_event_id evidence \<noteq> None)"
  using assms
  by (auto simp: bootstrap_group_def bootstrap_create_def bootstrap_promote_def plan_for_state_def of_result_def
      elim!: and_then_cases with_error_cases split: if_splits)

lemma startup_cases:
  "at_outside a su = (r, su') \<Longrightarrow> \<exists>x'. a (su_ext su) = (r, x') \<and> su' = su\<lparr>su_ext := x'\<rparr>"
  "at_identity b su = (q, su') \<Longrightarrow> \<exists>w. b \<lparr>iw_nodes = su_nodes su, iw_ext = su_ext su\<rparr> = (q, w)
     \<and> su_nodes su' = iw_nodes w \<and> su_ext su' = iw_ext w"
  "at_journal m su = (p, su') \<Longrightarrow> \<exists>s. m (startup_journal su) = (p, s) \<and> su_nodes su' = su_nodes su"
  "startup_seconds sv su = (t, su') \<Longrightarrow> su_nodes su' = su_nodes su"
  by (auto simp: at_outside_def at_identity_def at_journal_def startup_seconds_def on_part_def split: prod.splits)

definition opens_as :: "production_config \<Rightarrow> nat \<Rightarrow> relay_url \<Rightarrow> opened \<Rightarrow> bool" where
  "opens_as config pid host opened \<longleftrightarrow>
     pc_group_id config \<noteq> [] \<and> length (pc_group_id config) \<le> 128
     \<and> pd_journal (op_producer opened) = \<lparr>fj_root = pc_journal_root config, fj_pid = pid\<rparr>
     \<and> pd_group_id (op_producer opened) = pc_group_id config
     \<and> pd_author (op_producer opened) = ac_public_key (op_account opened)
     \<and> pd_publisher (op_producer opened) = \<lparr>np_host = host, np_group_id = pc_group_id config,
         np_admin_author = ac_public_key (op_account opened), np_receipt_timeout = unat (pc_receipt_timeout config) * 1000\<rparr>"

lemma open_effect:
  assumes "open_with_clock sv ss pid config su = (Inr opened, su')"
  shows "\<exists>host owner now x w x1 x2. ss_parse_relay ss (pc_host config) = Some host
      \<and> en_parse_key (sv_engine sv) (pc_owner_pubkey config) = Some owner
      \<and> opens_as config pid host opened
      \<and> install_daemon_identity (ss_identity ss) (pc_daemon_identity_path config) (pc_secret_key_override config)
         \<lparr>iw_nodes = su_nodes su, iw_ext = x\<rparr> = (Inr (op_account opened), w) \<and> su_nodes su' = iw_nodes w
      \<and> bootstrap_group (sv_engine sv) host (pc_group_id config) (ac_public_key (op_account opened)) owner now
          (unat (pc_receipt_timeout config) * 1000) x1 = (Inr (op_bootstrap opened), x2)"
  using assms
  by (auto simp: open_with_clock_def runner_new_def of_result_def ok_or_def journal_open_def opens_as_def
      elim!: and_then_cases with_error_cases dest!: startup_cases split: if_splits option.splits) fastforce


section \<open>A daemon that opens administers its group\<close>

definition administers ::
  "'x nmp_engine \<Rightarrow> relay_url \<Rightarrow> string \<Rightarrow> public_key \<Rightarrow> public_key \<Rightarrow> nat \<Rightarrow> group_bootstrap_evidence \<Rightarrow> bool" where
  "administers engine host group_id daemon owner timeout evidence \<longleftrightarrow>
     gb_daemon_pubkey evidence = daemon
     \<and> (\<exists>x state x1. observe_state engine host group_id daemon owner timeout x = (Inr state, x1)
      \<and> (gs_daemon_is_admin state \<or> \<not> gs_exists state \<and> gb_group_created_event_id evidence \<noteq> None)
      \<and> (gs_owner_is_admin state \<or> owner = daemon \<or> gb_owner_admin_event_id evidence \<noteq> None))"


text \<open>
  A second start: the identity file is there, the relay answers with the group's admin state, and the
  journal has the records of the last run.
\<close>

definition booting_services :: "account_registration list services" where
  "booting_services =
     \<lparr>sv_third_party = sv_third_party refusing_services, sv_codec = sample_codec, sv_engine = sample_engine,
      sv_narration = (\<lambda>url auth body voice. fail ''offline''),
      sv_blossom = \<lparr>bc_unix_millis = (\<lambda>x. (100000, x)),
        bc_parse_url = (\<lambda>url. Some \<lparr>url_text = url, url_scheme = ''https'', url_host = Some ''host'', url_username = [],
          url_password = None, url_query = None, url_fragment = None\<rparr>),
        bc_authorize = (\<lambda>digest created_at expires. fail ''offline''),
        bc_upload = (\<lambda>bytes media_type header. fail ''offline'')\<rparr>,
      sv_add_account = ae_add_account listing_engine, sv_remove_account = ae_remove_account listing_engine\<rparr>"

definition booting_startup :: "account_registration list startup_services" where
  "booting_startup =
     \<lparr>ss_parse_relay = Some, ss_engine_new = (\<lambda>path. ok ()), ss_identity = sample_identity_services,
      ss_kokoro_client = (\<lambda>timeout. Inr ()), ss_blossom_server = (\<lambda>server. Inr ()),
      ss_blossom_client = (\<lambda>hosts timeout. Inr ()), ss_runtime = (\<lambda>n. Inr ())\<rparr>"

definition booting_config :: production_config where
  "booting_config =
     \<lparr>pc_journal_root = ''/var/jobs'', pc_work_root = ''/var/work'', pc_nmp_store_path = None,
      pc_daemon_identity_path = ''/etc/daemon.key'', pc_secret_key_override = None, pc_host = ''wss://relay'',
      pc_group_id = ''tts'', pc_owner_pubkey = ''daemon'', pc_default_voice = ''af_heart'',
      pc_kokoro = kokoro_defaults ''https://kokoro'', pc_blossom = blossom_config_new ''https://blossom'',
      pc_receipt_timeout = 30\<rparr>"

definition identity_node :: unix_node where
  "identity_node = \<lparr>nd_kind = RegularNode, nd_mode = mode_600, nd_dev = 1, nd_ino = 2,
     nd_bytes = ''daemon'' @ [CHR 0x0A], nd_listening = False, nd_resolves = True\<rparr>"

definition booting_world :: "account_registration list startup_world" where
  "booting_world =
     \<lparr>su_nodes = \<lparr>ns_nodes = [''/etc/daemon.key'' \<mapsto> identity_node], ns_dev = 1, ns_next_ino = 9, ns_umask = 18, ns_faults = []\<rparr>,
      su_fs = dw_fs sample_world, su_temp_id = 1, su_staged_id = 1, su_ext = []\<rparr>"

lemma booting_identity: "load_identity ''/etc/daemon.key'' (su_nodes booting_world) = (Inr (Some ''daemon''), su_nodes booting_world)"
proof (rule load_identity_quiet)
  show "stored_identity identity_node = Some ''daemon''" by code_simp
qed (simp_all add: booting_world_def)

lemma booting_journal:
  "stored_jobs sample_codec sample_journal (startup_journal booting_world) =
     [''req-1'' \<mapsto> published_job ''req-1'' (CHR ''a''), ''req-1-0'' \<mapsto> published_job ''req-1-0'' (CHR ''b'')]"
  "store_sound sample_codec sample_journal (startup_journal booting_world)"
  using sample_jobs sample_world_sound
  by (simp_all add: daemon_jobs_def daemon_sound_def refusing_services_def sample_producer_def stored_jobs_def store_sound_def
      journal_part_def startup_journal_def booting_world_def sample_world_def [THEN arg_cong, of dw_temp_id])

lemma booting_parts:
  "ss_parse_relay booting_startup = Some" "ss_identity booting_startup = sample_identity_services"
  "sv_engine booting_services = sample_engine" "sv_codec booting_services = sample_codec" "en_parse_key sample_engine = Some"
  by (simp_all add: booting_startup_def booting_services_def sample_engine_def)

lemma booting_opens_at:
  assumes "su_nodes su = su_nodes booting_world" and "fs_faults (su_fs su) = []" and "su_ext su = []"
  shows "\<exists>opened. open_with_clock booting_services booting_startup 7 booting_config su
       = (Inr opened, su\<lparr>su_ext := [\<lparr>ac_public_key = ''daemon'', ac_handle = 1\<rparr>]\<rparr>)
     \<and> op_account opened = \<lparr>ac_public_key = ''daemon'', ac_handle = 1\<rparr>
     \<and> pd_group_id (op_producer opened) = ''tts'' \<and> pd_journal (op_producer opened) = sample_journal"
proof -
  have group: "bootstrap_group sample_engine ''wss://relay'' ''tts'' ''daemon'' ''daemon'' now 30000 x =
      (Inr \<lparr>gb_daemon_pubkey = ''daemon'', gb_group_creation_receipt_id = None, gb_group_created_event_id = None,
          gb_owner_admin_receipt_id = None, gb_owner_admin_event_id = None\<rparr>, x)" for now x
    by (simp add: bootstrap_group_def and_then_def sample_observed plan_for_state_def of_result_def)
  show ?thesis
    using booting_identity assms
    by (simp add: open_with_clock_def booting_config_def booting_startup_def booting_services_def and_then_def of_result_def
        ok_or_def sample_engine_def [THEN arg_cong, of en_parse_key] with_error_def at_outside_def on_part_def
        at_identity_def install_daemon_identity_def on_nodes_def register_def on_accounts_def sample_identity_services_def
        listing_engine_def Let_def startup_seconds_def group kokoro_new_def validated_endpoint_def kokoro_defaults_def
        uploader_of_def blossom_new_def blossom_config_new_def at_journal_def journal_open_def on_fs_def startup_journal_def
        fs_no_fault(4) runner_new_def sample_journal_def)
qed

lemma booting_opens:
  "\<exists>opened su'. open_with_clock booting_services booting_startup 7 booting_config booting_world = (Inr opened, su')
     \<and> ac_public_key (op_account opened) = ''daemon''"
  using booting_opens_at [of booting_world] by (auto simp: booting_world_def sample_world_quiet)


section \<open>A run of the daemon\<close>

lemma run_opened_keeps:
  assumes "codec_round_trip (sv_codec sv)" and "store_sound (sv_codec sv) (pd_journal (op_producer opened)) (startup_journal su)"
    and "run_opened sv lc pe socket_path opened su = (r, su')"
  shows "store_sound (sv_codec sv) (pd_journal (op_producer opened)) (startup_journal su')
    \<and> published_kept (stored_jobs (sv_codec sv) (pd_journal (op_producer opened)) (startup_journal su))
        (stored_jobs (sv_codec sv) (pd_journal (op_producer opened)) (startup_journal su'))"
proof (cases "\<exists>listener ns. bind_listener socket_path (su_nodes su) = (Inr listener, ns) \<and> pe_set_handler pe = Inr ()")
  case False
  then have "su_fs su' = su_fs su"
    using assms(3) by (auto simp: run_opened_def split: prod.splits sum.splits)
  then show ?thesis using startup_records [of su' su] assms(2) by simp
next
  case True
  then obtain listener ns where l: "bind_listener socket_path (su_nodes su) = (Inr listener, ns)" "pe_set_handler pe = Inr ()"
    by blast
  obtain q w where s: "serve_until_shutdown lc (production_service sv (op_producer opened) (pe_attend pe))
      (pe_connections pe) (daemon_of opened su) = (q, w)" by fastforce
  have start: "journal_part (daemon_of opened su) = startup_journal su"
    by (simp add: journal_part_def daemon_of_def startup_journal_def)
  have "startup_journal su' = journal_part w"
    using assms(3) l s by (auto simp: run_opened_def served_def startup_journal_def journal_part_def)
  moreover have "grows sv (op_producer opened) (daemon_of opened su) w"
    by (rule serve_until_shutdown_grows [OF assms(1) _ s]) (simp add: daemon_sound_def start assms(2))
  ultimately show ?thesis by (simp add: grows_def daemon_sound_def daemon_jobs_def start)
qed

lemma run_configured_keeps:
  assumes "codec_round_trip (sv_codec sv)" and "j = \<lparr>fj_root = pc_journal_root (ld_production loaded), fj_pid = pe_pid pe\<rparr>"
    and "store_sound (sv_codec sv) j (startup_journal su)" and "run_configured sv ss lc pe loaded su = (r, su')"
  shows "store_sound (sv_codec sv) j (startup_journal su')
    \<and> published_kept (stored_jobs (sv_codec sv) j (startup_journal su)) (stored_jobs (sv_codec sv) j (startup_journal su'))"
proof -
  obtain q su1 where o: "open_with_clock sv ss (pe_pid pe) (ld_production loaded) su = (q, su1)" by fastforce
  have "fs_files (su_fs su1) = fs_files (su_fs su)" by (rule open_files [OF o])
  note same = startup_records [OF this]
  show ?thesis
  proof (cases q)
    case (Inl error)
    then have "su' = su1" using assms(4) o by (simp add: run_configured_def and_then_def)
    then show ?thesis using assms(3) by (simp add: same)
  next
    case (Inr opened)
    from open_effect [OF o [unfolded Inr]] have "pd_journal (op_producer opened) = j"
      by (auto simp: opens_as_def assms(2))
    moreover have "run_opened sv lc pe (ld_socket_path loaded) opened su1 = (r, su')"
      using assms(4) o Inr by (simp add: run_configured_def and_then_def)
    ultimately show ?thesis using run_opened_keeps [OF assms(1), of opened su1] assms(3) by (simp add: same)
  qed
qed


text \<open>The same start as a process, with one client and a shutdown.\<close>

definition booting_file :: file_config where
  "booting_file =
     \<lparr>fc_socket_path = ''/run/tts29/daemon.sock'', fc_journal_root = ''/var/jobs'', fc_work_root = ''/var/work'',
      fc_nmp_store_path = None, fc_daemon_identity_path = Some ''daemon.key'', fc_host = ''wss://relay'', fc_group_id = ''tts'',
      fc_owner_pubkey = ''daemon'',
      fc_kokoro = \<lparr>kf_endpoint = ''https://kokoro'', kf_request_timeout_seconds = None, kf_max_audio_bytes = None,
        kf_allow_insecure_loopback = None\<rparr>,
      fc_blossom = \<lparr>bl_server = ''https://blossom'', bl_allowed_local_hosts = None, bl_request_timeout_seconds = None,
        bl_authorization_lifetime_seconds = None, bl_max_upload_bytes = None\<rparr>,
      fc_receipt_timeout_seconds = None, fc_default_voice = None\<rparr>"

definition booting_process :: "account_registration list process_environment" where
  "booting_process =
     \<lparr>pe_arguments = [''--config'', ''/etc/daemon.json''], pe_variables = (\<lambda>name. EnvNotPresent),
      pe_config_bytes = (\<lambda>path. Inr ''{}''), pe_decode = (\<lambda>bytes. Inr booting_file), pe_pid = 7, pe_set_handler = Inr (),
      pe_connections = [sample_connection, sample_shutdown],
      pe_attend = (\<lambda>x. (fst (quiet ()), x)), pe_shutdown = (\<lambda>x. x)\<rparr>"


end
