(* ===== verification/Mcp_Config.thy ===== *)
theory Mcp_Config
  imports Daemon_Config
begin

text \<open>
  The configuration of the MCP server (\<open>mcp/src/config.rs\<close>): the file, its checks and the limits. URLs are
  parsed by the \<open>url\<close> crate and addresses by the standard library, both parameters; \<open>serde_json\<close> is \<open>decode\<close>.
\<close>

definition MCP_MAX_CONFIG_BYTES :: nat where "MCP_MAX_CONFIG_BYTES = 256 * 1024"
definition MAX_HTTP_BYTES :: nat where "MAX_HTTP_BYTES = 1024 * 1024"
definition MAX_EXECUTION_SECONDS :: u64 where "MAX_EXECUTION_SECONDS = 360"
definition MAX_CONCURRENCY :: nat where "MAX_CONCURRENCY = 256"

record mcp_file_config =
  mf_bind :: string
  mf_resource :: string
  mf_authorization_servers :: "string list"
  mf_issuer :: string
  mf_audience :: string
  mf_required_scope :: string
  mf_jwks_path :: string
  mf_daemon_socket_path :: string
  mf_tls_certificate_path :: string
  mf_tls_private_key_path :: string
  mf_allowed_hosts :: "string list"
  mf_allowed_origins :: "string list"
  mf_max_request_bytes :: nat
  mf_max_response_bytes :: nat
  mf_max_concurrency :: nat
  mf_execution_timeout_seconds :: u64

record mcp_config =
  mc_bind :: string
  mc_resource :: string
  mc_mcp_path :: string
  mc_metadata_path :: string
  mc_metadata_url :: string
  mc_authorization_servers :: "string list"
  mc_issuer :: string
  mc_audience :: string
  mc_required_scope :: string
  mc_jwks_path :: string
  mc_daemon_socket_path :: string
  mc_tls_certificate_path :: string
  mc_tls_private_key_path :: string
  mc_allowed_hosts :: "string list"
  mc_allowed_origins :: "string list"
  mc_max_request_bytes :: nat
  mc_max_response_bytes :: nat
  mc_max_concurrency :: nat
  mc_execution_timeout :: u64

text \<open>A parsed URL with its path and the ASCII form of its origin.\<close>

record full_url = parsed_url +
  url_path :: string
  url_origin :: string

type_synonym url_parse = "string \<Rightarrow> full_url option"

definition is_ascii_whitespace :: "char \<Rightarrow> bool" where
  "is_ascii_whitespace c \<longleftrightarrow> c \<in> {CHR '' '', CHR 0x09, CHR 0x0A, CHR 0x0C, CHR 0x0D}"

definition is_ascii_control :: "char \<Rightarrow> bool" where
  "is_ascii_control c \<longleftrightarrow> (of_char c :: nat) < 32 \<or> (of_char c :: nat) = 127"

definition secure_url :: "url_parse \<Rightarrow> string \<Rightarrow> string \<Rightarrow> string + full_url" where
  "secure_url parse_url name content =
     bind_result (ok_or (name @ '' must be an absolute URL'') (parse_url content)) (\<lambda>parsed.
       if url_scheme parsed \<noteq> ''https'' \<or> url_host parsed = None \<or> url_username parsed \<noteq> []
          \<or> url_password parsed \<noteq> None
       then Inl (name @ '' must be a credential-free HTTPS URL'')
       else Inr parsed)"

fun secure_urls :: "url_parse \<Rightarrow> string list \<Rightarrow> string + unit" where
  "secure_urls parse_url [] = Inr ()"
| "secure_urls parse_url (server # rest) =
     bind_result (secure_url parse_url ''authorization server'' server) (\<lambda>_. secure_urls parse_url rest)"

definition validate_authorization_servers :: "url_parse \<Rightarrow> mcp_file_config \<Rightarrow> string + string list" where
  "validate_authorization_servers parse_url f =
     (if mf_authorization_servers f = [] \<or> length (mf_authorization_servers f) > 8
      then Inl ''authorization_servers must contain between 1 and 8 issuers''
      else
        bind_result (secure_urls parse_url (mf_authorization_servers f)) (\<lambda>_.
        bind_result (secure_url parse_url ''issuer'' (mf_issuer f)) (\<lambda>_.
          if mf_issuer f \<notin> set (mf_authorization_servers f)
          then Inl ''issuer must appear in authorization_servers''
          else Inr (mf_authorization_servers f))))"

definition validate_scope :: "string \<Rightarrow> string + unit" where
  "validate_scope scope =
     (if scope = [] \<or> length scope > 128 \<or> list_ex (\<lambda>byte. is_ascii_whitespace byte \<or> is_ascii_control byte) scope
      then Inl ''required_scope must be one printable OAuth scope token''
      else Inr ())"

definition bad_host :: "string \<Rightarrow> bool" where
  "bad_host host \<longleftrightarrow>
     host = [] \<or> host = ''*'' \<or> length host > 255 \<or> contains_str host ''//'' \<or> CHR ''/'' \<in> set host
     \<or> list_ex is_ascii_whitespace host"

definition validate_hosts :: "string list \<Rightarrow> string + unit" where
  "validate_hosts hosts =
     (if hosts = [] \<or> length hosts > 32 \<or> list_ex bad_host hosts
      then Inl ''allowed_hosts must contain explicit host authorities''
      else Inr ())"

fun check_origins :: "url_parse \<Rightarrow> string list \<Rightarrow> string + unit" where
  "check_origins parse_url [] = Inr ()"
| "check_origins parse_url (origin # rest) =
     bind_result (secure_url parse_url ''allowed origin'' origin) (\<lambda>parsed.
       if url_path parsed \<noteq> ''/'' \<or> url_query parsed \<noteq> None \<or> url_fragment parsed \<noteq> None
       then Inl ''allowed origins must not contain paths, queries, or fragments''
       else check_origins parse_url rest)"

definition validate_origins :: "url_parse \<Rightarrow> string list \<Rightarrow> string + unit" where
  "validate_origins parse_url origins =
     (if origins = [] \<or> length origins > 32 then Inl ''allowed_origins must contain between 1 and 32 HTTPS origins''
      else check_origins parse_url origins)"

definition validate_limits :: "mcp_file_config \<Rightarrow> string + unit" where
  "validate_limits f =
     (if \<not> (1 \<le> mf_max_request_bytes f \<and> mf_max_request_bytes f \<le> MAX_HTTP_BYTES)
         \<or> \<not> (1 \<le> mf_max_response_bytes f \<and> mf_max_response_bytes f \<le> MAX_HTTP_BYTES)
         \<or> \<not> (1 \<le> mf_max_concurrency f \<and> mf_max_concurrency f \<le> MAX_CONCURRENCY)
         \<or> \<not> (1 \<le> mf_execution_timeout_seconds f \<and> mf_execution_timeout_seconds f \<le> MAX_EXECUTION_SECONDS)
      then Inl ''MCP request, response, concurrency, or execution limit is invalid''
      else Inr ())"

definition mcp_config_of :: "mcp_file_config \<Rightarrow> string \<Rightarrow> full_url \<Rightarrow> string list \<Rightarrow> string \<Rightarrow> mcp_config" where
  "mcp_config_of f base resource authorization_servers bind =
     (let metadata_path = ''/.well-known/oauth-protected-resource'' @ url_path resource in
      \<lparr>mc_bind = bind, mc_resource = mf_resource f, mc_mcp_path = url_path resource,
       mc_metadata_path = metadata_path, mc_metadata_url = url_origin resource @ metadata_path,
       mc_authorization_servers = authorization_servers, mc_issuer = mf_issuer f,
       mc_audience = mf_audience f, mc_required_scope = mf_required_scope f,
       mc_jwks_path = resolve_path base (mf_jwks_path f),
       mc_daemon_socket_path = resolve_path base (mf_daemon_socket_path f),
       mc_tls_certificate_path = resolve_path base (mf_tls_certificate_path f),
       mc_tls_private_key_path = resolve_path base (mf_tls_private_key_path f),
       mc_allowed_hosts = mf_allowed_hosts f, mc_allowed_origins = mf_allowed_origins f,
       mc_max_request_bytes = mf_max_request_bytes f, mc_max_response_bytes = mf_max_response_bytes f,
       mc_max_concurrency = mf_max_concurrency f, mc_execution_timeout = mf_execution_timeout_seconds f\<rparr>)"

definition validate_mcp ::
  "url_parse \<Rightarrow> (string \<Rightarrow> string option) \<Rightarrow> mcp_file_config \<Rightarrow> string \<Rightarrow> string + mcp_config" where
  "validate_mcp parse_url parse_address f base =
     bind_result (secure_url parse_url ''resource'' (mf_resource f)) (\<lambda>resource.
     if url_query resource \<noteq> None \<or> url_fragment resource \<noteq> None
     then Inl ''resource must not contain a query or fragment''
     else if url_path resource = ''/'' \<or> (url_path resource \<noteq> [] \<and> last (url_path resource) = CHR ''/'')
     then Inl ''resource must identify the MCP endpoint path''
     else if mf_audience f \<noteq> mf_resource f then Inl ''audience must equal the protected resource URI''
     else
       bind_result (validate_authorization_servers parse_url f) (\<lambda>authorization_servers.
       bind_result (validate_scope (mf_required_scope f)) (\<lambda>_.
       bind_result (validate_hosts (mf_allowed_hosts f)) (\<lambda>_.
       bind_result (validate_origins parse_url (mf_allowed_origins f)) (\<lambda>_.
       bind_result (validate_limits f) (\<lambda>_.
       bind_result (ok_or ''bind must be an IP socket address'' (parse_address (mf_bind f))) (\<lambda>bind.
         Inr (mcp_config_of f base resource authorization_servers bind))))))))"

text \<open>The bytes of the file, or the error of opening or reading it.\<close>

definition mcp_read_bounded :: "io_failure + string \<Rightarrow> string + string" where
  "mcp_read_bounded contents =
     bind_result (map_err (\<lambda>error. ''MCP config could not be read: '' @ if_text error) contents) (\<lambda>whole.
       (let bytes = take (MCP_MAX_CONFIG_BYTES + 1) whole in
        if length bytes > MCP_MAX_CONFIG_BYTES then Inl ''MCP config exceeds the byte limit'' else Inr bytes))"

definition load_mcp_config ::
  "url_parse \<Rightarrow> (string \<Rightarrow> string option) \<Rightarrow> (string \<Rightarrow> string + mcp_file_config) \<Rightarrow> string \<Rightarrow> io_failure + string
   \<Rightarrow> string + mcp_config" where
  "load_mcp_config parse_url parse_address decode path contents =
     bind_result (mcp_read_bounded contents) (\<lambda>bytes.
     bind_result (map_err (\<lambda>error. ''MCP config is invalid JSON: '' @ error) (decode bytes)) (\<lambda>f.
       validate_mcp parse_url parse_address f (case parent_path path of None \<Rightarrow> ''.'' | Some parent \<Rightarrow> parent)))"

section \<open>A configuration that loads is safe to serve\<close>

definition secure :: "url_parse \<Rightarrow> string \<Rightarrow> full_url \<Rightarrow> bool" where
  "secure parse_url content url \<longleftrightarrow>
     parse_url content = Some url \<and> url_scheme url = ''https'' \<and> url_host url \<noteq> None \<and> url_username url = []
     \<and> url_password url = None"

lemma secure_url_ok: "secure_url parse_url name content = Inr url \<longleftrightarrow> secure parse_url content url"
  by (auto simp: secure_url_def secure_def ok_or_def bind_result_Inr_iff split: option.splits if_splits)

lemma secure_urls_ok: "secure_urls parse_url urls = Inr u \<longleftrightarrow> list_all (\<lambda>url. \<exists>p. secure parse_url url p) urls"
  by (induction urls) (auto simp: bind_result_Inr_iff secure_url_ok)

definition plain_origin :: "url_parse \<Rightarrow> string \<Rightarrow> bool" where
  "plain_origin parse_url origin \<longleftrightarrow>
     (\<exists>p. secure parse_url origin p \<and> url_path p = ''/'' \<and> url_query p = None \<and> url_fragment p = None)"

lemma check_origins_ok: "check_origins parse_url origins = Inr u \<longleftrightarrow> list_all (plain_origin parse_url) origins"
  by (induction origins) (auto simp: bind_result_Inr_iff secure_url_ok plain_origin_def split: if_splits)

lemma mcp_config_facts:
  assumes "load_mcp_config parse_url parse_address decode path contents = Inr config"
  shows "(\<exists>resource. secure parse_url (mc_resource config) resource \<and> url_query resource = None
       \<and> url_fragment resource = None \<and> url_path resource \<noteq> ''/'' \<and> mc_mcp_path config = url_path resource
       \<and> mc_metadata_path config = ''/.well-known/oauth-protected-resource'' @ mc_mcp_path config
       \<and> mc_metadata_url config = url_origin resource @ mc_metadata_path config)
    \<and> mc_audience config = mc_resource config
    \<and> mc_issuer config \<in> set (mc_authorization_servers config)
    \<and> 1 \<le> length (mc_authorization_servers config) \<and> length (mc_authorization_servers config) \<le> 8
    \<and> list_all (\<lambda>server. \<exists>url. secure parse_url server url) (mc_authorization_servers config)
    \<and> mc_required_scope config \<noteq> []
    \<and> list_all (\<lambda>c. \<not> is_ascii_whitespace c \<and> \<not> is_ascii_control c) (mc_required_scope config)
    \<and> mc_allowed_hosts config \<noteq> [] \<and> ''*'' \<notin> set (mc_allowed_hosts config)
    \<and> mc_allowed_origins config \<noteq> [] \<and> list_all (plain_origin parse_url) (mc_allowed_origins config)
    \<and> 1 \<le> mc_max_request_bytes config \<and> mc_max_request_bytes config \<le> 1048576
    \<and> 1 \<le> mc_max_response_bytes config \<and> mc_max_response_bytes config \<le> 1048576
    \<and> 1 \<le> mc_max_concurrency config \<and> mc_max_concurrency config \<le> 256
    \<and> 1 \<le> mc_execution_timeout config \<and> mc_execution_timeout config \<le> 360"
proof -
  obtain f base where v: "validate_mcp parse_url parse_address f base = Inr config"
    using assms by (auto simp: load_mcp_config_def bind_result_Inr_iff)
  obtain resource servers bind where r: "secure parse_url (mf_resource f) resource" "url_query resource = None"
      "url_fragment resource = None" "url_path resource \<noteq> ''/''"
    and c: "mf_audience f = mf_resource f" "validate_authorization_servers parse_url f = Inr servers"
      "validate_scope (mf_required_scope f) = Inr ()" "validate_hosts (mf_allowed_hosts f) = Inr ()"
      "validate_origins parse_url (mf_allowed_origins f) = Inr ()" "validate_limits f = Inr ()"
    and same: "config = mcp_config_of f base resource servers bind"
    using v by (auto simp: validate_mcp_def bind_result_Inr_iff secure_url_ok split: if_splits)
  have "servers = mf_authorization_servers f"
    using c(2) by (auto simp: validate_authorization_servers_def bind_result_Inr_iff split: if_splits)
  moreover have "mf_issuer f \<in> set (mf_authorization_servers f)" "mf_authorization_servers f \<noteq> []"
    "length (mf_authorization_servers f) \<le> 8" "list_all (\<lambda>server. \<exists>url. secure parse_url server url) (mf_authorization_servers f)"
    using c(2) by (auto simp: validate_authorization_servers_def bind_result_Inr_iff secure_urls_ok split: if_splits)
  moreover have "mf_required_scope f \<noteq> []" "list_all (\<lambda>c. \<not> is_ascii_whitespace c \<and> \<not> is_ascii_control c) (mf_required_scope f)"
    using c(3) by (auto simp: validate_scope_def list_ex_iff list_all_iff split: if_splits)
  moreover have "mf_allowed_hosts f \<noteq> []" "''*'' \<notin> set (mf_allowed_hosts f)"
    using c(4) by (auto simp: validate_hosts_def list_ex_iff bad_host_def split: if_splits)
  moreover have "mf_allowed_origins f \<noteq> []" "list_all (plain_origin parse_url) (mf_allowed_origins f)"
    using c(5) by (auto simp: validate_origins_def check_origins_ok split: if_splits)
  ultimately show ?thesis
    using r c(1,6)
    by (auto simp: same mcp_config_of_def Let_def validate_limits_def MAX_HTTP_BYTES_def MAX_CONCURRENCY_def MAX_EXECUTION_SECONDS_def Suc_le_eq
        split: if_splits)
qed

text \<open>
  C20: a configuration the server accepts leaves no opening. Its resource is a credential-free HTTPS endpoint
  and the only audience tokens may have; the issuer is one of 1 to 8 HTTPS authorization servers; the scope
  is a single printable word; hosts are listed without wildcards and browser origins are plain HTTPS origins;
  and every limit is positive and bounded: 1 MiB each way, 256 requests at a time, 360 seconds each.
\<close>

theorem mcp_config_safe:
  assumes "load_mcp_config parse_url parse_address decode path contents = Inr config"
  shows "(\<exists>resource. secure parse_url (mc_resource config) resource \<and> url_query resource = None
       \<and> url_fragment resource = None \<and> url_path resource \<noteq> ''/'' \<and> mc_mcp_path config = url_path resource
       \<and> mc_metadata_path config = ''/.well-known/oauth-protected-resource'' @ mc_mcp_path config
       \<and> mc_metadata_url config = url_origin resource @ mc_metadata_path config)
    \<and> mc_audience config = mc_resource config
    \<and> mc_issuer config \<in> set (mc_authorization_servers config)
    \<and> 1 \<le> length (mc_authorization_servers config) \<and> length (mc_authorization_servers config) \<le> 8
    \<and> list_all (\<lambda>server. \<exists>url. secure parse_url server url) (mc_authorization_servers config)
    \<and> mc_required_scope config \<noteq> []
    \<and> list_all (\<lambda>c. \<not> is_ascii_whitespace c \<and> \<not> is_ascii_control c) (mc_required_scope config)
    \<and> mc_allowed_hosts config \<noteq> [] \<and> ''*'' \<notin> set (mc_allowed_hosts config)
    \<and> mc_allowed_origins config \<noteq> [] \<and> list_all (plain_origin parse_url) (mc_allowed_origins config)
    \<and> 1 \<le> mc_max_request_bytes config \<and> mc_max_request_bytes config \<le> 1048576
    \<and> 1 \<le> mc_max_response_bytes config \<and> mc_max_response_bytes config \<le> 1048576
    \<and> 1 \<le> mc_max_concurrency config \<and> mc_max_concurrency config \<le> 256
    \<and> 1 \<le> mc_execution_timeout config \<and> mc_execution_timeout config \<le> 360"
  using assms by (rule mcp_config_facts)

definition sample_url :: "string \<Rightarrow> full_url" where
  "sample_url path =
     \<lparr>url_text = ''https://mcp'' @ path, url_scheme = ''https'', url_host = Some ''mcp'', url_username = [], url_password = None,
      url_query = None, url_fragment = None, url_path = path, url_origin = ''https://mcp''\<rparr>"

definition sample_url_parse :: url_parse where
  "sample_url_parse content =
     (if content = ''https://mcp/speech'' then Some (sample_url ''/speech'')
      else if content = ''https://mcp'' then Some (sample_url ''/'') else None)"

definition sample_mcp_file :: mcp_file_config where
  "sample_mcp_file =
     \<lparr>mf_bind = ''0.0.0.0:443'', mf_resource = ''https://mcp/speech'', mf_authorization_servers = [''https://mcp''],
      mf_issuer = ''https://mcp'', mf_audience = ''https://mcp/speech'', mf_required_scope = ''publish'',
      mf_jwks_path = ''jwks.json'', mf_daemon_socket_path = ''/run/tts29/daemon.sock'', mf_tls_certificate_path = ''cert.pem'',
      mf_tls_private_key_path = ''key.pem'', mf_allowed_hosts = [''mcp''], mf_allowed_origins = [''https://mcp''],
      mf_max_request_bytes = 1024, mf_max_response_bytes = 2048, mf_max_concurrency = 2, mf_execution_timeout_seconds = 360\<rparr>"

theorem mcp_config_safe_witness:
  "\<exists>config. load_mcp_config sample_url_parse Some (\<lambda>bytes. Inr sample_mcp_file) ''/etc/mcp.json'' (Inr ''{}'') = Inr config
     \<and> mc_mcp_path config = ''/speech'' \<and> mc_execution_timeout config \<le> 360"
proof -
  have "\<exists>config. load_mcp_config sample_url_parse Some (\<lambda>bytes. Inr sample_mcp_file) ''/etc/mcp.json'' (Inr ''{}'') = Inr config
      \<and> mc_mcp_path config = ''/speech''"
    by (simp add: load_mcp_config_def mcp_read_bounded_def MCP_MAX_CONFIG_BYTES_def validate_mcp_def secure_url_def
        sample_mcp_file_def sample_url_parse_def sample_url_def ok_or_def validate_authorization_servers_def validate_scope_def
        validate_hosts_def validate_origins_def validate_limits_def bad_host_def is_ascii_whitespace_def is_ascii_control_def
        mcp_config_of_def MAX_HTTP_BYTES_def MAX_CONCURRENCY_def MAX_EXECUTION_SECONDS_def Let_def)
  then obtain config where l: "load_mcp_config sample_url_parse Some (\<lambda>bytes. Inr sample_mcp_file) ''/etc/mcp.json'' (Inr ''{}'')
      = Inr config" "mc_mcp_path config = ''/speech''" by blast
  from mcp_config_safe [OF l(1)] show ?thesis using l by blast
qed

end
