(* ===== verification/Mcp_Access.thy ===== *)
theory Mcp_Access
  imports Mcp_Config
begin

text \<open>
  Who may call the MCP server: access tokens (\<open>mcp/src/auth.rs\<close>) and the middleware in front of the tool
  (\<open>mcp/src/ingress.rs\<close>). The JWT library and the HTTP types are third-party: parameters on the data the
  sources read.
\<close>

section \<open>Access tokens\<close>

definition MAX_JWKS_BYTES :: nat where "MAX_JWKS_BYTES = 1024 * 1024"
definition CLOCK_SKEW_SECONDS :: u64 where "CLOCK_SKEW_SECONDS = 30"

text \<open>The algorithms a token may name and those a key may name; the sources catch the rest with \<open>_\<close>.\<close>

datatype algorithm =
  HS256 | HS384 | HS512 | ES256 | ES384 | RS256 | RS384 | RS512 | PS256 | PS384 | PS512 | EdDSA

datatype key_algorithm =
    KeyRS256 | KeyRS384 | KeyRS512 | KeyPS256 | KeyPS384 | KeyPS512 | KeyES256 | KeyES384 | KeyEdDSA
  | KeyOther string

datatype algorithm_parameters = OctetKey string | OtherParameters string

record jwk =
  jk_key_id :: "string option"
  jk_key_algorithm :: "key_algorithm option"
  jk_algorithm :: algorithm_parameters

record jwt_header =
  jh_alg :: algorithm
  jh_kid :: "string option"

record jwt_validation =
  vl_algorithm :: algorithm
  vl_issuers :: "string list"
  vl_audiences :: "string list"
  vl_required_claims :: "string list"
  vl_validate_exp :: bool
  vl_validate_nbf :: bool

record access_claims =
  cl_exp :: u64
  cl_nbf :: "u64 option"
  cl_scope :: string

text \<open>The JWT library: \<open>'k\<close> is its decoding key.\<close>

record 'k jwt_library =
  jl_decode_header :: "string \<Rightarrow> jwt_header option"
  jl_find :: "jwk list \<Rightarrow> string \<Rightarrow> jwk option"
  jl_decoding_key :: "jwk \<Rightarrow> 'k option"
  jl_decode :: "string \<Rightarrow> 'k \<Rightarrow> jwt_validation \<Rightarrow> access_claims option"

record auth_validator =
  av_keys :: "jwk list"
  av_issuer :: string
  av_audience :: string
  av_required_scope :: string

datatype auth_failure = InvalidToken | InsufficientScope

definition jwk_algorithm :: "jwk \<Rightarrow> algorithm option" where
  "jwk_algorithm key =
     (case jk_key_algorithm key of
        None \<Rightarrow> None
      | Some KeyRS256 \<Rightarrow> Some RS256
      | Some KeyRS384 \<Rightarrow> Some RS384
      | Some KeyRS512 \<Rightarrow> Some RS512
      | Some KeyPS256 \<Rightarrow> Some PS256
      | Some KeyPS384 \<Rightarrow> Some PS384
      | Some KeyPS512 \<Rightarrow> Some PS512
      | Some KeyES256 \<Rightarrow> Some ES256
      | Some KeyES384 \<Rightarrow> Some ES384
      | Some KeyEdDSA \<Rightarrow> Some EdDSA
      | Some (KeyOther _) \<Rightarrow> None)"

fun validate_jwks_loop :: "string list \<Rightarrow> jwk list \<Rightarrow> string + unit" where
  "validate_jwks_loop ids [] = Inr ()"
| "validate_jwks_loop ids (key # rest) =
     (case jk_key_id key of
        None \<Rightarrow> Inl ''every JWK must have a bounded kid''
      | Some key_id \<Rightarrow>
          if key_id = [] \<or> length key_id > 256 then Inl ''every JWK must have a bounded kid''
          else if key_id \<in> set ids \<or> jwk_algorithm key = None
          then Inl ''JWKS contains a duplicate kid or unsupported signing key''
          else
            (case jk_algorithm key of
               OctetKey _ \<Rightarrow> Inl ''JWKS must not contain symmetric signing secrets''
             | OtherParameters _ \<Rightarrow> validate_jwks_loop (key_id # ids) rest))"

definition validate_jwks :: "jwk list \<Rightarrow> string + unit" where
  "validate_jwks keys =
     (if keys = [] \<or> length keys > 64 then Inl ''JWKS must contain between 1 and 64 keys''
      else validate_jwks_loop [] keys)"

definition auth_new :: "jwk list \<Rightarrow> string \<Rightarrow> string \<Rightarrow> string \<Rightarrow> string + auth_validator" where
  "auth_new keys issuer audience required_scope =
     bind_result (validate_jwks keys) (\<lambda>_.
       Inr \<lparr>av_keys = keys, av_issuer = issuer, av_audience = audience, av_required_scope = required_scope\<rparr>)"

definition load_jwks :: "(string \<Rightarrow> string + jwk list) \<Rightarrow> io_failure + string \<Rightarrow> string + jwk list" where
  "load_jwks decode contents =
     bind_result (map_err (\<lambda>error. ''JWKS could not be read: '' @ if_text error) contents) (\<lambda>whole.
       (let bytes = take (MAX_JWKS_BYTES + 1) whole in
        if length bytes > MAX_JWKS_BYTES then Inl ''JWKS exceeds the byte limit''
        else map_err (\<lambda>error. ''JWKS is invalid JSON: '' @ error) (decode bytes)))"

definition from_jwks_file ::
  "(string \<Rightarrow> string + jwk list) \<Rightarrow> io_failure + string \<Rightarrow> string \<Rightarrow> string \<Rightarrow> string \<Rightarrow> string + auth_validator" where
  "from_jwks_file decode contents issuer audience required_scope =
     bind_result (load_jwks decode contents) (\<lambda>keys. auth_new keys issuer audience required_scope)"

text \<open>\<open>split_ascii_whitespace\<close>: the maximal runs of other bytes.\<close>

fun ascii_words_from :: "string \<Rightarrow> string \<Rightarrow> string list" where
  "ascii_words_from current [] = (if current = [] then [] else [rev current])"
| "ascii_words_from current (c # rest) =
     (if is_ascii_whitespace c
      then (if current = [] then [] else [rev current]) @ ascii_words_from [] rest
      else ascii_words_from (c # current) rest)"

definition ascii_words :: "string \<Rightarrow> string list" where
  "ascii_words s = ascii_words_from [] s"

definition access_validation :: "auth_validator \<Rightarrow> algorithm \<Rightarrow> jwt_validation" where
  "access_validation av alg =
     \<lparr>vl_algorithm = alg, vl_issuers = [av_issuer av], vl_audiences = [av_audience av],
      vl_required_claims = [''exp'', ''iss'', ''aud''], vl_validate_exp = False, vl_validate_nbf = False\<rparr>"

definition check_claims :: "auth_validator \<Rightarrow> u64 \<Rightarrow> access_claims \<Rightarrow> auth_failure + unit" where
  "check_claims av now claims =
     (if saturating_add (cl_exp claims) CLOCK_SKEW_SECONDS < now
         \<or> is_some_and (cl_nbf claims) (\<lambda>nbf. nbf > saturating_add now CLOCK_SKEW_SECONDS)
      then Inl InvalidToken
      else if \<not> list_ex (\<lambda>scope. scope = av_required_scope av) (ascii_words (cl_scope claims))
      then Inl InsufficientScope
      else Inr ())"

definition validate_token :: "'k jwt_library \<Rightarrow> auth_validator \<Rightarrow> u64 \<Rightarrow> string \<Rightarrow> auth_failure + unit" where
  "validate_token lib av now token =
     (if token = [] \<or> length token > 16 * 1024 then Inl InvalidToken
      else
        bind_result (ok_or InvalidToken (jl_decode_header lib token)) (\<lambda>header.
        bind_result (ok_or InvalidToken (jh_kid header)) (\<lambda>kid.
        bind_result (ok_or InvalidToken (jl_find lib (av_keys av) kid)) (\<lambda>key.
        bind_result (ok_or InvalidToken (jwk_algorithm key)) (\<lambda>alg.
          if jh_alg header \<noteq> alg then Inl InvalidToken
          else
            bind_result (ok_or InvalidToken (jl_decoding_key lib key)) (\<lambda>decoding_key.
            bind_result (ok_or InvalidToken (jl_decode lib token decoding_key (access_validation av alg))) (\<lambda>claims.
              check_claims av now claims)))))))"

section \<open>The middleware\<close>

text \<open>
  A request with its query, the values of its \<open>Authorization\<close> headers and its body; a body that cannot be
  read to its end is \<open>None\<close>. A response with its status, its challenge and its body.
\<close>

record http_request =
  hq_query :: "string option"
  hq_authorization :: "string list"
  hq_body :: "string option"

record mcp_response =
  hr_status :: nat
  hr_challenge :: "string option"
  hr_body :: "string option"

text \<open>
  The HTTP library: the text of a header value, whether a text can be a header value, and the decoded
  pairs of a query.
\<close>

record http_library =
  hl_to_str :: "string \<Rightarrow> string option"
  hl_header_value :: "string \<Rightarrow> bool"
  hl_query_pairs :: "string \<Rightarrow> (string \<times> string) list"

text \<open>\<open>ig_permits\<close> is the number of permits the semaphore starts with, \<open>ig_timeout\<close> the deadline in seconds.\<close>

record ingress_state =
  ig_auth :: auth_validator
  ig_permits :: nat
  ig_timeout :: u64
  ig_max_request_bytes :: nat
  ig_max_response_bytes :: nat
  ig_resource_metadata :: string
  ig_required_scope :: string

definition ingress_new :: "auth_validator \<Rightarrow> nat \<Rightarrow> u64 \<Rightarrow> nat \<Rightarrow> nat \<Rightarrow> string \<Rightarrow> string \<Rightarrow> ingress_state" where
  "ingress_new auth concurrency timeout max_request_bytes max_response_bytes resource_metadata required_scope =
     \<lparr>ig_auth = auth, ig_permits = concurrency, ig_timeout = timeout, ig_max_request_bytes = max_request_bytes,
      ig_max_response_bytes = max_response_bytes, ig_resource_metadata = resource_metadata,
      ig_required_scope = required_scope\<rparr>"

definition json_error :: "nat \<Rightarrow> string \<Rightarrow> mcp_response" where
  "json_error status code =
     \<lparr>hr_status = status, hr_challenge = None, hr_body = Some (''{\"error\":\"'' @ code @ ''\"}'')\<rparr>"

fun split_once :: "char \<Rightarrow> string \<Rightarrow> (string \<times> string) option" where
  "split_once d [] = None"
| "split_once d (c # rest) =
     (if c = d then Some ([], rest) else map_option (\<lambda>(before, after). (c # before, after)) (split_once d rest))"

definition bearer_token :: "http_library \<Rightarrow> string list \<Rightarrow> string option" where
  "bearer_token http headers =
     (case headers of
        [] \<Rightarrow> None
      | first # more_values \<Rightarrow>
          (case hl_to_str http first of
             None \<Rightarrow> None
           | Some content \<Rightarrow>
               if more_values \<noteq> [] then None
               else
                 (case split_once (CHR '' '') content of
                    None \<Rightarrow> None
                  | Some (scheme, token) \<Rightarrow>
                      if ascii_lowercase scheme = ascii_lowercase ''Bearer'' \<and> token \<noteq> [] \<and> \<not> list_ex is_ascii_whitespace token
                      then Some token else None)))"

definition has_query_token :: "http_library \<Rightarrow> string option \<Rightarrow> bool" where
  "has_query_token http query =
     is_some_and query (\<lambda>content. list_ex (\<lambda>(key, _). key = ''access_token'') (hl_query_pairs http content))"

definition auth_error :: "http_library \<Rightarrow> ingress_state \<Rightarrow> auth_failure \<Rightarrow> bool \<Rightarrow> mcp_response" where
  "auth_error http st failure include_error =
     (let (status, error) = (case failure of InvalidToken \<Rightarrow> (401, ''invalid_token'')
                             | InsufficientScope \<Rightarrow> (403, ''insufficient_scope''));
          challenge = ''Bearer resource_metadata=\"'' @ ig_resource_metadata st @ ''\", scope=\"'' @ ig_required_scope st @ ''\"'';
          challenge = (if include_error \<or> failure = InsufficientScope
                       then challenge @ '', error=\"'' @ error @ ''\"'' else challenge);
          response = json_error status error
      in if hl_header_value http challenge then response\<lparr>hr_challenge := Some challenge\<rparr> else response)"

definition to_bytes :: "string option \<Rightarrow> nat \<Rightarrow> string option" where
  "to_bytes body limit =
     (case body of None \<Rightarrow> None | Some bytes \<Rightarrow> if length bytes > limit then None else Some bytes)"

definition bound_response :: "mcp_response \<Rightarrow> nat \<Rightarrow> mcp_response" where
  "bound_response response limit =
     (case to_bytes (hr_body response) limit of
        Some bytes \<Rightarrow> response\<lparr>hr_body := Some bytes\<rparr>
      | None \<Rightarrow> json_error 500 ''response_too_large'')"

text \<open>The checks before a permit is taken.\<close>

definition admission ::
  "'k jwt_library \<Rightarrow> http_library \<Rightarrow> ingress_state \<Rightarrow> u64 \<Rightarrow> http_request \<Rightarrow> mcp_response + unit" where
  "admission lib http st now request =
     (if has_query_token http (hq_query request) then Inl (json_error 400 ''invalid_request'')
      else
        (case bearer_token http (hq_authorization request) of
           None \<Rightarrow> Inl (auth_error http st InvalidToken False)
         | Some token \<Rightarrow> map_err (\<lambda>error. auth_error http st error True) (validate_token lib (ig_auth st) now token)))"

text \<open>
  One request from its arrival to its response. \<open>next\<close> is the protected service; it gives no response when
  the deadline passes first, and what it did until then stays done. The permit is given back on every way
  out, so the free permits are the same after the request.
\<close>

definition protect ::
  "'k jwt_library \<Rightarrow> http_library \<Rightarrow> ingress_state \<Rightarrow> u64 \<Rightarrow> (http_request \<Rightarrow> 'w \<Rightarrow> mcp_response option \<times> 'w)
   \<Rightarrow> http_request \<Rightarrow> nat \<Rightarrow> 'w \<Rightarrow> mcp_response \<times> 'w" where
  "protect lib http st now next request permits w =
     (case admission lib http st now request of
        Inl response \<Rightarrow> (response, w)
      | Inr _ \<Rightarrow>
          if permits = 0 then (json_error 503 ''server_busy'', w)
          else
            (case to_bytes (hq_body request) (ig_max_request_bytes st) of
               None \<Rightarrow> (json_error 413 ''request_too_large'', w)
             | Some bytes \<Rightarrow>
                 (case next (request\<lparr>hq_body := Some bytes\<rparr>) w of
                    (None, w) \<Rightarrow> (json_error 504 ''request_timed_out'', w)
                  | (Some response, w) \<Rightarrow> (bound_response response (ig_max_response_bytes st), w))))"

section \<open>Which tokens are accepted\<close>

text \<open>What the library promises: a key it finds is in the set under that id, and it finds one if there is one.\<close>

definition jwt_contract :: "'k jwt_library \<Rightarrow> bool" where
  "jwt_contract lib \<longleftrightarrow>
     (\<forall>keys kid. (\<forall>key. jl_find lib keys kid = Some key \<longrightarrow> key \<in> set keys \<and> jk_key_id key = Some kid)
        \<and> (jl_find lib keys kid = None \<longrightarrow> (\<forall>key \<in> set keys. jk_key_id key \<noteq> Some kid)))"

definition asymmetric :: "jwk \<Rightarrow> bool" where
  "asymmetric key \<longleftrightarrow> (\<exists>parameters. jk_algorithm key = OtherParameters parameters)
     \<and> (\<exists>alg. jwk_algorithm key = Some alg \<and> alg \<notin> {HS256, HS384, HS512})"

lemma jwk_algorithm_asymmetric: "jwk_algorithm key = Some alg \<Longrightarrow> alg \<notin> {HS256, HS384, HS512}"
  by (auto simp: jwk_algorithm_def split: option.splits key_algorithm.splits)

lemma validate_jwks_loop_ok:
  "validate_jwks_loop ids keys = Inr u \<Longrightarrow>
   list_all asymmetric keys \<and> distinct (map jk_key_id keys) \<and> (\<forall>i \<in> set ids. Some i \<notin> set (map jk_key_id keys))"
proof (induction keys arbitrary: ids)
  case (Cons key rest)
  from Cons.prems obtain key_id alg parameters where k: "jk_key_id key = Some key_id" "key_id \<notin> set ids"
    "jwk_algorithm key = Some alg" "jk_algorithm key = OtherParameters parameters"
    and r: "validate_jwks_loop (key_id # ids) rest = Inr u"
    by (auto split: option.splits if_splits algorithm_parameters.splits)
  have "asymmetric key" using k jwk_algorithm_asymmetric [OF k(3)] by (simp add: asymmetric_def)
  then show ?case using Cons.IH [OF r] k(1,2) by auto
qed simp

lemma auth_new_ok:
  assumes "auth_new keys issuer audience scope = Inr av"
  shows "av = \<lparr>av_keys = keys, av_issuer = issuer, av_audience = audience, av_required_scope = scope\<rparr>"
    and "list_all asymmetric keys" and "distinct (map jk_key_id keys)"
  using assms validate_jwks_loop_ok [of "[]" keys]
  by (auto simp: auth_new_def validate_jwks_def bind_result_Inr_iff split: if_splits)

lemma check_claims_ok:
  "check_claims av now claims = Inr u \<longleftrightarrow>
     unat now \<le> unat (cl_exp claims) + 30
     \<and> (\<forall>nbf. cl_nbf claims = Some nbf \<longrightarrow> unat nbf \<le> unat now + 30)
     \<and> av_required_scope av \<in> set (ascii_words (cl_scope claims))"
proof -
  have limit: "unat (a :: u64) \<le> 2 ^ 64 - 1" for a
  proof -
    have "unat a < 2 ^ 64" using unsigned_less [of a] by simp
    then show ?thesis by simp
  qed
  have "saturating_add (cl_exp claims) CLOCK_SKEW_SECONDS < now \<longleftrightarrow> \<not> unat now \<le> unat (cl_exp claims) + 30"
    using limit [of now] by (auto simp: word_less_nat_alt saturating_add_unat CLOCK_SKEW_SECONDS_def)
  moreover have "nbf > saturating_add now CLOCK_SKEW_SECONDS \<longleftrightarrow> \<not> unat nbf \<le> unat now + 30" for nbf
    using limit [of nbf] by (auto simp: word_less_nat_alt saturating_add_unat CLOCK_SKEW_SECONDS_def)
  ultimately show ?thesis
    by (auto simp: check_claims_def is_some_and_def list_ex_iff split: option.splits)
qed

text \<open>
  C17: exactly the right tokens are accepted. With a key set the server starts with, a token passes if and
  only if it has 1 byte to 16 KiB, its header names a configured key and that key's own algorithm, which is
  never a symmetric one, the library verifies it under this key for exactly the configured issuer and
  audience, the time is at most 30 seconds beyond its expiry and before its start, at any clock value, and
  its scopes contain the required one as a word.
\<close>

theorem token_accepted_iff:
  assumes "auth_new keys issuer audience scope = Inr av" and "jwt_contract lib"
  shows "validate_token lib av now token = Inr () \<longleftrightarrow>
    token \<noteq> [] \<and> length token \<le> 16384
    \<and> (\<exists>header kid key alg decoding_key claims.
         jl_decode_header lib token = Some header \<and> jh_kid header = Some kid
         \<and> key \<in> set keys \<and> jk_key_id key = Some kid \<and> asymmetric key
         \<and> jwk_algorithm key = Some alg \<and> jh_alg header = alg \<and> jl_decoding_key lib key = Some decoding_key
         \<and> jl_decode lib token decoding_key
             \<lparr>vl_algorithm = alg, vl_issuers = [issuer], vl_audiences = [audience],
              vl_required_claims = [''exp'', ''iss'', ''aud''], vl_validate_exp = False, vl_validate_nbf = False\<rparr> = Some claims
         \<and> unat now \<le> unat (cl_exp claims) + 30
         \<and> (\<forall>nbf. cl_nbf claims = Some nbf \<longrightarrow> unat nbf \<le> unat now + 30)
         \<and> scope \<in> set (ascii_words (cl_scope claims)))"
proof -
  note av = auth_new_ok(1) [OF assms(1)] and keys = auth_new_ok(2,3) [OF assms(1)]
  have one: "jl_find lib keys kid = Some key \<longleftrightarrow> key \<in> set keys \<and> jk_key_id key = Some kid" for kid key
  proof
    assume "jl_find lib keys kid = Some key"
    then show "key \<in> set keys \<and> jk_key_id key = Some kid" using assms(2) by (simp add: jwt_contract_def)
  next
    assume k: "key \<in> set keys \<and> jk_key_id key = Some kid"
    then obtain key' where f: "jl_find lib keys kid = Some key'"
      using assms(2) by (cases "jl_find lib keys kid") (auto simp: jwt_contract_def)
    then have "key' \<in> set keys \<and> jk_key_id key' = Some kid" using assms(2) by (simp add: jwt_contract_def)
    then have "key' = key" using k keys(2) by (metis distinct_map inj_onD)
    then show "jl_find lib keys kid = Some key" using f by simp
  qed
  have asym: "key \<in> set keys \<Longrightarrow> asymmetric key" for key using keys(1) by (simp add: list_all_iff)
  show ?thesis
  proof (cases "token = [] \<or> length token > 16384")
    case True
    then show ?thesis by (auto simp: validate_token_def)
  next
    case False
    then show ?thesis
      using asym
      by (auto simp: validate_token_def bind_result_Inr_iff av one check_claims_ok access_validation_def
          if_distrib [of "\<lambda>r. r = Inr u" for u] cong: if_cong) blast+
  qed
qed

text \<open>A library that knows one token, signed for one issuer and audience by one key.\<close>

definition sample_key :: jwk where
  "sample_key = \<lparr>jk_key_id = Some ''k1'', jk_key_algorithm = Some KeyEdDSA, jk_algorithm = OtherParameters ''ed25519''\<rparr>"

definition sample_jwt :: "string jwt_library" where
  "sample_jwt =
     \<lparr>jl_decode_header = (\<lambda>token. if token = ''good'' then Some \<lparr>jh_alg = EdDSA, jh_kid = Some ''k1''\<rparr> else None),
      jl_find = (\<lambda>keys kid. find (\<lambda>key. jk_key_id key = Some kid) keys),
      jl_decoding_key = jk_key_id,
      jl_decode = (\<lambda>token key v. if token = ''good'' \<and> key = ''k1'' \<and> vl_issuers v = [''https://mcp'']
          \<and> vl_audiences v = [''https://mcp/speech'']
        then Some \<lparr>cl_exp = 100, cl_nbf = None, cl_scope = ''read publish''\<rparr> else None)\<rparr>"

lemma sample_jwt_contract: "jwt_contract sample_jwt"
  by (auto simp: jwt_contract_def sample_jwt_def find_Some_iff find_None_iff)

definition sample_auth :: auth_validator where
  "sample_auth = \<lparr>av_keys = [sample_key], av_issuer = ''https://mcp'', av_audience = ''https://mcp/speech'',
     av_required_scope = ''publish''\<rparr>"

lemma sample_auth_new: "auth_new [sample_key] ''https://mcp'' ''https://mcp/speech'' ''publish'' = Inr sample_auth"
  by (simp add: auth_new_def validate_jwks_def sample_key_def jwk_algorithm_def sample_auth_def)

theorem token_accepted_iff_witness:
  "validate_token sample_jwt sample_auth 130 ''good'' = Inr () \<and> validate_token sample_jwt sample_auth 131 ''good'' \<noteq> Inr ()"
proof -
  have "ascii_words ''read publish'' = [''read'', ''publish'']" by code_simp
  then show ?thesis
    using token_accepted_iff [OF sample_auth_new sample_jwt_contract, of 130 "''good''"]
      token_accepted_iff [OF sample_auth_new sample_jwt_contract, of 131 "''good''"]
    by (auto simp: sample_jwt_def sample_key_def jwk_algorithm_def asymmetric_def)
qed

end
