(* ===== verification/Mcp_Gate.thy ===== *)
theory Mcp_Gate
  imports Mcp_Access
begin

text \<open>
  The middleware of \<open>mcp/src/ingress.rs\<close> under concurrent requests: a step relation over the requests in
  flight and the permits of the semaphore, with the invariant that bounds them.
\<close>

section \<open>What a request may cause\<close>

lemma auth_error_refuses:
  "hr_status (auth_error http st failure b) \<in> {401, 403}" "hr_body (auth_error http st failure b) \<noteq> None"
  by (auto simp: auth_error_def json_error_def Let_def split: auth_failure.splits)

lemma admission_refuses:
  "admission lib http st now request = Inl response \<Longrightarrow> hr_status response \<in> {400, 401, 403}"
  using auth_error_refuses(1)
  by (fastforce simp: admission_def json_error_def split: if_splits option.splits sum.splits elim: map_err.elims)

lemma admission_ok:
  "admission lib http st now request = Inr u \<longleftrightarrow>
     \<not> has_query_token http (hq_query request)
     \<and> (\<exists>token. bearer_token http (hq_authorization request) = Some token \<and> validate_token lib (ig_auth st) now token = Inr ())"
  by (auto simp: admission_def split: option.splits)

section \<open>Requests at the same time\<close>

text \<open>
  Requests interleave at the awaits of the middleware: reading the body, running the service, reading its
  response. \<open>gt_started\<close> lists the requests the service has been given.
\<close>

datatype call_phase =
    Arrived http_request
  | Admitted http_request
  | Running http_request
  | Bounding mcp_response
  | Responded mcp_response

record gate =
  gt_permits :: nat
  gt_calls :: "call_phase list"
  gt_started :: "http_request list"

inductive gate_step :: "'k jwt_library \<Rightarrow> http_library \<Rightarrow> ingress_state \<Rightarrow> gate \<Rightarrow> gate \<Rightarrow> bool"
  for lib :: "'k jwt_library" and http :: http_library and st :: ingress_state where
  Refused: "i < length (gt_calls g) \<Longrightarrow> gt_calls g ! i = Arrived request \<Longrightarrow>
    admission lib http st now request = Inl response \<Longrightarrow>
    gate_step lib http st g (g\<lparr>gt_calls := (gt_calls g)[i := Responded response]\<rparr>)"
| Busy: "i < length (gt_calls g) \<Longrightarrow> gt_calls g ! i = Arrived request \<Longrightarrow>
    admission lib http st now request = Inr () \<Longrightarrow> gt_permits g = 0 \<Longrightarrow>
    gate_step lib http st g (g\<lparr>gt_calls := (gt_calls g)[i := Responded (json_error 503 ''server_busy'')]\<rparr>)"
| Enter: "i < length (gt_calls g) \<Longrightarrow> gt_calls g ! i = Arrived request \<Longrightarrow>
    admission lib http st now request = Inr () \<Longrightarrow> gt_permits g = Suc n \<Longrightarrow>
    gate_step lib http st g (g\<lparr>gt_permits := n, gt_calls := (gt_calls g)[i := Admitted request]\<rparr>)"
| TooLarge: "i < length (gt_calls g) \<Longrightarrow> gt_calls g ! i = Admitted request \<Longrightarrow>
    to_bytes (hq_body request) (ig_max_request_bytes st) = None \<Longrightarrow>
    gate_step lib http st g (g\<lparr>gt_permits := Suc (gt_permits g),
      gt_calls := (gt_calls g)[i := Responded (json_error 413 ''request_too_large'')]\<rparr>)"
| Start: "i < length (gt_calls g) \<Longrightarrow> gt_calls g ! i = Admitted request \<Longrightarrow>
    to_bytes (hq_body request) (ig_max_request_bytes st) = Some bytes \<Longrightarrow>
    gate_step lib http st g (g\<lparr>gt_calls := (gt_calls g)[i := Running (request\<lparr>hq_body := Some bytes\<rparr>)],
      gt_started := request\<lparr>hq_body := Some bytes\<rparr> # gt_started g\<rparr>)"
| Timeout: "i < length (gt_calls g) \<Longrightarrow> gt_calls g ! i = Running request \<Longrightarrow>
    gate_step lib http st g (g\<lparr>gt_permits := Suc (gt_permits g),
      gt_calls := (gt_calls g)[i := Responded (json_error 504 ''request_timed_out'')]\<rparr>)"
| Finish: "i < length (gt_calls g) \<Longrightarrow> gt_calls g ! i = Running request \<Longrightarrow>
    gate_step lib http st g (g\<lparr>gt_permits := Suc (gt_permits g), gt_calls := (gt_calls g)[i := Bounding response]\<rparr>)"
| Bound: "i < length (gt_calls g) \<Longrightarrow> gt_calls g ! i = Bounding response \<Longrightarrow>
    gate_step lib http st g
      (g\<lparr>gt_calls := (gt_calls g)[i := Responded (bound_response response (ig_max_response_bytes st))]\<rparr>)"

definition gate_start :: "nat \<Rightarrow> http_request list \<Rightarrow> gate" where
  "gate_start permits requests = \<lparr>gt_permits = permits, gt_calls = map Arrived requests, gt_started = []\<rparr>"

fun holding :: "call_phase \<Rightarrow> bool" where
  "holding (Admitted _) = True"
| "holding (Running _) = True"
| "holding _ = False"

text \<open>A request that was let in: at some time it carried a valid token, and its body has its bound.\<close>

definition let_in :: "'k jwt_library \<Rightarrow> http_library \<Rightarrow> ingress_state \<Rightarrow> http_request \<Rightarrow> bool" where
  "let_in lib http st request \<longleftrightarrow>
     \<not> has_query_token http (hq_query request)
     \<and> (\<exists>token now. bearer_token http (hq_authorization request) = Some token
          \<and> validate_token lib (ig_auth st) now token = Inr ())"

text \<open>An error of the middleware itself, or a response whose body has its bound.\<close>

definition bounded_answer :: "ingress_state \<Rightarrow> mcp_response \<Rightarrow> bool" where
  "bounded_answer st response \<longleftrightarrow>
     (\<exists>bytes. hr_body response = Some bytes \<and> (length bytes \<le> ig_max_response_bytes st \<or> length bytes \<le> 64))"

fun phase_ok :: "'k jwt_library \<Rightarrow> http_library \<Rightarrow> ingress_state \<Rightarrow> call_phase \<Rightarrow> bool" where
  "phase_ok lib http st (Arrived _) = True"
| "phase_ok lib http st (Admitted request) = let_in lib http st request"
| "phase_ok lib http st (Running request) = let_in lib http st request"
| "phase_ok lib http st (Bounding _) = True"
| "phase_ok lib http st (Responded response) = bounded_answer st response"

definition gate_invariant :: "'k jwt_library \<Rightarrow> http_library \<Rightarrow> ingress_state \<Rightarrow> nat \<Rightarrow> gate \<Rightarrow> bool" where
  "gate_invariant lib http st permits g \<longleftrightarrow>
     gt_permits g + length (filter holding (gt_calls g)) = permits
     \<and> list_all (phase_ok lib http st) (gt_calls g)
     \<and> list_all (\<lambda>request. let_in lib http st request
         \<and> (\<exists>bytes. hq_body request = Some bytes \<and> length bytes \<le> ig_max_request_bytes st)) (gt_started g)"

lemma filter_update:
  "i < length xs \<Longrightarrow> length (filter P (xs[i := x])) + (if P (xs ! i) then 1 else 0)
     = length (filter P xs) + (if P x then 1 else 0)"
proof (induction xs arbitrary: i)
  case (Cons y ys)
  then show ?case using Cons.IH [of "i - 1"] by (cases i) (auto split: if_splits)
qed simp

lemma list_all_update: "list_all P xs \<Longrightarrow> P x \<Longrightarrow> list_all P (xs[i := x])"
  by (auto simp: list_all_iff dest: set_update_subset_insert [THEN subsetD])

lemma let_inI: "admission lib http st now request = Inr u \<Longrightarrow> let_in lib http st request"
  by (auto simp: admission_ok let_in_def)

lemma let_in_body [simp]: "let_in lib http st (request\<lparr>hq_body := body\<rparr>) = let_in lib http st request"
  by (simp add: let_in_def)

lemma to_bytes_Some: "to_bytes body limit = Some bytes \<longleftrightarrow> body = Some bytes \<and> length bytes \<le> limit"
  by (auto simp: to_bytes_def split: option.splits)

lemma bounded_error: "length code \<le> 32 \<Longrightarrow> bounded_answer st (json_error status code)"
  by (simp add: bounded_answer_def json_error_def)

lemma auth_error_bounded: "bounded_answer st' (auth_error http st failure b)"
  by (auto simp: bounded_answer_def auth_error_def json_error_def Let_def split: auth_failure.splits)

lemma admission_bounded: "admission lib http st now request = Inl response \<Longrightarrow> bounded_answer st' response"
  using auth_error_bounded bounded_error
  by (auto simp: admission_def split: if_splits option.splits elim!: map_err.elims)

lemma bound_response_bounded: "bounded_answer st (bound_response response (ig_max_response_bytes st))"
  using bounded_error [of "''response_too_large''"]
  by (auto simp: bound_response_def bounded_answer_def to_bytes_Some split: option.splits)

lemma gate_invariant_step:
  assumes "gate_step lib http st g g'" and "gate_invariant lib http st permits g"
  shows "gate_invariant lib http st permits g'"
  using assms
proof (cases rule: gate_step.cases)
  case (Refused i request now response)
  then show ?thesis
    using assms(2) filter_update [of i "gt_calls g" holding "Responded response"] admission_bounded
    by (auto simp: gate_invariant_def intro!: list_all_update)
next
  case (Busy i request now)
  then show ?thesis
    using assms(2) filter_update [of i "gt_calls g" holding "Responded (json_error 503 ''server_busy'')"] bounded_error
    by (auto simp: gate_invariant_def intro!: list_all_update)
next
  case (Enter i request now n)
  then show ?thesis
    using assms(2) filter_update [of i "gt_calls g" holding "Admitted request"] let_inI [OF Enter(4)]
    by (auto simp: gate_invariant_def intro!: list_all_update)
next
  case (TooLarge i request)
  then show ?thesis
    using assms(2) filter_update [of i "gt_calls g" holding "Responded (json_error 413 ''request_too_large'')"] bounded_error
    by (auto simp: gate_invariant_def intro!: list_all_update)
next
  case (Start i request bytes)
  then have "phase_ok lib http st (gt_calls g ! i)"
    using assms(2) by (auto simp: gate_invariant_def list_all_length)
  then show ?thesis
    using Start assms(2) filter_update [of i "gt_calls g" holding "Running (request\<lparr>hq_body := Some bytes\<rparr>)"]
    by (auto simp: gate_invariant_def to_bytes_Some intro!: list_all_update)
next
  case (Timeout i request)
  then show ?thesis
    using assms(2) filter_update [of i "gt_calls g" holding "Responded (json_error 504 ''request_timed_out'')"] bounded_error
    by (auto simp: gate_invariant_def intro!: list_all_update)
next
  case (Finish i request response)
  then show ?thesis
    using assms(2) filter_update [of i "gt_calls g" holding "Bounding response"]
    by (auto simp: gate_invariant_def intro!: list_all_update)
next
  case (Bound i response)
  then show ?thesis
    using assms(2) bound_response_bounded
      filter_update [of i "gt_calls g" holding "Responded (bound_response response (ig_max_response_bytes st))"]
    by (auto simp: gate_invariant_def intro!: list_all_update)
qed

lemma gate_invariant_reachable:
  assumes "(gate_step lib http st)\<^sup>*\<^sup>* (gate_start permits requests) g"
  shows "gate_invariant lib http st permits g"
  using assms
proof (induction rule: rtranclp_induct)
  case base
  show ?case by (simp add: gate_invariant_def gate_start_def list_all_iff filter_empty_conv)
next
  case (step g g')
  then show ?case using gate_invariant_step by blast
qed

text \<open>
  C16: the gate in front of the tool holds in every interleaving of requests. The service is only given
  requests that carry no token in the query and at some moment carried a valid one in a single
  \<open>Authorization\<close> header, and their bodies are within the limit; never more requests are inside than there are
  permits; no permit is lost: once no request is inside all are free again; and every response is within
  the response limit or one of the short errors.
\<close>

theorem gate_holds:
  assumes "(gate_step lib http st)\<^sup>*\<^sup>* (gate_start permits requests) g"
  shows "(\<forall>request \<in> set (gt_started g). let_in lib http st request
        \<and> (\<exists>bytes. hq_body request = Some bytes \<and> length bytes \<le> ig_max_request_bytes st))
    \<and> length (filter holding (gt_calls g)) \<le> permits
    \<and> (filter holding (gt_calls g) = [] \<longrightarrow> gt_permits g = permits)
    \<and> (\<forall>response. Responded response \<in> set (gt_calls g) \<longrightarrow> bounded_answer st response)"
  using gate_invariant_reachable [OF assms]
  by (auto simp: gate_invariant_def list_all_iff)

text \<open>Two requests and one permit: the second is refused while the first is inside.\<close>

definition sample_http :: http_library where
  "sample_http = \<lparr>hl_to_str = Some, hl_header_value = (\<lambda>content. True), hl_query_pairs = (\<lambda>content. [])\<rparr>"

definition sample_ingress :: ingress_state where
  "sample_ingress = ingress_new sample_auth 1 30 100 100 ''https://mcp/meta'' ''publish''"

definition sample_call :: http_request where
  "sample_call = \<lparr>hq_query = None, hq_authorization = [''bearer good''], hq_body = Some ''{}''\<rparr>"

lemma sample_token: "validate_token sample_jwt sample_auth 100 ''good'' = Inr ()"
proof -
  have "ascii_words ''read publish'' = [''read'', ''publish'']" by code_simp
  then show ?thesis
    by (simp add: validate_token_def sample_jwt_def sample_auth_def sample_key_def jwk_algorithm_def ok_or_def
        access_validation_def check_claims_def saturating_add_def CLOCK_SKEW_SECONDS_def is_some_and_def)
qed

lemma sample_admission: "admission sample_jwt sample_http sample_ingress 100 sample_call = Inr ()"
proof -
  have "bearer_token sample_http [''bearer good''] = Some ''good''" by code_simp
  then show ?thesis
    using sample_token
    by (simp add: admission_ok sample_call_def has_query_token_def is_some_and_def sample_ingress_def ingress_new_def)
qed

theorem gate_holds_witness:
  "\<exists>g. (gate_step sample_jwt sample_http sample_ingress)\<^sup>*\<^sup>* (gate_start 1 [sample_call, sample_call]) g
     \<and> gt_started g = [sample_call] \<and> let_in sample_jwt sample_http sample_ingress sample_call
     \<and> gt_calls g ! 1 = Responded (json_error 503 ''server_busy'')"
proof -
  let ?step = "gate_step sample_jwt sample_http sample_ingress"
  let ?a = "\<lparr>gt_permits = 0, gt_calls = [Admitted sample_call, Arrived sample_call], gt_started = []\<rparr>"
  let ?b = "\<lparr>gt_permits = 0, gt_calls = [Running sample_call, Arrived sample_call], gt_started = [sample_call]\<rparr>"
  let ?c = "\<lparr>gt_permits = 0, gt_calls = [Running sample_call, Responded (json_error 503 ''server_busy'')],
      gt_started = [sample_call]\<rparr>"
  have 1: "?step (gate_start 1 [sample_call, sample_call]) ?a"
    using gate_step.Enter [of 0 "gate_start 1 [sample_call, sample_call]", OF _ _ sample_admission]
    by (simp add: gate_start_def)
  have same: "sample_call\<lparr>hq_body := Some ''{}''\<rparr> = sample_call" by (simp add: sample_call_def)
  have 2: "?step ?a ?b"
    using gate_step.Start [of 0 ?a sample_call sample_ingress "''{}''" sample_jwt sample_http] same
    by (simp add: to_bytes_def sample_call_def sample_ingress_def ingress_new_def)
  have 3: "?step ?b ?c"
    using gate_step.Busy [of 1 ?b, OF _ _ sample_admission] by simp
  have "?step\<^sup>*\<^sup>* (gate_start 1 [sample_call, sample_call]) ?c" 
    by (rule converse_rtranclp_into_rtranclp, rule 1, rule converse_rtranclp_into_rtranclp, rule 2, rule r_into_rtranclp, rule 3)
  from gate_holds [OF this] this show ?thesis by (intro exI [of _ ?c]) simp
qed

end
