(* ===== verification/Mcp_Server.thy ===== *)
theory Mcp_Server
  imports Mcp_Gate Local_Server
begin

text \<open>
  The MCP server behind its gate: the tool that submits to the daemon (\<open>mcp/src/tool.rs\<close>), the routes and the
  start of the server (\<open>mcp/src/server.rs\<close> and \<open>mcp/src/main.rs\<close>). The MCP protocol itself (\<open>rmcp\<close>), TLS and
  the HTTP server are third-party.
\<close>

section \<open>The tool\<close>

record speech_tool =
  to_socket_path :: string
  to_timeout :: u64

definition speech_tool_new :: "string \<Rightarrow> u64 \<Rightarrow> speech_tool" where
  "speech_tool_new socket_path timeout = \<lparr>to_socket_path = socket_path, to_timeout = timeout\<rparr>"

record publish_speech_input =
  pi_request :: producer_request
  pi_wait_for_answer_seconds :: "u64 option"

record call_tool_result =
  ct_response :: local_publish_response
  ct_text :: string
  ct_is_error :: bool

definition structured :: "local_publish_response \<Rightarrow> string \<Rightarrow> bool \<Rightarrow> call_tool_result" where
  "structured response content error = \<lparr>ct_response = response, ct_text = content, ct_is_error = error\<rparr>"

text \<open>No value: the response is one the match calls unreachable or has no arm for.\<close>

definition tool_success :: "local_publish_response \<Rightarrow> call_tool_result option" where
  "tool_success response =
     (case response of
        LocalPublished version request_id receipt_id event_id answer_wait \<Rightarrow>
          Some (structured response
            (''Published TTS29 request '' @ request_id @ '' as event '' @ event_id @ '' with receipt ''
             @ u64_to_string receipt_id @ ''.'') False)
      | _ \<Rightarrow> None)"

definition tool_error :: "local_publish_response \<Rightarrow> call_tool_result option" where
  "tool_error response =
     (case response of LocalError version code message \<Rightarrow> Some (structured response message True) | _ \<Rightarrow> None)"

definition public_error_message :: "string \<Rightarrow> string" where
  "public_error_message code =
     (if code \<in> {''invalid_request'', ''malformed_request'', ''unsupported_version'', ''invalid_answer_wait''}
      then ''the speech publication request is invalid''
      else if code = ''request_conflict'' then ''the request ID was already used for different content''
      else if code = ''request_too_large'' then ''the speech publication request is too large''
      else if code = ''daemon_unavailable'' then ''the private TTS29 producer is unavailable''
      else ''the private TTS29 producer could not complete publication'')"

definition local_of :: "publish_speech_input \<Rightarrow> local_publish_request" where
  "local_of input =
     \<lparr>lp_version = LOCAL_PROTOCOL_VERSION, lp_request = pi_request input,
      lp_wait_for_answer_seconds = pi_wait_for_answer_seconds input, lp_agent_nsec = None\<rparr>"

text \<open>\<open>submit_to\<close> is \<open>submit_local_with_timeout\<close> on the configured socket, run on a blocking thread.\<close>

definition publish_speech ::
  "(local_publish_request \<Rightarrow> ('w, io_failure, local_publish_response) action) \<Rightarrow> publish_speech_input
   \<Rightarrow> 'w \<Rightarrow> call_tool_result option \<times> 'w" where
  "publish_speech submit_to input w =
     (let local = local_of input in
      case validate_publish local of
        Inl error \<Rightarrow> (tool_error (local_error (le_code error) (le_message error)), w)
      | Inr _ \<Rightarrow>
          (case submit_to local w of (outcome, w) \<Rightarrow>
             (let response = (case outcome of
                Inr response \<Rightarrow> response
              | Inl _ \<Rightarrow> local_error ''daemon_unavailable'' ''the private TTS29 producer is unavailable'')
              in case response of
                   LocalPublished version request_id receipt_id event_id answer_wait \<Rightarrow> (tool_success response, w)
                 | LocalError version code message \<Rightarrow>
                     (tool_error (LocalError version code (public_error_message code)), w)
                 | PublishedTree version request_id root_event_id child_event_ids \<Rightarrow> (None, w))))"

section \<open>The server\<close>

record protected_resource_metadata =
  rm_resource :: string
  rm_authorization_servers :: "string list"
  rm_scopes_supported :: "string list"
  rm_bearer_methods_supported :: "string list"
  rm_resource_name :: string

text \<open>The routes: metadata for everybody, and the MCP endpoint behind the middleware with its permits.\<close>

record router =
  rt_metadata_paths :: "string list"
  rt_metadata :: protected_resource_metadata
  rt_mcp_path :: string
  rt_ingress :: ingress_state
  rt_tool :: speech_tool
  rt_allowed_hosts :: "string list"
  rt_allowed_origins :: "string list"

definition build_router :: "mcp_config \<Rightarrow> auth_validator \<Rightarrow> router" where
  "build_router config auth =
     \<lparr>rt_metadata_paths = mc_metadata_path config
        # (if mc_metadata_path config \<noteq> ''/.well-known/oauth-protected-resource''
           then [''/.well-known/oauth-protected-resource''] else []),
      rt_metadata = \<lparr>rm_resource = mc_resource config, rm_authorization_servers = mc_authorization_servers config,
        rm_scopes_supported = [mc_required_scope config], rm_bearer_methods_supported = [''header''],
        rm_resource_name = ''TTS29 speech publisher''\<rparr>,
      rt_mcp_path = mc_mcp_path config,
      rt_ingress = ingress_new auth (mc_max_concurrency config) (mc_execution_timeout config)
        (mc_max_request_bytes config) (mc_max_response_bytes config) (mc_metadata_url config) (mc_required_scope config),
      rt_tool = speech_tool_new (mc_daemon_socket_path config) (mc_execution_timeout config), rt_allowed_hosts = mc_allowed_hosts config,
      rt_allowed_origins = mc_allowed_origins config\<rparr>"

text \<open>What is served: the key set is read and checked and the certificate loaded before anything listens.\<close>

definition run_server ::
  "(string \<Rightarrow> string + jwk list) \<Rightarrow> (string \<Rightarrow> io_failure + string) \<Rightarrow> (string \<Rightarrow> string \<Rightarrow> string + unit) \<Rightarrow> mcp_config
   \<Rightarrow> string + router" where
  "run_server decode read load_tls config =
     bind_result (from_jwks_file decode (read (mc_jwks_path config)) (mc_issuer config) (mc_audience config)
         (mc_required_scope config)) (\<lambda>auth.
     bind_result (map_err (\<lambda>error. ''TLS configuration could not be loaded: '' @ error)
         (load_tls (mc_tls_certificate_path config) (mc_tls_private_key_path config))) (\<lambda>_.
       Inr (build_router config auth)))"

datatype mcp_argument = McpConfigPath string | McpHelp | McpUsage string

definition mcp_config_argument :: "string list \<Rightarrow> mcp_argument" where
  "mcp_config_argument arguments =
     (case arguments of
        [flag, path] \<Rightarrow> if flag = ''--config'' then McpConfigPath path else McpUsage ''usage: tts29-mcp --config <mcp.json>''
      | [flag] \<Rightarrow> if flag = ''--help'' \<or> flag = ''-h'' then McpHelp else McpUsage ''usage: tts29-mcp --config <mcp.json>''
      | _ \<Rightarrow> McpUsage ''usage: tts29-mcp --config <mcp.json>'')"

text \<open>The start of the process; help serves nothing.\<close>

definition run_mcp ::
  "url_parse \<Rightarrow> (string \<Rightarrow> string option) \<Rightarrow> (string \<Rightarrow> string + mcp_file_config) \<Rightarrow> (string \<Rightarrow> string + jwk list)
   \<Rightarrow> (string \<Rightarrow> io_failure + string) \<Rightarrow> (string \<Rightarrow> string \<Rightarrow> string + unit) \<Rightarrow> string list \<Rightarrow> string + router option" where
  "run_mcp parse_url parse_address decode_config decode_keys read load_tls arguments =
     (case mcp_config_argument arguments of
        McpUsage error \<Rightarrow> Inl error
      | McpHelp \<Rightarrow> Inr None
      | McpConfigPath path \<Rightarrow>
          bind_result (load_mcp_config parse_url parse_address decode_config path (read path)) (\<lambda>config.
          bind_result (run_server decode_keys read load_tls config) (\<lambda>router. Inr (Some router))))"

text \<open>
  \<open>shutdown_signal\<close> on Unix: the first of the two futures that completes. Waiting for an interrupt completes at
  once when it cannot be installed; without a handler for it the termination signal is never received. The result is
  what arrives after the signal, \<open>None\<close> when the wait goes on.
\<close>

datatype os_signal = Interrupt | Terminate | OtherSignal

definition shutdown_signal :: "bool \<Rightarrow> bool \<Rightarrow> os_signal list \<Rightarrow> os_signal list option" where
  "shutdown_signal interrupt_installed terminate_installed signals =
     (if \<not> interrupt_installed then Some signals
      else
        (case dropWhile (\<lambda>signal. signal \<noteq> Interrupt \<and> \<not> (signal = Terminate \<and> terminate_installed)) signals of
           [] \<Rightarrow> None
         | signal # rest \<Rightarrow> Some rest))"

lemma shutdown_signal_first:
  "set before \<subseteq> {OtherSignal} \<Longrightarrow> signal \<in> {Interrupt, Terminate} \<Longrightarrow>
   shutdown_signal True True (before @ signal # rest) = Some rest"
  by (induction before) (auto simp: shutdown_signal_def)

text \<open>\<open>main\<close>: the exit status, given the runtime, the start and how serving the router ended.\<close>

definition main_mcp :: "string + unit \<Rightarrow> string + router option \<Rightarrow> (router \<Rightarrow> string + unit) \<Rightarrow> nat" where
  "main_mcp runtime started serve =
     (case runtime of
        Inl error \<Rightarrow> 1
      | Inr _ \<Rightarrow>
          (case started of
             Inl error \<Rightarrow> 1
           | Inr None \<Rightarrow> 0
           | Inr (Some router) \<Rightarrow>
               (case map_err (\<lambda>error. ''HTTPS MCP endpoint failed: '' @ error) (serve router) of Inl error \<Rightarrow> 1 | Inr _ \<Rightarrow> 0)))"

text \<open>
  The MCP service that \<open>rmcp\<close> makes of the tool: whether a request is a call of the tool, its response to
  anything else, how a result is written, and whether the deadline passes before the response is there.
  A submission that was handed to its blocking thread completes even then.
\<close>

record rmcp_service =
  rs_call :: "http_request \<Rightarrow> publish_speech_input option"
  rs_other :: "http_request \<Rightarrow> mcp_response"
  rs_result :: "call_tool_result option \<Rightarrow> mcp_response"
  rs_expires :: "http_request \<Rightarrow> bool"

definition mcp_service ::
  "rmcp_service \<Rightarrow> (local_publish_request \<Rightarrow> ('w, io_failure, local_publish_response) action)
   \<Rightarrow> http_request \<Rightarrow> 'w \<Rightarrow> mcp_response option \<times> 'w" where
  "mcp_service rs submit_to request w =
     (case (case rs_call rs request of
          None \<Rightarrow> (rs_other rs request, w)
        | Some input \<Rightarrow> (case publish_speech submit_to input w of (result, w) \<Rightarrow> (rs_result rs result, w))) of
        (response, w) \<Rightarrow> (if rs_expires rs request then None else Some response, w))"

definition serve_mcp ::
  "'k jwt_library \<Rightarrow> http_library \<Rightarrow> router \<Rightarrow> rmcp_service
   \<Rightarrow> (local_publish_request \<Rightarrow> ('w, io_failure, local_publish_response) action)
   \<Rightarrow> u64 \<Rightarrow> nat \<Rightarrow> http_request \<Rightarrow> 'w \<Rightarrow> mcp_response \<times> 'w" where
  "serve_mcp lib http router rs submit_to now permits request w =
     protect lib http (rt_ingress router) now (mcp_service rs submit_to) request permits w"

section \<open>The daemon as the tool sees it\<close>

text \<open>
  What a result of the tool tells: a success is a publication that is true; an error is shown with the public
  text of its code, or with the text of the check the request failed before it was sent.
\<close>

definition result_truthful ::
  "(local_publish_request \<Rightarrow> local_publish_response \<Rightarrow> 'w \<Rightarrow> bool) \<Rightarrow> publish_speech_input \<Rightarrow> call_tool_result option \<Rightarrow> 'w \<Rightarrow> bool" where
  "result_truthful truthful input result w \<longleftrightarrow>
     (\<exists>r. result = Some r
        \<and> (if ct_is_error r
           then \<exists>version code. ct_response r = LocalError version code (ct_text r)
                  \<and> (ct_text r = public_error_message code
                     \<or> (\<exists>error. validate_publish (local_of input) = Inl error \<and> ct_text r = le_message error))
           else (\<exists>version request_id receipt_id event_id answer_wait.
                  ct_response r = LocalPublished version request_id receipt_id event_id answer_wait)
                \<and> truthful (local_of input) (ct_response r) w))"

text \<open>
  What a client of the daemon relies on: a submission keeps the state sound and only grows it, and a
  response tells the truth about it; a tree is never the response to a single request.
\<close>

locale publish_backend =
  fixes submit_to :: "local_publish_request \<Rightarrow> ('w, io_failure, local_publish_response) action"
    and sound :: "'w \<Rightarrow> bool"
    and grown :: "'w \<Rightarrow> 'w \<Rightarrow> bool"
    and truthful :: "local_publish_request \<Rightarrow> local_publish_response \<Rightarrow> 'w \<Rightarrow> bool"
  assumes grown_refl: "sound w \<Longrightarrow> grown w w"
    and submit_grows: "sound w \<Longrightarrow> submit_to input w = (outcome, w') \<Longrightarrow> sound w' \<and> grown w w'"
    and submit_truthful: "sound w \<Longrightarrow> submit_to input w = (Inr response, w') \<Longrightarrow> truthful input response w'"
    and no_tree: "\<not> truthful input (PublishedTree version request_id root children) w"
begin

lemma publish_speech_truthful:
  assumes "sound w" and "publish_speech submit_to input w = (result, w')"
  shows "sound w' \<and> grown w w' \<and> result_truthful truthful input result w'"
proof (cases "validate_publish (local_of input)")
  case (Inl error)
  then show ?thesis
    using assms grown_refl
    by (auto simp: publish_speech_def tool_error_def local_error_def structured_def result_truthful_def)
next
  case (Inr u)
  obtain outcome w1 where s: "submit_to (local_of input) w = (outcome, w1)" by fastforce
  note keep = submit_grows [OF assms(1) s]
  show ?thesis
  proof (cases outcome)
    case (Inl error)
    then show ?thesis
      using assms(2) Inr s keep
      by (auto simp: publish_speech_def tool_error_def local_error_def structured_def result_truthful_def)
  next
    case (Inr response)
    note true = submit_truthful [OF assms(1) s [unfolded Inr]]
    then show ?thesis
      using assms(2) Inr s keep \<open>validate_publish (local_of input) = Inr u\<close> no_tree
      by (cases response)
        (auto simp: publish_speech_def tool_error_def tool_success_def structured_def result_truthful_def)
  qed
qed

lemma mcp_service_grows:
  "sound w \<Longrightarrow> mcp_service rs submit_to request w = (response, w') \<Longrightarrow> sound w' \<and> grown w w'"
  using publish_speech_truthful grown_refl
  by (auto simp: mcp_service_def split: option.splits prod.splits)

lemma serve_mcp_grows:
  assumes "sound w" and "serve_mcp lib http router rs submit_to now permits request w = (response, w')"
  shows "sound w' \<and> grown w w'"
proof -
  have "w' = w \<or> (\<exists>inner q. mcp_service rs submit_to inner w = (q, w'))"
    using assms(2)
    by (auto simp: serve_mcp_def protect_def split: sum.splits if_splits option.splits prod.splits)
  then show ?thesis using mcp_service_grows [OF assms(1)] grown_refl assms(1) by auto
qed

end

abbreviation daemon_socket ::
  "'x services \<Rightarrow> producer \<Rightarrow> ('x \<Rightarrow> wait_environment \<times> 'x) \<Rightarrow> local_codec \<Rightarrow> u64 \<Rightarrow> local_publish_request
   \<Rightarrow> ('x daemon_world, io_failure, local_publish_response) action" where
  "daemon_socket sv pd attend lc timeout input \<equiv>
     submit_local_with_timeout lc (served_exchange lc (production_service sv pd attend)) input timeout"

interpretation behind_socket: publish_backend
  "daemon_socket sv pd attend lc timeout" "backend_sound sv lc pd" "grows sv pd" "response_truthful sv pd"
  for sv :: "'x services" and pd attend lc timeout
proof
  fix w w' :: "'x daemon_world" and input outcome response
  show "backend_sound sv lc pd w \<Longrightarrow> grows sv pd w w" by (simp add: backend_sound_def grows_def)
  show "backend_sound sv lc pd w \<Longrightarrow> daemon_socket sv pd attend lc timeout input w = (outcome, w') \<Longrightarrow>
      backend_sound sv lc pd w' \<and> grows sv pd w w'"
    using submit_production_grows [of sv lc pd w attend "lc_encode_publish lc input" "Some timeout"]
    by (auto simp: submit_local_with_timeout_def backend_sound_def grows_def)
  show "backend_sound sv lc pd w \<Longrightarrow> daemon_socket sv pd attend lc timeout input w = (Inr response, w') \<Longrightarrow>
      response_truthful sv pd input response w'"
    unfolding submit_local_with_timeout_def by (rule submit_production_truthful)
  show "\<not> response_truthful sv pd input (PublishedTree version request_id root children) w"
    for version request_id root children by (simp add: response_truthful_def)
qed

section \<open>What hosted callers can do\<close>

text \<open>
  C15: the tool tells the truth and nothing else. Submitting to the daemon, its match always has an arm for the
  response; a success reports a publication that is on disk for exactly this request, made without any
  agent key; an error carries one of the public texts or names the check the request failed, never an
  internal message of the daemon; and every job published before stays published.
\<close>

theorem mcp_speech_truthful:
  assumes "codec_round_trip (sv_codec sv)" and "local_codec_contract lc" and "daemon_sound sv pd w"
    and "publish_speech (daemon_socket sv pd attend lc timeout) input w = (result, w')"
  shows "daemon_sound sv pd w' \<and> published_kept (daemon_jobs sv pd w) (daemon_jobs sv pd w')
    \<and> result_truthful (response_truthful sv pd) input result w'"
proof -
  have "backend_sound sv lc pd w" using assms by (simp add: backend_sound_def)
  then show ?thesis using behind_socket.publish_speech_truthful [OF _ assms(4)] by (simp add: grows_def)
qed

definition sample_speech :: publish_speech_input where
  "sample_speech = \<lparr>pi_request = sample_request, pi_wait_for_answer_seconds = None\<rparr>"

lemma sample_speech_local: "local_of sample_speech = sample_submission_input"
  by (simp add: local_of_def sample_speech_def sample_submission_input_def LOCAL_PROTOCOL_VERSION_def)

lemma sample_socket:
  "daemon_socket refusing_services sample_producer quiet sample_local_codec 60 sample_submission_input sample_world
     = (Inr sample_response, sample_world)"
  using respond_production(1) [OF sample_local_codec_contract sample_codec_facts(1),
      of refusing_services sample_producer quiet sample_world]
  by (simp add: submit_local_with_timeout_def submit_def sample_codec_facts MAX_LOCAL_FRAME_BYTES_def and_then_def
      served_exchange_def serve_stream_def read_bounded_def sample_publish_local of_result_def
      local_codec_contractD(3) [OF sample_local_codec_contract sample_codec_facts(2)])

definition sample_tool_result :: call_tool_result where
  "sample_tool_result = \<lparr>ct_response = sample_response,
     ct_text = ''Published TTS29 request req-1 as event '' @ replicate 64 (CHR ''a'') @ '' with receipt 5.'', ct_is_error = False\<rparr>"

lemma sample_valid: "validate_publish sample_submission_input = Inr ()"
  by (simp add: validate_publish_def sample_submission_input_def LOCAL_PROTOCOL_VERSION_def is_some_and_def)

lemma sample_published:
  "publish_speech (daemon_socket refusing_services sample_producer quiet sample_local_codec 60) sample_speech sample_world
     = (Some sample_tool_result, sample_world)"
proof -
  have five: "u64_to_string 5 = ''5''" by code_simp
  show ?thesis
    by (simp add: publish_speech_def Let_def sample_speech_local sample_valid sample_socket)
      (simp add: sample_response_def tool_success_def structured_def sample_tool_result_def five)
qed

theorem mcp_speech_truthful_witness:
  "publish_speech (daemon_socket refusing_services sample_producer quiet sample_local_codec 60) sample_speech sample_world
     = (Some sample_tool_result, sample_world)
   \<and> response_truthful refusing_services sample_producer sample_submission_input sample_response sample_world"
proof -
  have "codec_round_trip (sv_codec refusing_services)" by (simp add: refusing_services_def sample_codec_round_trip)
  from mcp_speech_truthful [OF this sample_local_codec_contract sample_world_sound sample_published]
  show ?thesis using sample_published by (simp add: result_truthful_def sample_tool_result_def sample_speech_local)
qed

lemma run_mcp_router:
  assumes "run_mcp parse_url parse_address decode_config decode_keys read load_tls arguments = Inr (Some router)"
  obtains path config keys auth where "router = build_router config auth"
    "auth_new keys (mc_issuer config) (mc_audience config) (mc_required_scope config) = Inr auth"
    "load_mcp_config parse_url parse_address decode_config path (read path) = Inr config"
  using assms
  by (auto simp: run_mcp_def run_server_def from_jwks_file_def bind_result_Inr_iff split: mcp_argument.splits)

lemma protect_effect:
  assumes "protect lib http st now next request permits w = (response, w')"
  shows "bounded_answer st response"
    and "w' \<noteq> w \<Longrightarrow> permits \<noteq> 0 \<and> admission lib http st now request = Inr ()"
    and "admission lib http st now request = Inl refusal \<Longrightarrow> response = refusal"
  using assms admission_bounded bound_response_bounded bounded_error
  by (auto simp: protect_def split: sum.splits if_splits option.splits prod.splits)

text \<open>
  C14: nobody reaches the daemon through the server without the token it advertises. For a server that
  started, a request leaves the journal readable and keeps every published job; it changes the daemon's state
  only if a permit was free, no token was in the query and the single bearer token was valid at that moment
  for the resource, an authorization server and a scope that the published metadata names; without such a
  token it is refused with status 400, 401 or 403; and every response is bounded.
\<close>

theorem mcp_request_safe:
  assumes "run_mcp parse_url parse_address decode_config decode_keys read load_tls arguments = Inr (Some router)"
    and "codec_round_trip (sv_codec sv)" and "local_codec_contract lc" and "daemon_sound sv pd w"
    and "serve_mcp lib http router rs (daemon_socket sv pd attend lc (to_timeout (rt_tool router))) now permits request w = (response, w')"
  shows "daemon_sound sv pd w' \<and> published_kept (daemon_jobs sv pd w) (daemon_jobs sv pd w')
    \<and> bounded_answer (rt_ingress router) response
    \<and> (w' \<noteq> w \<or> hr_status response \<notin> {400, 401, 403} \<longrightarrow>
         \<not> has_query_token http (hq_query request)
         \<and> (\<exists>token auth. bearer_token http (hq_authorization request) = Some token
              \<and> auth = ig_auth (rt_ingress router) \<and> validate_token lib auth now token = Inr ()
              \<and> av_audience auth = rm_resource (rt_metadata router)
              \<and> av_issuer auth \<in> set (rm_authorization_servers (rt_metadata router))
              \<and> rm_scopes_supported (rt_metadata router) = [av_required_scope auth]
              \<and> list_all asymmetric (av_keys auth)))
    \<and> (w' \<noteq> w \<longrightarrow> permits \<noteq> 0)"
proof -
  have "backend_sound sv lc pd w" using assms by (simp add: backend_sound_def)
  then have kept: "daemon_sound sv pd w' \<and> published_kept (daemon_jobs sv pd w) (daemon_jobs sv pd w')"
    using behind_socket.serve_mcp_grows [OF _ assms(5)] by (simp add: grows_def)
  obtain path config keys auth where r: "router = build_router config auth"
    and auth: "auth_new keys (mc_issuer config) (mc_audience config) (mc_required_scope config) = Inr auth"
    and loaded: "load_mcp_config parse_url parse_address decode_config path (read path) = Inr config"
    using assms(1) by (rule run_mcp_router)
  note facts = protect_effect [OF assms(5) [unfolded serve_mcp_def]]
  have config: "mc_audience config = mc_resource config" "mc_issuer config \<in> set (mc_authorization_servers config)"
    using mcp_config_facts [OF loaded] by blast+
  have who: "av_audience auth = rm_resource (rt_metadata router)"
    "av_issuer auth \<in> set (rm_authorization_servers (rt_metadata router))"
    "rm_scopes_supported (rt_metadata router) = [av_required_scope auth]" "list_all asymmetric (av_keys auth)"
    "ig_auth (rt_ingress router) = auth"
    unfolding r build_router_def ingress_new_def by (simp_all add: auth_new_ok(1) [OF auth] auth_new_ok(2) [OF auth] config)
  have "admission lib http (rt_ingress router) now request = Inr ()" if "w' \<noteq> w \<or> hr_status response \<notin> {400, 401, 403}"
  proof (cases "admission lib http (rt_ingress router) now request")
    case (Inl refusal)
    then show ?thesis using that facts(2,3) admission_refuses [OF Inl] by auto
  qed simp
  then show ?thesis
    using kept facts(1,2) who by (auto simp: admission_ok)
qed

definition sample_router :: router where
  "sample_router = build_router
     (mcp_config_of sample_mcp_file ''/etc'' (sample_url ''/speech'') [''https://mcp''] ''0.0.0.0:443'') sample_auth"

definition sample_rmcp :: rmcp_service where
  "sample_rmcp = \<lparr>rs_call = (\<lambda>request. Some sample_speech), rs_other = (\<lambda>request. json_error 400 ''other''),
     rs_result = (\<lambda>result. \<lparr>hr_status = 200, hr_challenge = None, hr_body = Some ''{}''\<rparr>), rs_expires = (\<lambda>request. False)\<rparr>"

lemma sample_run_mcp:
  "run_mcp sample_url_parse Some (\<lambda>bytes. Inr sample_mcp_file) (\<lambda>bytes. Inr [sample_key]) (\<lambda>path. Inr ''{}'')
     (\<lambda>certificate key. Inr ()) [''--config'', ''/etc/mcp.json''] = Inr (Some sample_router)"
proof -
  have "parent_path ''/etc/mcp.json'' = Some ''/etc''" by code_simp
  then have "load_mcp_config sample_url_parse Some (\<lambda>bytes. Inr sample_mcp_file) ''/etc/mcp.json'' (Inr ''{}'')
      = Inr (mcp_config_of sample_mcp_file ''/etc'' (sample_url ''/speech'') [''https://mcp''] ''0.0.0.0:443'')"
    by (simp add: load_mcp_config_def mcp_read_bounded_def MCP_MAX_CONFIG_BYTES_def validate_mcp_def secure_url_def
        sample_mcp_file_def sample_url_parse_def sample_url_def ok_or_def validate_authorization_servers_def validate_scope_def
        validate_hosts_def validate_origins_def validate_limits_def bad_host_def is_ascii_whitespace_def is_ascii_control_def
        MAX_HTTP_BYTES_def MAX_CONCURRENCY_def MAX_EXECUTION_SECONDS_def Let_def)
  moreover have "auth_new [sample_key] (mf_issuer sample_mcp_file) (mf_audience sample_mcp_file) (mf_required_scope sample_mcp_file)
      = Inr sample_auth" using sample_auth_new by (simp add: sample_mcp_file_def)
  ultimately show ?thesis
    by (simp add: run_mcp_def mcp_config_argument_def run_server_def from_jwks_file_def load_jwks_def MAX_JWKS_BYTES_def
        mcp_config_of_def Let_def sample_router_def)
qed

theorem mcp_request_safe_witness:
  "\<exists>response w'. serve_mcp sample_jwt sample_http sample_router sample_rmcp
      (daemon_socket refusing_services sample_producer quiet sample_local_codec (to_timeout (rt_tool sample_router))) 100 1
      sample_call sample_world = (response, w')
    \<and> hr_status response = 200
    \<and> published_kept (daemon_jobs refusing_services sample_producer sample_world) (daemon_jobs refusing_services sample_producer w')
    \<and> (\<exists>token. bearer_token sample_http (hq_authorization sample_call) = Some token)"
proof -
  obtain response w' where s: "serve_mcp sample_jwt sample_http sample_router sample_rmcp
      (daemon_socket refusing_services sample_producer quiet sample_local_codec (to_timeout (rt_tool sample_router))) 100 1
      sample_call sample_world = (response, w')" by fastforce
  have "bearer_token sample_http [''bearer good''] = Some ''good''" by code_simp
  then have "admission sample_jwt sample_http (rt_ingress sample_router) 100 sample_call = Inr ()"
    using sample_token
    by (simp add: admission_ok sample_call_def has_query_token_def is_some_and_def sample_router_def build_router_def ingress_new_def)
  then have status: "hr_status response = 200"
    using s
    by (auto simp: serve_mcp_def protect_def to_bytes_def sample_call_def sample_router_def build_router_def ingress_new_def mcp_config_of_def
        sample_mcp_file_def mcp_service_def sample_rmcp_def bound_response_def Let_def split: prod.splits)
  have "codec_round_trip (sv_codec refusing_services)" by (simp add: refusing_services_def sample_codec_round_trip)
  from mcp_request_safe [OF sample_run_mcp this sample_local_codec_contract sample_world_sound s]
  show ?thesis using s status by auto
qed

end
