(* ===== verification/Client_Command.thy ===== *)
theory Client_Command
  imports Daemon_Config Local_Server
begin

text \<open>
  The client command (\<open>daemon/src/bin/tts29.rs\<close>): its arguments, the request it reads, and a whole run up to
  its exit code. \<open>serde_json\<close> and the daemon behind the socket are the parameters of the local protocol.
\<close>

section \<open>Arguments\<close>

record command =
  cm_socket_path :: string
  cm_request_path :: "string option"
  cm_wait_for_answer_seconds :: "u64 option"
  cm_tree :: bool
  cm_agent_id :: "string option"

text \<open>The variables of the loop over the arguments.\<close>

record argument_state =
  as_socket_path :: "string option"
  as_request_path :: "string option"
  as_wait_for_answer_seconds :: "u64 option"
  as_tree :: bool
  as_agent_id :: "string option"
  as_socket_seen :: bool
  as_request_seen :: bool

text \<open>\<open>--help\<close> prints the usage and ends the process where it is met.\<close>

datatype 'a parsed_arguments = ArgumentsHelp | ArgumentsError string | ArgumentsOk 'a

definition missing_value :: "string \<Rightarrow> string" where
  "missing_value flag = flag @ '' requires a value''"

definition wait_seconds :: "string \<Rightarrow> string + u64" where
  "wait_seconds content =
     (if \<not> valid_utf8 content then Inl ''--wait-seconds must be UTF-8''
      else
        case parse_u64 content of
          Some seconds \<Rightarrow>
            if seconds > 0 \<and> seconds \<le> MAX_ANSWER_WAIT_SECONDS then Inr seconds
            else Inl (''--wait-seconds must be between 1 and '' @ u64_to_string MAX_ANSWER_WAIT_SECONDS)
        | None \<Rightarrow> Inl (''--wait-seconds must be between 1 and '' @ u64_to_string MAX_ANSWER_WAIT_SECONDS))"

fun arguments_loop :: "argument_state \<Rightarrow> string list \<Rightarrow> argument_state parsed_arguments" where
  "arguments_loop st [] = ArgumentsOk st"
| "arguments_loop st (flag # rest) =
     (if flag = ''--socket'' \<and> \<not> as_socket_seen st
      then (case rest of
              [] \<Rightarrow> ArgumentsError (missing_value ''--socket'')
            | content # rest \<Rightarrow> arguments_loop (st\<lparr>as_socket_path := Some content, as_socket_seen := True\<rparr>) rest)
      else if flag = ''--tree'' \<and> \<not> as_tree st then arguments_loop (st\<lparr>as_tree := True\<rparr>) rest
      else if flag = ''--agent-id'' \<and> as_agent_id st = None
      then (case rest of
              [] \<Rightarrow> ArgumentsError (missing_value ''--agent-id'')
            | content # rest \<Rightarrow>
                if valid_utf8 content then arguments_loop (st\<lparr>as_agent_id := Some content\<rparr>) rest
                else ArgumentsError ''--agent-id must be UTF-8'')
      else if flag = ''--request'' \<and> \<not> as_request_seen st
      then (case rest of
              [] \<Rightarrow> ArgumentsError (missing_value ''--request'')
            | content # rest \<Rightarrow>
                arguments_loop (st\<lparr>as_request_path := (if content \<noteq> ''-'' then Some content else as_request_path st),
                                   as_request_seen := True\<rparr>) rest)
      else if flag = ''--wait-seconds'' \<and> as_wait_for_answer_seconds st = None
      then (case rest of
              [] \<Rightarrow> ArgumentsError (missing_value ''--wait-seconds'')
            | content # rest \<Rightarrow>
                (case wait_seconds content of
                   Inl error \<Rightarrow> ArgumentsError error
                 | Inr seconds \<Rightarrow> arguments_loop (st\<lparr>as_wait_for_answer_seconds := Some seconds\<rparr>) rest))
      else if flag = ''--help'' \<or> flag = ''-h'' then ArgumentsHelp
      else ArgumentsError ''invalid or repeated command argument; use --help'')"

text \<open>\<open>socket\<close> is the variable \<open>TTS29_SOCKET\<close>, which need not be UTF-8.\<close>

definition parse_arguments :: "string option \<Rightarrow> string list \<Rightarrow> command parsed_arguments" where
  "parse_arguments socket arguments =
     (case arguments_loop \<lparr>as_socket_path = socket, as_request_path = None, as_wait_for_answer_seconds = None,
              as_tree = False, as_agent_id = None, as_socket_seen = False, as_request_seen = False\<rparr> arguments of
        ArgumentsHelp \<Rightarrow> ArgumentsHelp
      | ArgumentsError error \<Rightarrow> ArgumentsError error
      | ArgumentsOk st \<Rightarrow>
          (case as_socket_path st of
             None \<Rightarrow> ArgumentsError ''a socket path is required through --socket or TTS29_SOCKET''
           | Some socket_path \<Rightarrow>
               if \<not> as_tree st \<and> as_agent_id st \<noteq> None then ArgumentsError ''--agent-id is only valid with --tree''
               else ArgumentsOk \<lparr>cm_socket_path = socket_path, cm_request_path = as_request_path st,
                      cm_wait_for_answer_seconds = as_wait_for_answer_seconds st, cm_tree = as_tree st,
                      cm_agent_id = as_agent_id st\<rparr>))"

section \<open>A run of the command\<close>

text \<open>
  What the process meets: its arguments and environment, the file or standard input, the JSON readers of the
  two documents, and standard output.
\<close>

record client_environment =
  ce_arguments :: "string list"
  ce_socket :: "string option"
  ce_variables :: environment
  ce_open :: "string \<Rightarrow> io_failure + unit"
  ce_source :: "string option \<Rightarrow> io_failure + string"
  ce_decode_tree :: "string \<Rightarrow> string + spoken_tree"
  ce_decode_request :: "string \<Rightarrow> string + producer_request"
  ce_encode_response :: "local_publish_response \<Rightarrow> string + string"
  ce_write :: "string \<Rightarrow> io_failure + unit"
  ce_flush :: "io_failure + unit"

definition read_request :: "client_environment \<Rightarrow> string option \<Rightarrow> string + string" where
  "read_request ce path =
     bind_result (case path of
         None \<Rightarrow> Inr ()
       | Some path \<Rightarrow> map_err (\<lambda>error. ''request file could not be read: '' @ if_text error) (ce_open ce path)) (\<lambda>_.
     bind_result (map_err (\<lambda>error. ''producer request could not be read: '' @ if_text error) (ce_source ce path)) (\<lambda>whole.
       (let bytes = take (MAX_LOCAL_FRAME_BYTES + 1) whole in
        if bytes = [] \<or> length bytes > MAX_LOCAL_FRAME_BYTES then Inl ''producer request size is invalid''
        else Inr bytes)))"

definition client_env :: "environment \<Rightarrow> string \<Rightarrow> string + string option" where
  "client_env env name =
     (case env name of
        EnvValue content \<Rightarrow> if content = [] then Inl (name @ '' is empty'') else Inr (Some content)
      | EnvNotPresent \<Rightarrow> Inr None
      | EnvNotUnicode \<Rightarrow> Inl (name @ '' is not valid UTF-8''))"

definition refused_text :: "local_request_error \<Rightarrow> string" where
  "refused_text error = le_code error @ '': '' @ le_message error"

definition submit_tree_document ::
  "local_codec \<Rightarrow> 'w exchange \<Rightarrow> client_environment \<Rightarrow> command \<Rightarrow> string \<Rightarrow> string option
   \<Rightarrow> ('w, string, local_publish_response) action" where
  "submit_tree_document lc exchange ce command bytes agent_nsec =
     and_then (of_result (map_err (\<lambda>error. ''spoken tree is invalid JSON: '' @ error) (ce_decode_tree ce bytes))) (\<lambda>tree.
       (let local = \<lparr>lt_version = LOCAL_PROTOCOL_VERSION, lt_tree = tree, lt_agent_id = cm_agent_id command,
                     lt_agent_nsec = agent_nsec\<rparr> in
        and_then (of_result (map_err refused_text (validate_tree local))) (\<lambda>_.
          with_error (\<lambda>error. ''daemon request failed: '' @ if_text error) (submit_local_tree lc exchange local))))"

definition submit_request_document ::
  "local_codec \<Rightarrow> 'w exchange \<Rightarrow> client_environment \<Rightarrow> command \<Rightarrow> string \<Rightarrow> string option
   \<Rightarrow> ('w, string, local_publish_response) action" where
  "submit_request_document lc exchange ce command bytes agent_nsec =
     and_then (of_result (map_err (\<lambda>error. ''producer request is invalid JSON: '' @ error) (ce_decode_request ce bytes)))
       (\<lambda>request.
       (let local = \<lparr>lp_version = LOCAL_PROTOCOL_VERSION, lp_request = request,
                     lp_wait_for_answer_seconds = cm_wait_for_answer_seconds command, lp_agent_nsec = agent_nsec\<rparr> in
        and_then (of_result (map_err refused_text (validate_publish local))) (\<lambda>_.
          with_error (\<lambda>error. ''daemon request failed: '' @ if_text error) (submit_local lc exchange local))))"

definition submit_document ::
  "local_codec \<Rightarrow> 'w exchange \<Rightarrow> client_environment \<Rightarrow> command \<Rightarrow> ('w, string, local_publish_response) action" where
  "submit_document lc exchange ce command =
     and_then (of_result (read_request ce (cm_request_path command))) (\<lambda>bytes.
     and_then (of_result (client_env (ce_variables ce) ''AGENT_NSEC'')) (\<lambda>agent_nsec.
       (if cm_tree command then submit_tree_document else submit_request_document) lc exchange ce command bytes agent_nsec))"

definition write_response :: "client_environment \<Rightarrow> local_publish_response \<Rightarrow> string + string" where
  "write_response ce response =
     bind_result (map_err (\<lambda>error. ''response could not be written: '' @ error) (ce_encode_response ce response)) (\<lambda>bytes.
     bind_result (map_err (\<lambda>error. ''response could not be written: '' @ if_text error) (ce_write ce (bytes @ [CHR 0x0A]))) (\<lambda>_.
     bind_result (map_err (\<lambda>error. ''response could not be flushed: '' @ if_text error) (ce_flush ce)) (\<lambda>_.
       Inr (bytes @ [CHR 0x0A]))))"

text \<open>How the process ends: the usage, an error on standard error with code 1, or a response with code 0 or 2.\<close>

datatype client_exit = ExitUsage | ExitError string | ExitResponse nat local_publish_response string

definition is_error_response :: "local_publish_response \<Rightarrow> bool" where
  "is_error_response response = (case response of LocalError _ _ _ \<Rightarrow> True | _ \<Rightarrow> False)"

definition run_client :: "local_codec \<Rightarrow> (string \<Rightarrow> 'w exchange) \<Rightarrow> client_environment \<Rightarrow> 'w \<Rightarrow> client_exit \<times> 'w" where
  "run_client lc exchange_at ce w =
     (case parse_arguments (ce_socket ce) (ce_arguments ce) of
        ArgumentsHelp \<Rightarrow> (ExitUsage, w)
      | ArgumentsError error \<Rightarrow> (ExitError error, w)
      | ArgumentsOk command \<Rightarrow>
          (case submit_document lc (exchange_at (cm_socket_path command)) ce command w of
             (Inl error, w) \<Rightarrow> (ExitError error, w)
           | (Inr response, w) \<Rightarrow>
               (case write_response ce response of
                  Inl error \<Rightarrow> (ExitError error, w)
                | Inr output \<Rightarrow> (ExitResponse (if is_error_response response then 2 else 0) response output, w))))"

section \<open>What the exit code tells\<close>

lemma arguments_loop_wait:
  "arguments_loop st arguments = ArgumentsOk st' \<Longrightarrow>
   (\<forall>s. as_wait_for_answer_seconds st = Some s \<longrightarrow> 1 \<le> s \<and> s \<le> 300) \<Longrightarrow>
   as_wait_for_answer_seconds st' = Some s \<Longrightarrow> 1 \<le> s \<and> s \<le> 300"
proof (induction st arguments rule: arguments_loop.induct)
  case (2 st flag rest)
  have seconds: "wait_seconds content = Inr n \<Longrightarrow> 1 \<le> n \<and> n \<le> 300" for content n
    by (auto simp: wait_seconds_def MAX_ANSWER_WAIT_SECONDS_def word_one_le split: if_splits option.splits)
  show ?case
    using "2.prems" "2.IH" seconds
    by (cases rest) (auto split: if_splits sum.splits simp del: arguments_loop.simps(1))
qed simp

lemma parse_arguments_ok:
  assumes "parse_arguments socket arguments = ArgumentsOk command"
  shows "cm_agent_id command \<noteq> None \<longrightarrow> cm_tree command"
    and "cm_wait_for_answer_seconds command = Some s \<Longrightarrow> 1 \<le> s \<and> s \<le> 300"
proof -
  obtain init st where "arguments_loop init arguments = ArgumentsOk st" "as_wait_for_answer_seconds init = None"
    and st: "\<not> (\<not> as_tree st \<and> as_agent_id st \<noteq> None)" "cm_tree command = as_tree st" "cm_agent_id command = as_agent_id st"
      "cm_wait_for_answer_seconds command = as_wait_for_answer_seconds st"
    using assms unfolding parse_arguments_def
    by (fastforce split: parsed_arguments.splits option.splits if_splits simp del: arguments_loop.simps)
  then show "cm_agent_id command \<noteq> None \<longrightarrow> cm_tree command"
    and "cm_wait_for_answer_seconds command = Some s \<Longrightarrow> 1 \<le> s \<and> s \<le> 300"
    using arguments_loop_wait [of init arguments st s] by auto
qed

text \<open>With \<open>--tree\<close> the number of seconds has no effect.\<close>

lemma tree_ignores_wait:
  "cm_tree command \<Longrightarrow>
   submit_document lc exchange ce (command\<lparr>cm_wait_for_answer_seconds := seconds\<rparr>) = submit_document lc exchange ce command"
  by (simp add: submit_document_def submit_tree_document_def)

definition document_truthful ::
  "'x services \<Rightarrow> producer \<Rightarrow> client_environment \<Rightarrow> command \<Rightarrow> local_publish_response \<Rightarrow> 'x daemon_world \<Rightarrow> bool" where
  "document_truthful sv pd ce command response w \<longleftrightarrow>
     (\<exists>bytes agent_nsec. read_request ce (cm_request_path command) = Inr bytes
        \<and> client_env (ce_variables ce) ''AGENT_NSEC'' = Inr agent_nsec
        \<and> (if cm_tree command
           then \<exists>tree. ce_decode_tree ce bytes = Inr tree
             \<and> (\<forall>version request_id root children. response = PublishedTree version request_id root children \<longrightarrow>
                  request_id = st_request_id tree
                  \<and> node_done sv pd w request_id (st_title tree) (st_questions tree) None root
                  \<and> published_forest (sv_third_party sv) (daemon_jobs sv pd w) request_id root 0 (st_attachments tree) children)
           else \<exists>request. ce_decode_request ce bytes = Inr request
             \<and> response_truthful sv pd \<lparr>lp_version = LOCAL_PROTOCOL_VERSION, lp_request = request,
                  lp_wait_for_answer_seconds = cm_wait_for_answer_seconds command, lp_agent_nsec = agent_nsec\<rparr> response w))"

lemma submit_tree_document_effect:
  assumes "backend_sound sv lc pd w"
    and "submit_tree_document lc (served_exchange lc (production_service sv pd attend)) ce command bytes agent_nsec w = (r, w')"
  shows "grows sv pd w w'"
    and "r = Inr response \<Longrightarrow> \<exists>tree. ce_decode_tree ce bytes = Inr tree
      \<and> (\<forall>version request_id root children. response = PublishedTree version request_id root children \<longrightarrow>
            request_id = st_request_id tree \<and> node_done sv pd w' request_id (st_title tree) (st_questions tree) None root
            \<and> published_forest (sv_third_party sv) (daemon_jobs sv pd w') request_id root 0 (st_attachments tree) children)"
proof -
  let ?ex = "served_exchange lc (production_service sv pd attend)"
  let ?local = "\<lambda>tree. \<lparr>lt_version = LOCAL_PROTOCOL_VERSION, lt_tree = tree, lt_agent_id = cm_agent_id command, lt_agent_nsec = agent_nsec\<rparr>"
  have sound: "codec_round_trip (sv_codec sv)" "local_codec_contract lc" "daemon_sound sv pd w"
    using assms(1) by (simp_all add: backend_sound_def)
  have step: "w' = w \<and> (\<exists>error. r = Inl error)
      \<or> (\<exists>tree q. ce_decode_tree ce bytes = Inr tree \<and> submit_local_tree lc ?ex (?local tree) w = (q, w')
          \<and> (\<forall>response. r = Inr response \<longrightarrow> q = Inr response))"
    using assms(2)
    by (auto simp: submit_tree_document_def of_result_def Let_def elim!: and_then_cases with_error_cases)
  show "grows sv pd w w'"
    using step submit_production_grows [OF assms(1)] sound(3) by (auto simp: submit_local_tree_def grows_def)
  assume "r = Inr response"
  then obtain tree where "ce_decode_tree ce bytes = Inr tree" "submit_local_tree lc ?ex (?local tree) w = (Inr response, w')"
    using step by auto
  then show "\<exists>tree. ce_decode_tree ce bytes = Inr tree
      \<and> (\<forall>version request_id root children. response = PublishedTree version request_id root children \<longrightarrow>
            request_id = st_request_id tree \<and> node_done sv pd w' request_id (st_title tree) (st_questions tree) None root
            \<and> published_forest (sv_third_party sv) (daemon_jobs sv pd w') request_id root 0 (st_attachments tree) children)"
    using local_tree_truthful [OF sound, of attend "?local tree"] by auto
qed

lemma submit_request_document_effect:
  assumes "backend_sound sv lc pd w"
    and "submit_request_document lc (served_exchange lc (production_service sv pd attend)) ce command bytes agent_nsec w = (r, w')"
  shows "grows sv pd w w'"
    and "r = Inr response \<Longrightarrow> \<exists>request. ce_decode_request ce bytes = Inr request
      \<and> response_truthful sv pd \<lparr>lp_version = LOCAL_PROTOCOL_VERSION, lp_request = request,
           lp_wait_for_answer_seconds = cm_wait_for_answer_seconds command, lp_agent_nsec = agent_nsec\<rparr> response w'"
proof -
  let ?ex = "served_exchange lc (production_service sv pd attend)"
  let ?local = "\<lambda>request. \<lparr>lp_version = LOCAL_PROTOCOL_VERSION, lp_request = request,
      lp_wait_for_answer_seconds = cm_wait_for_answer_seconds command, lp_agent_nsec = agent_nsec\<rparr>"
  have step: "w' = w \<and> (\<exists>error. r = Inl error)
      \<or> (\<exists>request q. ce_decode_request ce bytes = Inr request
          \<and> submit lc ?ex (lc_encode_publish lc (?local request)) None w = (q, w') \<and> (\<forall>response. r = Inr response \<longrightarrow> q = Inr response))"
    using assms(2)
    by (auto simp: submit_request_document_def submit_local_def of_result_def Let_def elim!: and_then_cases with_error_cases)
  show "grows sv pd w w'"
    using step submit_production_grows [OF assms(1)] assms(1) by (auto simp: grows_def backend_sound_def)
  assume "r = Inr response"
  then obtain request where "ce_decode_request ce bytes = Inr request"
    "submit lc ?ex (lc_encode_publish lc (?local request)) None w = (Inr response, w')"
    using step by auto
  then show "\<exists>request. ce_decode_request ce bytes = Inr request \<and> response_truthful sv pd (?local request) response w'"
    using submit_production_truthful [OF assms(1)] by blast
qed

lemma submit_document_effect:
  assumes "backend_sound sv lc pd w"
    and "submit_document lc (served_exchange lc (production_service sv pd attend)) ce command w = (r, w')"
  shows "grows sv pd w w'" and "r = Inr response \<Longrightarrow> document_truthful sv pd ce command response w'"
proof -
  have step: "w' = w \<and> (\<exists>error. r = Inl error)
      \<or> (\<exists>bytes agent_nsec. read_request ce (cm_request_path command) = Inr bytes
          \<and> client_env (ce_variables ce) ''AGENT_NSEC'' = Inr agent_nsec
          \<and> (if cm_tree command then submit_tree_document else submit_request_document) lc
               (served_exchange lc (production_service sv pd attend)) ce command bytes agent_nsec w = (r, w'))"
    using assms(2) by (auto simp: submit_document_def of_result_def elim!: and_then_cases)
  show "grows sv pd w w'"
    using step submit_tree_document_effect(1) [OF assms(1)] submit_request_document_effect(1) [OF assms(1)] assms(1)
    by (auto simp: grows_def backend_sound_def split: if_splits)
  assume "r = Inr response"
  then obtain bytes agent_nsec where read: "read_request ce (cm_request_path command) = Inr bytes"
    "client_env (ce_variables ce) ''AGENT_NSEC'' = Inr agent_nsec"
    and submitted: "(if cm_tree command then submit_tree_document else submit_request_document) lc
       (served_exchange lc (production_service sv pd attend)) ce command bytes agent_nsec w = (Inr response, w')"
    using step by auto
  show "document_truthful sv pd ce command response w'"
  proof (cases "cm_tree command")
    case True
    then show ?thesis
      using read submitted submit_tree_document_effect(2) [OF assms(1), of attend ce command bytes agent_nsec _ w' response]
      by (auto simp: document_truthful_def)
  next
    case False
    then show ?thesis
      using read submitted submit_request_document_effect(2) [OF assms(1), of attend ce command bytes agent_nsec _ w' response]
      by (auto simp: document_truthful_def)
  qed
qed


definition sample_client :: client_environment where
  "sample_client =
     \<lparr>ce_arguments = [''--request'', ''-'', ''--socket'', ''/run/daemon.sock''], ce_socket = None,
      ce_variables = (\<lambda>name. EnvNotPresent), ce_open = (\<lambda>path. Inr ()), ce_source = (\<lambda>path. Inr ''{}''),
      ce_decode_tree = (\<lambda>bytes. Inl ''not a tree''), ce_decode_request = (\<lambda>bytes. Inr sample_request),
      ce_encode_response = lc_encode_response sample_local_codec, ce_write = (\<lambda>bytes. Inr ()), ce_flush = Inr ()\<rparr>"

lemma sample_client_run:
  "run_client sample_local_codec
     (\<lambda>socket. served_exchange sample_local_codec (production_service refusing_services sample_producer quiet)) sample_client sample_world
   = (ExitResponse 0 sample_response (''response'' @ [CHR 0x0A]), sample_world)"
proof -
  have arguments: "parse_arguments None [''--request'', ''-'', ''--socket'', ''/run/daemon.sock''] =
      ArgumentsOk \<lparr>cm_socket_path = ''/run/daemon.sock'', cm_request_path = None, cm_wait_for_answer_seconds = None,
        cm_tree = False, cm_agent_id = None\<rparr>" by code_simp
  have input: "\<lparr>lp_version = LOCAL_PROTOCOL_VERSION, lp_request = sample_request, lp_wait_for_answer_seconds = None,
      lp_agent_nsec = None\<rparr> = sample_submission_input"
    by (simp add: sample_submission_input_def LOCAL_PROTOCOL_VERSION_def)
  have valid: "validate_publish sample_submission_input = Inr ()"
    by (simp add: validate_publish_def sample_submission_input_def LOCAL_PROTOCOL_VERSION_def is_some_and_def)
  show ?thesis
    by (simp add: run_client_def sample_client_def arguments submit_document_def read_request_def client_env_def and_then_def
        of_result_def submit_request_document_def input valid with_error_def sample_submit write_response_def
        sample_codec_facts MAX_LOCAL_FRAME_BYTES_def Let_def)
      (simp add: is_error_response_def sample_response_def)
qed


end
