(* ===== verification/Live_Network.thy ===== *)
theory Live_Network
  imports Daemon_Open
begin

text \<open>
  The independent network client of the live checks (\<open>daemon/src/live_network.rs\<close>): it acquires one event
  by its id from the relay, downloads and checks the audio of an item, and publishes an answer. Its NMP
  engine and its HTTP client are third-party and act on the outside world \<open>'x\<close>.
\<close>

section \<open>The client\<close>

record live_source_evidence =
  sc_status :: string
  sc_reconciled :: bool
  sc_query_source_count :: nat
  sc_shortfall_count :: nat
  sc_row_source_count :: nat

record audio_evidence =
  ad_url :: string
  ad_sha256 :: string
  ad_byte_count :: u64
  ad_media_type :: string
  ad_downloaded_and_matched :: bool

record observed_event =
  ob_parsed :: parsed_event
  ob_source :: live_source_evidence

text \<open>A row of a window with the relays that served it, and a frame of the observation.\<close>

record sourced_row =
  sr_event :: event
  sr_sources :: "relay_url list"

record live_frame =
  lf_window :: "sourced_row list option"
  lf_evidence :: acquisition_evidence

record exact_demand =
  ed_ids :: "event_id list"
  ed_hosts :: "relay_url list"

text \<open>
  The redirect policy is given to the HTTP client: it sees how many URLs came before and the scheme of the
  next one.
\<close>

datatype redirect = Follow | RedirectError string

record download =
  dl_status :: nat
  dl_status_text :: string
  dl_body :: "string + string"

text \<open>
  The third-party operations. An observation and a status stream are what the successive calls of
  \<open>recv_timeout\<close> give, nothing when the time passes; a receipt that is not attached is \<open>None\<close>.
\<close>

record 'x live_services =
  lv_engine_new :: "('x, string, unit) action"
  lv_accounts :: "'x account_engine"
  lv_demand_new :: "exact_demand \<Rightarrow> string + exact_demand"
  lv_observe :: "exact_demand \<Rightarrow> nat \<Rightarrow> nat \<Rightarrow> ('x, string, nat \<Rightarrow> live_frame option) action"
  lv_cancel :: "'x \<Rightarrow> 'x"
  lv_shutdown :: "'x \<Rightarrow> 'x"
  lv_publish_tracked :: "write_intent \<Rightarrow> ('x, string, u64) action"
  lv_reattach_receipt :: "u64 \<Rightarrow> ('x, string, (nat \<Rightarrow> write_status option) option) action"
  lv_parse_key :: key_parse
  lv_parse_event_id :: "string \<Rightarrow> event_id option"
  lv_group_send :: group_send
  lv_debug_evidence :: "acquisition_evidence \<Rightarrow> string"
  lv_debug_source :: "source_status \<Rightarrow> string"
  lv_http_client :: "string + unit"
  lv_get :: "(nat \<Rightarrow> string \<Rightarrow> redirect) \<Rightarrow> u64 \<Rightarrow> string \<Rightarrow> ('x, string, download) action"
  lv_sha256_hex :: "string \<Rightarrow> string"
  lv_unix_millis :: "'x \<Rightarrow> u64 \<times> 'x"
  lv_random :: "'x \<Rightarrow> 8 word list \<times> 'x"

definition LIVE_TIMEOUT :: u64 where "LIVE_TIMEOUT = 60"

definition live_seconds :: "'x live_services \<Rightarrow> ('x, string, u64) action" where
  "live_seconds lv x = (case lv_unix_millis lv x of (millis, x) \<Rightarrow> (Inr (millis div 1000), x))"

section \<open>Acquiring one event\<close>

definition source_evidence_of :: "'x live_services \<Rightarrow> live_frame \<Rightarrow> sourced_row \<Rightarrow> source_evidence \<Rightarrow> live_source_evidence" where
  "source_evidence_of lv frame row source =
     \<lparr>sc_status = lv_debug_source lv (se_status source), sc_reconciled = (se_reconciled_through source \<noteq> None),
      sc_query_source_count = length (aq_sources (lf_evidence frame)),
      sc_shortfall_count = length (aq_shortfall (lf_evidence frame)), sc_row_source_count = length (sr_sources row)\<rparr>"

text \<open>How the loop over the frames ends; a row that does not parse leaves it, and the function, at once.\<close>

datatype scan = Seen observed_event | Unparsed | NotSeen string

fun scan_frames ::
  "'x live_services \<Rightarrow> relay_url \<Rightarrow> string \<Rightarrow> event_id \<Rightarrow> (nat \<Rightarrow> live_frame option) \<Rightarrow> nat \<Rightarrow> nat \<Rightarrow> string \<Rightarrow> scan" where
  "scan_frames lv host group_id event_id frames k 0 last_evidence = NotSeen last_evidence"
| "scan_frames lv host group_id event_id frames k (Suc n) last_evidence =
     (case frames k of
        None \<Rightarrow> scan_frames lv host group_id event_id frames (Suc k) n last_evidence
      | Some frame \<Rightarrow>
          (let last_evidence = lv_debug_evidence lv (lf_evidence frame);
               continue = scan_frames lv host group_id event_id frames (Suc k) n last_evidence in
           case Option.bind (lf_window frame) (find (\<lambda>row. ev_id (sr_event row) = event_id)) of
             None \<Rightarrow> continue
           | Some row \<Rightarrow>
               (case find (\<lambda>source. se_relay source = host) (aq_sources (lf_evidence frame)) of
                  None \<Rightarrow> continue
                | Some source \<Rightarrow>
                    if host \<notin> set (sr_sources row) then continue
                    else
                      (case parse (sr_event row) group_id of
                         None \<Rightarrow> Unparsed
                       | Some parsed \<Rightarrow>
                           Seen \<lparr>ob_parsed = parsed, ob_source = source_evidence_of lv frame row source\<rparr>))))"

text \<open>The window holds one row; after the loop the subscription is cancelled and the engine shut down.\<close>

definition observe_exact ::
  "'x live_services \<Rightarrow> relay_url \<Rightarrow> string \<Rightarrow> event_id \<Rightarrow> ('x, string, observed_event) action" where
  "observe_exact lv host group_id event_id =
     and_then (with_error (\<lambda>error. ''independent NMP consumer refused startup: '' @ error) (lv_engine_new lv)) (\<lambda>_.
     and_then (of_result (map_err (\<lambda>error. ''exact-event demand was refused: '' @ error)
         (lv_demand_new lv \<lparr>ed_ids = [event_id], ed_hosts = [host]\<rparr>))) (\<lambda>demand.
     and_then (with_error (\<lambda>error. ''independent group observation failed: '' @ error) (lv_observe lv demand 1 1)) (\<lambda>frames x.
       (case scan_frames lv host group_id event_id frames 0 12 ''no relay frame'' of
          Unparsed \<Rightarrow> (Inl (''event '' @ event_id @ '' failed the TTS29 protocol parser''), x)
        | Seen observed \<Rightarrow> (Inr observed, lv_shutdown lv (lv_cancel lv x))
        | NotSeen last_evidence \<Rightarrow>
            (Inl (''event '' @ event_id @ '' was not reacquired ('' @ last_evidence @ '')''), lv_shutdown lv (lv_cancel lv x))))))"

section \<open>Checking the audio\<close>

definition audio_redirects :: "nat \<Rightarrow> string \<Rightarrow> redirect" where
  "audio_redirects previous scheme =
     (if previous \<ge> 3 then RedirectError ''durable audio exceeded three redirects''
      else if scheme \<noteq> ''https'' then RedirectError ''durable audio redirect attempted an HTTPS downgrade''
      else Follow)"

definition verify_audio :: "'x live_services \<Rightarrow> spoken_item \<Rightarrow> ('x, string, audio_evidence) action" where
  "verify_audio lv item =
     (let audio = si_audio (item_fields item) in
      and_then (of_result (map_err (\<lambda>error. ''audio verifier could not start: '' @ error) (lv_http_client lv))) (\<lambda>_.
      and_then (with_error (\<lambda>error. ''durable audio could not be downloaded: '' @ error)
          (lv_get lv audio_redirects LIVE_TIMEOUT (art_url audio))) (\<lambda>response.
        if \<not> (200 \<le> dl_status response \<and> dl_status response < 300)
        then fail (''durable audio returned HTTP '' @ dl_status_text response)
        else
          and_then (of_result (map_err (\<lambda>error. ''durable audio body failed: '' @ error) (dl_body response))) (\<lambda>bytes.
            (let digest = lv_sha256_hex lv bytes in
             if digest \<noteq> art_sha256 audio \<or> of_nat (length bytes) \<noteq> art_byte_count audio
             then fail ''downloaded audio did not match its durable descriptor''
             else ok \<lparr>ad_url = art_url audio, ad_sha256 = digest, ad_byte_count = of_nat (length bytes),
                      ad_media_type = art_media_type audio, ad_downloaded_and_matched = True\<rparr>)))))"

section \<open>Publishing an answer\<close>

text \<open>The loop \<open>for _ in 0..32\<close>; a round in which no status arrives is spent.\<close>

fun ack_loop ::
  "string \<Rightarrow> u64 \<Rightarrow> relay_url \<Rightarrow> (nat \<Rightarrow> write_status option) \<Rightarrow> nat \<Rightarrow> nat \<Rightarrow> event_id option \<Rightarrow> bool \<Rightarrow> string + event_id" where
  "ack_loop operation receipt_id host statuses k 0 event_id acknowledged =
     Inl (operation @ '' receipt '' @ u64_to_string receipt_id @ '' exceeded its bounded status stream'')"
| "ack_loop operation receipt_id host statuses k (Suc n) event_id acknowledged =
     (let continue = (\<lambda>event_id acknowledged.
        (case event_id of
           Some event \<Rightarrow> if acknowledged then Inr event
                         else ack_loop operation receipt_id host statuses (Suc k) n event_id acknowledged
         | None \<Rightarrow> ack_loop operation receipt_id host statuses (Suc k) n event_id acknowledged))
      in case statuses k of
           None \<Rightarrow> ack_loop operation receipt_id host statuses (Suc k) n event_id acknowledged
         | Some status \<Rightarrow>
             (case status of
                Signed event \<Rightarrow> continue (Some event) acknowledged
              | Acked relay \<Rightarrow> continue event_id (if relay = host then True else acknowledged)
              | Rejected relay reason \<Rightarrow> Inl (operation @ '' was rejected by '' @ relay @ '': '' @ reason)
              | GaveUp relay \<Rightarrow> Inl (operation @ '' delivery was unresolved at '' @ relay)
              | OutcomeUnknown relay \<Rightarrow> Inl (operation @ '' delivery was unresolved at '' @ relay)
              | Failed reason \<Rightarrow> Inl (operation @ '' write failed: '' @ reason)
              | Cancelled \<Rightarrow> continue event_id acknowledged
              | ReplaceableConflict \<Rightarrow> continue event_id acknowledged
              | OtherStatus _ \<Rightarrow> continue event_id acknowledged))"

definition await_ack :: "'x live_services \<Rightarrow> u64 \<Rightarrow> relay_url \<Rightarrow> string \<Rightarrow> ('x, string, event_id) action" where
  "await_ack lv receipt_id host operation =
     and_then (lv_reattach_receipt lv receipt_id) (\<lambda>attachment.
       case attachment of
         None \<Rightarrow> fail (operation @ '' receipt '' @ u64_to_string receipt_id @ '' could not be reattached'')
       | Some statuses \<Rightarrow> of_result (ack_loop operation receipt_id host statuses 0 32 None False))"

definition live_answers :: "question_answer list" where
  "live_answers = [\<lparr>qa_question_id = ''live-e2e'', qa_values = [''confirmed'']\<rparr>]"

text \<open>An error returns before the engine is shut down.\<close>

definition publish_answer ::
  "'x live_services \<Rightarrow> relay_url \<Rightarrow> string \<Rightarrow> event_id \<Rightarrow> string \<Rightarrow> ('x, string, u64 \<times> event_id \<times> public_key) action" where
  "publish_answer lv host group_id root_event_id secret =
     and_then (lv_engine_new lv) (\<lambda>_.
     and_then (ae_add_account (lv_accounts lv) secret) (\<lambda>account.
     and_then (ae_set_active_account (lv_accounts lv) (Some (ac_public_key account))) (\<lambda>_.
     and_then (live_seconds lv) (\<lambda>created_at.
     and_then (of_result (map_err related_compose_error_text
         (compose_answer (lv_parse_key lv) (lv_parse_event_id lv) (lv_group_send lv) host
            \<lparr>fa_author = ac_public_key account, fa_created_at = created_at, fa_group_id = group_id,
             fa_root_event_id = root_event_id, fa_content = ''Live E2E confirmed.'', fa_answers = live_answers\<rparr>))) (\<lambda>intent.
     and_then (lv_publish_tracked lv intent) (\<lambda>receipt_id.
     and_then (await_ack lv receipt_id host ''answer'') (\<lambda>event_id x.
       (Inr (receipt_id, event_id, ac_public_key account), lv_shutdown lv x))))))))"

section \<open>What the client's evidence means\<close>

text \<open>
  The relay served the event: some observation delivered, within its twelve rounds, a row with this id
  that came from the host and that the protocol reads as \<open>parsed\<close>.
\<close>

definition served_by_relay :: "'x live_services \<Rightarrow> relay_url \<Rightarrow> string \<Rightarrow> event_id \<Rightarrow> parsed_event \<Rightarrow> bool" where
  "served_by_relay lv host group_id event_id parsed \<longleftrightarrow>
     (\<exists>demand frames x x' k frame window row. lv_observe lv demand 1 1 x = (Inr frames, x') \<and> k < 12
        \<and> frames k = Some frame \<and> lf_window frame = Some window \<and> row \<in> set window
        \<and> ev_id (sr_event row) = event_id \<and> host \<in> set (sr_sources row)
        \<and> host \<in> set (map se_relay (aq_sources (lf_evidence frame)))
        \<and> parse (sr_event row) group_id = Some parsed)"

lemma scan_frames_Seen:
  assumes "scan_frames lv host group_id event_id frames k n last_evidence = Seen observed"
  shows "\<exists>j frame window row. k \<le> j \<and> j < k + n \<and> frames j = Some frame \<and> lf_window frame = Some window \<and> row \<in> set window
    \<and> ev_id (sr_event row) = event_id \<and> host \<in> set (sr_sources row)
    \<and> host \<in> set (map se_relay (aq_sources (lf_evidence frame))) \<and> parse (sr_event row) group_id = Some (ob_parsed observed)"
  using assms
proof (induction n arbitrary: k last_evidence)
  case (Suc n)
  show ?case
  proof (cases "\<exists>last'. scan_frames lv host group_id event_id frames (Suc k) n last' = Seen observed")
    case True
    then obtain last' where "scan_frames lv host group_id event_id frames (Suc k) n last' = Seen observed" ..
    from Suc.IH [OF this] show ?thesis by (metis Suc_leD add_Suc add_Suc_right)
  next
    case False
    then obtain frame window row where "frames k = Some frame" "lf_window frame = Some window"
      "find (\<lambda>row. ev_id (sr_event row) = event_id) window = Some row"
      "find (\<lambda>source. se_relay source = host) (aq_sources (lf_evidence frame)) \<noteq> None"
      "host \<in> set (sr_sources row)" "parse (sr_event row) group_id = Some (ob_parsed observed)"
      using Suc.prems by (auto simp: Let_def bind_eq_Some_conv split: option.splits if_splits)
    moreover from this have "row \<in> set window" "ev_id (sr_event row) = event_id"
      "\<exists>source \<in> set (aq_sources (lf_evidence frame)). se_relay source = host"
      by (auto simp: find_Some_iff find_None_iff)
    ultimately show ?thesis by (intro exI [of _ k]) auto
  qed
qed simp

lemma observe_exact_served:
  assumes "observe_exact lv host group_id event_id x = (Inr observed, x')"
  shows "served_by_relay lv host group_id event_id (ob_parsed observed)"
proof -
  obtain demand frames x1 x2 where "lv_observe lv demand 1 1 x1 = (Inr frames, x2)"
    "scan_frames lv host group_id event_id frames 0 12 ''no relay frame'' = Seen observed"
    using assms by (auto simp: observe_exact_def elim!: and_then_cases split: scan.splits)
  then show ?thesis using scan_frames_Seen unfolding served_by_relay_def by fastforce
qed

text \<open>The audio a relay points to was fetched, has the promised digest and the promised length.\<close>

definition audio_matches :: "'x live_services \<Rightarrow> durable_artifact \<Rightarrow> audio_evidence \<Rightarrow> bool" where
  "audio_matches lv audio evidence \<longleftrightarrow>
     (\<exists>x x' response bytes. lv_get lv audio_redirects LIVE_TIMEOUT (art_url audio) x = (Inr response, x')
        \<and> dl_body response = Inr bytes \<and> 200 \<le> dl_status response \<and> dl_status response < 300
        \<and> lv_sha256_hex lv bytes = art_sha256 audio \<and> of_nat (length bytes) = art_byte_count audio
        \<and> evidence = \<lparr>ad_url = art_url audio, ad_sha256 = art_sha256 audio, ad_byte_count = art_byte_count audio,
            ad_media_type = art_media_type audio, ad_downloaded_and_matched = True\<rparr>)"

lemma verify_audio_matches:
  "verify_audio lv item x = (Inr evidence, x') \<Longrightarrow> audio_matches lv (si_audio (item_fields item)) evidence"
  by (auto simp: verify_audio_def audio_matches_def Let_def elim!: and_then_cases split: if_splits)
    blast

text \<open>The host acknowledged the signed event and no status before that ended the write.\<close>

definition ends_write :: "write_status \<Rightarrow> bool" where
  "ends_write status \<longleftrightarrow>
     (case status of Rejected _ _ \<Rightarrow> True | GaveUp _ \<Rightarrow> True | OutcomeUnknown _ \<Rightarrow> True | Failed _ \<Rightarrow> True | _ \<Rightarrow> False)"

definition delivered :: "(nat \<Rightarrow> write_status option) \<Rightarrow> nat \<Rightarrow> nat \<Rightarrow> write_status set" where
  "delivered statuses k m = {status. \<exists>j \<in> {k..<m}. statuses j = Some status}"

lemma delivered_Suc:
  assumes "k < m"
  shows "delivered statuses k m = set_option (statuses k) \<union> delivered statuses (Suc k) m"
proof -
  have "{k..<m} = insert k {Suc k..<m}" using assms by auto
  then show ?thesis unfolding delivered_def by auto
qed

lemma ack_loop_Inr:
  assumes "ack_loop operation receipt_id host statuses k n event_id acknowledged = Inr event"
    and "event_id = None \<or> \<not> acknowledged"
  shows "\<exists>m. k \<le> m \<and> m \<le> k + n \<and> (event_id = Some event \<or> Signed event \<in> delivered statuses k m)
    \<and> (acknowledged \<or> Acked host \<in> delivered statuses k m) \<and> (\<forall>status \<in> delivered statuses k m. \<not> ends_write status)"
  using assms
proof (induction n arbitrary: k event_id acknowledged)
  case (Suc n)
  have step: ?case
    if loop: "ack_loop operation receipt_id host statuses (Suc k) n event_id' acknowledged' = Inr event"
      "event_id' = None \<or> \<not> acknowledged'"
      and this_round: "event_id' = event_id \<or> (\<exists>e. event_id' = Some e \<and> statuses k = Some (Signed e))"
      "acknowledged' = acknowledged \<or> statuses k = Some (Acked host)"
      "\<forall>status. statuses k = Some status \<longrightarrow> \<not> ends_write status"
    for event_id' acknowledged'
  proof -
    obtain m where m: "Suc k \<le> m" "m \<le> Suc k + n" "event_id' = Some event \<or> Signed event \<in> delivered statuses (Suc k) m"
      "acknowledged' \<or> Acked host \<in> delivered statuses (Suc k) m" "\<forall>status \<in> delivered statuses (Suc k) m. \<not> ends_write status"
      using Suc.IH [OF loop] by blast
    moreover have "delivered statuses k m = set_option (statuses k) \<union> delivered statuses (Suc k) m"
      using m(1) delivered_Suc [of k m statuses] by simp
    ultimately show ?thesis using this_round by (intro exI [of _ m]) auto
  qed
  have stop: ?case
    if "statuses k = Some status" "\<not> ends_write status" "event_id = Some event \<or> status = Signed event"
      "acknowledged \<or> status = Acked host" for status
    using that delivered_Suc [of k "Suc k" statuses]
    by (intro exI [of _ "Suc k"]) (auto simp: delivered_def)
  show ?case
  proof (cases "statuses k")
    case None
    then show ?thesis using Suc.prems step [of event_id acknowledged] by (simp add: Let_def)
  next
    case (Some status)
    then show ?thesis
      using Suc.prems step stop
      by (cases status) (auto simp: Let_def ends_write_def split: option.splits if_splits)
  qed
qed simp

definition acknowledged_by_host :: "'x live_services \<Rightarrow> relay_url \<Rightarrow> u64 \<Rightarrow> event_id \<Rightarrow> bool" where
  "acknowledged_by_host lv host receipt_id event_id \<longleftrightarrow>
     (\<exists>statuses x x' m. lv_reattach_receipt lv receipt_id x = (Inr (Some statuses), x') \<and> m \<le> 32
        \<and> Signed event_id \<in> delivered statuses 0 m \<and> Acked host \<in> delivered statuses 0 m
        \<and> (\<forall>status \<in> delivered statuses 0 m. \<not> ends_write status))"

lemma await_ack_Inr:
  assumes "await_ack lv receipt_id host operation x = (Inr event_id, x')"
  shows "acknowledged_by_host lv host receipt_id event_id"
proof -
  obtain statuses x1 x2 where s: "lv_reattach_receipt lv receipt_id x1 = (Inr (Some statuses), x2)"
    "ack_loop operation receipt_id host statuses 0 32 None False = Inr event_id"
    using assms by (auto simp: await_ack_def elim!: and_then_cases split: option.splits)
  then show ?thesis
    using ack_loop_Inr [OF s(2)] s(1) unfolding acknowledged_by_host_def by fastforce
qed

lemma publish_answer_Inr:
  assumes "publish_answer lv host group_id root_event_id secret x = (Inr (receipt_id, event_id, author), x')"
  shows "acknowledged_by_host lv host receipt_id event_id"
  using assms by (auto simp: publish_answer_def elim!: and_then_cases dest: await_ack_Inr)

end
