(* ===== verification/Live_Smoke.thy ===== *)
theory Live_Smoke
  imports Live_Network
begin

text \<open>
  The live checks (\<open>daemon/src/live_smoke.rs\<close> with the drivers \<open>bin/tts29-live-e2e.rs\<close> and
  \<open>bin/tts29-tree-e2e.rs\<close>): the daemon is opened and serves one submission of its own client over the private
  socket, and the independent client of the network checks what became of it.
\<close>

section \<open>Serving the own client\<close>

text \<open>
  What the operating system makes of the socket: which connection the listener accepts, given what the
  client sends (nothing if it failed before), and what the client receives, given what the server wrote.
\<close>

record client_link =
  cl_accept :: "string option \<Rightarrow> io_failure + connection"
  cl_receive :: "io_failure + string \<Rightarrow> io_failure + string"

definition sent_payload :: "string + string \<Rightarrow> string option" where
  "sent_payload encoded =
     (case encoded of Inl _ \<Rightarrow> None | Inr payload \<Rightarrow> if length payload > MAX_LOCAL_FRAME_BYTES then None else Some payload)"

text \<open>The client thread and the server: both results.\<close>

definition serve_client ::
  "local_codec \<Rightarrow> 'w local_publish_service \<Rightarrow> client_link \<Rightarrow> string + string \<Rightarrow> u64 option \<Rightarrow> 'w
   \<Rightarrow> ((io_failure + string) \<times> (io_failure + local_publish_response)) \<times> 'w" where
  "serve_client lc service link encoded timeout w =
     (case serve_one lc service (cl_accept link (sent_payload encoded)) w of
        (server_result, w) \<Rightarrow>
          ((server_result, fst (submit lc (\<lambda>timeout payload. of_result (cl_receive link server_result)) encoded timeout ())), w))"

record live_relay_evidence =
  lr_relay :: string
  lr_group_id :: string
  lr_request_id :: string
  lr_group_creation_receipt_id :: "u64 option"
  lr_group_creation_event_id :: "string option"
  lr_item_receipt_id :: u64
  lr_item_event_id :: string
  lr_item_author :: string
  lr_item_source :: live_source_evidence
  lr_audio :: audio_evidence
  lr_answer_receipt_id :: u64
  lr_answer_event_id :: string
  lr_answer_root_id :: string
  lr_answer_author :: string
  lr_answer_source :: live_source_evidence

record tree_smoke_evidence =
  ts_relay :: string
  ts_group_id :: string
  ts_root_event_id :: string
  ts_child_event_ids :: "string list"

text \<open>
  What a check meets besides what a daemon process meets: the link of its client, the directory for
  temporary files, the files that survive removing a directory (none, unless something fails), and printing
  its evidence.
\<close>

record 'x smoke_environment = "'x process_environment" +
  sm_link :: client_link
  sm_temp_dir :: string
  sm_survives :: "string \<Rightarrow> bool"
  sm_print_live :: "live_relay_evidence \<Rightarrow> string + unit"
  sm_print_tree :: "tree_smoke_evidence \<Rightarrow> string + unit"

definition PRODUCER_TIMEOUT :: u64 where "PRODUCER_TIMEOUT = 240"

definition disposable_secret :: "'x live_services \<Rightarrow> ('x, string, string) action" where
  "disposable_secret lv x = (case lv_random lv x of (bytes, x) \<Rightarrow> (Inr (encode_hex bytes), x))"

definition public_key_for :: "'x live_services \<Rightarrow> string \<Rightarrow> ('x, string, public_key) action" where
  "public_key_for lv secret =
     and_then (with_error (\<lambda>error. ''disposable NMP identity engine failed: '' @ error) (lv_engine_new lv)) (\<lambda>_.
     and_then (with_error (\<lambda>error. ''disposable NMP identity was refused: '' @ error) (ae_add_account (lv_accounts lv) secret))
       (\<lambda>account x. (Inr (ac_public_key account), lv_shutdown lv x)))"

definition published :: "local_publish_response \<Rightarrow> string + (u64 \<times> string)" where
  "published response =
     (case response of
        LocalPublished version request_id receipt_id event_id answer_wait \<Rightarrow>
          if answer_wait = NotRequested then Inr (receipt_id, event_id)
          else Inl ''live daemon returned an unexpected answer-wait state''
      | PublishedTree version request_id root_event_id child_event_ids \<Rightarrow>
          Inl ''live daemon returned a tree response for a single item''
      | LocalError version code message \<Rightarrow>
          Inl (''live daemon refused publication ('' @ code @ ''): '' @ message))"

definition env_or :: "environment \<Rightarrow> string \<Rightarrow> string \<Rightarrow> string" where
  "env_or env name fallback = (case env name of EnvValue content \<Rightarrow> content | _ \<Rightarrow> fallback)"

definition live_request :: "environment \<Rightarrow> string \<Rightarrow> string \<Rightarrow> producer_request" where
  "live_request env request_id group_id =
     \<lparr>pr_request_id = request_id, pr_group_id = group_id, pr_voice = env_or env ''TTS29_LIVE_VOICE'' ''af_heart'',
      pr_agent_name = ''TTS29 live smoke'', pr_subject = ''Live relay E2E '' @ request_id,
      pr_summary = ''Published, reacquired, and played through the real TTS29 path.'',
      pr_body = ''This is a bounded TTS29 live relay end-to-end verification item.'', pr_attachments = [],
      pr_questions =
        [\<lparr>q_id = ''live-e2e'', q_kind = SingleChoice, q_short_title = ''Confirmed?'',
          q_title = ''Did the second live client confirm this item?'',
          q_description = Some ''The live verifier publishes one related answer.'',
          q_options = [\<lparr>opt_id = ''confirmed'', opt_title = ''Confirmed'', opt_description = None\<rparr>]\<rparr>],
      pr_attach = None\<rparr>"

text \<open>
  Both checks bind the socket, serve one connection, shut the producer down and look at the result of the
  server before that of the client; the listener lives until the check returns. \<open>label\<close> is the word their
  messages begin with.
\<close>

definition with_daemon ::
  "'x services \<Rightarrow> local_codec \<Rightarrow> 'x smoke_environment \<Rightarrow> string \<Rightarrow> string \<Rightarrow> opened \<Rightarrow> string + string \<Rightarrow> u64 option
   \<Rightarrow> (local_publish_response \<Rightarrow> ('x startup_world, string, 'a) action) \<Rightarrow> ('x startup_world, string, 'a) action" where
  "with_daemon sv lc sm label socket_path opened encoded timeout continue su =
     (case bind_listener socket_path (su_nodes su) of
        (Inl error, ns) \<Rightarrow> (Inl (label @ '' daemon socket could not bind: '' @ if_text error), su\<lparr>su_nodes := ns\<rparr>)
      | (Inr listener, ns) \<Rightarrow>
          (case serve_client lc (production_service sv (op_producer opened) (pe_attend sm)) (sm_link sm) encoded timeout
                  (daemon_of opened su) of
             ((server_result, client_result), w) \<Rightarrow>
               (case and_then (of_result (map_err (\<lambda>error. label @ '' daemon request failed: '' @ if_text error) server_result)) (\<lambda>_.
                     and_then (of_result (map_err (\<lambda>error. label @ '' daemon client failed: '' @ if_text error) client_result)) continue)
                     ((served (w\<lparr>dw_ext := pe_shutdown sm (dw_ext w)\<rparr>) su)\<lparr>su_nodes := ns\<rparr>) of
                  (result, su) \<Rightarrow> (result, su\<lparr>su_nodes := drop_listener listener (su_nodes su)\<rparr>))))"

section \<open>The check of one item\<close>

text \<open>The group may be one the check creates: then the daemon is a disposable identity that owns it.\<close>

definition live_production ::
  "'x live_services \<Rightarrow> environment \<Rightarrow> production_config \<Rightarrow> ('x, string, production_config) action" where
  "live_production lv env production =
     (if env ''TTS29_LIVE_CREATE_GROUP'' = EnvValue ''1''
      then
        and_then (disposable_secret lv) (\<lambda>daemon_secret.
        and_then (public_key_for lv daemon_secret) (\<lambda>owner.
          ok (production\<lparr>pc_owner_pubkey := owner, pc_secret_key_override := Some daemon_secret\<rparr>)))
      else ok production)"

text \<open>What follows the response of the daemon: the item, its audio and an answer, from the relay.\<close>

definition check_published ::
  "'x live_services \<Rightarrow> relay_url \<Rightarrow> string \<Rightarrow> string \<Rightarrow> string \<Rightarrow> group_bootstrap_evidence \<Rightarrow> local_publish_response
   \<Rightarrow> ('x, string, live_relay_evidence) action" where
  "check_published lv relay group_id request_id request_secret bootstrap response =
     and_then (of_result (published response)) (\<lambda>(item_receipt_id, item_event_id).
     and_then (observe_exact lv relay group_id item_event_id) (\<lambda>item_observation.
       case ob_parsed item_observation of
         Item item \<Rightarrow>
           and_then (verify_audio lv item) (\<lambda>audio.
           and_then (publish_answer lv relay group_id item_event_id request_secret) (\<lambda>(answer_receipt_id, answer_event_id, answer_author).
           and_then (observe_exact lv relay group_id answer_event_id) (\<lambda>answer_observation.
             case ob_parsed answer_observation of
               Answer answer \<Rightarrow>
                 if rel_root_id answer \<noteq> item_event_id \<or> ab_answers (rel_value answer) \<noteq> live_answers
                 then fail ''live answer did not preserve the expected item relationship''
                 else
                   ok \<lparr>lr_relay = relay, lr_group_id = group_id, lr_request_id = request_id,
                       lr_group_creation_receipt_id = gb_group_creation_receipt_id bootstrap,
                       lr_group_creation_event_id = gb_group_created_event_id bootstrap,
                       lr_item_receipt_id = item_receipt_id, lr_item_event_id = item_event_id,
                       lr_item_author = si_author (item_fields item), lr_item_source = ob_source item_observation,
                       lr_audio = audio, lr_answer_receipt_id = answer_receipt_id, lr_answer_event_id = answer_event_id,
                       lr_answer_root_id = rel_root_id answer, lr_answer_author = answer_author,
                       lr_answer_source = ob_source answer_observation\<rparr>
             | _ \<Rightarrow> fail ''live relay returned the answer id with the wrong TTS29 type'')))
       | _ \<Rightarrow> fail ''live relay returned the item id with the wrong TTS29 type''))"

definition live_request_id :: "u64 \<Rightarrow> string" where
  "live_request_id now = ''live-e2e-'' @ u64_to_string now"

definition live_local :: "environment \<Rightarrow> string \<Rightarrow> string \<Rightarrow> string \<Rightarrow> local_publish_request" where
  "live_local env request_id group_id request_secret =
     \<lparr>lp_version = LOCAL_PROTOCOL_VERSION, lp_request = live_request env request_id group_id,
      lp_wait_for_answer_seconds = None, lp_agent_nsec = Some request_secret\<rparr>"

definition run_live_relay_smoke ::
  "'x services \<Rightarrow> 'x startup_services \<Rightarrow> 'x live_services \<Rightarrow> local_codec \<Rightarrow> 'x smoke_environment \<Rightarrow> string
   \<Rightarrow> ('x startup_world, string, live_relay_evidence) action" where
  "run_live_relay_smoke sv ss lv lc sm path =
     and_then (of_result (load_daemon_config (pe_decode sm) (pe_variables sm) path (pe_config_bytes sm path))) (\<lambda>loaded.
     and_then (of_result (ok_or ''live relay URL is invalid'' (ss_parse_relay ss (pc_host (ld_production loaded))))) (\<lambda>relay.
     and_then (at_outside (live_production lv (pe_variables sm) (ld_production loaded))) (\<lambda>production.
     and_then (at_outside (disposable_secret lv)) (\<lambda>request_secret.
     and_then (at_outside (live_seconds lv)) (\<lambda>now.
       (let group_id = pc_group_id (ld_production loaded);
            request_id = live_request_id now;
            local = live_local (pe_variables sm) request_id group_id request_secret in
        and_then (open_with_clock sv ss (pe_pid sm) production) (\<lambda>opened.
          with_daemon sv lc sm ''live'' (ld_socket_path loaded) opened (lc_encode_publish lc local) (Some PRODUCER_TIMEOUT) (\<lambda>response.
            at_outside (check_published lv relay group_id request_id request_secret (op_bootstrap opened) response)))))))))"

definition e2e_argument :: "string \<Rightarrow> string list \<Rightarrow> string + string" where
  "e2e_argument program arguments =
     (case arguments of
        [flag, path] \<Rightarrow> if flag = ''--config'' then Inr path else Inl (''usage: '' @ program @ '' --config <daemon.json>'')
      | _ \<Rightarrow> Inl (''usage: '' @ program @ '' --config <daemon.json>''))"

definition run_live_e2e ::
  "'x services \<Rightarrow> 'x startup_services \<Rightarrow> 'x live_services \<Rightarrow> local_codec \<Rightarrow> 'x smoke_environment \<Rightarrow> ('x startup_world, string, unit) action" where
  "run_live_e2e sv ss lv lc sm =
     and_then (of_result (e2e_argument ''tts29-live-e2e'' (pe_arguments sm))) (\<lambda>path.
     and_then (run_live_relay_smoke sv ss lv lc sm path) (\<lambda>evidence.
       of_result (map_err (\<lambda>error. ''live evidence could not be encoded: '' @ error) (sm_print_live sm evidence))))"

section \<open>The check of a tree\<close>

text \<open>\<open>std::fs::write\<close> truncates and writes; \<open>remove_dir_all\<close> is called for its effect only.\<close>

definition fs_write :: "string \<Rightarrow> string \<Rightarrow> unit io" where
  "fs_write path bytes =
     and_then (guarded (\<lambda>fs. (Inr (), fs\<lparr>fs_files := (fs_files fs)(path \<mapsto> [])\<rparr>))) (\<lambda>_. fs_write_all path bytes)"

definition fs_remove_dir_all :: "(string \<Rightarrow> bool) \<Rightarrow> string \<Rightarrow> file_system \<Rightarrow> file_system" where
  "fs_remove_dir_all survives dir fs =
     fs\<lparr>fs_files := (\<lambda>p. if starts_with p (path_prefix dir) \<and> \<not> survives p then None else fs_files fs p)\<rparr>"

definition at_files :: "'a io \<Rightarrow> ('x startup_world, io_error, 'a) action" where
  "at_files m = on_part su_fs (\<lambda>fs su. su\<lparr>su_fs := fs\<rparr>) m"

definition write_message :: "string \<Rightarrow> string \<Rightarrow> string \<Rightarrow> ('x startup_world, string, string) action" where
  "write_message dir name body =
     (let f = path_join dir name in
      and_then (with_error (\<lambda>error. ''tree message write failed: '' @ io_error_text error) (at_files (fs_write f body))) (\<lambda>_.
        if valid_utf8 f then ok f else fail ''tree message path is not UTF-8''))"

definition smoke_tree :: "string \<Rightarrow> string \<Rightarrow> string \<Rightarrow> string \<Rightarrow> string \<Rightarrow> spoken_tree" where
  "smoke_tree stamp group_id root child grandchild =
     \<lparr>st_request_id = ''tree-'' @ stamp, st_group_id = group_id, st_title = ''Daemon proposal'',
      st_summary = Some ''Published as a tree by the daemon.'', st_message = root, st_questions = [],
      st_attachments =
        [Narrated ''Detailed explanation'' child [] [Narrated ''Further note'' grandchild [] []]]\<rparr>"

definition published_tree :: "local_publish_response \<Rightarrow> string + (string \<times> string list)" where
  "published_tree response =
     (case response of
        PublishedTree version request_id root_event_id child_event_ids \<Rightarrow> Inr (root_event_id, child_event_ids)
      | LocalError version code message \<Rightarrow> Inl (''tree daemon refused publication ('' @ code @ ''): '' @ message)
      | LocalPublished version request_id receipt_id event_id answer_wait \<Rightarrow>
          Inl ''tree daemon returned a single-item response for a tree'')"

text \<open>Writing the three messages, parents first.\<close>

definition write_messages :: "string \<Rightarrow> ('x startup_world, string, string \<times> string \<times> string) action" where
  "write_messages dir =
     and_then (with_error (\<lambda>error. ''tree temp dir failed: '' @ io_error_text error) (at_files (fs_create_dir_all dir))) (\<lambda>_.
     and_then (write_message dir ''root.md'' ''Daemon-published proposal. Open the [Detailed explanation](attachment:).'') (\<lambda>root.
     and_then (write_message dir ''child.md'' ''Here is the detailed explanation. See the [Further note](attachment:).'') (\<lambda>child.
     and_then (write_message dir ''gc.md'' ''This is the further note, one level deeper.'') (\<lambda>grandchild.
       ok (root, child, grandchild)))))"

definition smoke_dir :: "'x smoke_environment \<Rightarrow> u64 \<Rightarrow> string" where
  "smoke_dir sm stamp = path_join (sm_temp_dir sm) (''tts29-tree-'' @ u64_to_string stamp)"

definition tree_group :: "environment \<Rightarrow> u64 \<Rightarrow> string" where
  "tree_group env stamp = env_or env ''TTS29_TREE_GROUP'' (''tts29-tree-'' @ u64_to_string stamp)"

definition tree_production :: "production_config \<Rightarrow> string \<Rightarrow> public_key \<Rightarrow> string \<Rightarrow> production_config" where
  "tree_production production group_id owner daemon_secret =
     production\<lparr>pc_group_id := group_id, pc_owner_pubkey := owner, pc_secret_key_override := Some daemon_secret\<rparr>"

definition tree_local :: "u64 \<Rightarrow> string \<Rightarrow> string \<times> string \<times> string \<Rightarrow> string \<Rightarrow> local_tree_request" where
  "tree_local stamp group_id messages request_secret =
     (case messages of (root, child, grandchild) \<Rightarrow>
        \<lparr>lt_version = LOCAL_PROTOCOL_VERSION, lt_tree = smoke_tree (u64_to_string stamp) group_id root child grandchild,
         lt_agent_id = Some ''indigo-claude'', lt_agent_nsec = Some request_secret\<rparr>)"

text \<open>After the response: the messages are removed, whatever it says.\<close>

definition report_tree ::
  "'x smoke_environment \<Rightarrow> u64 \<Rightarrow> string \<Rightarrow> string \<Rightarrow> local_publish_response \<Rightarrow> ('x startup_world, string, tree_smoke_evidence) action" where
  "report_tree sm stamp relay group_id response su =
     (bind_result (published_tree response) (\<lambda>(root_event_id, child_event_ids).
        Inr \<lparr>ts_relay = relay, ts_group_id = group_id, ts_root_event_id = root_event_id, ts_child_event_ids = child_event_ids\<rparr>),
      su\<lparr>su_fs := fs_remove_dir_all (sm_survives sm) (smoke_dir sm stamp) (su_fs su)\<rparr>)"

definition run_tree_relay_smoke ::
  "'x services \<Rightarrow> 'x startup_services \<Rightarrow> 'x live_services \<Rightarrow> local_codec \<Rightarrow> 'x smoke_environment \<Rightarrow> string
   \<Rightarrow> ('x startup_world, string, tree_smoke_evidence) action" where
  "run_tree_relay_smoke sv ss lv lc sm path =
     and_then (of_result (load_daemon_config (pe_decode sm) (pe_variables sm) path (pe_config_bytes sm path))) (\<lambda>loaded.
     and_then (at_outside (live_seconds lv)) (\<lambda>stamp.
       (let group_id = tree_group (pe_variables sm) stamp in
        and_then (at_outside (disposable_secret lv)) (\<lambda>daemon_secret.
        and_then (at_outside (public_key_for lv daemon_secret)) (\<lambda>owner.
        and_then (write_messages (smoke_dir sm stamp)) (\<lambda>messages.
        and_then (at_outside (disposable_secret lv)) (\<lambda>request_secret.
        and_then (open_with_clock sv ss (pe_pid sm) (tree_production (ld_production loaded) group_id owner daemon_secret)) (\<lambda>opened.
          with_daemon sv lc sm ''tree'' (ld_socket_path loaded) opened
            (lc_encode_tree lc (tree_local stamp group_id messages request_secret)) None
            (report_tree sm stamp (pc_host (ld_production loaded)) group_id)))))))))"

definition run_tree_e2e ::
  "'x services \<Rightarrow> 'x startup_services \<Rightarrow> 'x live_services \<Rightarrow> local_codec \<Rightarrow> 'x smoke_environment \<Rightarrow> ('x startup_world, string, unit) action" where
  "run_tree_e2e sv ss lv lc sm =
     and_then (of_result (e2e_argument ''tts29-tree-e2e'' (pe_arguments sm))) (\<lambda>path.
     and_then (run_tree_relay_smoke sv ss lv lc sm path) (\<lambda>evidence.
       of_result (map_err (\<lambda>error. ''tree evidence could not be encoded: '' @ error) (sm_print_tree sm evidence))))"

end
