(* ===== verification/Live_Laws.thy ===== *)
theory Live_Laws
  imports Live_Smoke
begin

text \<open>
  What the evidence of the live checks means: their network client's reports and the daemon's journal put
  together, for the check of one item and for the check of a tree.
\<close>

section \<open>What a check proves\<close>

text \<open>
  A private socket with one client: the connection that is accepted carries what this client sent, and what
  the client receives is what the server wrote.
\<close>

definition link_contract :: "client_link \<Rightarrow> bool" where
  "link_contract link \<longleftrightarrow>
     (\<forall>payload stream. cl_accept link (Some payload) = Inr stream \<longrightarrow> cn_incoming stream = Inr payload)
     \<and> (\<forall>result bytes. cl_receive link result = Inr bytes \<longrightarrow> result = Inr bytes)"

lemma serve_client_answered:
  assumes "local_codec_contract lc" and "link_contract link"
    and "serve_client lc service link encoded timeout w = ((Inr written, Inr response), w')"
  obtains payload where "encoded = Inr payload" "respond lc service (Inr payload) w = (response, w')"
proof -
  have s: "serve_one lc service (cl_accept link (sent_payload encoded)) w = (Inr written, w')"
    and c: "fst (submit lc (\<lambda>timeout payload. of_result (cl_receive link (Inr written))) encoded timeout ()) = Inr response"
    using assms(3) by (auto simp: serve_client_def split: prod.splits)
  obtain payload bytes where p: "encoded = Inr payload" "length payload \<le> MAX_LOCAL_FRAME_BYTES"
    "cl_receive link (Inr written) = Inr bytes" "lc_decode_response lc bytes = Inr response"
    using c by (auto simp: submit_def and_then_def of_result_def split: sum.splits if_splits dest!: read_bounded_Inr)
  then obtain stream where a: "cl_accept link (Some payload) = Inr stream" "serve_stream lc service stream w = (Inr written, w')"
    using s by (auto simp: sent_payload_def serve_one_def split: sum.splits)
  have "cn_incoming stream = Inr payload" "bytes = written" using assms(2) a(1) p(3) by (auto simp: link_contract_def)
  with a(2) p(2) obtain response' where r: "respond lc service (Inr payload) w = (response', w')"
    "lc_encode_response lc response' = Inr written"
    by (auto simp: serve_stream_def read_bounded_within split: prod.splits sum.splits)
  have "response' = response" using local_codec_contractD(3) [OF assms(1) r(2)] p(4) \<open>bytes = written\<close> by simp
  then show ?thesis using that p(1) r(1) by blast
qed

lemma serve_client_grows:
  assumes "codec_round_trip (sv_codec sv)" and "daemon_sound sv pd w"
    and "serve_client lc (production_service sv pd attend) link encoded timeout w = (results, w')"
  shows "grows sv pd w w'"
proof -
  obtain q where s: "serve_one lc (production_service sv pd attend) (cl_accept link (sent_payload encoded)) w = (q, w')"
    using assms(3) by (auto simp: serve_client_def split: prod.splits)
  show ?thesis
  proof (cases "cl_accept link (sent_payload encoded)")
    case (Inl error)
    then show ?thesis using s assms(2) by (simp add: serve_one_def grows_def)
  next
    case (Inr stream)
    then show ?thesis using s serve_stream_grows [OF assms(1,2)] by (simp add: serve_one_def)
  qed
qed

lemma startup_journal_parts [simp]:
  "startup_journal (su\<lparr>su_nodes := ns\<rparr>) = startup_journal su" "startup_journal (su\<lparr>su_ext := x\<rparr>) = startup_journal su"
  "startup_journal (served w su) = journal_part w" "journal_part (w\<lparr>dw_ext := x\<rparr>) = journal_part w"
  "journal_part (daemon_of opened su) = startup_journal su"
  by (simp_all add: startup_journal_def served_def journal_part_def daemon_of_def)

lemma with_daemon_cases:
  assumes "with_daemon sv lc sm label socket_path opened encoded timeout continue su = (r, su')"
  obtains (Unbound) error where "r = Inl error" "startup_journal su' = startup_journal su"
  | (Refused) error results w where "r = Inl error"
      "serve_client lc (production_service sv (op_producer opened) (pe_attend sm)) (sm_link sm) encoded timeout (daemon_of opened su)
        = (results, w)" "startup_journal su' = journal_part w"
  | (Answered) written response w su1 su2 where
      "serve_client lc (production_service sv (op_producer opened) (pe_attend sm)) (sm_link sm) encoded timeout (daemon_of opened su)
        = ((Inr written, Inr response), w)" "startup_journal su1 = journal_part w" "continue response su1 = (r, su2)"
      "startup_journal su' = startup_journal su2"
proof -
  obtain bound ns where b: "bind_listener socket_path (su_nodes su) = (bound, ns)" by fastforce
  obtain server client w where "serve_client lc (production_service sv (op_producer opened) (pe_attend sm)) (sm_link sm)
      encoded timeout (daemon_of opened su) = ((server, client), w)" by (metis surj_pair)
  let ?su1 = "(served (w\<lparr>dw_ext := pe_shutdown sm (dw_ext w)\<rparr>) su)\<lparr>su_nodes := ns\<rparr>"
  consider (u) error where "bound = Inl error" | (s) listener error where "bound = Inr listener" "server = Inl error"
    | (c) listener written error where "bound = Inr listener" "server = Inr written" "client = Inl error"
    | (ok) listener written response where "bound = Inr listener" "server = Inr written" "client = Inr response"
    by (cases bound; cases server; cases client) auto
  then show ?thesis
  proof cases
    case u
    then show ?thesis using assms b Unbound by (auto simp: with_daemon_def)
  next
    case s
    then show ?thesis using assms b \<open>serve_client _ _ _ _ _ _ = _\<close> Refused [OF _ \<open>serve_client _ _ _ _ _ _ = _\<close>]
      by (auto simp: with_daemon_def and_then_def of_result_def)
  next
    case c
    then show ?thesis using assms b \<open>serve_client _ _ _ _ _ _ = _\<close> Refused [OF _ \<open>serve_client _ _ _ _ _ _ = _\<close>]
      by (auto simp: with_daemon_def and_then_def of_result_def)
  next
    case ok
    obtain q su2 where rest: "continue response ?su1 = (q, su2)" by fastforce
    then have "r = q" "su' = su2\<lparr>su_nodes := drop_listener listener (su_nodes su2)\<rparr>"
      using assms b ok \<open>serve_client _ _ _ _ _ _ = _\<close> by (auto simp: with_daemon_def and_then_def of_result_def)
    then show ?thesis
      using Answered [of written response w ?su1 su2] rest ok \<open>serve_client _ _ _ _ _ _ = _\<close> by simp
  qed
qed

lemma at_outside_cases:
  assumes "at_outside m su = (r, su')"
  obtains x x' where "m x = (r, x')" "startup_journal su' = startup_journal su"
  using assms by (auto simp: at_outside_def on_part_def split: prod.splits)

lemma live_production_root:
  "live_production lv env production x = (Inr production', x') \<Longrightarrow> pc_journal_root production' = pc_journal_root production"
  by (auto simp: live_production_def split: if_splits elim!: and_then_cases)


text \<open>Actions of a check that keep the configured journal readable and every published job.\<close>

definition keeps_published :: "job_codec \<Rightarrow> file_job_journal \<Rightarrow> ('x startup_world, 'e, 'a) action \<Rightarrow> bool" where
  "keeps_published codec j m \<longleftrightarrow>
     (\<forall>su r su'. m su = (r, su') \<longrightarrow> store_sound codec j (startup_journal su) \<longrightarrow>
        store_sound codec j (startup_journal su')
        \<and> published_kept (stored_jobs codec j (startup_journal su)) (stored_jobs codec j (startup_journal su')))"

lemma keeps_published_and_then [intro]:
  assumes "keeps_published codec j m" and "\<And>x s s'. m s = (Inr x, s') \<Longrightarrow> keeps_published codec j (f x)"
  shows "keeps_published codec j (and_then m f)"
  unfolding keeps_published_def
proof (intro allI impI)
  fix su r su' assume run: "and_then m f su = (r, su')" and sound: "store_sound codec j (startup_journal su)"
  from run show "store_sound codec j (startup_journal su')
      \<and> published_kept (stored_jobs codec j (startup_journal su)) (stored_jobs codec j (startup_journal su'))"
  proof (cases rule: and_then_cases)
    case (Error e)
    then show ?thesis using assms(1) sound unfolding keeps_published_def by blast
  next
    case (Ok x t)
    then show ?thesis
      using assms(1) assms(2) [OF Ok(1)] sound published_kept_trans unfolding keeps_published_def by blast
  qed
qed

lemma keeps_published_same:
  "(\<And>su r su'. m su = (r, su') \<Longrightarrow> startup_journal su' = startup_journal su) \<Longrightarrow> keeps_published codec j m"
  unfolding keeps_published_def by fastforce

lemma keeps_published_of_result [intro]: "keeps_published codec j (of_result r)"
  by (rule keeps_published_same) simp

lemma keeps_published_at_outside [intro]: "keeps_published codec j (at_outside m)"
  by (rule keeps_published_same) (erule at_outside_cases)

lemma keeps_published_open [intro]: "keeps_published codec j (open_with_clock sv ss pid config)"
  unfolding keeps_published_def using open_files startup_records by (metis published_kept_refl)

lemma open_journal:
  "open_with_clock sv ss pid config su = (Inr opened, su') \<Longrightarrow>
   pd_journal (op_producer opened) = \<lparr>fj_root = pc_journal_root config, fj_pid = pid\<rparr>"
  using open_effect by (fastforce simp: opens_as_def)

lemma keeps_published_with_daemon:
  assumes "codec_round_trip (sv_codec sv)" and "pd_journal (op_producer opened) = j"
    and "\<And>response. keeps_published (sv_codec sv) j (continue response)"
  shows "keeps_published (sv_codec sv) j (with_daemon sv lc sm label socket_path opened encoded timeout continue)"
  unfolding keeps_published_def
proof (intro allI impI)
  fix su r su'
  assume run: "with_daemon sv lc sm label socket_path opened encoded timeout continue su = (r, su')"
    and sound: "store_sound (sv_codec sv) j (startup_journal su)"
  let ?kept = "\<lambda>s'. store_sound (sv_codec sv) j s' \<and> published_kept (stored_jobs (sv_codec sv) j (startup_journal su)) (stored_jobs (sv_codec sv) j s')"
  have served: "?kept (journal_part w)"
    if "serve_client lc (production_service sv (op_producer opened) (pe_attend sm)) (sm_link sm) encoded timeout (daemon_of opened su)
      = (results, w)" for results w
    using serve_client_grows [OF assms(1) _ that] sound by (simp add: grows_def daemon_sound_def daemon_jobs_def assms(2))
  from run show "?kept (startup_journal su')"
  proof (cases rule: with_daemon_cases)
    case Unbound
    then show ?thesis using sound by simp
  next
    case Refused
    then show ?thesis using served by simp
  next
    case (Answered written response w su1 su2)
    then show ?thesis
      using served [OF Answered(1)] assms(3) published_kept_trans unfolding keeps_published_def by fastforce
  qed
qed

lemma run_live_keeps:
  assumes "codec_round_trip (sv_codec sv)"
    and "\<And>loaded. load_daemon_config (pe_decode sm) (pe_variables sm) path (pe_config_bytes sm path) = Inr loaded \<Longrightarrow>
      j = \<lparr>fj_root = pc_journal_root (ld_production loaded), fj_pid = pe_pid sm\<rparr>"
  shows "keeps_published (sv_codec sv) j (run_live_relay_smoke sv ss lv lc sm path)"
  unfolding run_live_relay_smoke_def Let_def
  by (intro keeps_published_and_then keeps_published_of_result keeps_published_at_outside keeps_published_open
      keeps_published_with_daemon [OF assms(1)])
    (auto dest: assms(2) [OF sym] dest!: open_journal live_production_root elim!: at_outside_cases)

section \<open>The evidence of a live check is true\<close>

definition live_evidence_true ::
  "'x services \<Rightarrow> 'x live_services \<Rightarrow> (string \<Rightarrow> job_record option) \<Rightarrow> environment \<Rightarrow> live_relay_evidence \<Rightarrow> bool" where
  "live_evidence_true sv lv jobs env e \<longleftrightarrow>
     (\<exists>job item membership. jobs (lr_request_id e) = Some job
        \<and> jr_phase job = Published item membership (lr_item_receipt_id e) (lr_item_event_id e)
        \<and> request_digest (sv_third_party sv) (live_request env (lr_request_id e) (lr_group_id e)) = Inr (jr_request_digest job))
     \<and> (\<exists>spoken. served_by_relay lv (lr_relay e) (lr_group_id e) (lr_item_event_id e) (Item spoken)
        \<and> si_author (item_fields spoken) = lr_item_author e \<and> audio_matches lv (si_audio (item_fields spoken)) (lr_audio e))
     \<and> acknowledged_by_host lv (lr_relay e) (lr_answer_receipt_id e) (lr_answer_event_id e)
     \<and> (\<exists>answer. served_by_relay lv (lr_relay e) (lr_group_id e) (lr_answer_event_id e) (Answer answer)
        \<and> rel_root_id answer = lr_item_event_id e \<and> lr_answer_root_id e = lr_item_event_id e
        \<and> ab_answers (rel_value answer) = live_answers)"

text \<open>The part of the evidence that comes from the network.\<close>

lemma check_published_true:
  assumes "check_published lv relay group_id request_id secret bootstrap response x = (Inr e, x')"
  shows "published response = Inr (lr_item_receipt_id e, lr_item_event_id e)"
    and "lr_request_id e = request_id" "lr_group_id e = group_id" "lr_relay e = relay"
    and "\<exists>spoken. served_by_relay lv (lr_relay e) (lr_group_id e) (lr_item_event_id e) (Item spoken)
      \<and> si_author (item_fields spoken) = lr_item_author e \<and> audio_matches lv (si_audio (item_fields spoken)) (lr_audio e)"
    and "acknowledged_by_host lv (lr_relay e) (lr_answer_receipt_id e) (lr_answer_event_id e)"
    and "\<exists>answer. served_by_relay lv (lr_relay e) (lr_group_id e) (lr_answer_event_id e) (Answer answer)
      \<and> rel_root_id answer = lr_item_event_id e \<and> lr_answer_root_id e = lr_item_event_id e
      \<and> ab_answers (rel_value answer) = live_answers"
proof -
  obtain receipt event item_seen item audio answer_receipt answer_event author answer_seen answer x1 x2 x3 x4 x5 x6 x7 where
    "published response = Inr (receipt, event)" "observe_exact lv relay group_id event x1 = (Inr item_seen, x2)"
    "ob_parsed item_seen = Item item" "verify_audio lv item x2 = (Inr audio, x3)"
    "publish_answer lv relay group_id event secret x3 = (Inr (answer_receipt, answer_event, author), x4)"
    "observe_exact lv relay group_id answer_event x4 = (Inr answer_seen, x5)" "ob_parsed answer_seen = Answer answer"
    "rel_root_id answer = event" "ab_answers (rel_value answer) = live_answers"
    "lr_request_id e = request_id" "lr_group_id e = group_id" "lr_relay e = relay" "lr_item_receipt_id e = receipt"
    "lr_item_event_id e = event" "lr_item_author e = si_author (item_fields item)" "lr_audio e = audio"
    "lr_answer_receipt_id e = answer_receipt" "lr_answer_event_id e = answer_event" "lr_answer_root_id e = rel_root_id answer"
    using assms by (auto simp: check_published_def split: parsed_event.splits if_splits elim!: and_then_cases
        dest!: sym [of _ "published response"])
  note facts = this observe_exact_served [OF this(2)] verify_audio_matches [OF this(4)] publish_answer_Inr [OF this(5)]
    observe_exact_served [OF this(6)]
  show "published response = Inr (lr_item_receipt_id e, lr_item_event_id e)"
    and "lr_request_id e = request_id" "lr_group_id e = group_id" "lr_relay e = relay"
    and "acknowledged_by_host lv (lr_relay e) (lr_answer_receipt_id e) (lr_answer_event_id e)"
    using facts by simp_all
  show "\<exists>spoken. served_by_relay lv (lr_relay e) (lr_group_id e) (lr_item_event_id e) (Item spoken)
      \<and> si_author (item_fields spoken) = lr_item_author e \<and> audio_matches lv (si_audio (item_fields spoken)) (lr_audio e)"
    using facts by (intro exI [of _ item]) simp
  show "\<exists>answer. served_by_relay lv (lr_relay e) (lr_group_id e) (lr_answer_event_id e) (Answer answer)
      \<and> rel_root_id answer = lr_item_event_id e \<and> lr_answer_root_id e = lr_item_event_id e
      \<and> ab_answers (rel_value answer) = live_answers"
    using facts by (intro exI [of _ answer]) simp
qed

text \<open>
  C19: the live check cannot pass by accident. However it ends, it leaves the configured journal readable
  and every published job as it was. When it reports evidence, the item is published on disk with this
  receipt and event for exactly the request of the check; the relay itself served that event as an item of
  the group and the audio it names was downloaded with the promised digest and length; the host
  acknowledged the answer, and the relay served it as an answer to that item with the one expected value.
\<close>

theorem live_smoke_true:
  assumes "codec_round_trip (sv_codec sv)" and "local_codec_contract lc" and "link_contract (sm_link sm)"
    and "fj_pid j = pe_pid sm"
    and "\<forall>loaded. load_daemon_config (pe_decode sm) (pe_variables sm) path (pe_config_bytes sm path) = Inr loaded \<longrightarrow>
      fj_root j = pc_journal_root (ld_production loaded)"
    and "store_sound (sv_codec sv) j (startup_journal su)"
    and "run_live_relay_smoke sv ss lv lc sm path su = (r, su')"
  shows "store_sound (sv_codec sv) j (startup_journal su')
    \<and> published_kept (stored_jobs (sv_codec sv) j (startup_journal su)) (stored_jobs (sv_codec sv) j (startup_journal su'))
    \<and> (\<forall>e. r = Inr e \<longrightarrow> live_evidence_true sv lv (stored_jobs (sv_codec sv) j (startup_journal su')) (pe_variables sm) e)"
proof -
  have journal: "j = \<lparr>fj_root = pc_journal_root (ld_production loaded), fj_pid = pe_pid sm\<rparr>"
    if "load_daemon_config (pe_decode sm) (pe_variables sm) path (pe_config_bytes sm path) = Inr loaded" for loaded
    using assms(4,5) that by (cases j) auto
  have "keeps_published (sv_codec sv) j (run_live_relay_smoke sv ss lv lc sm path)"
    by (rule run_live_keeps [OF assms(1) journal])
  note kept = this [unfolded keeps_published_def, rule_format, OF assms(7,6)]
  have "live_evidence_true sv lv (stored_jobs (sv_codec sv) j (startup_journal su')) (pe_variables sm) e" if result: "r = Inr e" for e
  proof -
    obtain loaded relay production secret now opened su1 su2 where
      loaded: "load_daemon_config (pe_decode sm) (pe_variables sm) path (pe_config_bytes sm path) = Inr loaded"
      and root: "pc_journal_root production = pc_journal_root (ld_production loaded)"
      and same: "startup_journal su1 = startup_journal su"
      and opened: "open_with_clock sv ss (pe_pid sm) production su1 = (Inr opened, su2)"
      and run: "with_daemon sv lc sm ''live'' (ld_socket_path loaded) opened
          (lc_encode_publish lc (live_local (pe_variables sm) (live_request_id now)
             (pc_group_id (ld_production loaded)) secret)) (Some PRODUCER_TIMEOUT) (\<lambda>response.
            at_outside (check_published lv relay (pc_group_id (ld_production loaded)) (live_request_id now) secret
              (op_bootstrap opened) response)) su2 = (Inr e, su')"
      using assms(7) result
      by (auto simp: run_live_relay_smoke_def Let_def elim!: and_then_cases at_outside_cases dest!: live_production_root
          sym [of _ "load_daemon_config _ _ _ _"])
    let ?local = "live_local (pe_variables sm) (live_request_id now) (pc_group_id (ld_production loaded)) secret"
    have j: "pd_journal (op_producer opened) = j" using open_journal [OF opened] journal [OF loaded] root by simp
    have "store_sound (sv_codec sv) j (startup_journal su2)"
      using startup_records(2) [OF open_files [OF opened]] assms(6) same by simp
    then have sound: "daemon_sound sv (op_producer opened) (daemon_of opened su2)" by (simp add: daemon_sound_def j)
    from run show ?thesis
    proof (cases rule: with_daemon_cases)
      case (Answered written response w su3 su4)
      obtain payload where "lc_encode_publish lc ?local = Inr payload"
        "respond lc (production_service sv (op_producer opened) (pe_attend sm)) (Inr payload) (daemon_of opened su2) = (response, w)"
        using assms(2,3) Answered(1) by (rule serve_client_answered)
      then have "publish_local sv (op_producer opened) (pe_attend sm) ?local (daemon_of opened su2) = (response, w)"
        using respond_production(1) [OF assms(2)] by metis
      then have truthful: "response_truthful sv (op_producer opened) ?local response w"
        using publish_local_effect [OF assms(1) sound] by blast
      obtain x x' where check: "check_published lv relay (pc_group_id (ld_production loaded)) (live_request_id now)
          secret (op_bootstrap opened) response x = (Inr e, x')" and final: "startup_journal su' = journal_part w"
        using Answered(2-4) by (metis at_outside_cases)
      note facts = check_published_true [OF check]
      have "daemon_jobs sv (op_producer opened) w = stored_jobs (sv_codec sv) j (startup_journal su')"
        by (simp add: daemon_jobs_def j final)
      then show ?thesis
        using truthful facts unfolding live_evidence_true_def
        by (auto simp: response_truthful_def published_def live_local_def live_request_def
            split: local_publish_response.splits if_splits)
    qed simp_all
  qed
  then show ?thesis using kept by blast
qed

section \<open>A live check that passes\<close>

text \<open>
  The daemon of a second start meets a check whose request it published before; the relay serves the item and
  the answer.
\<close>

abbreviation agent_key :: string where "agent_key \<equiv> replicate 64 (CHR ''1'')"
abbreviation event_a :: event_id where "event_a \<equiv> replicate 64 (CHR ''a'')"
abbreviation event_b :: event_id where "event_b \<equiv> replicate 64 (CHR ''b'')"

abbreviation live_job :: job_record where "live_job \<equiv> published_job ''live-e2e-100'' (CHR ''a'')"

definition live_world :: "account_registration list startup_world" where
  "live_world = booting_world\<lparr>su_fs := \<lparr>fs_files = [''/var/jobs/live-e2e-100.json'' \<mapsto> record_bytes live_job], fs_faults = []\<rparr>\<rparr>"

lemma live_jobs:
  "stored_jobs sample_codec sample_journal (startup_journal live_world) = [''live-e2e-100'' \<mapsto> live_job]"
  "store_sound sample_codec sample_journal (startup_journal live_world)"
proof -
  have name: "''/var/jobs/'' @ i @ ''.json'' = ''/var/jobs/live-e2e-100.json'' \<longleftrightarrow> i = ''live-e2e-100''" for i
    using append_json_iff [of i "''live-e2e-100''"] by simp
  have valid: "valid_request_id ''live-e2e-100''" by code_simp
  show "stored_jobs sample_codec sample_journal (startup_journal live_world) = [''live-e2e-100'' \<mapsto> live_job]"
    using valid name
    by (auto simp: stored_jobs_def startup_journal_def live_world_def sample_records decode_record_bytes fun_eq_iff)
  show "store_sound sample_codec sample_journal (startup_journal live_world)"
    by (auto simp: store_sound_def startup_journal_def live_world_def sample_records decode_record_bytes name [simplified]
        published_job_fields split: if_splits)
qed

definition live_codec :: local_codec where
  "live_codec =
     \<lparr>lc_encode_publish = (\<lambda>input. if input = live_local (\<lambda>name. EnvNotPresent) ''live-e2e-100'' ''tts'' agent_key
        then Inr ''request'' else Inl ''unsupported''),
      lc_decode_publish = (\<lambda>bytes. if bytes = ''request''
        then Some (live_local (\<lambda>name. EnvNotPresent) ''live-e2e-100'' ''tts'' agent_key) else None),
      lc_encode_tree = (\<lambda>input. Inl ''unsupported''), lc_decode_tree = (\<lambda>bytes. None),
      lc_encode_response = (\<lambda>response. if response = LocalPublished 1 ''live-e2e-100'' 5 event_a NotRequested
        then Inr ''response'' else Inl ''unsupported''),
      lc_decode_response = (\<lambda>bytes. if bytes = ''response''
        then Inr (LocalPublished 1 ''live-e2e-100'' 5 event_a NotRequested) else Inl ''unsupported'')\<rparr>"

lemma live_codec_contract: "local_codec_contract live_codec"
  by (auto simp: local_codec_contract_def live_codec_def split: if_splits)

lemma live_codec_facts:
  "lc_encode_publish live_codec (live_local (\<lambda>name. EnvNotPresent) ''live-e2e-100'' ''tts'' agent_key) = Inr ''request''"
  "lc_encode_response live_codec (LocalPublished 1 ''live-e2e-100'' 5 event_a NotRequested) = Inr ''response''"
  "lc_decode_response live_codec ''response'' = Inr (LocalPublished 1 ''live-e2e-100'' 5 event_a NotRequested)"
  by (simp_all add: live_codec_def)

definition plain_link :: client_link where
  "plain_link =
     \<lparr>cl_accept = (\<lambda>payload. case payload of
         None \<Rightarrow> Inl (invalid_data ''nobody'')
       | Some bytes \<Rightarrow> Inr \<lparr>cn_timeouts = Inr (), cn_incoming = Inr bytes, cn_write = Inr ()\<rparr>),
      cl_receive = (\<lambda>result. result)\<rparr>"

lemma plain_link_contract: "link_contract plain_link"
  by (auto simp: link_contract_def plain_link_def)

definition live_environment :: "account_registration list smoke_environment" where
  "live_environment = process_environment.extend booting_process
     \<lparr>sm_link = plain_link, sm_temp_dir = ''/tmp'', sm_survives = (\<lambda>path. False),
      sm_print_live = (\<lambda>evidence. Inr ()), sm_print_tree = (\<lambda>evidence. Inr ())\<rparr>"

lemma live_loaded:
  "load_daemon_config (pe_decode live_environment) (pe_variables live_environment) ''/etc/daemon.json''
     (pe_config_bytes live_environment ''/etc/daemon.json'')
   = Inr \<lparr>ld_socket_path = ''/run/tts29/daemon.sock'', ld_production = booting_config\<rparr>"
proof -
  have "parent_path ''/etc/daemon.json'' = Some ''/etc''" by code_simp
  then show ?thesis
    by (simp add: live_environment_def process_environment.defs booting_process_def load_daemon_config_def booting_file_def
        MAX_CONFIG_BYTES_def check_file_def validate_duration_def validate_audio_limit_def or_default_def
        MAX_CAPABILITY_SECONDS_def MAX_AUDIO_BYTES_def default_receipt_timeout_def default_kokoro_timeout_def
        default_blossom_timeout_def default_authorization_lifetime_def default_audio_bytes_def optional_env_def
        kokoro_auth_from_def resolve_path_def default_voice_def kokoro_of_file_def blossom_of_file_def kokoro_defaults_def
        blossom_config_new_def booting_config_def Let_def path_join_def)
qed


lemma live_binds: "\<exists>listener ns. bind_listener ''/run/tts29/daemon.sock'' (su_nodes live_world) = (Inr listener, ns)"
  by (simp add: bind_listener_def sample_parent prepare_parent_def node_exists_def and_then_def of_result_def
      live_world_def booting_world_def node_op_defs private_mode_def remove_stale_socket_def remove_if_same_socket_def listen_at_def
      put_node_def fresh_node_def not_found_def)


lemma live_publishes:
  assumes "daemon_jobs booting_services pd w ''live-e2e-100'' = Some live_job" and "fs_faults (dw_fs w) = []"
    and "pd_group_id pd = ''tts''" and "ac_public_key (dw_daemon w) = ''daemon''"
  shows "\<exists>w'. publish_local booting_services pd attend (live_local (\<lambda>name. EnvNotPresent) ''live-e2e-100'' ''tts'' agent_key) w
    = (LocalPublished 1 ''live-e2e-100'' 5 event_a NotRequested, w') \<and> journal_part w' = journal_part w"
proof -
  define request where "request = live_request (\<lambda>name. EnvNotPresent) ''live-e2e-100'' ''tts''"
  define account where "account = \<lparr>ac_public_key = agent_key, ac_handle = Suc (sum_list (map ac_handle (dw_ext w)))\<rparr>"
  have request: "pr_request_id request = ''live-e2e-100''" "pr_group_id request = ''tts''"
    by (simp_all add: request_def live_request_def)
  have as: "publish_as (sv_third_party booting_services) (production_ops booting_services pd) request agent_key created_at
      (w\<lparr>dw_ext := x\<rparr>) = (Inr live_job, w\<lparr>dw_ext := x\<rparr>)" for created_at x
    by (rule sample_publish_as)
      (use assms in \<open>simp_all add: request published_job_fields booting_services_def request_digest_def refusing_services_def\<close>)
  have now: "unix_seconds booting_services w = (Inr 100, w)"
    by (simp add: unix_seconds_def booting_services_def)
  have other: "agent_key \<noteq> ''daemon''" by code_simp
  have identity: "identity_request booting_services (Some agent_key) w
      = (Inr \<lparr>ri_author = agent_key, ri_registration = Some account\<rparr>, w\<lparr>dw_ext := account # dw_ext w\<rparr>)"
    using assms(4) other by (simp add: identity_request_def on_outside_def on_part_def with_error_def and_then_def booting_services_def
        listing_engine_def Let_def account_def)
  have close: "identity_close booting_services \<lparr>ri_author = agent_key, ri_registration = Some account\<rparr> v
      = (if account \<in> set (dw_ext v) then Inr () else Inl ''NMP request identity changed before cleanup'',
         v\<lparr>dw_ext := removeAll account (dw_ext v)\<rparr>)" for v
    by (simp add: identity_close_eq on_outside_def on_part_def with_error_def and_then_def booting_services_def
        listing_engine_def of_result_def)
  have "\<exists>w'. publish_now booting_services pd request (Some agent_key) w = (Inr live_job, w') \<and> journal_part w' = journal_part w"
    using as by (simp add: publish_now_def now publish_def request assms(3) and_then_def with_error_def identity close_after_def close
        journal_part_def)
  moreover have "validate_publish (live_local (\<lambda>name. EnvNotPresent) ''live-e2e-100'' ''tts'' agent_key) = Inr ()"
    by (simp add: validate_publish_def live_local_def LOCAL_PROTOCOL_VERSION_def)
  ultimately show ?thesis
    by (auto simp: publish_local_def live_local_def request_def [symmetric] published_job_def Let_def LOCAL_PROTOCOL_VERSION_def)
qed

text \<open>The relay and the store of the audio.\<close>

definition live_answer :: frozen_answer where
  "live_answer = \<lparr>fa_author = agent_key, fa_created_at = 100, fa_group_id = ''tts'', fa_root_event_id = event_a,
     fa_content = ''Live E2E confirmed.'', fa_answers = live_answers\<rparr>"

definition live_answer_event :: event where
  "live_answer_event =
     signed_event event_b (projr (compose_answer hex_key_parse hex_key_parse plain_group_send ''wss://relay'' live_answer))"

definition live_rows :: "event_id \<Rightarrow> live_frame" where
  "live_rows i =
     \<lparr>lf_window = Some [\<lparr>sr_event = (if i = event_a then sample_event event_a else live_answer_event), sr_sources = [''wss://relay'']\<rparr>],
      lf_evidence = \<lparr>aq_sources = [\<lparr>se_relay = ''wss://relay'', se_status = Requesting, se_reconciled_through = Some 100\<rparr>],
        aq_shortfall = []\<rparr>\<rparr>"

definition live_client :: "account_registration list live_services" where
  "live_client =
     \<lparr>lv_engine_new = ok (), lv_accounts = listing_engine, lv_demand_new = Inr,
      lv_observe = (\<lambda>demand initial limit. ok (\<lambda>k. if k = 0 then None else Some (live_rows (hd (ed_ids demand))))),
      lv_cancel = (\<lambda>x. x), lv_shutdown = (\<lambda>x. x), lv_publish_tracked = (\<lambda>intent. ok 9),
      lv_reattach_receipt = (\<lambda>receipt. ok (Some (\<lambda>k. if k = 0 then Some (Signed event_b) else Some (Acked ''wss://relay'')))),
      lv_parse_key = hex_key_parse, lv_parse_event_id = hex_key_parse, lv_group_send = plain_group_send,
      lv_debug_evidence = (\<lambda>evidence. []), lv_debug_source = (\<lambda>status. ''Requesting''), lv_http_client = Inr (),
      lv_get = (\<lambda>policy timeout url. ok \<lparr>dl_status = 200, dl_status_text = ''200 OK'', dl_body = Inr (replicate 10 (CHR ''x''))\<rparr>),
      lv_sha256_hex = (\<lambda>bytes. art_sha256 (fz_audio sample_item)), lv_unix_millis = (\<lambda>x. (100000, x)),
      lv_random = (\<lambda>x. (replicate 32 0x11, x))\<rparr>"

lemma live_answer_parses:
  "\<exists>intent. compose_answer hex_key_parse hex_key_parse plain_group_send ''wss://relay'' live_answer = Inr intent
     \<and> ev_id live_answer_event = event_b
     \<and> parse live_answer_event ''tts'' = Some (Answer (answer_view event_b (wi_author intent) live_answer))"
proof -
  have "tag_rows (answer_tags live_answer) ''h'' = []" by (simp add: answer_tags_def live_answer_def live_answers_def)
  then obtain intent where i: "compose_answer hex_key_parse hex_key_parse plain_group_send ''wss://relay'' live_answer = Inr intent"
    by (simp add: compose_answer_def live_answer_def live_answers_def validate_answers_def evaluate_text plain_group_send_def ok_or_def)
  have "fa_group_id live_answer = ''tts''" "is_lower_hex (fa_root_event_id live_answer) 64"
    by (simp_all add: live_answer_def evaluate_text)
  then show ?thesis
    using i answer_round_trip [OF plain_group_send_contract i, of event_b]
    by (auto simp: live_answer_event_def signed_event_def)
qed

definition live_source :: live_source_evidence where
  "live_source = \<lparr>sc_status = ''Requesting'', sc_reconciled = True, sc_query_source_count = 1, sc_shortfall_count = 0,
     sc_row_source_count = 1\<rparr>"

lemmas ack_loop_numeral = ack_loop.simps(2) [where n = "pred_numeral v" for v, folded numeral_eq_Suc]

lemma live_observes:
  assumes "event_id = event_a \<and> event = sample_event event_a \<or> event_id = event_b \<and> event = live_answer_event"
    and "parse event ''tts'' = Some parsed"
  shows "observe_exact live_client ''wss://relay'' ''tts'' event_id x = (Inr \<lparr>ob_parsed = parsed, ob_source = live_source\<rparr>, x)"
proof -
  have "event_b \<noteq> event_a" by code_simp
  then have row: "ev_id (if event_id = event_a then sample_event event_a else live_answer_event) = event_id"
    "parse (if event_id = event_a then sample_event event_a else live_answer_event) ''tts'' = Some parsed"
    using assms sample_event_id live_answer_parses by auto
  let ?frames = "\<lambda>k :: nat. if k = 0 then None else Some (live_rows event_id)"
  have "scan_frames live_client ''wss://relay'' ''tts'' event_id ?frames 0 12 last_evidence
      = scan_frames live_client ''wss://relay'' ''tts'' event_id ?frames 1 11 last_evidence" for last_evidence
    using scan_frames.simps(2) [of live_client "''wss://relay''" "''tts''" event_id ?frames 0 11] by simp
  moreover have "scan_frames live_client ''wss://relay'' ''tts'' event_id ?frames 1 11 last_evidence
      = Seen \<lparr>ob_parsed = parsed, ob_source = live_source\<rparr>" for last_evidence
    using scan_frames.simps(2) [of live_client "''wss://relay''" "''tts''" event_id ?frames 1 10] row
    by (simp add: live_rows_def source_evidence_of_def live_source_def Let_def live_client_def [THEN arg_cong, of lv_debug_source])
  ultimately have "scan_frames live_client ''wss://relay'' ''tts'' event_id ?frames 0 12 last_evidence
      = Seen \<lparr>ob_parsed = parsed, ob_source = live_source\<rparr>" for last_evidence by simp
  then show ?thesis
    by (simp add: observe_exact_def live_client_def [THEN arg_cong, of lv_engine_new] live_client_def [THEN arg_cong, of lv_demand_new]
        live_client_def [THEN arg_cong, of lv_observe] live_client_def [THEN arg_cong, of lv_shutdown]
        live_client_def [THEN arg_cong, of lv_cancel] and_then_def with_error_def of_result_def cong: if_cong)
qed

lemma live_check_passes:
  "\<exists>e x'. check_published live_client ''wss://relay'' ''tts'' ''live-e2e-100'' agent_key bootstrap
     (LocalPublished 1 ''live-e2e-100'' 5 event_a NotRequested) x = (Inr e, x')
     \<and> lr_request_id e = ''live-e2e-100'' \<and> lr_item_event_id e = event_a \<and> lr_answer_event_id e = event_b"
proof -
  obtain author where item: "parse (sample_event event_a) ''tts'' = Some (Item (published_view event_a author sample_item))"
    using sample_event_parse by blast
  obtain intent where answer: "compose_answer hex_key_parse hex_key_parse plain_group_send ''wss://relay'' live_answer = Inr intent"
    "parse live_answer_event ''tts'' = Some (Answer (answer_view event_b (wi_author intent) live_answer))"
    using live_answer_parses by blast
  have trimmed: "trim event_a = event_a" "trim ''confirmed'' = ''confirmed''" by code_simp+
  obtain evidence where audio: "verify_audio live_client (published_view event_a author sample_item) y = (Inr evidence, y)" for y
    using trimmed by (simp add: verify_audio_def published_view_def sample_item_def trim_artifact_def live_client_def and_then_def with_error_def
        of_result_def Let_def)
  have ack: "await_ack live_client 9 ''wss://relay'' ''answer'' y = (Inr event_b, y)" for y
    by (simp add: await_ack_def live_client_def and_then_def of_result_def ack_loop_numeral)
  have published: "\<exists>y'. publish_answer live_client ''wss://relay'' ''tts'' event_a agent_key y = (Inr (9, event_b, agent_key), y')" for y
    using answer(1)
    by (simp add: publish_answer_def ack live_client_def [THEN arg_cong, of lv_engine_new] live_client_def [THEN arg_cong, of lv_accounts]
        live_client_def [THEN arg_cong, of lv_parse_key] live_client_def [THEN arg_cong, of lv_parse_event_id]
        live_client_def [THEN arg_cong, of lv_group_send] live_client_def [THEN arg_cong, of lv_publish_tracked]
        live_client_def [THEN arg_cong, of lv_unix_millis] live_seconds_def listing_engine_def Let_def live_answer_def
        and_then_def of_result_def)
  obtain y' where y': "publish_answer live_client ''wss://relay'' ''tts'' event_a agent_key x = (Inr (9, event_b, agent_key), y')"
    using published by blast
  have "rel_root_id (answer_view event_b (wi_author intent) live_answer) = event_a"
    "ab_answers (rel_value (answer_view event_b (wi_author intent) live_answer)) = live_answers"
    by (simp_all add: answer_view_def live_answer_def live_answers_def trim_answer_def trimmed)
  then show ?thesis
    using live_observes [OF _ item] live_observes [OF _ answer(2)] y'
    by (simp add: check_published_def published_def and_then_def of_result_def audio)
qed


lemma live_smoke_passes:
  "\<exists>e su'. run_live_relay_smoke booting_services booting_startup live_client live_codec live_environment ''/etc/daemon.json'' live_world
      = (Inr e, su') \<and> lr_request_id e = ''live-e2e-100'' \<and> lr_item_event_id e = event_a \<and> lr_answer_event_id e = event_b"
proof -
  obtain opened where o: "open_with_clock booting_services booting_startup 7 booting_config live_world
      = (Inr opened, live_world\<lparr>su_ext := [\<lparr>ac_public_key = ''daemon'', ac_handle = 1\<rparr>]\<rparr>)"
    and opened: "op_account opened = \<lparr>ac_public_key = ''daemon'', ac_handle = 1\<rparr>" "pd_group_id (op_producer opened) = ''tts''"
      "pd_journal (op_producer opened) = sample_journal"
    using booting_opens_at [of live_world] by (auto simp: live_world_def booting_world_def)
  let ?su = "live_world\<lparr>su_ext := [\<lparr>ac_public_key = ''daemon'', ac_handle = 1\<rparr>]\<rparr>"
  let ?response = "LocalPublished 1 ''live-e2e-100'' 5 event_a NotRequested"
  obtain listener ns where b: "bind_listener ''/run/tts29/daemon.sock'' (su_nodes ?su) = (Inr listener, ns)"
    using live_binds by auto
  have "daemon_jobs booting_services (op_producer opened) (daemon_of opened ?su) ''live-e2e-100'' = Some live_job"
    using live_jobs(1) by (simp add: daemon_jobs_def opened booting_parts)
  moreover have "fs_faults (dw_fs (daemon_of opened ?su)) = []" "ac_public_key (dw_daemon (daemon_of opened ?su)) = ''daemon''"
    by (simp_all add: daemon_of_def live_world_def opened)
  ultimately obtain w where
    p: "publish_local booting_services (op_producer opened) (pe_attend live_environment)
      (live_local (\<lambda>name. EnvNotPresent) ''live-e2e-100'' ''tts'' agent_key) (daemon_of opened ?su) = (?response, w)"
    using live_publishes [OF _ _ opened(2)] by blast
  have r: "respond live_codec (production_service booting_services (op_producer opened) (pe_attend live_environment)) (Inr ''request'')
      (daemon_of opened ?su) = (?response, w)"
    using p by (simp add: respond_production(1) [OF live_codec_contract live_codec_facts(1)])
  have serve: "serve_client live_codec (production_service booting_services (op_producer opened) (pe_attend live_environment)) plain_link
      (lc_encode_publish live_codec (live_local (\<lambda>name. EnvNotPresent) ''live-e2e-100'' ''tts'' agent_key)) timeout (daemon_of opened ?su)
      = ((Inr ''response'', Inr ?response), w)" for timeout
    using r by (simp add: serve_client_def sent_payload_def MAX_LOCAL_FRAME_BYTES_def plain_link_def serve_one_def serve_stream_def
        read_bounded_def submit_def and_then_def of_result_def live_codec_facts)
  have parts: "pe_variables live_environment = (\<lambda>name. EnvNotPresent)" "pe_pid live_environment = 7" "sm_link live_environment = plain_link"
    by (simp_all add: live_environment_def process_environment.defs booting_process_def)
  have random: "disposable_secret live_client x = (Inr agent_key, x)" for x
  proof -
    have "encode_hex (replicate 32 0x11) = agent_key" by code_simp
    then show ?thesis by (simp add: disposable_secret_def live_client_def)
  qed
  have clock: "live_seconds live_client x = (Inr 100, x)" for x by (simp add: live_seconds_def live_client_def)
  have "live_request_id 100 = ''live-e2e-100''" by code_simp
  moreover obtain e x' where "check_published live_client ''wss://relay'' ''tts'' ''live-e2e-100'' agent_key (op_bootstrap opened) ?response
      (pe_shutdown live_environment (dw_ext w)) = (Inr e, x')"
    "lr_request_id e = ''live-e2e-100''" "lr_item_event_id e = event_a" "lr_answer_event_id e = event_b"
    using live_check_passes by blast
  ultimately show ?thesis
    using o b serve
    by (simp add: run_live_relay_smoke_def live_loaded [unfolded parts] parts served_def and_then_def of_result_def ok_or_def booting_parts at_outside_def on_part_def
        live_production_def random clock Let_def with_daemon_def booting_config_def [THEN arg_cong, of pc_host]
        booting_config_def [THEN arg_cong, of pc_group_id])
qed

theorem live_smoke_true_witness:
  "\<exists>e su'. run_live_relay_smoke booting_services booting_startup live_client live_codec live_environment ''/etc/daemon.json'' live_world
       = (Inr e, su')
     \<and> lr_item_event_id e = event_a \<and> lr_answer_event_id e = event_b
     \<and> live_evidence_true booting_services live_client
         (stored_jobs sample_codec sample_journal (startup_journal su')) (\<lambda>name. EnvNotPresent) e"
proof -
  obtain e su' where run: "run_live_relay_smoke booting_services booting_startup live_client live_codec live_environment
      ''/etc/daemon.json'' live_world = (Inr e, su')" and e: "lr_item_event_id e = event_a" "lr_answer_event_id e = event_b"
    using live_smoke_passes by blast
  have parts: "sv_codec booting_services = sample_codec" "sm_link live_environment = plain_link" "pe_pid live_environment = 7"
    "pe_variables live_environment = (\<lambda>name. EnvNotPresent)"
    by (simp_all add: booting_services_def live_environment_def process_environment.defs booting_process_def)
  have "codec_round_trip (sv_codec booting_services)" "link_contract (sm_link live_environment)"
    "fj_pid sample_journal = pe_pid live_environment" "store_sound (sv_codec booting_services) sample_journal (startup_journal live_world)"
    by (simp_all add: parts sample_codec_round_trip plain_link_contract sample_journal_def live_jobs(2) [unfolded sample_journal_def])
  moreover have "\<forall>loaded. load_daemon_config (pe_decode live_environment) (pe_variables live_environment) ''/etc/daemon.json''
      (pe_config_bytes live_environment ''/etc/daemon.json'') = Inr loaded \<longrightarrow> fj_root sample_journal = pc_journal_root (ld_production loaded)"
    using live_loaded by (auto simp: sample_journal_def booting_config_def)
  ultimately show ?thesis
    using live_smoke_true [OF _ live_codec_contract _ _ _ _ run, of sample_journal] run e by (simp add: parts)
qed

section \<open>The evidence of a tree check is true\<close>

text \<open>A journal none of whose records is in the directory, and steps that change files in it only.\<close>

definition apart :: "file_job_journal \<Rightarrow> string \<Rightarrow> bool" where
  "apart j dir \<longleftrightarrow> (\<forall>i. valid_request_id i \<longrightarrow> \<not> starts_with (record_file j i) (path_prefix dir))"

definition changes_within :: "string \<Rightarrow> 'x startup_world \<Rightarrow> 'x startup_world \<Rightarrow> bool" where
  "changes_within dir su su' \<longleftrightarrow>
     (\<forall>p. \<not> starts_with p (path_prefix dir) \<longrightarrow> fs_files (su_fs su') p = fs_files (su_fs su) p)"

lemma changes_within_records:
  assumes "changes_within dir su su'" and "apart j dir"
  shows "stored_jobs codec j (startup_journal su') = stored_jobs codec j (startup_journal su)"
    and "store_sound codec j (startup_journal su') = store_sound codec j (startup_journal su)"
  using assms by (auto simp: changes_within_def apart_def stored_jobs_def store_sound_def startup_journal_def fun_eq_iff)

lemma path_join_within: "\<not> starts_with name ''/'' \<Longrightarrow> starts_with (path_join dir name) (path_prefix dir)"
  by (simp add: path_join_prefix)

lemma at_files_within:
  assumes "at_files m su = (r, su')" and "\<And>fs q fs' p. m fs = (q, fs') \<Longrightarrow> \<not> starts_with p (path_prefix dir) \<Longrightarrow> fs_files fs' p = fs_files fs p"
  shows "changes_within dir su su'"
  using assms(1) assms(2) [of "su_fs su"] by (auto simp: at_files_def on_part_def changes_within_def split: prod.splits)

lemma fs_write_within:
  assumes "fs_write path bytes fs = (r, fs')" and "p \<noteq> path"
  shows "fs_files fs' p = fs_files fs p"
  using assms by (auto simp: fs_write_def fs_op_defs file_bytes_def elim!: and_then_cases split: list.splits option.splits prod.splits)

lemma write_message_within:
  assumes "write_message dir name body su = (r, su')" and "\<not> starts_with name ''/''"
  shows "changes_within dir su su'"
proof -
  obtain q where "at_files (fs_write (path_join dir name) body) su = (q, su')"
    using assms(1) by (auto simp: write_message_def Let_def elim!: and_then_cases with_error_cases split: if_splits)
  then show ?thesis
  proof (rule at_files_within)
    fix fs q fs' p assume w: "fs_write (path_join dir name) body fs = (q, fs')" and "\<not> starts_with p (path_prefix dir)"
    then have "p \<noteq> path_join dir name" using path_join_within [OF assms(2)] by blast
    then show "fs_files fs' p = fs_files fs p" by (rule fs_write_within [OF w])
  qed
qed

lemma keeps_published_within:
  "(\<And>su r su'. m su = (r, su') \<Longrightarrow> changes_within dir su su') \<Longrightarrow> apart j dir \<Longrightarrow> keeps_published codec j m"
  unfolding keeps_published_def using changes_within_records by (metis published_kept_refl)

lemma keeps_published_write_messages:
  assumes "apart j dir"
  shows "keeps_published codec j (write_messages dir)"
proof -
  have dir: "keeps_published codec j (with_error g (at_files (fs_create_dir_all dir)))" for g
    by (rule keeps_published_within [OF _ assms])
      (auto elim!: with_error_cases at_files_within simp: fs_op_defs split: list.splits option.splits prod.splits)
  have message: "keeps_published codec j (write_message dir name body)" if "\<not> starts_with name ''/''" for name body
    by (rule keeps_published_within [OF _ assms]) (rule write_message_within [OF _ that])
  show ?thesis
    unfolding write_messages_def by (intro keeps_published_and_then dir message keeps_published_of_result) simp_all
qed

lemma remove_dir_within: "changes_within dir su (su\<lparr>su_fs := fs_remove_dir_all survives dir (su_fs su)\<rparr>)"
  by (simp add: changes_within_def fs_remove_dir_all_def)

lemma run_tree_keeps:
  assumes "codec_round_trip (sv_codec sv)" and "\<And>now. apart j (smoke_dir sm now)"
    and "\<And>loaded. load_daemon_config (pe_decode sm) (pe_variables sm) path (pe_config_bytes sm path) = Inr loaded \<Longrightarrow>
      j = \<lparr>fj_root = pc_journal_root (ld_production loaded), fj_pid = pe_pid sm\<rparr>"
  shows "keeps_published (sv_codec sv) j (run_tree_relay_smoke sv ss lv lc sm path)"
proof -
  have report: "keeps_published (sv_codec sv) j (report_tree sm stamp relay group_id response)" for stamp relay group_id response
    by (rule keeps_published_within [OF _ assms(2) [of stamp]]) (auto simp: report_tree_def remove_dir_within)
  show ?thesis
    unfolding run_tree_relay_smoke_def Let_def
    by (intro keeps_published_and_then keeps_published_of_result keeps_published_at_outside keeps_published_open
        keeps_published_with_daemon [OF assms(1)] keeps_published_write_messages assms(2) report)
      (auto dest: assms(3) [OF sym] dest!: open_journal simp: tree_production_def)
qed

definition tree_on_disk :: "third_party \<Rightarrow> (string \<Rightarrow> job_record option) \<Rightarrow> spoken_tree \<Rightarrow> string \<Rightarrow> string list \<Rightarrow> bool" where
  "tree_on_disk tp jobs tree root children \<longleftrightarrow>
     (\<exists>job request. jobs (st_request_id tree) = Some job \<and> phase_event_id (jr_phase job) = Some root
        \<and> request_digest tp request = Inr (jr_request_digest job) \<and> pr_request_id request = st_request_id tree
        \<and> pr_subject request = st_title tree \<and> pr_questions request = st_questions tree \<and> pr_attach request = None)
     \<and> published_forest tp jobs (st_request_id tree) root 0 (st_attachments tree) children"

text \<open>
  The tree check cannot pass by accident. Provided the journal is not kept in the temporary directory of
  the check, the check leaves it readable and every published job as it was, however it ends; when it
  reports evidence, its three-level tree is published on disk, the root under the request's id and every child
  attached to the event of its parent, with exactly the reported events.
\<close>

theorem tree_smoke_true:
  fixes sv :: "'x services"
  assumes "codec_round_trip (sv_codec sv)" and "local_codec_contract lc" and "link_contract (sm_link sm)"
    and "fj_pid j = pe_pid sm" and "\<forall>now. apart j (smoke_dir sm now)"
    and "\<forall>loaded. load_daemon_config (pe_decode sm) (pe_variables sm) path (pe_config_bytes sm path) = Inr loaded \<longrightarrow>
      fj_root j = pc_journal_root (ld_production loaded)"
    and "store_sound (sv_codec sv) j (startup_journal su)"
    and "run_tree_relay_smoke sv ss lv lc sm path su = (r, su')"
  shows "store_sound (sv_codec sv) j (startup_journal su')
    \<and> published_kept (stored_jobs (sv_codec sv) j (startup_journal su)) (stored_jobs (sv_codec sv) j (startup_journal su'))
    \<and> (\<forall>e. r = Inr e \<longrightarrow> (\<exists>now root child grandchild.
         tree_on_disk (sv_third_party sv) (stored_jobs (sv_codec sv) j (startup_journal su'))
           (smoke_tree (u64_to_string now) (ts_group_id e) root child grandchild) (ts_root_event_id e) (ts_child_event_ids e)))"
proof -
  have journal: "j = \<lparr>fj_root = pc_journal_root (ld_production loaded), fj_pid = pe_pid sm\<rparr>"
    if "load_daemon_config (pe_decode sm) (pe_variables sm) path (pe_config_bytes sm path) = Inr loaded" for loaded
    using assms(4,6) that by (cases j) auto
  have "keeps_published (sv_codec sv) j (run_tree_relay_smoke sv ss lv lc sm path)"
    using run_tree_keeps [OF assms(1) _ journal] assms(5) by blast
  note kept = this [unfolded keeps_published_def, rule_format, OF assms(8,7)]
  have tree_start: "store_sound (sv_codec sv) j (startup_journal s')"
    if "write_messages (smoke_dir sm stamp) s = (q, s')" "startup_journal s = startup_journal su" for stamp s q s'
    using keeps_published_write_messages [of j "smoke_dir sm stamp", unfolded keeps_published_def] assms(5,7) that by metis
  have "\<exists>now root child grandchild. tree_on_disk (sv_third_party sv) (stored_jobs (sv_codec sv) j (startup_journal su'))
      (smoke_tree (u64_to_string now) (ts_group_id e) root child grandchild) (ts_root_event_id e) (ts_child_event_ids e)"
    if result: "r = Inr e" for e
  proof -
    obtain loaded stamp group_id owner daemon_secret messages secret opened su1 su2
      and s0 s1 :: "'x startup_world" where
      loaded: "load_daemon_config (pe_decode sm) (pe_variables sm) path (pe_config_bytes sm path) = Inr loaded"
      and start: "write_messages (smoke_dir sm stamp) s0 = (Inr messages, s1)" "startup_journal s0 = startup_journal su"
        "startup_journal su1 = startup_journal s1"
      and opened: "open_with_clock sv ss (pe_pid sm) (tree_production (ld_production loaded) group_id owner daemon_secret) su1
          = (Inr opened, su2)"
      and run: "with_daemon sv lc sm ''tree'' (ld_socket_path loaded) opened
            (lc_encode_tree lc (tree_local stamp group_id messages secret)) None
            (report_tree sm stamp (pc_host (ld_production loaded)) group_id) su2 = (Inr e, su')"
      using assms(8) result unfolding run_tree_relay_smoke_def Let_def
      by (auto elim!: and_then_cases at_outside_cases dest!: sym [of _ "load_daemon_config _ _ _ _"])
    obtain root child grandchild where messages: "messages = (root, child, grandchild)" by (cases messages)
    have j: "pd_journal (op_producer opened) = j"
      using open_journal [OF opened] journal [OF loaded] by (simp add: tree_production_def)
    have sound: "daemon_sound sv (op_producer opened) (daemon_of opened su2)"
      using startup_records(2) [OF open_files [OF opened]] tree_start [OF start(1,2)] start(3) by (simp add: daemon_sound_def j)
    from run show ?thesis
    proof (cases rule: with_daemon_cases)
      case (Answered written response w su3 su4)
      obtain payload where "lc_encode_tree lc (tree_local stamp group_id messages secret) = Inr payload"
        "respond lc (production_service sv (op_producer opened) (pe_attend sm)) (Inr payload) (daemon_of opened su2) = (response, w)"
        using assms(2,3) Answered(1) by (rule serve_client_answered)
      then have "publish_tree_local sv (op_producer opened) (tree_local stamp group_id messages secret) (daemon_of opened su2) = (response, w)"
        using respond_production(2) [OF assms(2)] by metis
      note effect = publish_tree_local_effect [OF assms(1) sound this]
      obtain version request_id where "response = PublishedTree version request_id (ts_root_event_id e) (ts_child_event_ids e)"
        "ts_group_id e = group_id"
        and final: "su4 = su3\<lparr>su_fs := fs_remove_dir_all (sm_survives sm) (smoke_dir sm stamp) (su_fs su3)\<rparr>"
        using Answered(3)
        by (auto simp: report_tree_def published_tree_def bind_result_Inr_iff split: local_publish_response.splits)
      moreover have "stored_jobs (sv_codec sv) j (startup_journal su') = daemon_jobs sv (op_producer opened) w"
        using assms(5) Answered(2,4) by (simp add: daemon_jobs_def j final changes_within_records(1) [OF remove_dir_within])
      ultimately show ?thesis
        using effect unfolding tree_on_disk_def node_done_def
        by (intro exI [of _ stamp] exI [of _ root] exI [of _ child] exI [of _ grandchild])
          (auto simp: tree_local_def smoke_tree_def messages)
    qed simp_all
  qed
  then show ?thesis using kept by blast
qed

end
