(* ===== verification/Progress.thy ===== *)
theory Progress
  imports Production_Laws
begin

text \<open>
  Progress of the runner (\<open>daemon/src/runner.rs\<close> and the loop of \<open>daemon/src/production.rs\<close>). The laws of
  the runner say what holds when a call returns; here the capabilities are assumed to work (locale
  \<open>working_environment\<close>) and a publication is shown to succeed, from no job at all or from the phase an
  earlier attempt reached.
\<close>

section \<open>Capabilities that work\<close>

text \<open>
  A job whose publication only depends on the services: the body and the voice are what the narrator
  accepts, the group is the served one, and the item frozen with any proper audio artifact is valid.
\<close>

definition publishable :: "third_party \<Rightarrow> string \<Rightarrow> job_record \<Rightarrow> bool" where
  "publishable tp served job \<longleftrightarrow>
     job_ok tp job \<and> pr_group_id (jr_request job) = served
     \<and> trim (pr_body (jr_request job)) \<noteq> [] \<and> pr_voice (jr_request job) \<noteq> [] \<and> length (pr_voice (jr_request job)) \<le> 64
     \<and> (\<forall>audio. valid_artifact audio False \<longrightarrow> starts_with (art_media_type audio) ''audio/'' \<longrightarrow>
          validate_spoken_item (tp_parse_key tp) (frozen_item job audio) = Inr ())"

lemma frozen_item_phase: "frozen_item (job\<lparr>jr_phase := p\<rparr>) audio = frozen_item job audio"
  by (simp add: frozen_item_def)

lemma publishable_step:
  "publishable tp served job \<Longrightarrow> phase_step tp job (jr_phase job) p \<Longrightarrow> publishable tp served (job\<lparr>jr_phase := p\<rparr>)"
  by (auto simp: publishable_def job_ok_step frozen_item_phase)

text \<open>The job a publication starts from: the journalled one, or a fresh one.\<close>

definition start_job :: "(string \<Rightarrow> job_record option) \<Rightarrow> producer_request \<Rightarrow> string \<Rightarrow> string \<Rightarrow> u64 \<Rightarrow> job_record" where
  "start_job J request digest author created_at =
     (case J (pr_request_id request) of Some job \<Rightarrow> job | None \<Rightarrow> admitted_job request digest author created_at)"

text \<open>
  \<open>ready w\<close>: the disk and the services can be used from \<open>w\<close> on. \<open>resumable w i p\<close>: what phase \<open>p\<close> of job
  \<open>i\<close> refers to, its audio file or its receipt, is still there.
\<close>

locale working_environment = producer_environment ops jobs sound tp
  for ops :: "'w producer_ops" and jobs :: "'w \<Rightarrow> string \<Rightarrow> job_record option" and sound :: "'w \<Rightarrow> bool"
    and tp :: third_party +
  fixes served :: string and ready :: "'w \<Rightarrow> bool" and resumable :: "'w \<Rightarrow> string \<Rightarrow> job_phase \<Rightarrow> bool"
  assumes load_works: "valid_request_id i \<Longrightarrow>
      attains (\<lambda>w. sound w \<and> ready w \<and> resumable w i p) (po_load ops i) (\<lambda>_ w. ready w \<and> resumable w i p)"
    and insert_works: "valid_request_id (job_id job) \<Longrightarrow>
      attains (\<lambda>w. sound w \<and> ready w \<and> resumable w (job_id job) p) (po_insert ops job)
        (\<lambda>_ w. ready w \<and> resumable w (job_id job) p)"
    and save_works: "valid_request_id (job_id job) \<Longrightarrow>
      attains (\<lambda>w. sound w \<and> ready w \<and> resumable w (job_id job) p) (po_save ops job)
        (\<lambda>_ w. ready w \<and> resumable w (job_id job) p)"
    and create_dir_works:
      "attains (\<lambda>w. sound w \<and> ready w \<and> resumable w i Admitted) (po_create_dir_all ops d)
        (\<lambda>_ w. ready w \<and> resumable w i Admitted)"
    and synthesize_works: "valid_request_id (pr_request_id rq) \<Longrightarrow> trim (pr_body rq) \<noteq> [] \<Longrightarrow>
      pr_voice rq \<noteq> [] \<Longrightarrow> length (pr_voice rq) \<le> 64 \<Longrightarrow>
      attains (\<lambda>w. sound w \<and> ready w \<and> resumable w (pr_request_id rq) Admitted)
        (po_synthesize ops rq (audio_path ops (pr_request_id rq)))
        (\<lambda>audio w. ready w \<and> resumable w (pr_request_id rq) (Synthesized audio))"
    and read_works: "attains (\<lambda>w. sound w \<and> ready w \<and> resumable w i (Synthesized audio))
        (po_read ops (audio_path ops i))
        (\<lambda>bytes w. ready w \<and> resumable w i (Synthesized audio)
           \<and> local_audio_valid tp audio (audio_path ops i) bytes)"
    and make_durable_works: "attains (\<lambda>w. sound w \<and> ready w \<and> resumable w i (Synthesized audio))
        (po_make_durable ops audio)
        (\<lambda>durable w. ready w \<and> art_sha256 durable = la_sha256 audio \<and> art_byte_count durable = la_byte_count audio
           \<and> art_media_type durable = la_media_type audio \<and> valid_artifact durable False)"
    and authorize_works: "tp_parse_key tp a \<noteq> None \<Longrightarrow>
      attains (\<lambda>w. sound w \<and> ready w) (po_authorize ops i a t)
        (\<lambda>step w. ready w \<and> (case step of Authorized event_id \<Rightarrow> is_event_id event_id
           | Accepted n \<Rightarrow> \<forall>item. resumable w i (AuthorizationAccepted item n)))"
    and resume_authorization_works: "attains (\<lambda>w. sound w \<and> ready w \<and> resumable w i (AuthorizationAccepted item n))
        (po_resume_authorization ops n a) (\<lambda>event_id w. ready w \<and> is_event_id event_id)"
    and accept_works: "validate_spoken_item (tp_parse_key tp) item = Inr () \<Longrightarrow> fz_group_id item = served \<Longrightarrow>
      attains (\<lambda>w. sound w \<and> ready w) (po_accept ops item)
        (\<lambda>n w. ready w \<and> (\<forall>m. resumable w i (PublicationAccepted item m n)))"
    and resume_works: "attains (\<lambda>w. sound w \<and> ready w \<and> resumable w i (PublicationAccepted item m n))
        (po_resume ops n item) (\<lambda>event_id w. ready w \<and> is_event_id event_id)"
    and resumable_free: "resumable w i (ArtifactsDurable item)" "resumable w i (AuthorAuthorized item evidence)"
      "resumable w i (Published item m n event_id)"
begin

definition up :: "(string \<Rightarrow> job_record option) \<Rightarrow> ('w \<Rightarrow> bool) \<Rightarrow> 'w \<Rightarrow> bool" where
  "up J P w \<longleftrightarrow> holds J w \<and> ready w \<and> P w"

lemma up_step:
  assumes "attains (\<lambda>w. sound w \<and> ready w \<and> P w) m (\<lambda>x w. ready w \<and> Q x w)"
    and "yields (holds J) m (\<lambda>_. holds J)"
  shows "attains (up J P) m (\<lambda>x. up J (Q x))"
  by (rule attains_weaken [OF attains_yields [OF assms(1) assms(2)]]) (auto simp: up_def holds_def)

text \<open>The same for an operation with no condition on the phase.\<close>

lemma up_plain:
  assumes "attains (\<lambda>w. sound w \<and> ready w) m (\<lambda>x w. ready w \<and> Q x w)"
    and "yields (holds J) m (\<lambda>_. holds J)"
  shows "attains (up J (\<lambda>_. True)) m (\<lambda>x. up J (Q x))"
  by (rule up_step [OF _ assms(2)], rule attains_weaken [OF assms(1)]) auto

lemma next_phase_ready:
  assumes job: "publishable tp served job" "job_id job = i" "\<not> is_published (jr_phase job)"
  shows "attains (up J (\<lambda>w. resumable w i (jr_phase job))) (next_phase tp ops i job)
    (\<lambda>p w. ready w \<and> resumable w i p)"
proof -
  note ok = job(1) [unfolded publishable_def job_ok_def]
  show ?thesis
  proof (cases "jr_phase job")
    case Admitted
    have synth: "attains (up J (\<lambda>w. resumable w i Admitted)) (po_synthesize ops (jr_request job) (audio_path ops i))
        (\<lambda>audio. up J (\<lambda>w. resumable w i (Synthesized audio)))"
      using up_step [OF synthesize_works [of "jr_request job"] holds_ops(3)] ok job(2) by simp
    have check: "attains (up J (\<lambda>w. resumable w i (Synthesized audio)))
        (validate_local_audio tp ops audio (audio_path ops i))
        (\<lambda>_ w. ready w \<and> resumable w i (Synthesized audio))" for audio
      unfolding validate_local_audio_def
      by (rule attains_and_then [OF attains_with_error [OF up_step [OF read_works holds_ops(2)]]])
        (auto simp: attains_def up_def)
    show ?thesis
      unfolding next_phase_def Admitted job_phase.case advance_admitted_def
      by (intro attains_and_then attains_with_error attains_ok)
        (rule up_step [OF create_dir_works holds_ops(1)] synth check | simp)+
  next
    case (Synthesized audio)
    have media: "starts_with (la_media_type audio) ''audio/''"
      using ok by (simp add: Synthesized phase_ok_def)
    show ?thesis
      unfolding next_phase_def Synthesized job_phase.case advance_synthesized_def
      by (rule attains_and_then [OF attains_with_error [OF up_step [OF make_durable_works holds_ops(4)]]])
        (use ok media in \<open>auto simp: attains_def up_def and_then_def of_result_def resumable_free\<close>)
  next
    case (ArtifactsDurable item)
    have "tp_parse_key tp (fz_author item) \<noteq> None"
      using ok by (auto simp: ArtifactsDurable phase_ok_def frozen_for_def validate_spoken_item_iff)
    note auth = up_plain [OF authorize_works [OF this] holds_ops(5)]
    show ?thesis
      unfolding next_phase_def ArtifactsDurable job_phase.case advance_durable_def
    proof (rule attains_and_then)
      show "attains (up J (\<lambda>w. resumable w i (ArtifactsDurable item)))
          (with_error (capability ''membership_authorization'') (po_authorize ops i (fz_author item) (jr_created_at job)))
          (\<lambda>step. up J (\<lambda>w. case step of Authorized event_id \<Rightarrow> is_event_id event_id
             | Accepted n \<Rightarrow> \<forall>item. resumable w i (AuthorizationAccepted item n)))"
        by (rule attains_weaken [OF attains_with_error [OF auth]]) (simp_all add: up_def)
    qed (auto simp: attains_def up_def resumable_free split: authorization_step.splits)
  next
    case (AuthorizationAccepted item n)
    show ?thesis
      unfolding next_phase_def AuthorizationAccepted job_phase.case advance_authorization_def
      by (rule attains_and_then [OF attains_with_error [OF up_step [OF resume_authorization_works holds_ops(6)]]])
        (auto simp: attains_def up_def resumable_free)
  next
    case (AuthorAuthorized item evidence)
    have "validate_spoken_item (tp_parse_key tp) item = Inr ()" "fz_group_id item = served"
      using ok by (auto simp: AuthorAuthorized phase_ok_def frozen_for_def frozen_item_def)
    note accept = up_plain [OF accept_works [OF this] holds_ops(7)]
    show ?thesis
      unfolding next_phase_def AuthorAuthorized job_phase.case advance_authorized_def
      by (rule attains_weaken [OF attains_and_then [OF attains_with_error [OF accept]]])
        (auto simp: attains_def up_def)
  next
    case (PublicationAccepted item m n)
    show ?thesis
      unfolding next_phase_def PublicationAccepted job_phase.case advance_publication_def
      by (rule attains_and_then [OF attains_with_error [OF up_step [OF resume_works holds_ops(8)]]])
        (auto simp: attains_def up_def resumable_free)
  next
    case Published
    then show ?thesis using job(3) by (simp add: is_published_def)
  qed
qed


text \<open>One advance, the bounded loop and a whole publication.\<close>

definition progressed :: "job_record \<Rightarrow> job_record \<Rightarrow> bool" where
  "progressed job job' \<longleftrightarrow>
     (if is_published (jr_phase job) then job' = job
      else \<exists>p. phase_step tp job (jr_phase job) p \<and> job' = job\<lparr>jr_phase := p\<rparr>)"

lemma save_phase_attains:
  assumes "job_id job = i" and "valid_request_id i"
  shows "attains (up J (\<lambda>w. resumable w i p))
    (and_then (with_error JournalFailure (po_save ops (job\<lparr>jr_phase := p\<rparr>))) (\<lambda>_. ok (job\<lparr>jr_phase := p\<rparr>)))
    (\<lambda>job' w. job' = job\<lparr>jr_phase := p\<rparr> \<and> up (J(i \<mapsto> job')) (\<lambda>w. resumable w i p) w)"
proof (rule attains_and_then)
  let ?job = "job\<lparr>jr_phase := p\<rparr>"
  have work: "attains (\<lambda>w. sound w \<and> ready w \<and> resumable w i p) (with_error JournalFailure (po_save ops ?job))
      (\<lambda>_ w. ready w \<and> resumable w i p)"
    using attains_with_error [OF save_works [of ?job p]] assms by simp
  show "attains (up J (\<lambda>w. resumable w i p)) (with_error JournalFailure (po_save ops ?job))
      (\<lambda>_. up (J(i \<mapsto> ?job)) (\<lambda>w. resumable w i p))"
  proof (rule attains_weaken [OF attains_yields [OF _ journal_calls(2) [of J ?job]]])
    show "attains (up J (\<lambda>w. resumable w i p)) (with_error JournalFailure (po_save ops ?job))
        (\<lambda>_ w. ready w \<and> resumable w i p)"
      by (rule attains_weaken [OF work]) (auto simp: up_def holds_def)
  qed (use assms in \<open>auto simp: up_def\<close>)
qed (auto simp: attains_def)

lemma advance_found_attains:
  assumes job: "publishable tp served job" "job_id job = i" and "J i = Some job"
  shows "attains (up J (\<lambda>w. resumable w i (jr_phase job))) (advance_found tp ops i job)
    (\<lambda>job' w. progressed job job' \<and> up (J(i \<mapsto> job')) (\<lambda>w. resumable w i (jr_phase job')) w)"
proof (cases "is_published (jr_phase job)")
  case True
  then show ?thesis
    using assms(3) by (auto simp: advance_found_def progressed_def attains_def map_upd_triv)
next
  case False
  have valid: "valid_request_id i" using job by (auto simp: publishable_def job_ok_def)
  show ?thesis
    unfolding advance_found_def if_not_P [OF False] Let_def
  proof (rule attains_and_then)
    show "attains (up J (\<lambda>w. resumable w i (jr_phase job))) (next_phase tp ops i job)
        (\<lambda>p w. phase_step tp job (jr_phase job) p \<and> up J (\<lambda>w. resumable w i p) w)"
      by (rule attains_weaken [OF attains_yields [OF next_phase_ready [OF job False]
            next_phase_yields [OF job(2) valid False]]]) (auto simp: up_def)
    show "attains (\<lambda>w. phase_step tp job (jr_phase job) p \<and> up J (\<lambda>w. resumable w i p) w)
        (and_then (with_error JournalFailure (po_save ops (job\<lparr>jr_phase := p\<rparr>))) (\<lambda>_. ok (job\<lparr>jr_phase := p\<rparr>)))
        (\<lambda>job' w. progressed job job' \<and> up (J(i \<mapsto> job')) (\<lambda>w. resumable w i (jr_phase job')) w)" for p
      by (rule attains_assume, rule attains_weaken [OF save_phase_attains [OF job(2) valid]])
        (use False in \<open>auto simp: progressed_def\<close>)
  qed
qed

lemma load_attains:
  assumes "valid_request_id i"
  shows "attains (up J (\<lambda>w. resumable w i p)) (with_error JournalFailure (po_load ops i))
    (\<lambda>found w. found = J i \<and> up J (\<lambda>w. resumable w i p) w)"
  by (rule attains_weaken [OF attains_yields [OF attains_with_error [OF load_works [OF assms, of p]]
        journal_calls(1) [of J i]]])
    (auto simp: up_def holds_def)

lemma advance_attains:
  assumes job: "publishable tp served job" "J i = Some job" and "job_id job = i"
  shows "attains (up J (\<lambda>w. resumable w i (jr_phase job))) (advance tp ops i)
    (\<lambda>job' w. progressed job job' \<and> up (J(i \<mapsto> job')) (\<lambda>w. resumable w i (jr_phase job')) w)"
proof -
  have valid: "valid_request_id i" using job assms(3) by (auto simp: publishable_def job_ok_def)
  then have v: "validate_request_id i = Inr ()" by simp
  show ?thesis
    unfolding advance_def v
  proof (rule attains_and_then [OF attains_ok [where Q = "\<lambda>_. up J (\<lambda>w. resumable w i (jr_phase job))"]])
    show "attains (up J (\<lambda>w. resumable w i (jr_phase job)))
        (and_then (with_error JournalFailure (po_load ops i)) (\<lambda>found. case found of None \<Rightarrow> fail (JobNotFound i)
           | Some job \<Rightarrow> advance_found tp ops i job))
        (\<lambda>job' w. progressed job job' \<and> up (J(i \<mapsto> job')) (\<lambda>w. resumable w i (jr_phase job')) w)" for u :: unit
      by (rule attains_and_then [OF load_attains [OF valid]], rule attains_assume)
        (use advance_found_attains [of job i J] assms in simp)
  qed simp
qed

lemma publish_loop_attains:
  assumes "publishable tp served job" and "J i = Some job" and "job_id job = i"
    and "n + phase_rank (jr_phase job) \<ge> 6"
  shows "attains (up J (\<lambda>w. resumable w i (jr_phase job))) (publish_loop tp ops i n job)
    (\<lambda>job' w. is_published (jr_phase job') \<and> publishable tp served job' \<and> ready w \<and> holds (J(i \<mapsto> job')) w)"
  using assms
proof (induction n arbitrary: job J)
  case 0
  then have done_: "is_published (jr_phase job)" "J(i \<mapsto> job) = J"
    using phase_rank_published [of "jr_phase job"] by (simp_all add: map_upd_triv)
  show ?case
    unfolding publish_loop.simps if_P [OF done_(1)] by (rule attains_ok) (simp add: up_def done_ "0.prems")
next
  case (Suc n)
  show ?case
  proof (cases "is_published (jr_phase job)")
    case True
    have same: "J(i \<mapsto> job) = J" using Suc.prems(2) by (simp add: map_upd_triv)
    show ?thesis
      unfolding publish_loop.simps if_P [OF True] by (rule attains_ok) (simp add: up_def True same Suc.prems)
  next
    case False
    have next_job: "publishable tp served job' \<and> job_id job' = i \<and> n + phase_rank (jr_phase job') \<ge> 6"
      if "progressed job job'" for job'
      using that False Suc.prems publishable_step phase_step_rank [of tp job "jr_phase job"]
      by (fastforce simp: progressed_def)
    show ?thesis
      unfolding publish_loop.simps if_not_P [OF False]
    proof (rule attains_and_then [OF advance_attains [of job J i, OF Suc.prems(1-3)]], rule attains_assume)
      fix job' assume p: "progressed job job'"
      have "attains (up (J(i \<mapsto> job')) (\<lambda>w. resumable w i (jr_phase job'))) (publish_loop tp ops i n job')
          (\<lambda>job2 w. is_published (jr_phase job2) \<and> publishable tp served job2 \<and> ready w \<and> holds ((J(i \<mapsto> job'))(i \<mapsto> job2)) w)"
        by (rule Suc.IH) (use next_job [OF p] in simp_all)
      then show "attains (up (J(i \<mapsto> job')) (\<lambda>w. resumable w i (jr_phase job'))) (publish_loop tp ops i n job')
          (\<lambda>job' w. is_published (jr_phase job') \<and> publishable tp served job' \<and> ready w \<and> holds (J(i \<mapsto> job')) w)" by simp
    qed
  qed
qed

lemma insert_attains:
  assumes "valid_request_id (job_id job)" and "J (job_id job) = None"
  shows "attains (up J (\<lambda>w. resumable w (job_id job) p)) (with_error JournalFailure (po_insert ops job))
    (\<lambda>out w. out = Inserted \<and> up (J(job_id job \<mapsto> job)) (\<lambda>w. resumable w (job_id job) p) w)"
  by (rule attains_weaken [OF attains_yields [OF attains_with_error [OF insert_works [OF assms(1), of p]]
        insert_call [of J job]]])
    (use assms(2) in \<open>auto simp: up_def holds_def split: insert_outcome.splits\<close>)

lemma admit_attains:
  fixes request author created_at J digest
  defines "job \<equiv> start_job J request digest author created_at" and "i \<equiv> pr_request_id request"
  assumes "valid_request_id i" and digest: "request_digest tp request = Inr digest"
    and same: "\<And>old. J i = Some old \<Longrightarrow> jr_request_digest old = digest \<and> jr_author old = author"
  shows "attains (up J (\<lambda>w. resumable w i (jr_phase job))) (admit tp ops request author created_at)
    (\<lambda>job' w. job' = job \<and> up (J(i \<mapsto> job)) (\<lambda>w. resumable w i (jr_phase job)) w)"
proof -
  let ?U = "up J (\<lambda>w. resumable w i (jr_phase job))"
  have v: "validate_request_id i = Inr ()" using assms(3) by simp
  have new: "attains ?U (admit_new ops request digest author created_at)
      (\<lambda>job' w. job' = job \<and> up (J(i \<mapsto> job)) (\<lambda>w. resumable w i (jr_phase job)) w)" if none: "J i = None"
  proof -
    have job: "admitted_job request digest author created_at = job" "job_id job = i"
      using none by (simp_all add: job_def i_def start_job_def) (simp add: admitted_job_def)
    show ?thesis
      unfolding admit_new_def Let_def job(1)
      by (rule attains_and_then [OF insert_attains [of job J "jr_phase job", unfolded job(2)], OF assms(3) none])
        (auto simp: attains_def)
  qed
  have found: "attains ?U (case J i of Some existing \<Rightarrow> of_result (same_request existing digest author)
      | None \<Rightarrow> admit_new ops request digest author created_at)
      (\<lambda>job' w. job' = job \<and> up (J(i \<mapsto> job)) (\<lambda>w. resumable w i (jr_phase job)) w)"
  proof (cases "J i")
    case (Some old)
    then show ?thesis
      using same [OF Some]
      by (auto simp: attains_def same_request_def job_def start_job_def i_def [symmetric] map_upd_triv)
  qed (use new in simp)
  have rest: "attains ?U (and_then (with_error JournalFailure (po_load ops i)) (\<lambda>found. case found of
      Some existing \<Rightarrow> of_result (same_request existing digest author)
    | None \<Rightarrow> admit_new ops request digest author created_at))
      (\<lambda>job' w. job' = job \<and> up (J(i \<mapsto> job)) (\<lambda>w. resumable w i (jr_phase job)) w)"
    by (rule attains_and_then [OF load_attains [OF assms(3)]], rule attains_assume) (use found in simp)
  show ?thesis
    unfolding admit_def digest i_def [symmetric] v
    using rest by (simp add: attains_def and_then_def of_result_def)
qed

theorem publish_as_attains:
  fixes request author created_at J digest
  defines "job \<equiv> start_job J request digest author created_at" and "i \<equiv> pr_request_id request"
  assumes "valid_request_id i" and "request_digest tp request = Inr digest"
    and "\<And>old. J i = Some old \<Longrightarrow> jr_request_digest old = digest \<and> jr_author old = author \<and> job_id old = i"
    and "publishable tp served job"
  shows "attains (up J (\<lambda>w. resumable w i (jr_phase job))) (publish_as tp ops request author created_at)
    (\<lambda>job' w. is_published (jr_phase job') \<and> publishable tp served job' \<and> ready w \<and> holds (J(i \<mapsto> job')) w)"
  unfolding publish_as_def i_def [symmetric]
proof (rule attains_and_then)
  show "attains (up J (\<lambda>w. resumable w i (jr_phase job))) (admit tp ops request author created_at)
    (\<lambda>job' w. job' = job \<and> up (J(i \<mapsto> job)) (\<lambda>w. resumable w i (jr_phase job)) w)"
    unfolding job_def i_def by (rule admit_attains) (use assms(3-5) in \<open>auto simp: i_def\<close>)
  have "job_id job = i"
    using assms(5) by (auto simp: job_def start_job_def i_def admitted_job_def split: option.split)
  then show "attains (\<lambda>w. job' = job \<and> up (J(i \<mapsto> job)) (\<lambda>w. resumable w i (jr_phase job)) w)
      (publish_loop tp ops i 6 job') (\<lambda>job' w. is_published (jr_phase job') \<and> publishable tp served job' \<and> ready w \<and> holds (J(i \<mapsto> job')) w)" for job'
    by (intro attains_assume) (use publish_loop_attains [of job "J(i \<mapsto> job)" i 6] assms(6) in simp)
qed

end

end
