(* ===== verification/Working_Services.thy ===== *)
theory Working_Services
  imports Progress Publisher_Laws
begin

text \<open>
  What working surroundings are for the daemon: a disk without faults, and a narrator, a Blossom server
  and an NMP engine that answer as they document. Under these the production composition of
  \<open>daemon/src/production.rs\<close> is a \<open>working_environment\<close>, one lemma per operation of the runner's capabilities.
\<close>

section \<open>The disk without faults\<close>

text \<open>With a free staged name, an insert, a save and an audio commit have exactly their intended effect.\<close>

lemma write_staged_quiet:
  assumes "fs_faults (js_fs st) = []" and "jc_encode codec job = Some bytes"
    and "files st (staged_name j (job_id job) (js_temp_id st)) = None"
  shows "write_staged codec j job st =
    (Inr (staged_name j (job_id job) (js_temp_id st)),
     \<lparr>js_fs = with_file (staged_name j (job_id job) (js_temp_id st)) (bytes @ [CHR 0x0A]) (js_fs st),
      js_temp_id = js_temp_id st + 1\<rparr>)"
  using assms
  by (simp add: write_staged_def and_then_def staged_path_def of_result_def ok_or_def on_fs_eq fs_no_fault
      file_bytes_def with_file_def)

lemma journal_save_quiet:
  assumes "fs_faults (js_fs st) = []" and "jc_encode codec job = Some bytes"
    and "files st (staged_name j (job_id job) (js_temp_id st)) = None" and "valid_request_id (job_id job)"
  shows "journal_save codec j job st =
    (Inr (), \<lparr>js_fs = with_file (record_file j (job_id job)) (bytes @ [CHR 0x0A]) (js_fs st),
              js_temp_id = js_temp_id st + 1\<rparr>)"
  using assms staged_not_record [OF assms(4), of j "job_id job" "js_temp_id st"]
  by (simp add: journal_save_def and_then_def write_staged_quiet of_result_def record_path_eq on_fs_eq fs_no_fault
      sync_root_def) (simp add: with_file_def fun_upd_idem)

lemma journal_insert_quiet:
  assumes "fs_faults (js_fs st) = []" and "jc_encode codec job = Some bytes"
    and "files st (staged_name j (job_id job) (js_temp_id st)) = None" and "valid_request_id (job_id job)"
  shows "\<exists>out fs. journal_insert codec j job st = (Inr out, \<lparr>js_fs = fs, js_temp_id = js_temp_id st + 1\<rparr>)
    \<and> fs_faults fs = [] \<and> (\<forall>q. q \<noteq> record_file j (job_id job) \<longrightarrow> fs_files fs q = files st q)"
proof (cases "files st (record_file j (job_id job))")
  case None
  with assms staged_not_record [OF assms(4), of j "job_id job" "js_temp_id st"] show ?thesis
    by (simp add: journal_insert_def link_record_def remove_staged_def and_then_def write_staged_quiet of_result_def
        record_path_eq on_fs_eq fs_no_fault sync_root_def)
next
  case (Some old)
  with assms staged_not_record [OF assms(4), of j "job_id job" "js_temp_id st"] show ?thesis
    by (auto simp: journal_insert_def link_record_def remove_staged_def and_then_def write_staged_quiet of_result_def
        record_path_eq on_fs_eq fs_no_fault sync_root_def fs_hard_link_def guarded_def next_fault_def)
qed

lemma write_atomic_quiet:
  assumes "fs_faults (au_fs st) = []" and "audio_files st (audio_staged_name dest st) = None"
    and "audio_files st dest = None"
  shows "write_atomic dest bytes st =
    (Inr (), st\<lparr>au_fs := with_file dest bytes (au_fs st), au_staged_id := au_staged_id st + 1\<rparr>)"
proof -
  have first: "audio_staged_path dest st = (Inr (audio_staged_name dest st), st\<lparr>au_staged_id := au_staged_id st + 1\<rparr>)"
    by (simp add: audio_staged_path_def audio_staged_name_def)
  show ?thesis
    using assms audio_staged_differs [of dest st]
    by (simp add: write_atomic_def and_then_def first with_error_def on_audio_fs_eq fs_no_fault commit_audio_def
        audio_files_def link_audio_def file_bytes_def with_file_def map_upd_away)
qed

section \<open>Services that work\<close>

text \<open>
  \<open>alive\<close> are the states of the outside world in which the services answer, \<open>known x n\<close> says that NMP
  still follows receipt \<open>n\<close>. \<open>serves alive known m Q\<close>: a call succeeds, leaves the world alive and
  forgets no receipt.
\<close>

definition serves ::
  "('x \<Rightarrow> bool) \<Rightarrow> ('x \<Rightarrow> u64 \<Rightarrow> bool) \<Rightarrow> ('x, 'e, 'a) action \<Rightarrow> ('a \<Rightarrow> 'x \<Rightarrow> bool) \<Rightarrow> bool" where
  "serves alive known m Q \<longleftrightarrow>
     (\<forall>x. alive x \<longrightarrow> (\<exists>r x'. m x = (Inr r, x') \<and> alive x' \<and> (\<forall>n. known x n \<longrightarrow> known x' n) \<and> Q r x'))"

lemma servesE:
  assumes "serves alive known m Q" and "alive x"
  obtains r x' where "m x = (Inr r, x')" "alive x'" "\<forall>n. known x n \<longrightarrow> known x' n" "Q r x'"
  using assms by (auto simp: serves_def)

text \<open>The narrator answers with MP3 bytes within its limit.\<close>

definition mp3_response :: "nat \<Rightarrow> http_response \<Rightarrow> bool" where
  "mp3_response limit response \<longleftrightarrow>
     hr_success response
     \<and> (\<forall>len. hr_content_length response = Some len \<longrightarrow> 0 < len \<and> len \<le> limit)
     \<and> (\<forall>t. hr_content_type response = Some t \<longrightarrow> is_mp3_type (takeWhile (\<lambda>c. c \<noteq> CHR '';'') t))
     \<and> (\<exists>bytes. hr_body response = Inr bytes \<and> bytes \<noteq> [] \<and> length bytes \<le> limit)"

definition narration_works :: "'x services \<Rightarrow> producer \<Rightarrow> ('x \<Rightarrow> bool) \<Rightarrow> ('x \<Rightarrow> u64 \<Rightarrow> bool) \<Rightarrow> bool" where
  "narration_works sv pd alive known \<longleftrightarrow>
     (\<forall>body voice. serves alive known
        (sv_narration sv (ks_endpoint (pd_kokoro pd)) (ks_auth (pd_kokoro pd)) body voice)
        (\<lambda>response _. mp3_response (ks_max_audio_bytes (pd_kokoro pd)) response))"

text \<open>
  The Blossom server authorizes and stores what it is sent, under a public HTTPS URL that fits an item;
  the digest is that of SHA-256, and the clock is not within an authorization's lifetime of its end.
\<close>

definition stores_blob :: "'x services \<Rightarrow> string \<Rightarrow> string \<Rightarrow> blob_descriptor \<Rightarrow> bool" where
  "stores_blob sv bytes media_type d \<longleftrightarrow>
     bd_size d = of_nat (length bytes) \<and> bd_sha256 d = sha256_of sv bytes
     \<and> (\<exists>url. bc_parse_url (sv_blossom sv) (bd_url d) = Some url \<and> url_scheme url = ''https'' \<and> url_host url \<noteq> None
          \<and> url_username url = [] \<and> url_password url = None \<and> url_query url = None \<and> url_fragment url = None)
     \<and> (\<forall>m. bd_mime_type d = Some m \<longrightarrow> is_mp3_type media_type \<longrightarrow> is_mp3_type m)
     \<and> is_some_and (bounded (bd_url d) 2048) (\<lambda>url. starts_with url ''https://'')"

definition blossom_works :: "'x services \<Rightarrow> producer \<Rightarrow> ('x \<Rightarrow> bool) \<Rightarrow> ('x \<Rightarrow> u64 \<Rightarrow> bool) \<Rightarrow> bool" where
  "blossom_works sv pd alive known \<longleftrightarrow>
     (\<forall>bytes. is_sha256 (sha256_of sv bytes))
     \<and> serves alive known (current_seconds (sv_blossom sv))
         (\<lambda>now _. unat now + unat (bu_authorization_lifetime (pd_uploader pd)) < 2 ^ 64)
     \<and> (\<forall>hash now expiration. serves alive known (bc_authorize (sv_blossom sv) hash now expiration) (\<lambda>_ _. True))
     \<and> (\<forall>bytes media_type auth. serves alive known (bc_upload (sv_blossom sv) bytes media_type auth)
          (\<lambda>d _. stores_blob sv bytes media_type d))"

text \<open>
  NMP reads keys as the daemon does, composes every write whose tags do not name the group, accepts
  tracked writes and reports on their receipts until the host has acknowledged them, and an observation
  of the group reconciles in time.
\<close>

definition acknowledges :: "relay_url \<Rightarrow> write_status list \<Rightarrow> bool" where
  "acknowledges host statuses \<longleftrightarrow>
     (\<exists>k \<le> 32. k \<le> length statuses \<and> \<not> list_ex negative_status (take k statuses)
        \<and> (\<exists>event. Signed event \<in> set (take k statuses)) \<and> Acked host \<in> set (take k statuses))
     \<and> (\<forall>event. Signed event \<in> set statuses \<longrightarrow> is_event_id event)"

definition added_count :: "timed_frame list \<Rightarrow> nat" where
  "added_count arrivals = (\<Sum>a\<leftarrow>arrivals. length (filter (\<lambda>d. \<exists>e. d = Added e) (fr_deltas (tf_frame a))))"

definition reconciles :: "nmp_publisher \<Rightarrow> timed_frame list \<Rightarrow> bool" where
  "reconciles p arrivals \<longleftrightarrow>
     (\<exists>before frame later. arrivals = before @ frame # later
        \<and> sum_list (map tf_elapsed before) < np_receipt_timeout p
        \<and> sum_list (map tf_elapsed (before @ [frame])) \<le> np_receipt_timeout p
        \<and> (\<forall>a \<in> set (before @ [frame]). \<not> host_refused (np_host p) (tf_frame a))
        \<and> host_reconciled (np_host p) (tf_frame frame) \<and> added_count (before @ [frame]) \<le> 4)
     \<and> (\<forall>event \<in> delivered arrivals. is_event_id (ev_id event))"

definition nmp_works :: "'x services \<Rightarrow> producer \<Rightarrow> ('x \<Rightarrow> bool) \<Rightarrow> ('x \<Rightarrow> u64 \<Rightarrow> bool) \<Rightarrow> bool" where
  "nmp_works sv pd alive known \<longleftrightarrow>
     en_parse_key (sv_engine sv) = tp_parse_key (sv_third_party sv)
     \<and> tp_parse_key (sv_third_party sv) (np_admin_author (pd_publisher pd)) \<noteq> None
     \<and> bounded (np_group_id (pd_publisher pd)) 128 \<noteq> None
     \<and> (\<forall>digest. \<exists>correlation. en_correlation (sv_engine sv) (en_sha256_hex (sv_engine sv) digest) = Inr correlation)
     \<and> (\<forall>host g author t kind content tags. tag_rows tags ''h'' = [] \<longrightarrow>
          en_group_send (sv_engine sv) host g author t kind content tags \<noteq> None)
     \<and> (\<forall>intent. serves alive known (en_publish_tracked (sv_engine sv) intent) (\<lambda>n x. known x n))
     \<and> (\<forall>n. serves (\<lambda>x. alive x \<and> known x n) known (en_reattach_receipt (sv_engine sv) n)
          (\<lambda>r _. \<exists>statuses. r = Attached statuses \<and> acknowledges (np_host (pd_publisher pd)) statuses))
     \<and> (\<forall>demand. serves alive known (en_observe (sv_engine sv) demand) (\<lambda>arrivals _. reconciles (pd_publisher pd) arrivals))"

text \<open>The limits of the composition fit together.\<close>

definition limits_fit :: "producer \<Rightarrow> bool" where
  "limits_fit pd \<longleftrightarrow>
     ks_max_audio_bytes (pd_kokoro pd) \<le> bu_max_upload_bytes (pd_uploader pd)
     \<and> ks_max_audio_bytes (pd_kokoro pd) \<le> unat MAX_ARTIFACT_BYTES
     \<and> np_group_id (pd_publisher pd) = pd_group_id pd"

definition services_work :: "'x services \<Rightarrow> producer \<Rightarrow> ('x \<Rightarrow> bool) \<Rightarrow> ('x \<Rightarrow> u64 \<Rightarrow> bool) \<Rightarrow> bool" where
  "services_work sv pd alive known \<longleftrightarrow>
     codec_round_trip (sv_codec sv) \<and> narration_works sv pd alive known \<and> blossom_works sv pd alive known
     \<and> nmp_works sv pd alive known \<and> limits_fit pd"

text \<open>
  The daemon's own part: no disk faults, remembered memberships are event ids, and no staged file of
  this process is left over. \<open>disk\<close> is whatever else is to hold of the files; publication keeps it when it
  does not depend on the records and accepts fitting audio where audio belongs.
\<close>

definition staged_files :: "'x services \<Rightarrow> producer \<Rightarrow> string set" where
  "staged_files sv pd =
     {staged_name (pd_journal pd) i t | i t. True}
     \<union> {audio_staged_name (audio_path (production_ops sv pd) i) st | i st. au_pid st = fj_pid (pd_journal pd)}"

definition daemon_ready ::
  "'x services \<Rightarrow> producer \<Rightarrow> ('x \<Rightarrow> bool) \<Rightarrow> ((string \<rightharpoonup> string) \<Rightarrow> bool) \<Rightarrow> 'x daemon_world \<Rightarrow> bool" where
  "daemon_ready sv pd alive disk w \<longleftrightarrow>
     fs_faults (dw_fs w) = [] \<and> alive (dw_ext w)
     \<and> (\<forall>a event_id. btree_get (dw_members w) a = Some event_id \<longrightarrow> is_event_id event_id)
     \<and> (\<forall>path \<in> staged_files sv pd. fs_files (dw_fs w) path = None) \<and> disk (fs_files (dw_fs w))"

definition audio_fits :: "producer \<Rightarrow> string \<Rightarrow> bool" where
  "audio_fits pd bytes \<longleftrightarrow> bytes \<noteq> [] \<and> length bytes \<le> ks_max_audio_bytes (pd_kokoro pd)"

definition disk_kept :: "'x services \<Rightarrow> producer \<Rightarrow> ((string \<rightharpoonup> string) \<Rightarrow> bool) \<Rightarrow> bool" where
  "disk_kept sv pd disk \<longleftrightarrow>
     (\<forall>contents i content. valid_request_id i \<longrightarrow> disk contents \<longrightarrow> disk (contents(record_file (pd_journal pd) i := content)))
     \<and> (\<forall>contents i bytes. valid_request_id i \<longrightarrow> audio_fits pd bytes \<longrightarrow> disk contents \<longrightarrow>
          disk (contents(audio_path (production_ops sv pd) i \<mapsto> bytes)))"

text \<open>What a phase refers to is still there: the audio file, or the receipt.\<close>

definition can_resume ::
  "'x services \<Rightarrow> producer \<Rightarrow> ('x \<Rightarrow> u64 \<Rightarrow> bool) \<Rightarrow> 'x daemon_world \<Rightarrow> string \<Rightarrow> job_phase \<Rightarrow> bool" where
  "can_resume sv pd known w i phase =
     (let audio_file = fs_files (dw_fs w) (audio_path (production_ops sv pd) i) in
      case phase of
        Admitted \<Rightarrow> (case audio_file of None \<Rightarrow> True | Some bytes \<Rightarrow> audio_fits pd bytes)
      | Synthesized audio \<Rightarrow>
          (case audio_file of None \<Rightarrow> False | Some bytes \<Rightarrow>
             audio_fits pd bytes \<and> audio = \<lparr>la_path = audio_path (production_ops sv pd) i, la_sha256 = sha256_of sv bytes,
               la_media_type = ''audio/mpeg'', la_byte_count = of_nat (length bytes)\<rparr>)
      | AuthorizationAccepted item n \<Rightarrow> known (dw_ext w) n
      | PublicationAccepted item m n \<Rightarrow> known (dw_ext w) n
      | _ \<Rightarrow> True)"

lemma can_resume_keeps:
  assumes "can_resume sv pd known w i p" and "\<And>n. known (dw_ext w) n \<Longrightarrow> known (dw_ext w') n"
    and "fs_files (dw_fs w') (audio_path (production_ops sv pd) i) = fs_files (dw_fs w) (audio_path (production_ops sv pd) i)"
  shows "can_resume sv pd known w' i p"
  using assms by (cases p) (auto simp: can_resume_def)

lemma staged_name_last: "last (staged_name j i t) = CHR ''p''"
  by (simp add: staged_name_def path_join_def starts_with_iff)

lemma staged_file_last: "path \<in> staged_files sv pd \<Longrightarrow> last path = CHR ''p''"
  by (auto simp: staged_files_def audio_staged_last staged_name_last)

lemma record_not_staged: "valid_request_id i \<Longrightarrow> record_file j i \<notin> staged_files sv pd"
  using staged_file_last record_file_last by fastforce

lemma audio_not_staged: "audio_path (production_ops sv pd) i \<notin> staged_files sv pd"
  using staged_file_last [of _ sv pd] audio_path_last [of "production_ops sv pd" i] by fastforce

lemma audio_not_record: "valid_request_id k \<Longrightarrow> audio_path ops i \<noteq> record_file j k"
  using audio_path_last [of ops i] record_file_last [of k j] by auto

lemma daemon_ready_quiet:
  assumes "daemon_ready sv pd alive disk w"
  shows "fs_faults (dw_fs w) = []" and "fs_files (dw_fs w) (staged_name (pd_journal pd) i t) = None"
    and "au_pid st = fj_pid (pd_journal pd) \<Longrightarrow>
      fs_files (dw_fs w) (audio_staged_name (audio_path (production_ops sv pd) i) st) = None"
  using assms unfolding daemon_ready_def staged_files_def by blast+

section \<open>The journal works\<close>

lemma daemon_load_works:
  assumes "valid_request_id i"
  shows "attains (\<lambda>w. daemon_sound sv pd w \<and> daemon_ready sv pd alive disk w \<and> can_resume sv pd known w k p)
    (po_load (production_ops sv pd) i) (\<lambda>_ w. daemon_ready sv pd alive disk w \<and> can_resume sv pd known w k p)"
proof (rule attainsI)
  fix w :: "'a daemon_world"
  assume w: "daemon_sound sv pd w \<and> daemon_ready sv pd alive disk w \<and> can_resume sv pd known w k p"
  then have quiet: "fs_faults (dw_fs w) = []" by (simp add: daemon_ready_def)
  have "\<exists>found. po_load (production_ops sv pd) i w = (Inr found, w)"
  proof (cases "fs_files (dw_fs w) (record_file (pd_journal pd) i)")
    case None
    then show ?thesis
      using quiet assms by (simp add: production_ops_def on_journal_def on_part_def journal_load_def journal_part_def
          record_path_eq and_then_def of_result_def fs_no_fault)
  next
    case (Some bytes)
    then obtain job where "jc_decode (sv_codec sv) bytes = Some job"
      using w assms by (auto simp: daemon_sound_def store_sound_def journal_part_def)
    then show ?thesis
      using quiet assms Some by (simp add: production_ops_def on_journal_def on_part_def journal_load_def
          journal_part_def record_path_eq and_then_def of_result_def fs_no_fault)
  qed
  then show "\<exists>found w'. po_load (production_ops sv pd) i w = (Inr found, w')
      \<and> daemon_ready sv pd alive disk w' \<and> can_resume sv pd known w' k p"
    using w by blast
qed

text \<open>Writing one record: everything the daemon needs beside it stays.\<close>

lemma record_write_keeps:
  assumes "valid_request_id i" and "daemon_ready sv pd alive disk w" and "can_resume sv pd known w k p"
    and "w' = w\<lparr>dw_fs := fs, dw_temp_id := t\<rparr>" and "fs_faults fs = []"
    and "\<And>q. q \<noteq> record_file (pd_journal pd) i \<Longrightarrow> fs_files fs q = fs_files (dw_fs w) q"
    and "disk_kept sv pd disk"
  shows "daemon_ready sv pd alive disk w' \<and> can_resume sv pd known w' k p"
proof
  let ?r = "record_file (pd_journal pd) i"
  have "fs_files fs = (fs_files (dw_fs w))(?r := fs_files fs ?r)" using assms(6) by (auto simp: fun_eq_iff)
  then have "disk (fs_files fs)"
    using assms(1,2,7) unfolding disk_kept_def daemon_ready_def by metis
  then show "daemon_ready sv pd alive disk w'"
    using assms(2,4,5) assms(6) record_not_staged [OF assms(1), of "pd_journal pd" sv pd]
    by (auto simp: daemon_ready_def) (metis option.distinct(1))
  show "can_resume sv pd known w' k p"
    by (rule can_resume_keeps [OF assms(3)]) (use assms(4,6) audio_not_record [OF assms(1)] in auto)
qed

lemma daemon_save_works:
  assumes codec: "codec_round_trip (sv_codec sv)" and disk: "disk_kept sv pd disk" and valid: "valid_request_id (job_id job)"
  shows "attains (\<lambda>w. daemon_sound sv pd w \<and> daemon_ready sv pd alive disk w \<and> can_resume sv pd known w k p)
    (po_save (production_ops sv pd) job) (\<lambda>_ w. daemon_ready sv pd alive disk w \<and> can_resume sv pd known w k p)"
proof (rule attainsI)
  fix w :: "'a daemon_world"
  assume w: "daemon_sound sv pd w \<and> daemon_ready sv pd alive disk w \<and> can_resume sv pd known w k p"
  obtain bytes where bytes: "jc_encode (sv_codec sv) job = Some bytes"
    using codec by (auto simp: codec_round_trip_def)
  let ?fs = "with_file (record_file (pd_journal pd) (job_id job)) (bytes @ [CHR 0x0A]) (dw_fs w)"
  let ?w = "w\<lparr>dw_fs := ?fs, dw_temp_id := dw_temp_id w + 1\<rparr>"
  have quiet: "fs_faults (dw_fs w) = []"
    "fs_files (dw_fs w) (staged_name (pd_journal pd) (job_id job) (dw_temp_id w)) = None"
    using w daemon_ready_quiet [of sv pd alive disk w] by auto
  have "po_save (production_ops sv pd) job w = (Inr (), ?w)"
    using journal_save_quiet [OF _ bytes, of "journal_part w" "pd_journal pd"] quiet valid
    by (simp add: production_ops_def on_journal_def on_part_def journal_part_def)
  moreover have "daemon_ready sv pd alive disk ?w \<and> can_resume sv pd known ?w k p"
    by (rule record_write_keeps [OF valid _ _ refl _ _ disk]) (use w quiet(1) in auto)
  ultimately show "\<exists>u w'. po_save (production_ops sv pd) job w = (Inr u, w')
      \<and> daemon_ready sv pd alive disk w' \<and> can_resume sv pd known w' k p"
    by blast
qed

lemma daemon_insert_works:
  assumes codec: "codec_round_trip (sv_codec sv)" and disk: "disk_kept sv pd disk" and valid: "valid_request_id (job_id job)"
  shows "attains (\<lambda>w. daemon_sound sv pd w \<and> daemon_ready sv pd alive disk w \<and> can_resume sv pd known w k p)
    (po_insert (production_ops sv pd) job) (\<lambda>_ w. daemon_ready sv pd alive disk w \<and> can_resume sv pd known w k p)"
proof (rule attainsI)
  fix w :: "'a daemon_world"
  assume w: "daemon_sound sv pd w \<and> daemon_ready sv pd alive disk w \<and> can_resume sv pd known w k p"
  obtain bytes where bytes: "jc_encode (sv_codec sv) job = Some bytes"
    using codec by (auto simp: codec_round_trip_def)
  have quiet: "fs_faults (dw_fs w) = []"
    "fs_files (dw_fs w) (staged_name (pd_journal pd) (job_id job) (dw_temp_id w)) = None"
    using w daemon_ready_quiet [of sv pd alive disk w] by auto
  obtain out fs where out: "journal_insert (sv_codec sv) (pd_journal pd) job (journal_part w)
      = (Inr out, \<lparr>js_fs = fs, js_temp_id = dw_temp_id w + 1\<rparr>)" "fs_faults fs = []"
    "\<And>q. q \<noteq> record_file (pd_journal pd) (job_id job) \<Longrightarrow> fs_files fs q = fs_files (dw_fs w) q"
    using journal_insert_quiet [OF _ bytes, of "journal_part w" "pd_journal pd"] quiet valid
    by (auto simp: journal_part_def)
  have "po_insert (production_ops sv pd) job w = (Inr out, w\<lparr>dw_fs := fs, dw_temp_id := dw_temp_id w + 1\<rparr>)"
    using out(1) by (simp add: production_ops_def on_journal_def on_part_def)
  moreover have "daemon_ready sv pd alive disk (w\<lparr>dw_fs := fs, dw_temp_id := dw_temp_id w + 1\<rparr>)
      \<and> can_resume sv pd known (w\<lparr>dw_fs := fs, dw_temp_id := dw_temp_id w + 1\<rparr>) k p"
    by (rule record_write_keeps [OF valid _ _ refl out(2,3) disk]) (use w in auto)
  ultimately show "\<exists>out w'. po_insert (production_ops sv pd) job w = (Inr out, w')
      \<and> daemon_ready sv pd alive disk w' \<and> can_resume sv pd known w' k p"
    by blast
qed

section \<open>Narration and upload work\<close>

lemma check_response_works:
  assumes "mp3_response (ks_max_audio_bytes k) response"
  shows "\<exists>bytes. check_response k response = Inr bytes \<and> bytes \<noteq> [] \<and> length bytes \<le> ks_max_audio_bytes k"
proof -
  obtain bytes where "hr_body response = Inr bytes" "bytes \<noteq> []" "length bytes \<le> ks_max_audio_bytes k"
    using assms by (auto simp: mp3_response_def)
  then show ?thesis
    using assms by (auto simp: check_response_def mp3_response_def is_some_and_iff)
qed

lemma generate_works:
  assumes "narration_works sv pd alive known" and "trim (pr_body rq) \<noteq> []" and "pr_voice rq \<noteq> []"
    and "length (pr_voice rq) \<le> 64"
  shows "serves alive known (generate (pd_kokoro pd) (sv_narration sv) rq) (\<lambda>bytes _. audio_fits pd bytes)"
  unfolding serves_def
proof (intro allI impI)
  fix x assume "alive x"
  then obtain response x' where r: "sv_narration sv (ks_endpoint (pd_kokoro pd)) (ks_auth (pd_kokoro pd))
      (pr_body rq) (pr_voice rq) x = (Inr response, x')" "alive x'" "\<forall>n. known x n \<longrightarrow> known x' n"
    "mp3_response (ks_max_audio_bytes (pd_kokoro pd)) response"
    by (rule servesE [OF assms(1) [unfolded narration_works_def, rule_format, of "pr_body rq" "pr_voice rq"]])
  obtain bytes where "check_response (pd_kokoro pd) response = Inr bytes" "audio_fits pd bytes"
    using check_response_works [OF r(4)] by (auto simp: audio_fits_def)
  then show "\<exists>bytes x'. generate (pd_kokoro pd) (sv_narration sv) rq x = (Inr bytes, x') \<and> alive x'
      \<and> (\<forall>n. known x n \<longrightarrow> known x' n) \<and> audio_fits pd bytes"
    using r(1-3) assms(2-4) by (simp add: generate_def and_then_def with_error_def of_result_def)
qed

lemma on_media_eq:
  "on_media pd m w = (case m (media_part pd w) of (r, m') \<Rightarrow>
     (r, w\<lparr>dw_fs := au_fs (mw_audio m'), dw_staged_id := au_staged_id (mw_audio m'), dw_ext := mw_ext m'\<rparr>))"
  by (simp add: on_media_def on_part_def)

text \<open>Audio that is on disk is read back as its artifact.\<close>

lemma existing_audio_works:
  assumes "fs_faults (au_fs (mw_audio m)) = []" and "fs_files (au_fs (mw_audio m)) output = Some bytes"
    and "audio_fits pd bytes"
  shows "on_audio (artifact_for_existing h output (ks_max_audio_bytes (pd_kokoro pd))) m =
    (Inr \<lparr>la_path = output, la_sha256 = h bytes, la_media_type = ''audio/mpeg'',
       la_byte_count = of_nat (length bytes)\<rparr>, m)"
  using assms
  by (simp add: artifact_for_existing_def on_audio_def on_part_def and_then_def with_error_def on_audio_fs_eq
      fs_no_fault audio_fits_def of_result_def)

lemma synthesize_found:
  assumes "fs_faults (au_fs (mw_audio m)) = []" and "fs_files (au_fs (mw_audio m)) output = Some bytes"
    and "audio_fits pd bytes"
  shows "synthesize h (pd_kokoro pd) post rq output m =
    (Inr \<lparr>la_path = output, la_sha256 = h bytes, la_media_type = ''audio/mpeg'',
       la_byte_count = of_nat (length bytes)\<rparr>, m)"
  using assms existing_audio_works [OF assms]
  by (simp add: synthesize_def path_exists_def next_fault_def)

lemma synthesize_fresh:
  assumes "fs_faults (au_fs (mw_audio m)) = []" and "fs_files (au_fs (mw_audio m)) output = None"
    and "fs_files (au_fs (mw_audio m)) (audio_staged_name output (mw_audio m)) = None"
    and "generate (pd_kokoro pd) post rq (mw_ext m) = (Inr bytes, x')" and "audio_fits pd bytes"
  shows "synthesize h (pd_kokoro pd) post rq output m =
    (Inr \<lparr>la_path = output, la_sha256 = h bytes, la_media_type = ''audio/mpeg'',
       la_byte_count = of_nat (length bytes)\<rparr>,
     m\<lparr>mw_audio := (mw_audio m)\<lparr>au_fs := with_file output bytes (au_fs (mw_audio m)),
         au_staged_id := au_staged_id (mw_audio m) + 1\<rparr>, mw_ext := x'\<rparr>)"
proof -
  let ?a = "(mw_audio m)\<lparr>au_fs := with_file output bytes (au_fs (mw_audio m)),
      au_staged_id := au_staged_id (mw_audio m) + 1\<rparr>"
  have ext: "on_ext (generate (pd_kokoro pd) post rq) m = (Inr bytes, m\<lparr>mw_ext := x'\<rparr>)"
    using assms(4) by (simp add: on_ext_def on_part_def)
  have "write_atomic output bytes (mw_audio m) = (Inr (), ?a)"
    using write_atomic_quiet [of "mw_audio m" "output" bytes] assms(1-3) by (simp add: audio_files_def)
  then have commit: "on_audio (write_atomic output bytes) (m\<lparr>mw_ext := x'\<rparr>) = (Inr (), m\<lparr>mw_ext := x', mw_audio := ?a\<rparr>)"
    by (simp add: on_audio_def on_part_def)
  have existing: "on_audio (artifact_for_existing h output (ks_max_audio_bytes (pd_kokoro pd))) (m\<lparr>mw_ext := x', mw_audio := ?a\<rparr>)
      = (Inr \<lparr>la_path = output, la_sha256 = h bytes, la_media_type = ''audio/mpeg'',
           la_byte_count = of_nat (length bytes)\<rparr>, m\<lparr>mw_ext := x', mw_audio := ?a\<rparr>)"
    by (rule existing_audio_works) (use assms(1,5) in simp_all)
  show ?thesis
    using assms(1,2) existing
    by (simp add: synthesize_def path_exists_def next_fault_def and_then_def ext commit)
qed

lemma daemon_synthesize_works:
  assumes narrator: "narration_works sv pd alive known" and "trim (pr_body rq) \<noteq> []" and "pr_voice rq \<noteq> []"
    and "length (pr_voice rq) \<le> 64" and valid: "valid_request_id (pr_request_id rq)" and disk: "disk_kept sv pd disk"
  shows "attains (\<lambda>w. daemon_sound sv pd w \<and> daemon_ready sv pd alive disk w \<and> can_resume sv pd known w (pr_request_id rq) Admitted)
    (po_synthesize (production_ops sv pd) rq (audio_path (production_ops sv pd) (pr_request_id rq)))
    (\<lambda>audio w. daemon_ready sv pd alive disk w \<and> can_resume sv pd known w (pr_request_id rq) (Synthesized audio))"
proof (rule attainsI)
  fix w :: "'a daemon_world"
  let ?out = "audio_path (production_ops sv pd) (pr_request_id rq)"
  let ?op = "po_synthesize (production_ops sv pd) rq ?out"
  let ?m = "media_part pd w"
  assume w: "daemon_sound sv pd w \<and> daemon_ready sv pd alive disk w \<and> can_resume sv pd known w (pr_request_id rq) Admitted"
  then have quiet: "fs_faults (au_fs (mw_audio ?m)) = []"
    by (simp add: daemon_ready_def media_part_def)
  have op: "?op w = on_media pd (synthesize (sha256_of sv) (pd_kokoro pd) (sv_narration sv) rq ?out) w"
    by (simp add: production_ops_def)
  show "\<exists>audio w'. ?op w = (Inr audio, w')
      \<and> daemon_ready sv pd alive disk w' \<and> can_resume sv pd known w' (pr_request_id rq) (Synthesized audio)"
  proof (cases "fs_files (dw_fs w) ?out")
    case (Some bytes)
    then have "audio_fits pd bytes" using w by (simp add: can_resume_def)
    with synthesize_found [OF quiet, of ?out bytes] Some w show ?thesis
      by (simp add: op on_media_eq can_resume_def) (simp add: media_part_def)
  next
    case None
    obtain bytes x' where g: "generate (pd_kokoro pd) (sv_narration sv) rq (dw_ext w) = (Inr bytes, x')" "alive x'"
      "\<forall>n. known (dw_ext w) n \<longrightarrow> known x' n" "audio_fits pd bytes"
      using generate_works [OF assms(1-4)] w by (auto simp: daemon_ready_def elim: servesE)
    have free: "fs_files (dw_fs w) (audio_staged_name ?out (mw_audio ?m)) = None"
      using w daemon_ready_quiet(3) [of sv pd alive disk w] by (simp add: media_part_def)
    let ?w = "w\<lparr>dw_fs := with_file ?out bytes (dw_fs w), dw_staged_id := dw_staged_id w + 1, dw_ext := x'\<rparr>"
    have "?op w = (Inr \<lparr>la_path = ?out, la_sha256 = sha256_of sv bytes, la_media_type = ''audio/mpeg'',
        la_byte_count = of_nat (length bytes)\<rparr>, ?w)"
      using synthesize_fresh [OF quiet, of ?out pd "sv_narration sv" rq bytes x'] None free g(1,4)
      by (simp add: op on_media_eq) (simp add: media_part_def)
    moreover have "daemon_ready sv pd alive disk ?w"
      using w g(2,4) audio_not_staged [of sv pd "pr_request_id rq"] valid disk
      by (auto simp: daemon_ready_def disk_kept_def)
    ultimately show ?thesis using g(4) by (simp add: can_resume_def)
  qed
qed

lemma daemon_create_dir_works:
  "attains (\<lambda>w. daemon_sound sv pd w \<and> daemon_ready sv pd alive disk w \<and> can_resume sv pd known w i p)
    (po_create_dir_all (production_ops sv pd) d) (\<lambda>_ w. daemon_ready sv pd alive disk w \<and> can_resume sv pd known w i p)"
  by (auto simp: attains_def production_ops_def on_files_def on_part_def fs_no_fault daemon_ready_quiet)

lemma audio_count_positive:
  assumes "audio_fits pd bytes" and "limits_fit pd"
  shows "(of_nat (length bytes) :: u64) > 0" and "(of_nat (length bytes) :: u64) \<le> MAX_ARTIFACT_BYTES"
proof -
  have "length bytes \<le> unat MAX_ARTIFACT_BYTES" "0 < length bytes"
    using assms by (auto simp: audio_fits_def limits_fit_def)
  moreover from this(1) have "unat (of_nat (length bytes) :: u64) = length bytes"
    by (simp add: MAX_ARTIFACT_BYTES_def unat_of_nat)
  ultimately show "(of_nat (length bytes) :: u64) > 0" "(of_nat (length bytes) :: u64) \<le> MAX_ARTIFACT_BYTES"
    by (simp_all add: word_less_nat_alt word_le_nat_alt)
qed

lemma daemon_read_works:
  assumes "limits_fit pd" and sha: "\<And>bytes. is_sha256 (sha256_of sv bytes)"
  shows "attains (\<lambda>w. daemon_sound sv pd w \<and> daemon_ready sv pd alive disk w \<and> can_resume sv pd known w i (Synthesized audio))
    (po_read (production_ops sv pd) (audio_path (production_ops sv pd) i))
    (\<lambda>bytes w. daemon_ready sv pd alive disk w \<and> can_resume sv pd known w i (Synthesized audio)
       \<and> local_audio_valid (sv_third_party sv) audio (audio_path (production_ops sv pd) i) bytes)"
proof (rule attainsI)
  fix w :: "'a daemon_world"
  assume w: "daemon_sound sv pd w \<and> daemon_ready sv pd alive disk w \<and> can_resume sv pd known w i (Synthesized audio)"
  let ?out = "audio_path (production_ops sv pd) i"
  obtain bytes where b: "fs_files (dw_fs w) ?out = Some bytes" "audio_fits pd bytes"
    "audio = \<lparr>la_path = ?out, la_sha256 = sha256_of sv bytes, la_media_type = ''audio/mpeg'',
       la_byte_count = of_nat (length bytes)\<rparr>"
    using w by (auto simp: can_resume_def split: option.splits)
  have "po_read (production_ops sv pd) ?out w = (Inr bytes, w)"
    using b(1) w daemon_ready_quiet(1) [of sv pd alive disk w]
    by (simp add: production_ops_def on_files_def on_part_def fs_no_fault)
  moreover have "local_audio_valid (sv_third_party sv) audio ?out bytes"
    using audio_count_positive(1) [OF b(2) assms(1)] sha
    by (simp add: b(3) local_audio_valid_def path_eq_def starts_with_iff)
  ultimately show "\<exists>bytes w'. po_read (production_ops sv pd) ?out w = (Inr bytes, w') \<and> daemon_ready sv pd alive disk w'
      \<and> can_resume sv pd known w' i (Synthesized audio) \<and> local_audio_valid (sv_third_party sv) audio ?out bytes"
    using w by blast
qed

text \<open>Calls to the services from within a media operation leave the files alone.\<close>

lemma on_ext_serves:
  assumes "serves alive known m Q" and "alive (mw_ext w)"
  obtains r x' where "on_ext m w = (Inr r, w\<lparr>mw_ext := x'\<rparr>)" "alive x'" "\<forall>n. known (mw_ext w) n \<longrightarrow> known x' n" "Q r x'"
  using assms by (auto simp: on_ext_def on_part_def elim!: servesE)

lemma bounded_sha256: "is_sha256 s \<Longrightarrow> bounded s 64 = Some s"
proof (rule bounded_graphic)
  assume s: "is_sha256 s"
  show "s \<noteq> []" "length s \<le> 64" using s by (auto simp: is_sha256_def)
  then have "hd s \<in> set s" "last s \<in> set s" by simp_all
  then show "is_graphic (hd s)" "is_graphic (last s)"
    using s by (auto simp: is_sha256_def list_all_iff is_graphic_def is_lower_hex_byte_def is_ascii_digit_def)
qed

lemma stored_audio_valid:
  assumes "stores_blob sv bytes ''audio/mpeg'' d" and "audio_fits pd bytes" and "limits_fit pd"
    and "is_sha256 (sha256_of sv bytes)"
  shows "valid_artifact \<lparr>art_url = bd_url d, art_sha256 = sha256_of sv bytes, art_media_type = ''audio/mpeg'',
    art_byte_count = of_nat (length bytes), art_label = None\<rparr> False"
  using assms audio_count_positive [OF assms(2,3)]
  by (auto simp: valid_artifact_def artifact_def artifact_row_def stores_blob_def is_some_and_iff bounded_sha256
      bounded_graphic [of "''audio/mpeg''"] is_graphic_def is_sha256_def is_lower_hex_def)

lemma upload_chain:
  assumes "blossom_works sv pd alive known" and "alive (mw_ext m)"
  obtains now x1 auth x2 d x3 where
    "on_ext (current_seconds (sv_blossom sv)) m = (Inr now, m\<lparr>mw_ext := x1\<rparr>)"
    "on_ext (authorization (pd_uploader pd) (sv_blossom sv) (sha256_of sv bytes) now) (m\<lparr>mw_ext := x1\<rparr>)
      = (Inr auth, m\<lparr>mw_ext := x2\<rparr>)"
    "on_ext (bc_upload (sv_blossom sv) bytes media_type auth) (m\<lparr>mw_ext := x2\<rparr>) = (Inr d, m\<lparr>mw_ext := x3\<rparr>)"
    "alive x3" "\<forall>n. known (mw_ext m) n \<longrightarrow> known x3 n" "stores_blob sv bytes media_type d"
proof -
  note works = assms(1) [unfolded blossom_works_def]
  obtain now x1 where 1: "on_ext (current_seconds (sv_blossom sv)) m = (Inr now, m\<lparr>mw_ext := x1\<rparr>)" "alive x1"
    "\<forall>n. known (mw_ext m) n \<longrightarrow> known x1 n" "unat now + unat (bu_authorization_lifetime (pd_uploader pd)) < 2 ^ 64"
    using on_ext_serves [of alive known "current_seconds (sv_blossom sv)" _ m] works assms(2) by auto
  obtain expiration where e: "checked_add now (bu_authorization_lifetime (pd_uploader pd)) = Some expiration"
    using 1(4) by (simp add: checked_add_def)
  obtain auth x2 where 2: "on_ext (bc_authorize (sv_blossom sv) (sha256_of sv bytes) now expiration) (m\<lparr>mw_ext := x1\<rparr>)
      = (Inr auth, m\<lparr>mw_ext := x2\<rparr>)" "alive x2" "\<forall>n. known x1 n \<longrightarrow> known x2 n"
    using on_ext_serves [of alive known "bc_authorize (sv_blossom sv) (sha256_of sv bytes) now expiration"
        "\<lambda>_ _. True" "m\<lparr>mw_ext := x1\<rparr>"] works 1(2) by auto
  then have auth: "on_ext (authorization (pd_uploader pd) (sv_blossom sv) (sha256_of sv bytes) now) (m\<lparr>mw_ext := x1\<rparr>)
      = (Inr auth, m\<lparr>mw_ext := x2\<rparr>)"
    by (simp add: authorization_def e on_ext_def on_part_def and_then_def of_result_def ok_or_def)
  obtain d x3 where 3: "on_ext (bc_upload (sv_blossom sv) bytes media_type auth) (m\<lparr>mw_ext := x2\<rparr>)
      = (Inr d, m\<lparr>mw_ext := x3\<rparr>)" "alive x3" "\<forall>n. known x2 n \<longrightarrow> known x3 n" "stores_blob sv bytes media_type d"
    using on_ext_serves [of alive known "bc_upload (sv_blossom sv) bytes media_type auth"
        "\<lambda>d _. stores_blob sv bytes media_type d" "m\<lparr>mw_ext := x2\<rparr>"] works 2(2) by auto
  show thesis using that [OF 1(1) auth 3(1,2) _ 3(4)] 1(3) 2(3) 3(3) by blast
qed

lemma make_durable_works:
  assumes "blossom_works sv pd alive known" and "limits_fit pd" and "alive (mw_ext m)"
    and "fs_faults (au_fs (mw_audio m)) = []" and "fs_files (au_fs (mw_audio m)) output = Some bytes"
    and "audio_fits pd bytes"
  shows "\<exists>durable x'. make_durable (sha256_of sv) (pd_uploader pd) (sv_blossom sv)
      \<lparr>la_path = output, la_sha256 = sha256_of sv bytes, la_media_type = ''audio/mpeg'',
       la_byte_count = of_nat (length bytes)\<rparr> m = (Inr durable, m\<lparr>mw_ext := x'\<rparr>)
    \<and> alive x' \<and> (\<forall>n. known (mw_ext m) n \<longrightarrow> known x' n)
    \<and> art_sha256 durable = sha256_of sv bytes \<and> art_byte_count durable = of_nat (length bytes)
    \<and> art_media_type durable = ''audio/mpeg'' \<and> valid_artifact durable False"
proof -
  have read: "on_audio (on_audio_fs (fs_read output)) m = (Inr bytes, m)"
    using assms(4,5) by (simp add: on_audio_def on_part_def on_audio_fs_eq fs_no_fault)
  obtain now x1 auth x2 d x3 where c:
    "on_ext (current_seconds (sv_blossom sv)) m = (Inr now, m\<lparr>mw_ext := x1\<rparr>)"
    "on_ext (authorization (pd_uploader pd) (sv_blossom sv) (sha256_of sv bytes) now) (m\<lparr>mw_ext := x1\<rparr>)
      = (Inr auth, m\<lparr>mw_ext := x2\<rparr>)"
    "on_ext (bc_upload (sv_blossom sv) bytes ''audio/mpeg'' auth) (m\<lparr>mw_ext := x2\<rparr>) = (Inr d, m\<lparr>mw_ext := x3\<rparr>)"
    and live: "alive x3" "\<forall>n. known (mw_ext m) n \<longrightarrow> known x3 n" and d: "stores_blob sv bytes ''audio/mpeg'' d"
    by (rule upload_chain [OF assms(1,3)])
  have descriptor: "validate_descriptor (bc_parse_url (sv_blossom sv)) (bd_url d) (bd_mime_type d) = Inr ()"
    using d by (auto simp: validate_descriptor_def validate_public_url_def stores_blob_def is_some_and_iff ok_or_def is_mp3_type_def)
  have fits: "bytes \<noteq> []" "length bytes \<le> bu_max_upload_bytes (pd_uploader pd)"
    using assms(2,6) by (auto simp: audio_fits_def limits_fit_def)
  have "make_durable (sha256_of sv) (pd_uploader pd) (sv_blossom sv)
      \<lparr>la_path = output, la_sha256 = sha256_of sv bytes, la_media_type = ''audio/mpeg'',
       la_byte_count = of_nat (length bytes)\<rparr> m =
      (Inr \<lparr>art_url = bd_url d, art_sha256 = sha256_of sv bytes, art_media_type = ''audio/mpeg'',
         art_byte_count = of_nat (length bytes), art_label = None\<rparr>, m\<lparr>mw_ext := x3\<rparr>)"
    using c read fits descriptor d
    by (simp add: make_durable_def and_then_def with_error_def of_result_def stores_blob_def)
  then show ?thesis
    using stored_audio_valid [OF d assms(6,2)] assms(1) [unfolded blossom_works_def] live by auto
qed

lemma daemon_make_durable_works:
  assumes "blossom_works sv pd alive known" and "limits_fit pd"
  shows "attains (\<lambda>w. daemon_sound sv pd w \<and> daemon_ready sv pd alive disk w \<and> can_resume sv pd known w i (Synthesized audio))
    (po_make_durable (production_ops sv pd) audio)
    (\<lambda>durable w. daemon_ready sv pd alive disk w \<and> art_sha256 durable = la_sha256 audio
       \<and> art_byte_count durable = la_byte_count audio \<and> art_media_type durable = la_media_type audio
       \<and> valid_artifact durable False)"
proof (rule attainsI)
  fix w :: "'a daemon_world"
  assume w: "daemon_sound sv pd w \<and> daemon_ready sv pd alive disk w \<and> can_resume sv pd known w i (Synthesized audio)"
  let ?out = "audio_path (production_ops sv pd) i"
  obtain bytes where b: "fs_files (dw_fs w) ?out = Some bytes" "audio_fits pd bytes"
    "audio = \<lparr>la_path = ?out, la_sha256 = sha256_of sv bytes, la_media_type = ''audio/mpeg'',
       la_byte_count = of_nat (length bytes)\<rparr>"
    using w by (auto simp: can_resume_def split: option.splits)
  obtain durable x' where d: "make_durable (sha256_of sv) (pd_uploader pd) (sv_blossom sv) audio (media_part pd w)
      = (Inr durable, (media_part pd w)\<lparr>mw_ext := x'\<rparr>)" "alive x'"
    "art_sha256 durable = la_sha256 audio" "art_byte_count durable = la_byte_count audio"
    "art_media_type durable = la_media_type audio" "valid_artifact durable False"
    using make_durable_works [OF assms, of "media_part pd w" ?out bytes] w b
    by (auto simp: media_part_def daemon_ready_def)
  have "po_make_durable (production_ops sv pd) audio w = (Inr durable, w\<lparr>dw_ext := x'\<rparr>)"
    using d(1) by (simp add: production_ops_def on_media_eq) (simp add: media_part_def)
  moreover have "daemon_ready sv pd alive disk (w\<lparr>dw_ext := x'\<rparr>)"
    using w d(2) by (simp add: daemon_ready_def)
  ultimately show "\<exists>durable w'. po_make_durable (production_ops sv pd) audio w = (Inr durable, w')
      \<and> daemon_ready sv pd alive disk w' \<and> art_sha256 durable = la_sha256 audio
      \<and> art_byte_count durable = la_byte_count audio \<and> art_media_type durable = la_media_type audio
      \<and> valid_artifact durable False"
    using d(3-6) by blast
qed

section \<open>The publisher works\<close>

declare membership_loop.simps [simp del]

lemma nmp_worksD:
  assumes "nmp_works sv pd alive known"
  shows "serves alive known (en_publish_tracked (sv_engine sv) intent) (\<lambda>n x. known x n)"
    and "serves (\<lambda>x. alive x \<and> known x n) known (en_reattach_receipt (sv_engine sv) n)
      (\<lambda>r _. \<exists>statuses. r = Attached statuses \<and> acknowledges (np_host (pd_publisher pd)) statuses)"
    and "serves alive known (en_observe (sv_engine sv) demand) (\<lambda>arrivals _. reconciles (pd_publisher pd) arrivals)"
    and "tag_rows extra ''h'' = [] \<Longrightarrow> \<exists>intent. en_group_send (sv_engine sv) host g author t kind content extra = Some intent"
  using assms by (simp_all add: nmp_works_def)

lemma await_host_ack_works:
  assumes "nmp_works sv pd alive known"
  shows "serves (\<lambda>x. alive x \<and> known x n) known
    (await_host_ack (sv_engine sv) n (np_host (pd_publisher pd)) operation) (\<lambda>event _. is_event_id event)"
  unfolding serves_def
proof (intro allI impI)
  fix x assume "alive x \<and> known x n"
  then obtain statuses x' where r: "en_reattach_receipt (sv_engine sv) n x = (Inr (Attached statuses), x')"
    "alive x' \<and> known x' n" "\<forall>n. known x n \<longrightarrow> known x' n" "acknowledges (np_host (pd_publisher pd)) statuses"
    using servesE [OF nmp_worksD(2) [OF assms]] by blast
  obtain event where e: "await_loop (en_debug_status (sv_engine sv)) operation n (np_host (pd_publisher pd)) 32 statuses
      None False ''no status received'' = Inr event"
    using r(4) await_loop_settles [of False None "en_debug_status (sv_engine sv)" operation n "np_host (pd_publisher pd)"
        32 statuses "''no status received''"]
    by (auto simp: acknowledges_def settled_def)
  then have "is_event_id event"
    using await_loop_event [OF e] r(4) by (auto simp: acknowledges_def)
  with e r show "\<exists>event x'. await_host_ack (sv_engine sv) n (np_host (pd_publisher pd)) operation x = (Inr event, x')
      \<and> (alive x' \<and> known x' n) \<and> (\<forall>n. known x n \<longrightarrow> known x' n) \<and> is_event_id event"
    by (simp add: await_host_ack_def and_then_def of_result_def)
qed

lemma apply_deltas_fits:
  "length current + length (filter (\<lambda>d. \<exists>e. d = Added e) deltas) \<le> limit \<Longrightarrow>
   \<exists>current'. apply_deltas limit refusal deltas current = Inr current'
     \<and> length current' \<le> length current + length (filter (\<lambda>d. \<exists>e. d = Added e) deltas)"
proof (induction limit refusal deltas current rule: apply_deltas.induct)
  case (2 limit refusal row deltas current)
  then show ?case using btree_insert_length [of "ev_id row" row current] by fastforce
next
  case (3 limit refusal event_id deltas current)
  then show ?case using btree_remove_length [of event_id current] by fastforce
qed auto

lemma membership_loop_reconciles:
  assumes "sum_list (map tf_elapsed before) < remaining"
    and "sum_list (map tf_elapsed (before @ [frame])) \<le> remaining"
    and "\<forall>a \<in> set (before @ [frame]). \<not> host_refused (np_host p) (tf_frame a)"
    and "host_reconciled (np_host p) (tf_frame frame)" and "length current + added_count (before @ [frame]) \<le> 4"
  shows "\<exists>found. membership_loop debug p member (before @ frame # later) remaining evidence current = Inr found"
  using assms
proof (induction before arbitrary: remaining current evidence)
  case Nil
  then obtain current' where "apply_deltas 4 ''NMP returned an invalid number of current membership states''
      (fr_deltas (tf_frame frame)) current = Inr current'"
    using apply_deltas_fits [of current "fr_deltas (tf_frame frame)" 4] by (auto simp: added_count_def)
  with Nil show ?case by (simp add: membership_loop.simps [of debug p member "frame # later"])
next
  case (Cons a before)
  obtain current' where c: "apply_deltas 4 ''NMP returned an invalid number of current membership states''
      (fr_deltas (tf_frame a)) current = Inr current'"
    "length current' \<le> length current + length (filter (\<lambda>d. \<exists>e. d = Added e) (fr_deltas (tf_frame a)))"
    using apply_deltas_fits [of current "fr_deltas (tf_frame a)" 4] Cons.prems(5) by (auto simp: added_count_def)
  have rest: "\<exists>found. membership_loop debug p member (before @ frame # later) (remaining - tf_elapsed a)
      (debug (fr_evidence (tf_frame a))) current' = Inr found"
    by (rule Cons.IH) (use Cons.prems c(2) in \<open>auto simp: added_count_def\<close>)
  show ?case
    using Cons.prems(1-3) c(1) rest
    by (cases "host_reconciled (np_host p) (tf_frame a)")
      (simp_all add: membership_loop.simps [of debug p member "a # before @ frame # later"])
qed

lemma current_membership_works:
  assumes "nmp_works sv pd alive known"
  shows "serves alive known (current_membership (sv_engine sv) (pd_publisher pd) member)
    (\<lambda>found _. \<forall>event_id. found = Some event_id \<longrightarrow> is_event_id event_id)"
  unfolding serves_def
proof (intro allI impI)
  let ?p = "pd_publisher pd"
  fix x assume "alive x"
  obtain demand where d: "group_membership_demand (np_host ?p) (np_group_id ?p) = Inr demand"
    using assms by (auto simp: nmp_works_def group_membership_demand_def membership_validate_group_def ok_or_def)
  obtain arrivals x' where o: "en_observe (sv_engine sv) demand x = (Inr arrivals, x')" "alive x'"
    "\<forall>n. known x n \<longrightarrow> known x' n" "reconciles ?p arrivals"
    using servesE [OF nmp_worksD(3) [OF assms] \<open>alive x\<close>] by blast
  obtain before frame later where a: "arrivals = before @ frame # later"
    "sum_list (map tf_elapsed before) < np_receipt_timeout ?p"
    "sum_list (map tf_elapsed (before @ [frame])) \<le> np_receipt_timeout ?p"
    "\<forall>a \<in> set (before @ [frame]). \<not> host_refused (np_host ?p) (tf_frame a)"
    "host_reconciled (np_host ?p) (tf_frame frame)" "added_count (before @ [frame]) \<le> 4"
    using o(4) unfolding reconciles_def by blast
  obtain found where f: "membership_loop (en_debug_evidence (sv_engine sv)) ?p member arrivals (np_receipt_timeout ?p)
      ''no frame received'' [] = Inr found"
    using membership_loop_reconciles [OF a(2-5), of "[]" "en_debug_evidence (sv_engine sv)" member later] a(1,6) by auto
  have "is_event_id event_id" if "found = Some event_id" for event_id
    using membership_loop_evidence [OF f [unfolded that]] o(4) by (auto simp: reconciles_def)
  then show "\<exists>found x'. current_membership (sv_engine sv) ?p member x = (Inr found, x') \<and> alive x'
      \<and> (\<forall>n. known x n \<longrightarrow> known x' n) \<and> (\<forall>event_id. found = Some event_id \<longrightarrow> is_event_id event_id)"
    using d o(1-3) f by (simp add: current_membership_def and_then_def of_result_def)
qed

text \<open>Operations of the publisher, seen from the daemon.\<close>

lemma on_publisher_eq:
  "on_publisher m w = (case m \<lparr>ps_engine = dw_ext w, ps_members = dw_members w\<rparr> of (r, s) \<Rightarrow>
     (r, w\<lparr>dw_ext := ps_engine s, dw_members := ps_members s\<rparr>))"
  by (simp add: on_publisher_def on_part_def)

lemma on_engine_eq: "on_engine m st = (case m (ps_engine st) of (r, n) \<Rightarrow> (r, st\<lparr>ps_engine := n\<rparr>))"
  by (simp add: on_engine_def on_part_def)

lemma daemon_ready_publisher:
  assumes "daemon_ready sv pd alive disk w" and "alive x"
    and "\<And>a e. btree_get members a = Some e \<Longrightarrow> is_event_id e"
  shows "daemon_ready sv pd alive disk (w\<lparr>dw_ext := x, dw_members := members\<rparr>)"
  using assms by (simp add: daemon_ready_def)

lemma daemon_ready_ext: "daemon_ready sv pd alive disk w \<Longrightarrow> alive x \<Longrightarrow> daemon_ready sv pd alive disk (w\<lparr>dw_ext := x\<rparr>)"
  by (simp add: daemon_ready_def)

lemma daemon_authorize_works:
  assumes nmp: "nmp_works sv pd alive known" and key: "tp_parse_key (sv_third_party sv) a \<noteq> None"
  shows "attains (\<lambda>w. daemon_sound sv pd w \<and> daemon_ready sv pd alive disk w) (po_authorize (production_ops sv pd) i a t)
    (\<lambda>step w. daemon_ready sv pd alive disk w \<and> (case step of Authorized event_id \<Rightarrow> is_event_id event_id
       | Accepted n \<Rightarrow> \<forall>item. can_resume sv pd known w i (AuthorizationAccepted item n)))"
proof (rule attainsI)
  fix w :: "'a daemon_world"
  let ?e = "sv_engine sv" let ?p = "pd_publisher pd"
  let ?post = "\<lambda>step w. daemon_ready sv pd alive disk w \<and> (case step of Authorized event_id \<Rightarrow> is_event_id event_id
       | Accepted n \<Rightarrow> \<forall>item. can_resume sv pd known w i (AuthorizationAccepted item n))"
  assume "daemon_sound sv pd w \<and> daemon_ready sv pd alive disk w"
  then have w: "daemon_ready sv pd alive disk w" "alive (dw_ext w)"
    "\<And>a e. btree_get (dw_members w) a = Some e \<Longrightarrow> is_event_id e" by (auto simp: daemon_ready_def)
  have op: "po_authorize (production_ops sv pd) i a t w = on_publisher (authorize ?e ?p i a t) w"
    by (simp add: production_ops_def)
  show "\<exists>step w'. po_authorize (production_ops sv pd) i a t w = (Inr step, w') \<and> ?post step w'"
  proof (cases "btree_get (dw_members w) a")
    case (Some event_id)
    then show ?thesis using w(1) w(3) [OF Some] by (simp add: op on_publisher_eq authorize_def)
  next
    case None
    obtain member where member: "en_parse_key ?e a = Some member" using nmp key by (auto simp: nmp_works_def)
    obtain found x1 where f: "current_membership ?e ?p member (dw_ext w) = (Inr found, x1)" "alive x1"
      "\<forall>event_id. found = Some event_id \<longrightarrow> is_event_id event_id"
      by (rule servesE [OF current_membership_works [OF nmp, of member] w(2)])
    show ?thesis
    proof (cases found)
      case (Some event_id)
      have "po_authorize (production_ops sv pd) i a t w = (Inr (Authorized event_id),
          w\<lparr>dw_ext := x1, dw_members := btree_insert a event_id (dw_members w)\<rparr>)"
        using None member f(1) by (simp add: op on_publisher_eq authorize_def and_then_def of_result_def ok_or_def
            on_engine_eq Some remember_member_def)
      moreover have "daemon_ready sv pd alive disk (w\<lparr>dw_ext := x1, dw_members := btree_insert a event_id (dw_members w)\<rparr>)"
        by (rule daemon_ready_publisher [OF w(1) f(2)])
          (use w(3) f(3) Some in \<open>auto simp: btree_get_insert split: if_splits\<close>)
      ultimately show ?thesis using f(3) Some by simp
    next
      case no: None
      obtain correlation where c: "en_correlation ?e (en_sha256_hex ?e
          (''tts29-membership-v1'' @ [CHR 0x00] @ i @ [CHR 0x00] @ a)) = Inr correlation"
        using nmp unfolding nmp_works_def by blast
      obtain admin where admin: "en_parse_key ?e (np_admin_author ?p) = Some admin" "bounded (np_group_id ?p) 128 \<noteq> None"
        using nmp by (auto simp: nmp_works_def)
      obtain sent where "en_group_send ?e (np_host ?p) (np_group_id ?p) admin t PUT_USER_KIND [] [[''p'', member]] = Some sent"
        using nmp_worksD(4) [OF nmp, of "[[''p'', member]]" "np_host ?p" "np_group_id ?p" admin t PUT_USER_KIND "[]"] by auto
      then obtain intent where intent: "compose_membership_upsert (en_parse_key ?e) (en_group_send ?e) (np_host ?p)
          (np_group_id ?p) (np_admin_author ?p) a t correlation = Inr intent"
        using member admin by (auto simp: compose_membership_upsert_def membership_validate_group_def ok_or_def)
      obtain n x2 where n: "en_publish_tracked ?e intent x1 = (Inr n, x2)" "alive x2" "known x2 n"
        using servesE [OF nmp_worksD(1) [OF nmp] f(2)] by blast
      have "po_authorize (production_ops sv pd) i a t w = (Inr (Accepted n), w\<lparr>dw_ext := x2\<rparr>)"
        using None member f(1) c intent n(1) no
        by (simp add: op on_publisher_eq authorize_def and_then_def of_result_def ok_or_def on_engine_eq)
      then show ?thesis
        using daemon_ready_ext [OF w(1) n(2)] n(3) by (simp add: can_resume_def)
    qed
  qed
qed

lemma daemon_resume_authorization_works:
  assumes nmp: "nmp_works sv pd alive known"
  shows "attains (\<lambda>w. daemon_sound sv pd w \<and> daemon_ready sv pd alive disk w
      \<and> can_resume sv pd known w i (AuthorizationAccepted item n))
    (po_resume_authorization (production_ops sv pd) n a) (\<lambda>event_id w. daemon_ready sv pd alive disk w \<and> is_event_id event_id)"
proof (rule attainsI)
  fix w :: "'a daemon_world"
  assume "daemon_sound sv pd w \<and> daemon_ready sv pd alive disk w \<and> can_resume sv pd known w i (AuthorizationAccepted item n)"
  then have w: "daemon_ready sv pd alive disk w" "alive (dw_ext w) \<and> known (dw_ext w) n"
    "\<And>a e. btree_get (dw_members w) a = Some e \<Longrightarrow> is_event_id e" by (auto simp: daemon_ready_def can_resume_def)
  obtain event x where e: "await_host_ack (sv_engine sv) n (np_host (pd_publisher pd)) ''NMP write'' (dw_ext w)
      = (Inr event, x)" "alive x" "is_event_id event"
    using servesE [OF await_host_ack_works [OF nmp] w(2)] by blast
  have "po_resume_authorization (production_ops sv pd) n a w
      = (Inr event, w\<lparr>dw_ext := x, dw_members := btree_insert a event (dw_members w)\<rparr>)"
    using e(1) by (simp add: production_ops_def on_publisher_eq resume_authorization_def on_engine_eq remember_member_def)
  moreover have "daemon_ready sv pd alive disk (w\<lparr>dw_ext := x, dw_members := btree_insert a event (dw_members w)\<rparr>)"
    by (rule daemon_ready_publisher [OF w(1) e(2)])
      (use w(3) e(3) in \<open>auto simp: btree_get_insert split: if_splits\<close>)
  ultimately show "\<exists>event w'. po_resume_authorization (production_ops sv pd) n a w = (Inr event, w')
      \<and> daemon_ready sv pd alive disk w' \<and> is_event_id event"
    using e(3) by blast
qed

lemma daemon_accept_works:
  assumes nmp: "nmp_works sv pd alive known" and "limits_fit pd"
    and "validate_spoken_item (tp_parse_key (sv_third_party sv)) item = Inr ()" and "fz_group_id item = pd_group_id pd"
  shows "attains (\<lambda>w. daemon_sound sv pd w \<and> daemon_ready sv pd alive disk w) (po_accept (production_ops sv pd) item)
    (\<lambda>n w. daemon_ready sv pd alive disk w \<and> (\<forall>m. can_resume sv pd known w i (PublicationAccepted item m n)))"
proof (rule attainsI)
  fix w :: "'a daemon_world"
  let ?e = "sv_engine sv" let ?p = "pd_publisher pd"
  assume "daemon_sound sv pd w \<and> daemon_ready sv pd alive disk w"
  then have w: "daemon_ready sv pd alive disk w" "alive (dw_ext w)"
    "\<And>a e. btree_get (dw_members w) a = Some e \<Longrightarrow> is_event_id e" by (auto simp: daemon_ready_def)
  obtain author where "en_parse_key ?e (fz_author item) = Some author"
    using assms(1,3) by (auto simp: nmp_works_def validate_spoken_item_iff)
  then obtain intent where intent: "compose_spoken_item (en_parse_key ?e) (en_group_send ?e) (np_host ?p) item = Inr intent"
    using assms(3) nmp_worksD(4) [OF nmp tags_no_group_row [of item], of "np_host ?p" "fz_group_id item" author
        "fz_created_at item" 9 "fz_body item"] nmp
    by (auto simp: nmp_works_def compose_spoken_item_def ok_or_def)
  obtain n x where n: "en_publish_tracked ?e intent (dw_ext w) = (Inr n, x)" "alive x" "known x n"
    using servesE [OF nmp_worksD(1) [OF nmp] w(2)] by blast
  have "po_accept (production_ops sv pd) item w = (Inr n, w\<lparr>dw_ext := x\<rparr>)"
    using intent n(1) assms(2,4) by (simp add: production_ops_def on_publisher_eq accept_item_def and_then_def
        of_result_def on_engine_eq limits_fit_def)
  then show "\<exists>n w'. po_accept (production_ops sv pd) item w = (Inr n, w') \<and> daemon_ready sv pd alive disk w'
      \<and> (\<forall>m. can_resume sv pd known w' i (PublicationAccepted item m n))"
    using daemon_ready_ext [OF w(1) n(2)] n(3) by (simp add: can_resume_def)
qed

lemma daemon_resume_works:
  assumes nmp: "nmp_works sv pd alive known"
  shows "attains (\<lambda>w. daemon_sound sv pd w \<and> daemon_ready sv pd alive disk w
      \<and> can_resume sv pd known w i (PublicationAccepted item m n))
    (po_resume (production_ops sv pd) n item) (\<lambda>event_id w. daemon_ready sv pd alive disk w \<and> is_event_id event_id)"
proof (rule attainsI)
  fix w :: "'a daemon_world"
  assume "daemon_sound sv pd w \<and> daemon_ready sv pd alive disk w \<and> can_resume sv pd known w i (PublicationAccepted item m n)"
  then have w: "daemon_ready sv pd alive disk w" "alive (dw_ext w) \<and> known (dw_ext w) n"
    "\<And>a e. btree_get (dw_members w) a = Some e \<Longrightarrow> is_event_id e" by (auto simp: daemon_ready_def can_resume_def)
  obtain event x where e: "await_host_ack (sv_engine sv) n (np_host (pd_publisher pd)) ''NMP write'' (dw_ext w)
      = (Inr event, x)" "alive x" "is_event_id event"
    using servesE [OF await_host_ack_works [OF nmp] w(2)] by blast
  then have "po_resume (production_ops sv pd) n item w = (Inr event, w\<lparr>dw_ext := x\<rparr>)"
    by (simp add: production_ops_def on_publisher_eq resume_item_def on_engine_eq)
  then show "\<exists>event w'. po_resume (production_ops sv pd) n item w = (Inr event, w')
      \<and> daemon_ready sv pd alive disk w' \<and> is_event_id event"
    using daemon_ready_ext [OF w(1) e(2)] e(3) by simp
qed

section \<open>The production composition works\<close>

lemma production_works:
  assumes "services_work sv pd alive known" and disk: "disk_kept sv pd disk"
  shows "working_environment (production_ops sv pd) (daemon_jobs sv pd) (daemon_sound sv pd) (sv_third_party sv)
    (pd_group_id pd) (daemon_ready sv pd alive disk) (can_resume sv pd known)"
proof -
  note works = assms(1) [unfolded services_work_def]
  have sha: "is_sha256 (sha256_of sv bytes)" for bytes using works by (simp add: blossom_works_def)
  show ?thesis
  proof (intro working_environment.intro working_environment_axioms.intro)
    show "producer_environment (production_ops sv pd) (daemon_jobs sv pd) (daemon_sound sv pd)"
      using production_environment works by blast
  qed (use works sha disk in \<open>simp_all add: daemon_load_works daemon_insert_works daemon_save_works daemon_create_dir_works
      daemon_synthesize_works daemon_read_works daemon_make_durable_works daemon_authorize_works
      daemon_resume_authorization_works daemon_accept_works daemon_resume_works\<close>,
      simp_all add: can_resume_def)
qed

end
