(* ===== verification/Production_Progress.thy ===== *)
theory Production_Progress
  imports Working_Services
begin

text \<open>
  The daemon publishes when its surroundings work: \<open>publish\<close> succeeds for every well-formed request, from
  nothing or from what an interrupted earlier attempt left in the journal.
\<close>

section \<open>Publishing a request\<close>

text \<open>The account service takes the agent's secret and gives the registration back.\<close>

definition accounts_work ::
  "'x services \<Rightarrow> ('x \<Rightarrow> bool) \<Rightarrow> ('x \<Rightarrow> u64 \<Rightarrow> bool) \<Rightarrow> string option \<Rightarrow> bool" where
  "accounts_work sv alive known agent_secret \<longleftrightarrow>
     (case agent_secret of
        None \<Rightarrow> True
      | Some secret \<Rightarrow>
          serves alive known (sv_add_account sv secret) (\<lambda>registration _.
            serves alive known (sv_remove_account sv registration) (\<lambda>removed _. removed)))"

definition speaker :: "'x services \<Rightarrow> string option \<Rightarrow> 'x daemon_world \<Rightarrow> string" where
  "speaker sv agent_secret w =
     (case fst (identity_request sv agent_secret w) of Inr identity \<Rightarrow> ri_author identity | Inl _ \<Rightarrow> [])"

lemma identity_request_works:
  assumes "accounts_work sv alive known agent_secret" and "daemon_ready sv pd alive disk w"
  obtains identity x d where
    "identity_request sv agent_secret w = (Inr identity, w\<lparr>dw_ext := x, dw_daemon := d\<rparr>)"
    "ri_author identity = speaker sv agent_secret w" "alive x" "\<forall>n. known (dw_ext w) n \<longrightarrow> known x n"
    "\<And>registration. ri_registration identity = Some registration \<Longrightarrow>
       serves alive known (sv_remove_account sv registration) (\<lambda>removed _. removed)"
proof (cases agent_secret)
  case None
  then have i: "identity_request sv agent_secret w = (Inr \<lparr>ri_author = ac_public_key (dw_daemon w), ri_registration = None\<rparr>,
      w\<lparr>dw_ext := dw_ext w, dw_daemon := dw_daemon w\<rparr>)"
    by (simp add: identity_request_def)
  show thesis by (rule that [OF i]) (use i assms(2) in \<open>simp_all add: speaker_def daemon_ready_def\<close>)
next
  case (Some secret)
  then obtain registration x where r: "sv_add_account sv secret (dw_ext w) = (Inr registration, x)" "alive x"
    "\<forall>n. known (dw_ext w) n \<longrightarrow> known x n"
    "serves alive known (sv_remove_account sv registration) (\<lambda>removed _. removed)"
    using assms by (auto simp: accounts_work_def daemon_ready_def elim: servesE)
  show thesis
  proof (cases "ac_public_key registration = ac_public_key (dw_daemon w)")
    case True
    with r(1) Some have i: "identity_request sv agent_secret w =
        (Inr \<lparr>ri_author = ac_public_key registration, ri_registration = None\<rparr>, w\<lparr>dw_ext := x, dw_daemon := registration\<rparr>)"
      by (simp add: identity_request_def and_then_def with_error_def on_outside_def on_part_def)
    then show thesis using that [OF i] r(2,3) by (simp add: speaker_def)
  next
    case False
    with r(1) Some have i: "identity_request sv agent_secret w =
        (Inr \<lparr>ri_author = ac_public_key registration, ri_registration = Some registration\<rparr>,
         w\<lparr>dw_ext := x, dw_daemon := dw_daemon w\<rparr>)"
      by (simp add: identity_request_def and_then_def with_error_def on_outside_def on_part_def)
    then show thesis using that [OF i] r(2-4) by (simp add: speaker_def)
  qed
qed

lemma identity_close_works:
  assumes "alive (dw_ext w)" and "\<And>registration. ri_registration identity = Some registration \<Longrightarrow>
       serves alive known (sv_remove_account sv registration) (\<lambda>removed _. removed)"
  shows "\<exists>x. identity_close sv identity w = (Inr (), w\<lparr>dw_ext := x\<rparr>)"
proof (cases "ri_registration identity")
  case None
  then have "identity_close sv identity w = (Inr (), w\<lparr>dw_ext := dw_ext w\<rparr>)" by (simp add: identity_close_eq of_result_def)
  then show ?thesis by blast
next
  case (Some registration)
  then obtain x where "sv_remove_account sv registration (dw_ext w) = (Inr True, x)"
    using servesE [OF assms(2) [OF Some] assms(1)] by auto
  then have "identity_close sv identity w = (Inr (), w\<lparr>dw_ext := x\<rparr>)"
    using Some by (simp add: identity_close_eq and_then_def with_error_def on_outside_def on_part_def of_result_def)
  then show ?thesis by blast
qed

lemma kept_disk: "disk_kept sv pd (\<lambda>contents. True)"
  by (simp add: disk_kept_def)

text \<open>Publication under a given author, on any disk condition that publication keeps.\<close>

lemma publish_as_succeeds:
  assumes J_def: "J = daemon_jobs sv pd w"
    and works: "services_work sv pd alive known" and disk: "disk_kept sv pd disk"
    and ready: "daemon_sound sv pd w" "daemon_ready sv pd alive disk w"
    and request: "valid_request_id (pr_request_id request)" "request_digest (sv_third_party sv) request = Inr digest"
    and job: "job = start_job J request digest author created_at"
      "jr_request_digest job = digest" "jr_author job = author"
      "publishable (sv_third_party sv) (pd_group_id pd) job"
      "can_resume sv pd known w (pr_request_id request) (jr_phase job)"
  shows "\<exists>published w'. publish_as (sv_third_party sv) (production_ops sv pd) request author created_at w = (Inr published, w')
    \<and> is_published (jr_phase published) \<and> publishable (sv_third_party sv) (pd_group_id pd) published
    \<and> daemon_ready sv pd alive disk w' \<and> daemon_sound sv pd w'
    \<and> daemon_jobs sv pd w' = J(pr_request_id request \<mapsto> published)"
proof -
  let ?i = "pr_request_id request"
  note env = production_works [OF works disk]
  note base = working_environment.axioms(1) [OF env]
  have up: "working_environment.up (daemon_jobs sv pd) (daemon_sound sv pd) (daemon_ready sv pd alive disk) J
      (\<lambda>w. can_resume sv pd known w ?i (jr_phase (start_job J request digest author created_at))) w"
    unfolding working_environment.up_def [OF env] producer_environment.holds_def [OF base] job(1) [symmetric]
    using ready job(5) by (simp add: J_def)
  have old: "jr_request_digest old = digest \<and> jr_author old = author \<and> job_id old = ?i" if "J ?i = Some old" for old
    using that job(1-3) job_journal.jobs_keyed [OF producer_environment.axioms(1) [OF base] ready(1) that [unfolded J_def]]
    by (simp add: start_job_def)
  show ?thesis
    using working_environment.publish_as_attains [OF env request(1,2) old job(4) [unfolded job(1)]] up
    unfolding attains_def producer_environment.holds_def [OF base] by blast
qed

section \<open>Services and a daemon for the witness\<close>

text \<open>Services that answer every call, with a world that has no state of its own.\<close>

definition served_frame :: timed_frame where
  "served_frame =
     \<lparr>tf_elapsed = 1, tf_frame = \<lparr>fr_deltas = [], fr_window = None,
        fr_evidence = \<lparr>aq_sources = [\<lparr>se_relay = ''wss://relay'', se_status = Requesting,
          se_reconciled_through = Some 5\<rparr>], aq_shortfall = []\<rparr>\<rparr>\<rparr>"

definition working_services :: "unit services" where
  "working_services =
     \<lparr>sv_third_party = sv_third_party refusing_services, sv_codec = sample_codec,
      sv_engine = \<lparr>en_parse_key = hex_key_parse, en_group_send = plain_group_send,
        en_sha256_hex = (\<lambda>bytes. replicate 64 (CHR ''d'')), en_correlation = Inr,
        en_publish_tracked = (\<lambda>intent. ok 5),
        en_reattach_receipt = (\<lambda>receipt. ok (Attached [Signed (replicate 64 (CHR ''e'')), Acked ''wss://relay''])),
        en_observe = (\<lambda>demand. ok [served_frame]), en_debug_status = (\<lambda>status. []),
        en_debug_evidence = (\<lambda>evidence. [])\<rparr>,
      sv_narration = (\<lambda>url auth body voice. ok \<lparr>hr_success = True, hr_status = ''200 OK'', hr_content_length = Some 4,
        hr_content_type = Some ''audio/mpeg'', hr_body = Inr ''ID3x''\<rparr>),
      sv_blossom = \<lparr>bc_unix_millis = (\<lambda>x. (100000, x)),
        bc_parse_url = (\<lambda>url. Some \<lparr>url_text = url, url_scheme = ''https'', url_host = Some ''cdn'',
          url_username = [], url_password = None, url_query = None, url_fragment = None\<rparr>),
        bc_authorize = (\<lambda>digest created_at expires. ok ''Nostr x''),
        bc_upload = (\<lambda>bytes media_type header. ok \<lparr>bd_url = ''https://cdn/a.mp3'',
          bd_sha256 = replicate 64 (CHR ''d''), bd_mime_type = Some ''audio/mpeg'', bd_size = of_nat (length bytes)\<rparr>)\<rparr>,
      sv_add_account = (\<lambda>secret. ok \<lparr>ac_public_key = replicate 64 (CHR ''2''), ac_handle = 1\<rparr>),
      sv_remove_account = (\<lambda>registration. ok True)\<rparr>"

lemma working_services_simps:
  "sv_third_party working_services = sv_third_party refusing_services" "sv_codec working_services = sample_codec"
  "tp_parse_key (sv_third_party refusing_services) = hex_key_parse"
  "sha256_of refusing_services bytes = replicate 64 (CHR ''d'')"
  by (simp_all add: working_services_def refusing_services_def)

lemma working_narration: "narration_works working_services sample_producer (\<lambda>x. True) (\<lambda>x n. True)"
  by (simp add: narration_works_def serves_def working_services_def mp3_response_def sample_producer_def is_mp3_type_def
      of_result_def)

lemma working_blossom: "blossom_works working_services sample_producer (\<lambda>x. True) (\<lambda>x n. True)"
proof -
  have "is_sha256 (replicate 64 (CHR ''d''))" by code_simp
  moreover have "bounded ''https://cdn/a.mp3'' 2048 = Some ''https://cdn/a.mp3''" by (simp add: evaluate_text)
  ultimately show ?thesis
    unfolding blossom_works_def working_services_simps
    by (simp add: serves_def working_services_def stores_blob_def sample_producer_def is_mp3_type_def refusing_services_def
        of_result_def current_seconds_def unat_div starts_with_iff)
qed

lemma working_nmp: "nmp_works working_services sample_producer (\<lambda>x. True) (\<lambda>x n. True)"
proof -
  have "is_event_id (replicate 64 (CHR ''e''))" by code_simp
  moreover have "acknowledges ''wss://relay'' [Signed event, Acked ''wss://relay'']" if "is_event_id event" for event
    unfolding acknowledges_def using that by (auto intro!: exI [of _ 2] simp: negative_status_def)
  moreover have "reconciles (pd_publisher sample_producer) [served_frame]"
    unfolding reconciles_def
  proof (intro conjI exI)
    show "[served_frame] = [] @ served_frame # []" by simp
  qed (simp_all add: sample_producer_def served_frame_def host_refused_def host_reconciled_def host_source_def
      added_count_def delivered_def)
  moreover have "hex_key_parse (replicate 64 (CHR ''1'')) \<noteq> None" by code_simp
  moreover have "bounded ''tts'' 128 = Some ''tts''" by (simp add: evaluate_text)
  ultimately show ?thesis
    unfolding nmp_works_def working_services_simps
    by (simp add: serves_def working_services_def of_result_def plain_group_send_def)
      (simp add: sample_producer_def)
qed

lemma working_services_work: "services_work working_services sample_producer (\<lambda>x. True) (\<lambda>x n. True)"
  using working_narration working_blossom working_nmp sample_codec_round_trip
  by (simp add: services_work_def working_services_simps limits_fit_def) (simp add: sample_producer_def MAX_ARTIFACT_BYTES_def)

interpretation working_daemon: working_environment
  "production_ops working_services sample_producer" "daemon_jobs working_services sample_producer"
  "daemon_sound working_services sample_producer" "sv_third_party working_services" "pd_group_id sample_producer"
  "daemon_ready working_services sample_producer (\<lambda>x. True) (\<lambda>contents. True)" "can_resume working_services sample_producer (\<lambda>x n. True)"
  by (rule production_works [OF working_services_work kept_disk])

text \<open>A disk with nothing on it, and one on which a job was interrupted after its synthesis.\<close>

definition synthesized_job :: job_record where
  "synthesized_job = sample_job\<lparr>jr_phase := Synthesized \<lparr>la_path = ''/var/work/req-1/speech.mp3'',
     la_sha256 = replicate 64 (CHR ''d''), la_media_type = ''audio/mpeg'', la_byte_count = 4\<rparr>\<rparr>"

definition blank_world :: "unit daemon_world" where
  "blank_world = sample_world\<lparr>dw_fs := \<lparr>fs_files = Map.empty, fs_faults = []\<rparr>\<rparr>"

definition interrupted_world :: "unit daemon_world" where
  "interrupted_world = sample_world\<lparr>dw_fs := \<lparr>fs_files = [''/var/jobs/req-1.json'' \<mapsto> record_bytes synthesized_job,
     ''/var/work/req-1/speech.mp3'' \<mapsto> ''ID3y''], fs_faults = []\<rparr>\<rparr>"

text \<open>
  C5: the daemon makes progress. When the disk has no faults, no staged file of this process is left and
  the services answer as documented, \<open>publish\<close> of a well-formed request succeeds: it returns a published
  job, which is the one in the journal. The same holds when an earlier attempt was interrupted in any
  phase, as long as the journalled job belongs to the same request and author and the audio file or the
  receipt its phase refers to is still there.
\<close>

theorem publish_succeeds:
  assumes works: "services_work sv pd alive known" and accounts: "accounts_work sv alive known agent_secret"
    and ready: "daemon_sound sv pd w" "daemon_ready sv pd alive (\<lambda>contents. True) w"
    and request: "valid_request_id (pr_request_id request)" "request_digest (sv_third_party sv) request = Inr digest"
      "pr_group_id request = pd_group_id pd"
    and job: "job = start_job (daemon_jobs sv pd w) request digest (speaker sv agent_secret w) created_at"
      "jr_request_digest job = digest" "jr_author job = speaker sv agent_secret w"
      "publishable (sv_third_party sv) (pd_group_id pd) job"
      "can_resume sv pd known w (pr_request_id request) (jr_phase job)"
  shows "\<exists>published w'. publish sv pd request created_at agent_secret w = (Inr published, w')
    \<and> is_published (jr_phase published) \<and> daemon_jobs sv pd w' (pr_request_id request) = Some published"
proof -
  let ?i = "pr_request_id request" let ?J = "daemon_jobs sv pd w" let ?author = "speaker sv agent_secret w"
  obtain identity x d where id: "identity_request sv agent_secret w = (Inr identity, w\<lparr>dw_ext := x, dw_daemon := d\<rparr>)"
    "ri_author identity = ?author" "alive x" "\<forall>n. known (dw_ext w) n \<longrightarrow> known x n"
    "\<And>registration. ri_registration identity = Some registration \<Longrightarrow>
       serves alive known (sv_remove_account sv registration) (\<lambda>removed _. removed)"
    using identity_request_works [OF accounts ready(2)] by metis
  let ?w = "w\<lparr>dw_ext := x, dw_daemon := d\<rparr>"
  have same: "daemon_sound sv pd ?w" "daemon_jobs sv pd ?w = ?J" "daemon_ready sv pd alive (\<lambda>contents. True) ?w"
    using ready id(3) by (simp_all add: daemon_sound_def daemon_jobs_def journal_part_def daemon_ready_def)
  have resume: "can_resume sv pd known ?w ?i (jr_phase job)"
    by (rule can_resume_keeps [OF job(5)]) (use id(4) in simp_all)
  obtain published w2 where p: "publish_as (sv_third_party sv) (production_ops sv pd) request ?author created_at ?w
      = (Inr published, w2)" "is_published (jr_phase published)" "daemon_ready sv pd alive (\<lambda>contents. True) w2"
    "daemon_jobs sv pd w2 ?i = Some published"
    using publish_as_succeeds [OF same(2) [symmetric] works kept_disk same(1,3) request(1,2) job(1-4) resume] by auto
  obtain y where close: "identity_close sv identity w2 = (Inr (), w2\<lparr>dw_ext := y\<rparr>)"
    using identity_close_works [of alive w2 identity known sv] p(3) id(5) by (auto simp: daemon_ready_def)
  have "publish sv pd request created_at agent_secret w = (Inr published, w2\<lparr>dw_ext := y\<rparr>)"
    using request(3) id(1,2) p(1) close
    by (simp add: publish_def and_then_def with_error_def close_after_def)
  moreover have "daemon_jobs sv pd (w2\<lparr>dw_ext := y\<rparr>) = daemon_jobs sv pd w2"
    by (simp add: daemon_jobs_def journal_part_def)
  ultimately show ?thesis using p(2,4) by auto
qed


lemma sample_publishable:
  assumes "jr_request job = sample_request" "jr_author job = replicate 64 (CHR ''1'')" "job_ok (sv_third_party working_services) job"
  shows "publishable (sv_third_party working_services) (pd_group_id sample_producer) job"
proof -
  have key: "hex_key_parse (replicate 64 (CHR ''1'')) \<noteq> None" by code_simp
  have body: "bounded ''Done'' 40000 = Some ''Done''" by (simp add: evaluate_text)
  then have "trim ''Done'' \<noteq> []" by (auto simp: bounded_def Let_def split: if_splits)
  with key body show ?thesis
    unfolding publishable_def working_services_simps
    using assms(3) by (simp add: assms(1,2) sample_request_def sample_producer_def validate_spoken_item_iff
        frozen_item_def evaluate_text working_services_simps)
qed

lemma sample_audio_path: "audio_path (production_ops working_services sample_producer) ''req-1'' = ''/var/work/req-1/speech.mp3''"
  by (simp add: audio_path_def production_ops_def sample_producer_def path_join_def starts_with_iff)

lemma witness_worlds:
  "speaker working_services None blank_world = replicate 64 (CHR ''1'')"
  "speaker working_services None interrupted_world = replicate 64 (CHR ''1'')"
  "daemon_sound working_services sample_producer blank_world"
  "daemon_sound working_services sample_producer interrupted_world"
  "daemon_jobs working_services sample_producer blank_world ''req-1'' = None"
  "daemon_jobs working_services sample_producer interrupted_world ''req-1'' = Some synthesized_job"
proof -
  show "speaker working_services None blank_world = replicate 64 (CHR ''1'')"
    "speaker working_services None interrupted_world = replicate 64 (CHR ''1'')"
    by (simp_all add: speaker_def identity_request_def blank_world_def interrupted_world_def sample_world_def)
  show "daemon_sound working_services sample_producer blank_world"
    "daemon_jobs working_services sample_producer blank_world ''req-1'' = None"
    by (simp_all add: daemon_sound_def store_sound_def daemon_jobs_def stored_jobs_def journal_part_def blank_world_def)
  have "record_file sample_journal ''req-1'' = ''/var/jobs/req-1.json''" "valid_request_id ''req-1''" by code_simp+
  then show "daemon_jobs working_services sample_producer interrupted_world ''req-1'' = Some synthesized_job"
    by (simp add: daemon_jobs_def stored_jobs_def journal_part_def interrupted_world_def sample_producer_def
        working_services_simps decode_record_bytes)
  have one: "''/var/jobs/'' @ i @ ''.json'' = ''/var/jobs/req-1.json'' \<longleftrightarrow> i = ''req-1''" for i
    using append_json_iff [of i "''req-1''"] by simp
  have two: "record_file sample_journal i \<noteq> ''/var/work/req-1/speech.mp3''" if "valid_request_id i" for i
    using record_file_last [OF that, of sample_journal] by auto
  show "daemon_sound working_services sample_producer interrupted_world"
    unfolding daemon_sound_def store_sound_def
  proof (intro allI impI)
    fix i bytes assume i: "valid_request_id i" and
      f: "fs_files (js_fs (journal_part interrupted_world)) (record_file (pd_journal sample_producer) i) = Some bytes"
    have "i = ''req-1'' \<and> bytes = record_bytes synthesized_job"
      using f two [OF i] one [of i] sample_records [OF i]
      by (simp add: journal_part_def interrupted_world_def sample_producer_def split: if_splits)
    then show "\<exists>job. jc_decode (sv_codec working_services) bytes = Some job \<and> job_id job = i"
      by (simp add: working_services_simps decode_record_bytes synthesized_job_def sample_job_def sample_request_def)
  qed
qed

lemma witness_ready:
  "daemon_ready working_services sample_producer (\<lambda>x. True) (\<lambda>contents. True) blank_world"
  "daemon_ready working_services sample_producer (\<lambda>x. True) (\<lambda>contents. True) interrupted_world"
proof -
  show "daemon_ready working_services sample_producer (\<lambda>x. True) (\<lambda>contents. True) blank_world"
    by (simp add: daemon_ready_def blank_world_def sample_world_def btree_get_def)
  have "path \<noteq> ''/var/jobs/req-1.json''" "path \<noteq> ''/var/work/req-1/speech.mp3''"
    if "path \<in> staged_files working_services sample_producer" for path
    using staged_file_last [OF that] by auto
  then show "daemon_ready working_services sample_producer (\<lambda>x. True) (\<lambda>contents. True) interrupted_world"
    by (auto simp: daemon_ready_def interrupted_world_def sample_world_def btree_get_def)
qed

lemma witness_jobs:
  "publishable (sv_third_party working_services) (pd_group_id sample_producer)
     (admitted_job sample_request (replicate 64 (CHR ''d'')) (replicate 64 (CHR ''1'')) 100)"
  "publishable (sv_third_party working_services) (pd_group_id sample_producer) synthesized_job"
proof -
  have v: "valid_request_id ''req-1''" "is_sha256 (replicate 64 (CHR ''d''))" by code_simp+
  then show "publishable (sv_third_party working_services) (pd_group_id sample_producer)
      (admitted_job sample_request (replicate 64 (CHR ''d'')) (replicate 64 (CHR ''1'')) 100)"
    by (intro sample_publishable job_ok_admitted)
      (simp_all add: admitted_job_def sample_request_def request_digest_def working_services_simps refusing_services_def)
  show "publishable (sv_third_party working_services) (pd_group_id sample_producer) synthesized_job"
    by (rule sample_publishable)
      (use v in \<open>simp_all add: synthesized_job_def sample_job_def job_ok_def phase_ok_def sample_request_def
        request_digest_def working_services_simps refusing_services_def starts_with_iff\<close>)
qed

theorem publish_succeeds_witness:
  "(\<exists>published w'. publish working_services sample_producer sample_request 100 None blank_world = (Inr published, w')
      \<and> is_published (jr_phase published)
      \<and> daemon_jobs working_services sample_producer w' ''req-1'' = Some published)
   \<and> (\<exists>published w'. publish working_services sample_producer sample_request 100 None interrupted_world = (Inr published, w')
      \<and> is_published (jr_phase published)
      \<and> daemon_jobs working_services sample_producer w' ''req-1'' = Some published)"
proof -
  let ?d = "replicate 64 (CHR ''d'')"
  have request: "pr_request_id sample_request = ''req-1''" "valid_request_id (pr_request_id sample_request)"
    "request_digest (sv_third_party working_services) sample_request = Inr ?d"
    "pr_group_id sample_request = pd_group_id sample_producer"
    by (simp add: sample_request_def, code_simp, simp add: request_digest_def working_services_simps refusing_services_def,
        simp add: sample_request_def sample_producer_def)
  note general = publish_succeeds [OF working_services_work _ _ _ request(2-4), where agent_secret = None and created_at = 100]
  have "\<exists>published w'. publish working_services sample_producer sample_request 100 None blank_world = (Inr published, w')
      \<and> is_published (jr_phase published) \<and> daemon_jobs working_services sample_producer w' (pr_request_id sample_request) = Some published"
  proof (rule general [OF _ witness_worlds(3) witness_ready(1) refl])
    let ?job = "admitted_job sample_request ?d (replicate 64 (CHR ''1'')) 100"
    have job: "start_job (daemon_jobs working_services sample_producer blank_world) sample_request ?d
        (speaker working_services None blank_world) 100 = ?job"
      by (simp add: start_job_def witness_worlds request(1))
    show "publishable (sv_third_party working_services) (pd_group_id sample_producer)
        (start_job (daemon_jobs working_services sample_producer blank_world) sample_request ?d
          (speaker working_services None blank_world) 100)"
      unfolding job by (rule witness_jobs(1))
    show "can_resume working_services sample_producer (\<lambda>x n. True) blank_world (pr_request_id sample_request)
        (jr_phase (start_job (daemon_jobs working_services sample_producer blank_world) sample_request ?d
          (speaker working_services None blank_world) 100))"
      unfolding job by (simp add: can_resume_def admitted_job_def blank_world_def)
  qed (simp_all add: accounts_work_def start_job_def witness_worlds request(1) admitted_job_def)
  moreover have "\<exists>published w'. publish working_services sample_producer sample_request 100 None interrupted_world = (Inr published, w')
      \<and> is_published (jr_phase published) \<and> daemon_jobs working_services sample_producer w' (pr_request_id sample_request) = Some published"
  proof (rule general [OF _ witness_worlds(4) witness_ready(2) refl])
    have job: "start_job (daemon_jobs working_services sample_producer interrupted_world) sample_request ?d
        (speaker working_services None interrupted_world) 100 = synthesized_job"
      by (simp add: start_job_def witness_worlds request(1))
    show "can_resume working_services sample_producer (\<lambda>x n. True) interrupted_world (pr_request_id sample_request)
        (jr_phase (start_job (daemon_jobs working_services sample_producer interrupted_world) sample_request ?d
          (speaker working_services None interrupted_world) 100))"
      unfolding job request(1) can_resume_def sample_audio_path
      by (simp add: interrupted_world_def synthesized_job_def audio_fits_def sample_producer_def working_services_simps)
    show "publishable (sv_third_party working_services) (pd_group_id sample_producer)
        (start_job (daemon_jobs working_services sample_producer interrupted_world) sample_request ?d
          (speaker working_services None interrupted_world) 100)"
      unfolding job by (rule witness_jobs(2))
  qed (simp_all add: accounts_work_def start_job_def witness_worlds request(1) synthesized_job_def sample_job_def)
  ultimately show ?thesis unfolding request(1) by blast
qed

end
