(* ===== verification/Tree_Progress.thy ===== *)
theory Tree_Progress
  imports Production_Progress Tree_Laws
begin

text \<open>
  Publication of a whole spoken tree makes progress (\<open>publish_tree\<close> of \<open>daemon/src/production.rs\<close>): a tree
  whose files are there, whose texts fit and whose node ids are fresh, valid and distinct is published when the
  surroundings work.
\<close>

section \<open>Trees that can be published\<close>

text \<open>
  The ids the narrated nodes below \<open>request_id\<close> get, in the order in which their publication begins; \<open>index\<close>
  counts the narrated attachments before.
\<close>

function forest_ids :: "string \<Rightarrow> nat \<Rightarrow> tree_attachment list \<Rightarrow> string list" where
  "forest_ids request_id index [] = []"
| "forest_ids request_id index (File label path # rest) = forest_ids request_id index rest"
| "forest_ids request_id index (Narrated label message qs attachments # rest) =
     child_request_id request_id index
     # forest_ids (child_request_id request_id index) 0 attachments @ forest_ids request_id (Suc index) rest"
  by pat_completeness auto
termination by (relation "measure (\<lambda>(request_id, index, attachments). size_list size attachments)") auto

text \<open>\<open>inputs\<close> are the files of the tree: messages and file attachments. \<open>node_fits\<close> is what one node needs of them.\<close>

definition upload_fits :: "producer \<Rightarrow> string \<Rightarrow> bool" where
  "upload_fits pd bytes \<longleftrightarrow>
     bytes \<noteq> [] \<and> length bytes \<le> bu_max_upload_bytes (pd_uploader pd) \<and> length bytes \<le> unat MAX_ARTIFACT_BYTES"

definition attached_files :: "tree_attachment list \<Rightarrow> string list" where
  "attached_files attachments = concat (map (\<lambda>a. case a of File label path \<Rightarrow> [path] | Narrated _ _ _ _ \<Rightarrow> []) attachments)"

definition node_fits ::
  "producer \<Rightarrow> (string \<rightharpoonup> string) \<Rightarrow> string \<Rightarrow> string \<Rightarrow> string \<Rightarrow> question list \<Rightarrow> tree_attachment list \<Rightarrow> bool" where
  "node_fits pd inputs title summary message qs attachments \<longleftrightarrow>
     is_some_and (inputs message) (\<lambda>body. valid_utf8 body \<and> bounded body 40000 \<noteq> None)
     \<and> bounded title 80 \<noteq> None \<and> (summary \<noteq> [] \<longrightarrow> bounded summary 280 \<noteq> None)
     \<and> validate_questions qs = Inr ()
     \<and> length (attached_files attachments) \<le> 12
     \<and> list_all (\<lambda>path. is_some_and (inputs path) (upload_fits pd)) (attached_files attachments)"

function forest_fits :: "producer \<Rightarrow> (string \<rightharpoonup> string) \<Rightarrow> tree_attachment list \<Rightarrow> bool" where
  "forest_fits pd inputs [] = True"
| "forest_fits pd inputs (File label path # rest) = forest_fits pd inputs rest"
| "forest_fits pd inputs (Narrated label message qs attachments # rest) =
     (node_fits pd inputs label [] message qs attachments \<and> forest_fits pd inputs attachments \<and> forest_fits pd inputs rest)"
  by pat_completeness auto
termination by (relation "measure (\<lambda>(pd, inputs, attachments). size_list size attachments)") auto

text \<open>The disk under a tree: its files are there, apart from what publication writes, and audio that is there fits.\<close>

definition inputs_apart :: "'x services \<Rightarrow> producer \<Rightarrow> (string \<rightharpoonup> string) \<Rightarrow> bool" where
  "inputs_apart sv pd inputs \<longleftrightarrow>
     (\<forall>path \<in> dom inputs. \<forall>i. valid_request_id i \<longrightarrow>
        path \<noteq> record_file (pd_journal pd) i \<and> path \<noteq> audio_path (production_ops sv pd) i)"

definition tree_disk :: "'x services \<Rightarrow> producer \<Rightarrow> (string \<rightharpoonup> string) \<Rightarrow> (string \<rightharpoonup> string) \<Rightarrow> bool" where
  "tree_disk sv pd inputs contents \<longleftrightarrow>
     inputs \<subseteq>\<^sub>m contents
     \<and> (\<forall>i. valid_request_id i \<longrightarrow>
          (case contents (audio_path (production_ops sv pd) i) of None \<Rightarrow> True | Some bytes \<Rightarrow> audio_fits pd bytes))"

lemma tree_disk_kept:
  assumes "inputs_apart sv pd inputs"
  shows "disk_kept sv pd (tree_disk sv pd inputs)"
  unfolding disk_kept_def
proof (intro conjI allI impI)
  fix contents i content assume i: "valid_request_id i" and disk: "tree_disk sv pd inputs contents"
  show "tree_disk sv pd inputs (contents(record_file (pd_journal pd) i := content))"
    using disk assms i audio_not_record [OF i, of "production_ops sv pd" _ "pd_journal pd"]
    by (auto simp: tree_disk_def inputs_apart_def map_le_def)
next
  fix contents i bytes
  assume i: "valid_request_id i" and fits: "audio_fits pd bytes" and disk: "tree_disk sv pd inputs contents"
  show "tree_disk sv pd inputs (contents(audio_path (production_ops sv pd) i \<mapsto> bytes))"
    using disk assms i fits by (auto simp: tree_disk_def inputs_apart_def map_le_def)
qed

text \<open>What a tree needs besides: the request can be serialized, and the daemon's voice and the speaker are usable.\<close>

definition tree_context ::
  "'x services \<Rightarrow> producer \<Rightarrow> ('x \<Rightarrow> bool) \<Rightarrow> ('x \<Rightarrow> u64 \<Rightarrow> bool) \<Rightarrow> (string \<rightharpoonup> string) \<Rightarrow> string \<Rightarrow> string \<Rightarrow> bool" where
  "tree_context sv pd alive known inputs agent_name author \<longleftrightarrow>
     services_work sv pd alive known \<and> inputs_apart sv pd inputs
     \<and> (\<forall>request. tp_request_bytes (sv_third_party sv) request \<noteq> None)
     \<and> pd_default_voice pd \<noteq> [] \<and> length (pd_default_voice pd) \<le> 64
     \<and> (agent_name \<noteq> [] \<longrightarrow> bounded agent_name 80 \<noteq> None)
     \<and> tp_parse_key (sv_third_party sv) author \<noteq> None"

text \<open>The daemon is up and has no job yet under the \<open>waiting\<close> ids.\<close>

definition tree_up ::
  "'x services \<Rightarrow> producer \<Rightarrow> ('x \<Rightarrow> bool) \<Rightarrow> (string \<rightharpoonup> string) \<Rightarrow> string list \<Rightarrow> 'x daemon_world \<Rightarrow> bool" where
  "tree_up sv pd alive inputs waiting w \<longleftrightarrow>
     daemon_sound sv pd w \<and> daemon_ready sv pd alive (tree_disk sv pd inputs) w
     \<and> (\<forall>i \<in> set waiting. daemon_jobs sv pd w i = None)"

lemma tree_up_file:
  assumes "tree_up sv pd alive inputs waiting w" and "inputs path = Some bytes"
  shows "fs_files (dw_fs w) path = Some bytes"
  using assms by (auto simp: tree_up_def daemon_ready_def tree_disk_def map_le_def dom_def)

lemma tree_up_outside:
  "tree_up sv pd alive inputs waiting w \<Longrightarrow> alive x \<Longrightarrow> tree_up sv pd alive inputs waiting (w\<lparr>dw_ext := x, dw_daemon := d\<rparr>)"
  by (auto simp: tree_up_def daemon_ready_def daemon_sound_def daemon_jobs_def journal_part_def)

lemma tree_up_ext:
  "tree_up sv pd alive inputs waiting w \<Longrightarrow> alive x \<Longrightarrow> tree_up sv pd alive inputs waiting (w\<lparr>dw_ext := x\<rparr>)"
  using tree_up_outside [of sv pd alive inputs waiting w x "dw_daemon w"] by simp

section \<open>One node\<close>

lemma read_to_string_attains:
  assumes "inputs path = Some body" and "valid_utf8 body"
  shows "attains (tree_up sv pd alive inputs waiting) (read_to_string path) (\<lambda>text w. text = body \<and> tree_up sv pd alive inputs waiting w)"
proof (rule attainsI)
  fix w assume w: "tree_up sv pd alive inputs waiting w"
  then have "fs_faults (dw_fs w) = []" by (simp add: tree_up_def daemon_ready_def)
  then have "read_to_string path w = (Inr body, w)"
    using assms(2) tree_up_file [OF w assms(1)]
    by (simp add: read_to_string_def and_then_def with_error_def on_files_def on_part_def fs_no_fault of_result_def)
  then show "\<exists>text w'. read_to_string path w = (Inr text, w') \<and> text = body \<and> tree_up sv pd alive inputs waiting w'"
    using w by blast
qed

lemma infer_media_type_bounded:
  "bounded (infer_media_type path) 128 = Some (infer_media_type path) \<and> CHR ''/'' \<in> set (infer_media_type path)"
  by (simp add: infer_media_type_def Let_def bounded_graphic is_graphic_def)

lemma stored_file_valid:
  assumes "stores_blob sv bytes media_type d" and "upload_fits pd bytes" and "is_sha256 (sha256_of sv bytes)"
    and "bounded media_type 128 = Some media_type" and "CHR ''/'' \<in> set media_type"
  shows "valid_artifact \<lparr>art_url = bd_url d, art_sha256 = sha256_of sv bytes, art_media_type = media_type,
    art_byte_count = of_nat (length bytes), art_label = Some label\<rparr> True"
proof -
  have "length bytes \<le> unat MAX_ARTIFACT_BYTES" "0 < length bytes"
    using assms(2) by (auto simp: upload_fits_def)
  moreover from this(1) have "unat (of_nat (length bytes) :: u64) = length bytes"
    by (simp add: MAX_ARTIFACT_BYTES_def unat_of_nat)
  ultimately have "(of_nat (length bytes) :: u64) > 0" "(of_nat (length bytes) :: u64) \<le> MAX_ARTIFACT_BYTES"
    by (simp_all add: word_less_nat_alt word_le_nat_alt)
  then show ?thesis
    using assms
    by (auto simp: valid_artifact_def artifact_def artifact_row_def stores_blob_def is_some_and_iff bounded_sha256
        is_sha256_def is_lower_hex_def)
qed

lemma upload_file_attains:
  assumes "blossom_works sv pd alive known" and "inputs path = Some bytes" and "upload_fits pd bytes"
  shows "attains (tree_up sv pd alive inputs waiting)
    (on_media pd (make_durable_file (sha256_of sv) (pd_uploader pd) (sv_blossom sv) path label))
    (\<lambda>artifact w. valid_artifact artifact True \<and> tree_up sv pd alive inputs waiting w)"
proof (rule attainsI)
  fix w assume w: "tree_up sv pd alive inputs waiting w"
  let ?m = "media_part pd w"
  have state: "fs_faults (dw_fs w) = []" "alive (mw_ext ?m)"
    using w by (auto simp: tree_up_def daemon_ready_def media_part_def)
  have read: "on_audio (on_audio_fs (fs_read path)) ?m = (Inr bytes, ?m)"
    using tree_up_file [OF w assms(2)] state(1) by (simp add: on_audio_def on_part_def on_audio_fs_eq fs_no_fault media_part_def)
  obtain now x1 auth x2 d x3 where c:
    "on_ext (current_seconds (sv_blossom sv)) ?m = (Inr now, ?m\<lparr>mw_ext := x1\<rparr>)"
    "on_ext (authorization (pd_uploader pd) (sv_blossom sv) (sha256_of sv bytes) now) (?m\<lparr>mw_ext := x1\<rparr>)
      = (Inr auth, ?m\<lparr>mw_ext := x2\<rparr>)"
    "on_ext (bc_upload (sv_blossom sv) bytes (infer_media_type path) auth) (?m\<lparr>mw_ext := x2\<rparr>) = (Inr d, ?m\<lparr>mw_ext := x3\<rparr>)"
    and x3: "alive x3" and d: "stores_blob sv bytes (infer_media_type path) d"
    by (rule upload_chain [OF assms(1) state(2)])
  have url: "validate_public_url (bc_parse_url (sv_blossom sv)) (bd_url d) = Inr ()"
    using d by (auto simp: validate_public_url_def stores_blob_def is_some_and_iff ok_or_def)
  let ?artifact = "\<lparr>art_url = bd_url d, art_sha256 = sha256_of sv bytes, art_media_type = infer_media_type path,
    art_byte_count = of_nat (length bytes), art_label = Some label\<rparr>"
  have "make_durable_file (sha256_of sv) (pd_uploader pd) (sv_blossom sv) path label ?m = (Inr ?artifact, ?m\<lparr>mw_ext := x3\<rparr>)"
    using c read url d assms(3)
    by (simp add: make_durable_file_def and_then_def with_error_def of_result_def stores_blob_def upload_fits_def)
  then have "on_media pd (make_durable_file (sha256_of sv) (pd_uploader pd) (sv_blossom sv) path label) w
      = (Inr ?artifact, w\<lparr>dw_ext := x3\<rparr>)"
    by (simp add: on_media_eq) (simp add: media_part_def)
  moreover have "valid_artifact ?artifact True"
    using stored_file_valid [OF d assms(3)] assms(1) infer_media_type_bounded by (simp add: blossom_works_def)
  ultimately show "\<exists>artifact w'. on_media pd (make_durable_file (sha256_of sv) (pd_uploader pd) (sv_blossom sv) path label) w
      = (Inr artifact, w') \<and> valid_artifact artifact True \<and> tree_up sv pd alive inputs waiting w'"
    using tree_up_ext [OF w x3] by blast
qed

lemma upload_attachments_attains:
  assumes "blossom_works sv pd alive known"
    and "list_all (\<lambda>path. is_some_and (inputs path) (upload_fits pd)) (attached_files attachments)"
    and "\<forall>artifact \<in> set durable. valid_artifact artifact True"
  shows "attains (tree_up sv pd alive inputs waiting) (upload_attachments sv pd attachments durable)
    (\<lambda>uploaded w. (length uploaded = length durable + length (attached_files attachments)
       \<and> (\<forall>artifact \<in> set uploaded. valid_artifact artifact True)) \<and> tree_up sv pd alive inputs waiting w)"
  using assms(2,3)
proof (induction attachments arbitrary: durable)
  case Nil
  then show ?case by (simp add: attached_files_def attains_def of_result_def)
next
  case (Cons a rest)
  show ?case
  proof (cases a)
    case (File label path)
    then obtain bytes where bytes: "inputs path = Some bytes" "upload_fits pd bytes"
      using Cons.prems(1) by (auto simp: attached_files_def is_some_and_iff)
    show ?thesis
      unfolding File upload_attachments.simps
    proof (rule attains_and_then [OF attains_with_error [OF upload_file_attains [of sv pd alive known inputs path bytes, OF assms(1) bytes]]], rule attains_assume)
      fix artifact assume "valid_artifact artifact True"
      then show "attains (tree_up sv pd alive inputs waiting) (upload_attachments sv pd rest (durable @ [artifact]))
          (\<lambda>uploaded w. (length uploaded = length durable + length (attached_files (File label path # rest))
             \<and> (\<forall>artifact \<in> set uploaded. valid_artifact artifact True)) \<and> tree_up sv pd alive inputs waiting w)"
        using Cons.IH [of "durable @ [artifact]"] Cons.prems File by (simp add: attached_files_def)
    qed
  next
    case (Narrated label message qs attachments)
    then show ?thesis using Cons by (simp add: attached_files_def)
  qed
qed

text \<open>The request of a node is one the daemon can publish.\<close>

lemma node_publishable:
  assumes c: "tree_context sv pd alive known inputs agent_name author"
    and node: "node_fits pd inputs title summary message qs attachments" "inputs message = Some body"
    and durable: "length durable = length (attached_files attachments)" "\<forall>a \<in> set durable. valid_artifact a True"
    and parent: "\<forall>p. parent = Some p \<longrightarrow> is_event_id p" and i: "valid_request_id i"
    and rq: "rq = node_request pd i agent_name title summary body durable qs parent"
    and digest: "request_digest (sv_third_party sv) rq = Inr digest"
  shows "publishable (sv_third_party sv) (pd_group_id pd) (admitted_job rq digest author created_at)"
proof -
  have group: "bounded (pd_group_id pd) 128 \<noteq> None"
    using c by (auto simp: tree_context_def services_work_def nmp_works_def limits_fit_def)
  have body: "bounded body 40000 \<noteq> None" using node by (simp add: node_fits_def)
  then have "trim body \<noteq> []" by (auto simp: bounded_def Let_def)
  moreover have "job_ok (sv_third_party sv) (admitted_job rq digest author created_at)"
    by (rule job_ok_admitted) (use rq i digest in \<open>simp_all add: node_request_def\<close>)
  ultimately show ?thesis
    using c node(1) durable parent group body validate_questions_iff [of qs]
    by (cases parent) (auto simp: publishable_def rq admitted_job_def node_request_def tree_context_def validate_spoken_item_iff
        frozen_item_def node_fits_def is_some_and_iff is_event_id_def is_sha256_def is_lower_hex_def)
qed

lemma published_event:
  "job_ok tp job \<Longrightarrow> is_published (jr_phase job) \<Longrightarrow> \<exists>event. phase_event_id (jr_phase job) = Some event \<and> is_event_id event"
  by (cases "jr_phase job") (auto simp: job_ok_def phase_ok_def is_published_def phase_event_id_def)

lemma publish_node_request_attains:
  assumes c: "tree_context sv pd alive known inputs agent_name author"
    and i: "valid_request_id (pr_request_id rq)" "pr_request_id rq \<notin> set rest"
    and rq: "\<And>digest. request_digest (sv_third_party sv) rq = Inr digest \<Longrightarrow>
       publishable (sv_third_party sv) (pd_group_id pd) (admitted_job rq digest author created_at)"
  shows "attains (tree_up sv pd alive inputs (pr_request_id rq # rest))
    (publish_as (sv_third_party sv) (production_ops sv pd) rq author created_at)
    (\<lambda>job w. (\<exists>event. phase_event_id (jr_phase job) = Some event \<and> is_event_id event)
       \<and> tree_up sv pd alive inputs rest w)"
proof (rule attainsI)
  let ?i = "pr_request_id rq" let ?disk = "tree_disk sv pd inputs"
  fix w assume w: "tree_up sv pd alive inputs (?i # rest) w"
  obtain bytes where "tp_request_bytes (sv_third_party sv) rq = Some bytes" using c by (auto simp: tree_context_def)
  then obtain digest where digest: "request_digest (sv_third_party sv) rq = Inr digest" by (simp add: request_digest_def)
  have works: "services_work sv pd alive known" and kept: "disk_kept sv pd ?disk"
    using c tree_disk_kept by (auto simp: tree_context_def)
  have up: "daemon_sound sv pd w" "daemon_ready sv pd alive ?disk w" and none: "daemon_jobs sv pd w ?i = None"
    using w by (simp_all add: tree_up_def)
  have start: "admitted_job rq digest author created_at = start_job (daemon_jobs sv pd w) rq digest author created_at"
    by (simp add: start_job_def none)
  have resume: "can_resume sv pd known w ?i (jr_phase (admitted_job rq digest author created_at))"
    using up(2) i(1) by (auto simp: daemon_ready_def tree_disk_def can_resume_def admitted_job_def Let_def)
  obtain job w' where job: "publish_as (sv_third_party sv) (production_ops sv pd) rq author created_at w = (Inr job, w')"
    "is_published (jr_phase job)" "publishable (sv_third_party sv) (pd_group_id pd) job"
    "daemon_ready sv pd alive ?disk w'" "daemon_sound sv pd w'" "daemon_jobs sv pd w' = (daemon_jobs sv pd w)(?i \<mapsto> job)"
    using publish_as_succeeds [OF refl works kept up i(1) digest start _ _ rq [OF digest] resume]
    by (auto simp: admitted_job_def)
  have "tree_up sv pd alive inputs rest w'"
    using w job(4-6) i(2) by (auto simp: tree_up_def)
  then show "\<exists>job w'. publish_as (sv_third_party sv) (production_ops sv pd) rq author created_at w = (Inr job, w')
      \<and> (\<exists>event. phase_event_id (jr_phase job) = Some event \<and> is_event_id event) \<and> tree_up sv pd alive inputs rest w'"
    using job(1) published_event [OF _ job(2)] job(3) by (auto simp: publishable_def)
qed

lemma publish_one_attains:
  assumes c: "tree_context sv pd alive known inputs agent_name author"
    and node: "node_fits pd inputs title summary message qs attachments"
    and parent: "\<forall>p. parent = Some p \<longrightarrow> is_event_id p" and i: "valid_request_id i" "i \<notin> set rest"
  shows "attains (tree_up sv pd alive inputs (i # rest))
    (publish_one sv pd i title summary message qs attachments parent agent_name author created_at)
    (\<lambda>event w. is_event_id event \<and> tree_up sv pd alive inputs rest w)"
proof -
  obtain body where body: "inputs message = Some body" "valid_utf8 body"
    using node by (auto simp: node_fits_def is_some_and_iff)
  have blossom: "blossom_works sv pd alive known" using c by (simp add: tree_context_def services_work_def)
  have files: "list_all (\<lambda>path. is_some_and (inputs path) (upload_fits pd)) (attached_files attachments)"
    using node by (simp add: node_fits_def)
  have go: "attains (tree_up sv pd alive inputs (i # rest))
      (publish_as (sv_third_party sv) (production_ops sv pd)
         (node_request pd i agent_name title summary body durable qs parent) author created_at)
      (\<lambda>job w. (\<exists>event. phase_event_id (jr_phase job) = Some event \<and> is_event_id event)
         \<and> tree_up sv pd alive inputs rest w)"
    if "length durable = length (attached_files attachments)" "\<forall>a \<in> set durable. valid_artifact a True" for durable
    using publish_node_request_attains [OF c, of "node_request pd i agent_name title summary body durable qs parent" rest]
      node_publishable [OF c node body(1) that parent i(1) refl] i
    by (simp add: node_request_def)
  show ?thesis
    unfolding publish_one_def
  proof (rule attains_and_then [OF attains_with_error [OF read_to_string_attains [of inputs message body, OF body]]],
      rule attains_assume, simp only:)
    show "attains (tree_up sv pd alive inputs (i # rest))
        (and_then (upload_attachments sv pd attachments []) (\<lambda>durable.
         and_then (publish_as (sv_third_party sv) (production_ops sv pd)
             (node_request pd i agent_name title summary body durable qs parent) author created_at) (\<lambda>job.
           of_result (ok_or (Capability ''publication'' ''spoken node did not reach publication'')
             (phase_event_id (jr_phase job))))))
        (\<lambda>event w. is_event_id event \<and> tree_up sv pd alive inputs rest w)"
    proof (rule attains_and_then [OF upload_attachments_attains [of sv pd alive known inputs attachments "[]", OF blossom files]])
      show "attains (\<lambda>w. (length durable = length [] + length (attached_files attachments)
            \<and> (\<forall>a \<in> set durable. valid_artifact a True)) \<and> tree_up sv pd alive inputs (i # rest) w)
          (and_then (publish_as (sv_third_party sv) (production_ops sv pd)
             (node_request pd i agent_name title summary body durable qs parent) author created_at) (\<lambda>job.
           of_result (ok_or (Capability ''publication'' ''spoken node did not reach publication'')
             (phase_event_id (jr_phase job)))))
          (\<lambda>event w. is_event_id event \<and> tree_up sv pd alive inputs rest w)" for durable
        by (rule attains_assume, rule attains_and_then [OF go])
          (auto simp: attains_def of_result_def ok_or_def)
    qed simp
  qed
qed

section \<open>A whole tree\<close>

lemma publish_node_attains:
  "tree_context sv pd alive known inputs agent_name author \<Longrightarrow>
   node_fits pd inputs title summary message qs attachments \<Longrightarrow> forest_fits pd inputs attachments \<Longrightarrow>
   \<forall>p. parent = Some p \<longrightarrow> is_event_id p \<Longrightarrow>
   distinct (request_id # forest_ids request_id 0 attachments @ rest) \<Longrightarrow>
   list_all valid_request_id (request_id # forest_ids request_id 0 attachments) \<Longrightarrow>
   list_all is_event_id children \<Longrightarrow>
   attains (tree_up sv pd alive inputs (request_id # forest_ids request_id 0 attachments @ rest))
     (publish_node sv pd request_id title summary message qs attachments parent agent_name author created_at children)
     (\<lambda>(event, published) w. (is_event_id event \<and> list_all is_event_id published
        \<and> length published = length children + length (forest_ids request_id 0 attachments))
        \<and> tree_up sv pd alive inputs rest w)"
  and publish_children_attains:
  "tree_context sv pd alive known inputs agent_name author \<Longrightarrow> forest_fits pd inputs attachments \<Longrightarrow>
   is_event_id event \<Longrightarrow> distinct (forest_ids request_id index attachments @ rest) \<Longrightarrow>
   list_all valid_request_id (forest_ids request_id index attachments) \<Longrightarrow> list_all is_event_id children \<Longrightarrow>
   attains (tree_up sv pd alive inputs (forest_ids request_id index attachments @ rest))
     (publish_children sv pd request_id event index attachments agent_name author created_at children)
     (\<lambda>published w. (list_all is_event_id published
        \<and> length published = length children + length (forest_ids request_id index attachments))
        \<and> tree_up sv pd alive inputs rest w)"
proof (induction sv pd request_id title summary message qs attachments parent agent_name author created_at children
    and sv pd request_id event index attachments agent_name author created_at children
    arbitrary: rest and rest rule: publish_node_publish_children.induct)
  case (1 sv pd request_id title summary message qs attachments parent agent_name author created_at children)
  let ?ids = "forest_ids request_id 0 attachments"
  show ?case
    unfolding publish_node.simps
  proof (rule attains_and_then, rule publish_one_attains [OF "1.prems"(1,2,4)])
    show "valid_request_id request_id" "request_id \<notin> set (?ids @ rest)" using "1.prems" by auto
    show "attains (\<lambda>w. is_event_id event \<and> tree_up sv pd alive inputs (?ids @ rest) w)
        (and_then (publish_children sv pd request_id event 0 attachments agent_name author created_at children)
           (\<lambda>children. ok (event, children)))
        (\<lambda>(event, published) w. (is_event_id event \<and> list_all is_event_id published
           \<and> length published = length children + length ?ids) \<and> tree_up sv pd alive inputs rest w)" for event
      by (rule attains_assume, rule attains_and_then [OF "1.IH"])
        (use "1.prems" in \<open>auto simp: attains_def of_result_def\<close>)
  qed
next
  case (2 sv pd request_id event index agent_name author created_at children)
  then show ?case by (simp add: attains_def of_result_def)
next
  case (3 sv pd request_id event index label path rest' agent_name author created_at children)
  then show ?case by simp
next
  case (4 sv pd request_id event index label message qs attachments rest' agent_name author created_at children)
  let ?i = "child_request_id request_id index"
  let ?below = "forest_ids ?i 0 attachments" let ?after = "forest_ids request_id (Suc index) rest'"
  have all: "forest_ids request_id index (Narrated label message qs attachments # rest') @ rest = ?i # ?below @ (?after @ rest)"
    by simp
  show ?case
    unfolding publish_children.simps all
  proof (rule attains_and_then, rule "4.IH"(1))
    show "attains (case r of (child, published) \<Rightarrow> \<lambda>w. (is_event_id child \<and> list_all is_event_id published
          \<and> length published = length children + length ?below) \<and> tree_up sv pd alive inputs (?after @ rest) w)
        (case r of (child, children) \<Rightarrow> publish_children sv pd request_id event (Suc index) rest' agent_name author created_at
           (children @ [child]))
        (\<lambda>published w. (list_all is_event_id published \<and> length published = length children
           + length (forest_ids request_id index (Narrated label message qs attachments # rest')))
           \<and> tree_up sv pd alive inputs rest w)" for r
      unfolding split_beta
      by (rule attains_assume, rule attains_weaken [OF "4.IH"(2)])
        (use "4.prems" in \<open>auto simp: split_beta\<close>)
  qed (use "4.prems" in auto)
qed

lemma unix_seconds_attains:
  assumes "blossom_works sv pd alive known"
  shows "attains (tree_up sv pd alive inputs waiting) (unix_seconds sv) (\<lambda>_. tree_up sv pd alive inputs waiting)"
proof (rule attainsI)
  fix w assume w: "tree_up sv pd alive inputs waiting w"
  then have "alive (dw_ext w)" by (simp add: tree_up_def daemon_ready_def)
  then obtain millis x where "bc_unix_millis (sv_blossom sv) (dw_ext w) = (millis, x)" "alive x"
    using assms by (auto simp: blossom_works_def current_seconds_def elim!: servesE split: prod.splits)
  then show "\<exists>created_at w'. unix_seconds sv w = (Inr created_at, w') \<and> tree_up sv pd alive inputs waiting w'"
    using tree_up_ext [OF w] by (simp add: unix_seconds_def)
qed

text \<open>
  C6: a whole spoken tree is published when its surroundings work. If the disk has no faults and the services
  answer as documented, the message files and file attachments of every node are there and fit their
  limits, and the ids of the nodes are valid, distinct and not used by a journalled job, then
  \<open>publish_tree\<close> succeeds: it returns an event id for the root and one for each narrated attachment at any
  depth, and the journal holds the tree, each node linked to the event of its parent.
\<close>

theorem publish_tree_succeeds:
  assumes surroundings: "tree_context sv pd alive known inputs agent_name (speaker sv agent_secret w)"
    and accounts: "accounts_work sv alive known agent_secret"
    and ready: "daemon_sound sv pd w" "daemon_ready sv pd alive (tree_disk sv pd inputs) w"
    and tree: "st_group_id tree = pd_group_id pd"
      "node_fits pd inputs (st_title tree) (case st_summary tree of None \<Rightarrow> [] | Some s \<Rightarrow> s) (st_message tree)
         (st_questions tree) (st_attachments tree)"
      "forest_fits pd inputs (st_attachments tree)"
    and ids: "ids = forest_ids (st_request_id tree) 0 (st_attachments tree)" "distinct (st_request_id tree # ids)"
      "list_all valid_request_id (st_request_id tree # ids)"
      "list_all (\<lambda>i. daemon_jobs sv pd w i = None) (st_request_id tree # ids)"
  shows "\<exists>publication w'. publish_tree sv pd tree agent_name agent_secret w = (Inr publication, w')
    \<and> is_event_id (tpub_root_event_id publication) \<and> list_all is_event_id (tpub_child_event_ids publication)
    \<and> length (tpub_child_event_ids publication) = length ids
    \<and> published_forest (sv_third_party sv) (daemon_jobs sv pd w') (st_request_id tree)
        (tpub_root_event_id publication) 0 (st_attachments tree) (tpub_child_event_ids publication)"
proof -
  let ?summary = "case st_summary tree of None \<Rightarrow> [] | Some s \<Rightarrow> s" and ?author = "speaker sv agent_secret w"
  have works: "services_work sv pd alive known" using surroundings by (simp add: tree_context_def)
  then have blossom: "blossom_works sv pd alive known" by (simp add: services_work_def)
  obtain identity x d where id: "identity_request sv agent_secret w = (Inr identity, w\<lparr>dw_ext := x, dw_daemon := d\<rparr>)"
    "ri_author identity = ?author" "alive x"
    "\<And>registration. ri_registration identity = Some registration \<Longrightarrow>
       serves alive known (sv_remove_account sv registration) (\<lambda>removed _. removed)"
    using identity_request_works [OF accounts ready(2)] by metis
  have up: "tree_up sv pd alive inputs (st_request_id tree # ids) (w\<lparr>dw_ext := x, dw_daemon := d\<rparr>)"
    by (rule tree_up_outside [of sv pd alive inputs _ w x d, OF _ id(3)]) (use ready ids(4) in \<open>simp add: tree_up_def list_all_iff\<close>)
  obtain created_at w1 where time: "unix_seconds sv (w\<lparr>dw_ext := x, dw_daemon := d\<rparr>) = (Inr created_at :: producer_error + _, w1)"
    "tree_up sv pd alive inputs (st_request_id tree # ids) w1"
    by (rule attainsE [OF unix_seconds_attains [OF blossom] up])
  have node: "attains (tree_up sv pd alive inputs (st_request_id tree # ids))
      (publish_node sv pd (st_request_id tree) (st_title tree) ?summary (st_message tree) (st_questions tree)
         (st_attachments tree) None agent_name ?author created_at [])
      (\<lambda>(event, published) w. (is_event_id event \<and> list_all is_event_id published \<and> length published = length ids)
         \<and> tree_up sv pd alive inputs [] w)"
    using publish_node_attains [OF surroundings tree(2,3), of None "st_request_id tree" "[]" "[]" created_at] ids(2,3)
    by (simp add: ids(1))
  obtain r w2 where "publish_node sv pd (st_request_id tree) (st_title tree) ?summary (st_message tree) (st_questions tree)
         (st_attachments tree) None agent_name ?author created_at [] w1 = (Inr r, w2)"
    "case r of (event, published) \<Rightarrow> (is_event_id event \<and> list_all is_event_id published \<and> length published = length ids)
       \<and> tree_up sv pd alive inputs [] w2"
    using attainsE [OF node time(2)] by (auto simp: split_beta)
  then obtain root children where p: "publish_node sv pd (st_request_id tree) (st_title tree) ?summary (st_message tree)
         (st_questions tree) (st_attachments tree) None agent_name ?author created_at [] w1 = (Inr (root, children), w2)"
    "is_event_id root" "list_all is_event_id children" "length children = length ids" "alive (dw_ext w2)"
    by (auto simp: tree_up_def daemon_ready_def split: prod.splits)
  obtain y where close: "identity_close sv identity w2 = (Inr (), w2\<lparr>dw_ext := y\<rparr>)"
    using identity_close_works [OF p(5) id(4)] by auto
  let ?publication = "\<lparr>tpub_root_event_id = root, tpub_child_event_ids = children\<rparr>"
  have result: "publish_tree sv pd tree agent_name agent_secret w = (Inr ?publication, w2\<lparr>dw_ext := y\<rparr>)"
    using tree(1) id(1,2) time(1) p(1) close
    by (simp add: publish_tree_def and_then_def with_error_def close_after_def of_result_def)
  have "codec_round_trip (sv_codec sv)" using works by (simp add: services_work_def)
  from publish_tree_effect [OF this ready(1) result] show ?thesis
    using result p(2-4) by auto
qed

text \<open>A tree with a file and two narrated nodes, one below the other, on a disk that holds just its files.\<close>

definition tree_inputs :: "string \<rightharpoonup> string" where
  "tree_inputs = [''/in/root.md'' \<mapsto> ''Done'', ''/in/child.md'' \<mapsto> ''Done'', ''/in/notes.txt'' \<mapsto> ''log'']"

definition deep_tree :: spoken_tree where
  "deep_tree =
     \<lparr>st_request_id = ''req-1'', st_group_id = ''tts'', st_title = ''Build'', st_summary = None,
      st_message = ''/in/root.md'', st_questions = [],
      st_attachments = [File ''Log'' ''/in/notes.txt'',
        Narrated ''Details'' ''/in/child.md'' [] [Narrated ''More'' ''/in/child.md'' [] []]]\<rparr>"

definition tree_world :: "unit daemon_world" where
  "tree_world = sample_world\<lparr>dw_fs := \<lparr>fs_files = tree_inputs, fs_faults = []\<rparr>\<rparr>"

lemma tree_inputs_last:
  "tree_inputs path = Some bytes \<Longrightarrow> last path = CHR ''d'' \<or> last path = CHR ''t''"
  by (auto simp: tree_inputs_def split: if_splits)

lemma tree_inputs_apart: "inputs_apart working_services sample_producer tree_inputs"
  unfolding inputs_apart_def
proof (intro ballI allI impI)
  fix path i assume "path \<in> dom tree_inputs" and i: "valid_request_id i"
  then have "last path \<noteq> CHR ''n''" "last path \<noteq> CHR ''3''" using tree_inputs_last [of path] by auto
  then show "path \<noteq> record_file (pd_journal sample_producer) i
      \<and> path \<noteq> audio_path (production_ops working_services sample_producer) i"
    using record_file_last [OF i] audio_path_last by metis
qed

lemma tree_world_ready:
  "daemon_sound working_services sample_producer tree_world"
  "daemon_jobs working_services sample_producer tree_world i = None"
  "daemon_ready working_services sample_producer (\<lambda>x. True) (tree_disk working_services sample_producer tree_inputs) tree_world"
  "speaker working_services None tree_world = replicate 64 (CHR ''1'')"
proof -
  have records: "tree_inputs (record_file j i) = None" if "valid_request_id i" for i j
    using tree_inputs_last [of "record_file j i"] record_file_last [OF that] by (cases "tree_inputs (record_file j i)") auto
  have audio: "tree_inputs (audio_path ops i) = None" for i and ops :: "unit daemon_world producer_ops"
    using tree_inputs_last [of "audio_path ops i"] audio_path_last [of ops i] by (cases "tree_inputs (audio_path ops i)") auto
  have staged: "tree_inputs path = None" if "path \<in> staged_files working_services sample_producer" for path
    using tree_inputs_last [of path] staged_file_last [OF that] by (cases "tree_inputs path") auto
  show "daemon_sound working_services sample_producer tree_world"
    "daemon_jobs working_services sample_producer tree_world i = None"
    using records
    by (auto simp: daemon_sound_def store_sound_def daemon_jobs_def stored_jobs_def journal_part_def tree_world_def)
  show "daemon_ready working_services sample_producer (\<lambda>x. True) (tree_disk working_services sample_producer tree_inputs) tree_world"
    using staged audio by (simp add: daemon_ready_def tree_world_def sample_world_def btree_get_def tree_disk_def)
  show "speaker working_services None tree_world = replicate 64 (CHR ''1'')"
    by (simp add: speaker_def identity_request_def tree_world_def sample_world_def)
qed

lemma deep_tree_fits:
  "node_fits sample_producer tree_inputs ''Build'' [] ''/in/root.md'' [] (st_attachments deep_tree)"
  "forest_fits sample_producer tree_inputs (st_attachments deep_tree)"
proof -
  have plain: "valid_utf8 ''Done''" by code_simp
  show "node_fits sample_producer tree_inputs ''Build'' [] ''/in/root.md'' [] (st_attachments deep_tree)"
    "forest_fits sample_producer tree_inputs (st_attachments deep_tree)"
    using plain
    by (simp_all add: node_fits_def tree_inputs_def evaluate_text validate_questions_iff deep_tree_def attached_files_def
        upload_fits_def MAX_ARTIFACT_BYTES_def sample_producer_def)
qed

theorem publish_tree_succeeds_witness:
  "\<exists>publication w'. publish_tree working_services sample_producer deep_tree ''Codex'' None tree_world = (Inr publication, w')
     \<and> is_event_id (tpub_root_event_id publication) \<and> length (tpub_child_event_ids publication) = 2"
proof -
  have key: "hex_key_parse (replicate 64 (CHR ''1'')) \<noteq> None" by code_simp
  have surroundings: "tree_context working_services sample_producer (\<lambda>x. True) (\<lambda>x n. True) tree_inputs ''Codex''
      (speaker working_services None tree_world)"
    using working_services_work tree_inputs_apart key
    by (simp add: tree_context_def tree_world_ready evaluate_text working_services_simps)
      (simp add: refusing_services_def sample_producer_def)
  have ids: "child_request_id ''req-1'' 0 = ''req-1-0''" "child_request_id ''req-1-0'' 0 = ''req-1-0-0''"
    "list_all valid_request_id [''req-1'', ''req-1-0'', ''req-1-0-0'']" by code_simp+
  have "\<exists>publication w'. publish_tree working_services sample_producer deep_tree ''Codex'' None tree_world = (Inr publication, w')
     \<and> is_event_id (tpub_root_event_id publication) \<and> list_all is_event_id (tpub_child_event_ids publication)
     \<and> length (tpub_child_event_ids publication) = length [''req-1-0'', ''req-1-0-0'']
     \<and> published_forest (sv_third_party working_services) (daemon_jobs working_services sample_producer w')
         (st_request_id deep_tree) (tpub_root_event_id publication) 0 (st_attachments deep_tree) (tpub_child_event_ids publication)"
    by (rule publish_tree_succeeds [OF surroundings _ tree_world_ready(1,3)])
      (use deep_tree_fits ids in \<open>simp_all add: accounts_work_def tree_world_ready deep_tree_def sample_producer_def
        [THEN arg_cong, of pd_group_id]\<close>)
  then show ?thesis by fastforce
qed

end
