(* ===== verification/Clocks.thy ===== *)
theory Clocks
  imports Prelude
begin

text \<open>
  The three system clocks: of the app kernel (\<open>core/src/clock.rs\<close>), of the daemon (\<open>daemon/src/blossom.rs\<close>) and
  of the MCP server (\<open>mcp/src/auth.rs\<close>). The wall clock is an integer number of nanoseconds since the Unix
  epoch, negative before it. The model of each component takes the reading as a parameter; here it is
  what the operating system's time becomes.
\<close>

type_synonym system_time = int

text \<open>
  \<open>duration_since(UNIX_EPOCH)\<close> fails before the epoch. A \<open>Duration\<close> keeps its seconds as a \<open>u64\<close>;
  \<open>as_millis\<close> is a \<open>u128\<close>, which \<open>as u64\<close> cuts to its low 64 bits.
\<close>

definition duration_since_epoch :: "system_time \<Rightarrow> nat option" where
  "duration_since_epoch now = (if now < 0 then None else Some (nat now))"

definition as_secs :: "nat \<Rightarrow> u64" where
  "as_secs nanoseconds = of_nat (nanoseconds div 1000000000)"

definition as_millis :: "nat \<Rightarrow> nat" where
  "as_millis nanoseconds = nanoseconds div 1000000"

definition kernel_unix_seconds :: "system_time \<Rightarrow> u64" where
  "kernel_unix_seconds now = as_secs (case duration_since_epoch now of None \<Rightarrow> 0 | Some d \<Rightarrow> d)"

definition daemon_unix_millis :: "system_time \<Rightarrow> u64" where
  "daemon_unix_millis now = (case duration_since_epoch now of None \<Rightarrow> 0 | Some d \<Rightarrow> of_nat (as_millis d))"

definition server_now_unix :: "system_time \<Rightarrow> u64" where
  "server_now_unix now = as_secs (case duration_since_epoch now of None \<Rightarrow> 0 | Some d \<Rightarrow> d)"

text \<open>Until the milliseconds leave 64 bits, in some 584 million years, the three components agree on the second.\<close>

lemma clocks_agree:
  assumes "now < 2 ^ 64 * 1000000"
  shows "daemon_unix_millis now div 1000 = kernel_unix_seconds now" and "server_now_unix now = kernel_unix_seconds now"
proof -
  have millis: "nat now div 1000000 < 2 ^ 64" using assms by (simp add: div_less_iff_less_mult nat_less_iff)
  have "unat (of_nat (nat now div 1000000) div 1000 :: u64) = nat now div 1000000 div 1000"
    using millis by (simp add: unat_div unat_of_nat)
  moreover have "nat now div 1000000 div 1000 = nat now div 1000000000" by (simp add: div_mult2_eq [symmetric])
  moreover have "unat (of_nat (nat now div 1000000000) :: u64) = nat now div 1000000000"
    using millis by (simp add: unat_of_nat calculation(2) [symmetric])
  ultimately have "of_nat (nat now div 1000000) div 1000 = (of_nat (nat now div 1000000000) :: u64)"
    by (metis word_unat_eq_iff)
  then show "daemon_unix_millis now div 1000 = kernel_unix_seconds now"
    by (simp add: daemon_unix_millis_def kernel_unix_seconds_def duration_since_epoch_def as_secs_def as_millis_def)
  show "server_now_unix now = kernel_unix_seconds now"
    by (simp add: server_now_unix_def kernel_unix_seconds_def)
qed

lemma clocks_before_epoch:
  "now < 0 \<Longrightarrow> kernel_unix_seconds now = 0 \<and> daemon_unix_millis now = 0 \<and> server_now_unix now = 0"
  by (simp add: kernel_unix_seconds_def daemon_unix_millis_def server_now_unix_def duration_since_epoch_def as_secs_def)

end
