(* ===== verification/Spec2Isabelle.thy ===== *)
theory Spec2Isabelle
  imports Compose Answer Projection_Laws App_Control Daemon_Open Mcp_Server Client_Command Live_Laws Tree_Progress Clocks
begin

text \<open>
  A verification development for tts29.

  tts29 is a durable spoken queue on Nostr relay groups (NIP-29). A daemon admits publication requests,
  narrates them, uploads the audio, makes sure the author is a member of the group and publishes an event;
  an app kernel observes the group and projects its events to a queue snapshot; listeners answer,
  acknowledge and react with further events. The crates under src/ are the contract (shared types), the
  protocol (reading and composing events), the core (the app kernel), the daemon (publication), the
  producer API (requests and the local socket protocol) and an MCP server in front of the daemon.

  \<^bold>\<open>The model.\<close> A struct is a record (with a short field prefix), an enum a datatype, a Rust string the
  list of its UTF-8 bytes, \<open>u64\<close> a 64 bit word, a \<open>BTreeMap\<close> a key-sorted association list, \<open>Result\<close> a sum
  with the error on the left, and an effectful function an action \<open>'s \<Rightarrow> ('e + 'a) \<times> 's\<close> on an explicit
  state. What is not in the repository is a parameter: the NMP engine (its writes, receipts and
  observations), \<open>compose_group_send\<close>, \<open>PublicKey::parse\<close>, \<open>serde_json\<close>, SHA-256, HTTP, the Blossom client
  and URL parsing, JWT verification, the MCP protocol, TLS and the HTTP server. Assumptions on them are named
  (\<open>group_send_contract\<close>, \<open>codec_round_trip\<close>, \<open>local_codec_contract\<close>, \<open>account_contract\<close>, \<open>identity_contract\<close>,
  \<open>jwt_contract\<close>, \<open>link_contract\<close>) and shown satisfiable by a concrete instance. Concurrency is modelled where the
  code depends on it: the cancellation of a wait, the control block of the app kernel and the requests at the
  gate of the MCP server are step relations over all interleavings; elsewhere threads only hand over what a
  channel or a socket delivers, which is then an argument.

  \<^bold>\<open>Theories and sources.\<close>
  \<^item> Prelude: text, numbers, results and ordered maps of the Rust library, with an ordered-map locale
    interpreted on association lists. Nmp: the data of the NMP facade. File_System: \<open>std::fs\<close> and
    \<open>std::path\<close> with a fault schedule, and triples for actions, partial (\<open>yields\<close>) and total (\<open>attains\<close>).
    Unix_Files: nodes with modes, devices and inodes, for sockets and identity files. Clocks: the three readings of
    the system clock (core/src/clock.rs, daemon/src/blossom.rs, mcp/src/auth.rs).
  \<^item> Contract (contract/src/lib.rs), Tags and Parse (protocol/src/parse), Compose (compose.rs), Answer
    (answer.rs and related.rs), Relay_Groups (membership.rs and group_admin.rs).
  \<^item> Projection and Projection_Laws (core/src/projection.rs and model.rs). Accounts (the account operations of
    NMP), App_Identity (core/src/identity.rs), App_Session (session.rs), App_Runtime (runtime.rs and
    action.rs), App_Laws, and App_Control (core/src/lib.rs: the control block and the entry points).
  \<^item> Jobs (producer-api/src/model.rs, daemon/src/model.rs and request.rs), Journal and Journal_Laws
    (journal.rs), Runner and Runner_Laws (runner.rs), Publisher and Publisher_Laws (nmp_publisher.rs,
    nmp_receipt.rs and group_bootstrap.rs), Capabilities (kokoro.rs and blossom.rs), Production,
    Production_Laws and Tree_Laws (production.rs and identity.rs), Cancel_Race and Answer_Wait
    (answer_wait.rs). Progress, Working_Services, Production_Progress and Tree_Progress hold no code of their own:
    they show that these components succeed when their surroundings work.
  \<^item> Local_Service (producer-api/src/protocol.rs and unix_client.rs, daemon/src/local_service.rs and one
    connection of local_server.rs), Local_Laws, Local_Server (the listener, the serving loops and the
    shutdown request), Daemon_Identity (daemon_identity.rs), Daemon_Config (daemon_config.rs), Daemon_Open
    (opening of production.rs and bin/tts29d.rs), Client_Command (bin/tts29.rs).
  \<^item> Mcp_Config (mcp/src/config.rs), Mcp_Access (auth.rs and ingress.rs), Mcp_Gate (ingress.rs under concurrent
    requests), Mcp_Server (tool.rs, server.rs and main.rs).
  \<^item> Live_Network (live_network.rs), Live_Smoke (live_smoke.rs and its two drivers) and Live_Laws.

  \<^bold>\<open>What the lemmas show.\<close> Projection_Laws: the projection with its counters and visited set equals a
  bounded unfolding of the attach relation, does not depend on delivery order, shows every visible item up
  to its limits, and carries the winning answer, acknowledgement and reactions. Compose and Answer: what is
  composed parses back. App_Laws and App_Control: the invariant of the session under any events, the
  lifecycle of the kernel, which answers are sent and when they count as published, and that stopping is
  effective in every interleaving. Journal_Laws: saves are atomic and inserts exclusive under faults; the locale
  \<open>job_journal\<close> states the contract and is interpreted on the file journal. Runner_Laws: the phase machine,
  and in the locale \<open>producer_environment\<close> the effect of each call on the durable jobs and invariants of
  arbitrary call histories; Production_Laws discharges that locale for the assembled production runner and
  states the invariant, history and admission properties for it. Tree_Laws: a successful publication, of
  one item or a tree, is complete and durable. Progress: the locale \<open>working_environment\<close> adds to
  \<open>producer_environment\<close> that each capability succeeds, and a publication then succeeds from any phase an
  earlier attempt reached; Working_Services discharges it for the production runner, one lemma per operation,
  from what the narrator, the Blossom server, NMP and a disk without faults are documented to do
  (\<open>services_work\<close>, \<open>daemon_ready\<close>); Production_Progress and Tree_Progress conclude that \<open>publish\<close> and
  \<open>publish_tree\<close> succeed, and give services and worlds on which all of these hypotheses hold. Publisher_Laws: acknowledgement, membership evidence and
  bootstrap outcomes. Answer_Wait: when a wait returns an answer, and that it is the one the app shows.
  Local_Laws, Local_Server, Daemon_Identity, Daemon_Config and Daemon_Open: what a client is told is on disk,
  the socket and the identity file are private, a configuration is within its limits, an opened daemon
  administers its group, and a whole run of the process keeps what was published. Mcp_Config, Mcp_Access,
  Mcp_Gate and Mcp_Server: which tokens and requests reach the daemon, and that the tool tells the truth; the
  locale \<open>publish_backend\<close> is what the tool needs of the daemon and is interpreted on the daemon behind its
  socket. Client_Command: the exit code of the client command. Live_Laws: what the evidence of the live checks
  means.

  \<^bold>\<open>Bounds.\<close> The loops of the sources are bounded and the model keeps their counters: 32 receipt statuses,
  8 group frames, 6 publication rounds (shown to suffice), 40 items, 12 children, 3 levels of nesting, 128
  frames of an answer wait, 16 attempts at a new identity, 12 frames of a live observation. Frames of the local protocol
  have at most 128 KiB, configurations 64 KiB (daemon) and 256 KiB (MCP), key sets 1 MiB, tokens 16 KiB. The
  membership observation ends by its deadline, which shrinks with the time each frame takes. \<open>publish_node\<close>
  recurses over the finite tree; the serving loops run over the connections that arrive.

  \<^bold>\<open>Not modelled.\<close> What has no behaviour of its own in the repository: the inside of NMP, of rmcp, of the JWT,
  URL, HTTP, TLS and JSON libraries (parameters above), and the accessors (record fields). The system clock is a
  value that is read, signals are the ones that arrive, and the callback of the FFI is the list of bytes it has
  been given. Memory safety of the raw pointers of the FFI is left out: an entry point is modelled on the bytes or the
  null it receives. A panic of a
  third-party call and a process that is killed between two file operations are not modelled as such; every
  file operation may fail, which covers the states the latter can leave.
\<close>

end
